(* ===== verification/Prelude.thy ===== *)
theory Prelude
  imports Main "HOL-Library.AList" "HOL-Library.Multiset"
begin

text \<open>
  Shared vocabulary of the development: fallible results (Rust's \<open>Result\<close> and the
  \<open>?\<close> operator), loops with early return, association lists as the model of Rust's
  maps, and sums over them. Nothing here is specific to one component.
\<close>

named_theorems result_simps \<open>rules that take a successful or failed result apart\<close>

subsection \<open>Fallible results\<close>

text \<open>
  A fallible function returns \<open>Inl e\<close> for \<open>Err(e)\<close> and \<open>Inr x\<close> for \<open>Ok(x)\<close>.
  \<open>bind_r m f\<close> is \<open>f(m?)\<close>, \<open>ok_or\<close> and \<open>require_r\<close> are \<open>Option::ok_or\<close>
  and an early return guarded by a condition.
\<close>

definition bind_r :: "'e + 'a \<Rightarrow> ('a \<Rightarrow> 'e + 'b) \<Rightarrow> 'e + 'b" where
  "bind_r m f = (case m of Inl e \<Rightarrow> Inl e | Inr x \<Rightarrow> f x)"

definition ok_or :: "'a option \<Rightarrow> 'e \<Rightarrow> 'e + 'a" where
  "ok_or m e = (case m of None \<Rightarrow> Inl e | Some x \<Rightarrow> Inr x)"

definition require_r :: "bool \<Rightarrow> 'e \<Rightarrow> 'e + unit" where
  "require_r b e = (if b then Inr () else Inl e)"

definition is_ok :: "'e + 'a \<Rightarrow> bool" where
  "is_ok m = (case m of Inl _ \<Rightarrow> False | Inr _ \<Rightarrow> True)"

lemma bind_r_simps [simp]:
  "bind_r (Inl e) f = Inl e"
  "bind_r (Inr x) f = f x"
  by (simp_all add: bind_r_def)

lemma bind_r_Inr [result_simps]:
  "bind_r m f = Inr y \<longleftrightarrow> (\<exists>x. m = Inr x \<and> f x = Inr y)"
  by (cases m) auto

lemma bind_r_Inl [result_simps]:
  "bind_r m f = Inl e \<longleftrightarrow> m = Inl e \<or> (\<exists>x. m = Inr x \<and> f x = Inl e)"
  by (cases m) auto

lemma bind_r_assoc: "bind_r (bind_r m f) g = bind_r m (\<lambda>x. bind_r (f x) g)"
  by (cases m) simp_all

lemma ok_or_simps [simp]:
  "ok_or None e = Inl e"
  "ok_or (Some x) e = Inr x"
  by (simp_all add: ok_or_def)

lemma ok_or_Inr [result_simps]: "ok_or m e = Inr x \<longleftrightarrow> m = Some x"
  by (cases m) auto

lemma ok_or_Inl [result_simps]: "ok_or m e = Inl e' \<longleftrightarrow> m = None \<and> e' = e"
  by (cases m) auto

lemma require_r_simps [simp]:
  "require_r True e = Inr ()"
  "require_r False e = Inl e"
  by (simp_all add: require_r_def)

lemma require_r_Inr [result_simps]: "require_r b e = Inr u \<longleftrightarrow> b"
  by (cases b) auto

lemma require_r_Inl [result_simps]: "require_r b e = Inl e' \<longleftrightarrow> \<not> b \<and> e' = e"
  by (cases b) auto

lemma is_ok_simps [simp]: "is_ok (Inr x)" "\<not> is_ok (Inl e)"
  by (simp_all add: is_ok_def)

lemma is_ok_Ex: "is_ok m \<longleftrightarrow> (\<exists>x. m = Inr x)"
  by (cases m) auto

lemma map_sum_Inr: "map_sum f g m = Inr y \<longleftrightarrow> (\<exists>x. m = Inr x \<and> y = g x)"
  by (cases m) auto

subsection \<open>Loops that may return early\<close>

text \<open>A \<open>for\<close> loop whose body ends in \<open>?\<close>, and \<open>Iterator::try_fold\<close> over options.\<close>

fun fold_r :: "('x \<Rightarrow> 's \<Rightarrow> 'e + 's) \<Rightarrow> 'x list \<Rightarrow> 's \<Rightarrow> 'e + 's" where
  "fold_r f [] s = Inr s"
| "fold_r f (x # xs) s = bind_r (f x s) (fold_r f xs)"

fun try_fold :: "('s \<Rightarrow> 'x \<Rightarrow> 's option) \<Rightarrow> 's \<Rightarrow> 'x list \<Rightarrow> 's option" where
  "try_fold f s [] = Some s"
| "try_fold f s (x # xs) = (case f s x of None \<Rightarrow> None | Some s' \<Rightarrow> try_fold f s' xs)"

lemma fold_r_append: "fold_r f (xs @ ys) s = bind_r (fold_r f xs s) (fold_r f ys)"
  by (induction xs arbitrary: s) (simp_all add: bind_r_def split: sum.splits)

text \<open>A loop relates its first and last state by any reflexive, transitive relation its body keeps.\<close>

lemma fold_r_rel:
  assumes "fold_r f xs s = Inr s'"
    and "\<And>x t t'. x \<in> set xs \<Longrightarrow> f x t = Inr t' \<Longrightarrow> R t t'"
    and "\<And>t. R t t" and "\<And>t u v. R t u \<Longrightarrow> R u v \<Longrightarrow> R t v"
  shows "R s s'"
  using assms(1,2)
proof (induction xs arbitrary: s)
  case Nil
  then show ?case using assms(3) by simp
next
  case (Cons x xs)
  from Cons.prems(1) obtain t where t: "f x s = Inr t" and rest: "fold_r f xs t = Inr s'"
    by (auto simp: result_simps)
  have "R t s'"
    using rest Cons.prems(2) by (rule Cons.IH) auto
  moreover have "R s t"
    using t by (rule Cons.prems(2) [rotated]) simp
  ultimately show ?case using assms(4) by blast
qed

lemma fold_r_invariant:
  assumes "fold_r f xs s = Inr s'" and "P s"
    and "\<And>x t t'. x \<in> set xs \<Longrightarrow> P t \<Longrightarrow> f x t = Inr t' \<Longrightarrow> P t'"
  shows "P s'"
  using assms
proof (induction xs arbitrary: s)
  case Nil
  then show ?case by simp
next
  case (Cons x xs)
  from Cons.prems(1) obtain t where t: "f x s = Inr t" and rest: "fold_r f xs t = Inr s'"
    by (auto simp: result_simps)
  have "P t"
    by (rule Cons.prems(3) [OF _ Cons.prems(2) t]) simp
  then show ?case
    by (rule Cons.IH [OF rest]) (use Cons.prems(3) in auto)
qed

subsection \<open>Association lists\<close>

text \<open>
  Rust's maps are association lists: \<open>map_of\<close> reads, \<open>AList.update\<close> inserts (in place,
  or at the end for a new key) and \<open>AList.delete\<close> removes. The order of the list stands
  for the iteration order of the map, and theorems are stated for every list, hence for
  every iteration order.
\<close>

abbreviation keys_distinct :: "('k \<times> 'v) list \<Rightarrow> bool" where
  "keys_distinct m \<equiv> distinct (map fst m)"

definition sum_map :: "('v \<Rightarrow> 'n::comm_monoid_add) \<Rightarrow> ('k \<times> 'v) list \<Rightarrow> 'n" where
  "sum_map f m = sum_list (map (\<lambda>p. f (snd p)) m)"

lemma sum_map_simps [simp]:
  "sum_map f [] = 0"
  "sum_map f (p # m) = f (snd p) + sum_map f m"
  "sum_map f (m @ m') = sum_map f m + sum_map f m'"
  by (simp_all add: sum_map_def)

lemma map_of_update [simp]: "map_of (AList.update k v m) k' = (if k' = k then Some v else map_of m k')"
  by (simp add: update_conv)

lemma map_of_delete [simp]: "map_of (AList.delete k m) k' = (if k' = k then None else map_of m k')"
  by (simp add: delete_conv)

lemma keys_distinct_update [simp]: "keys_distinct m \<Longrightarrow> keys_distinct (AList.update k v m)"
  by (rule distinct_update)

lemma keys_distinct_delete [simp]: "keys_distinct m \<Longrightarrow> keys_distinct (AList.delete k m)"
  by (rule distinct_delete)

text \<open>Writing one key changes the sum by the difference of the new and the old value.\<close>

lemma sum_map_update:
  fixes f :: "'v \<Rightarrow> 'n::ab_group_add"
  shows "sum_map f (AList.update k v m) =
    sum_map f m + f v - (case map_of m k of None \<Rightarrow> 0 | Some w \<Rightarrow> f w)"
  by (induction m) (auto simp: algebra_simps)

lemma AList_delete_notin: "map_of m k = None \<Longrightarrow> AList.delete k m = m"
  by (induction m) (auto split: if_splits)

lemma sum_map_delete:
  fixes f :: "'v \<Rightarrow> 'n::ab_group_add"
  assumes "keys_distinct m"
  shows "sum_map f (AList.delete k m) =
    sum_map f m - (case map_of m k of None \<Rightarrow> 0 | Some w \<Rightarrow> f w)"
  using assms
proof (induction m)
  case (Cons p m)
  have "map_of m (fst p) = None"
    using Cons.prems by (simp add: map_of_eq_None_iff)
  with Cons show ?case
    by (cases p) (auto simp: AList_delete_notin)
qed simp

lemma sum_map_int: "int (sum_map f m) = sum_map (\<lambda>v. int (f v)) m"
  by (induction m) simp_all

lemma sum_map_ge: "map_of m k = Some v \<Longrightarrow> f v \<le> (sum_map f m :: nat)"
  by (induction m) (auto split: if_splits)

lemma sum_map_mset: "mset m = mset m' \<Longrightarrow> sum_map f m = sum_map f m'"
  by (simp add: sum_map_def flip: sum_mset_sum_list)

text \<open>Concatenating the pieces of a map's entries repeats nothing when a piece shows its key.\<close>

lemma distinct_concat_by_key:
  assumes "keys_distinct xs" and "\<And>x. distinct (f x)" and "\<And>x n. n \<in> set (f x) \<Longrightarrow> key n = fst x"
  shows "distinct (concat (map f xs))"
  using assms(1)
proof (induction xs)
  case (Cons x xs)
  have "set (f x) \<inter> set (concat (map f xs)) = {}"
  proof (rule ccontr)
    assume "set (f x) \<inter> set (concat (map f xs)) \<noteq> {}"
    then obtain n y where n: "n \<in> set (f x)" "n \<in> set (f y)" and y: "y \<in> set xs" by auto
    have "fst x = fst y" using assms(3) [OF n(1)] assms(3) [OF n(2)] by simp
    with Cons.prems y show False by simp
  qed
  with Cons assms(2) show ?case by simp
qed simp

subsection \<open>Bounds of the machine integers\<close>

definition u128_max :: nat where "u128_max = 2 ^ 128 - 1"
definition u64_max :: nat where "u64_max = 2 ^ 64 - 1"
definition u32_max :: nat where "u32_max = 2 ^ 32 - 1"
definition i128_min :: int where "i128_min = - (2 ^ 127)"
definition i128_max :: int where "i128_max = 2 ^ 127 - 1"

definition in_i128 :: "int \<Rightarrow> bool" where
  "in_i128 x \<longleftrightarrow> i128_min \<le> x \<and> x \<le> i128_max"

lemmas int_bounds = u128_max_def u64_max_def u32_max_def i128_min_def i128_max_def in_i128_def

end
