(* ===== verification/NumUtils.thy ===== *)
theory NumUtils
  imports Prelude
begin

text \<open>
  Checked arithmetic of the crate \<open>num-utils\<close>: the traits \<open>CheckedAdd\<close>, \<open>CheckedSub\<close>,
  \<open>CheckedMul\<close>, \<open>CheckedDiv\<close> and \<open>CheckedMulDiv\<close>. An unsigned value of width \<open>w\<close> is a
  \<open>nat\<close> up to \<open>u_max w\<close>, a signed one an \<open>int\<close> in the two's complement range, and every
  operation whose exact result leaves the range is \<open>None\<close>. Only the 128-bit versions of
  \<open>CheckedMulDiv\<close> go through the big integers of the crate \<open>bnum\<close>, which is not part of
  the repository: they take its operations as a parameter \<open>wide\<close>.
\<close>

definition u_max :: "nat \<Rightarrow> nat" where "u_max w = 2 ^ w - 1"
definition i_min :: "nat \<Rightarrow> int" where "i_min w = - (2 ^ (w - 1))"
definition i_max :: "nat \<Rightarrow> int" where "i_max w = 2 ^ (w - 1) - 1"

definition fit_u :: "nat \<Rightarrow> int \<Rightarrow> nat option" where
  "fit_u w x = (if 0 \<le> x \<and> x \<le> int (u_max w) then Some (nat x) else None)"

definition fit_i :: "nat \<Rightarrow> int \<Rightarrow> int option" where
  "fit_i w x = (if i_min w \<le> x \<and> x \<le> i_max w then Some x else None)"

subsection \<open>Addition and subtraction\<close>

definition checked_add_u :: "nat \<Rightarrow> nat \<Rightarrow> nat \<Rightarrow> nat option" where
  "checked_add_u w a b = fit_u w (int a + int b)"

definition checked_add_signed_u :: "nat \<Rightarrow> nat \<Rightarrow> int \<Rightarrow> nat option" where
  "checked_add_signed_u w a b = fit_u w (int a + b)"

definition checked_add_i :: "nat \<Rightarrow> int \<Rightarrow> int \<Rightarrow> int option" where
  "checked_add_i w a b = fit_i w (a + b)"

definition checked_add_unsigned_i :: "nat \<Rightarrow> int \<Rightarrow> nat \<Rightarrow> int option" where
  "checked_add_unsigned_i w a b = fit_i w (a + int b)"

definition checked_sub_u :: "nat \<Rightarrow> nat \<Rightarrow> nat \<Rightarrow> nat option" where
  "checked_sub_u w a b = fit_u w (int a - int b)"

definition checked_sub_i :: "nat \<Rightarrow> int \<Rightarrow> int \<Rightarrow> int option" where
  "checked_sub_i w a b = fit_i w (a - b)"

definition checked_sub_unsigned_i :: "nat \<Rightarrow> int \<Rightarrow> nat \<Rightarrow> int option" where
  "checked_sub_unsigned_i w a b = fit_i w (a - int b)"

definition checked_neg_i :: "nat \<Rightarrow> int \<Rightarrow> int option" where
  "checked_neg_i w a = fit_i w (- a)"

subsection \<open>Multiplication and division\<close>

definition checked_mul_u :: "nat \<Rightarrow> nat \<Rightarrow> nat \<Rightarrow> nat option" where
  "checked_mul_u w a b = fit_u w (int a * int b)"

definition checked_mul_i :: "nat \<Rightarrow> int \<Rightarrow> int \<Rightarrow> int option" where
  "checked_mul_i w a b = fit_i w (a * b)"

definition checked_div_u :: "nat \<Rightarrow> nat \<Rightarrow> nat option" where
  "checked_div_u a b = (if b = 0 then None else Some (a div b))"

definition div_ceil_u :: "nat \<Rightarrow> nat \<Rightarrow> nat" where
  "div_ceil_u a b = (if a mod b = 0 then a div b else a div b + 1)"

definition checked_div_ceil_u :: "nat \<Rightarrow> nat \<Rightarrow> nat option" where
  "checked_div_ceil_u a b = (if b = 0 then None else Some (div_ceil_u a b))"

text \<open>
  \<open>CheckedMulDiv\<close> at the widths 8 to 64, where the product is taken in the next wider
  primitive type and so never overflows.
\<close>

definition checked_mul_div_u :: "nat \<Rightarrow> nat \<Rightarrow> nat \<Rightarrow> nat \<Rightarrow> nat option" where
  "checked_mul_div_u w x m d =
     (case checked_div_u (x * m) d of None \<Rightarrow> None | Some q \<Rightarrow> fit_u w (int q))"

definition checked_mul_div_ceil_u :: "nat \<Rightarrow> nat \<Rightarrow> nat \<Rightarrow> nat \<Rightarrow> nat option" where
  "checked_mul_div_ceil_u w x m d =
     (if d = 0 then None else fit_u w (int (div_ceil_u (x * m) d)))"

definition checked_mul_div_euclid_u :: "nat \<Rightarrow> nat \<Rightarrow> nat \<Rightarrow> nat \<Rightarrow> nat option" where
  "checked_mul_div_euclid_u w x m d =
     (if d = 0 then None else fit_u w (int (x * m div d)))"

subsection \<open>The 128-bit versions, over the big integers of \<open>bnum\<close>\<close>

record wide =
  w_mul :: "int \<Rightarrow> int \<Rightarrow> int"
  w_div :: "int \<Rightarrow> int \<Rightarrow> int"
  w_div_ceil :: "int \<Rightarrow> int \<Rightarrow> int"
  w_div_euclid :: "int \<Rightarrow> int \<Rightarrow> int"

definition checked_mul_div_u128 :: "wide \<Rightarrow> nat \<Rightarrow> nat \<Rightarrow> nat \<Rightarrow> nat option" where
  "checked_mul_div_u128 W x m d =
     (if d = 0 then None else fit_u 128 (w_div W (w_mul W (int x) (int m)) (int d)))"

definition checked_mul_div_ceil_u128 :: "wide \<Rightarrow> nat \<Rightarrow> nat \<Rightarrow> nat \<Rightarrow> nat option" where
  "checked_mul_div_ceil_u128 W x m d =
     (if d = 0 then None else fit_u 128 (w_div_ceil W (w_mul W (int x) (int m)) (int d)))"

definition checked_mul_div_ceil_i128 :: "wide \<Rightarrow> int \<Rightarrow> int \<Rightarrow> int \<Rightarrow> int option" where
  "checked_mul_div_ceil_i128 W x m d =
     (if d = 0 then None else fit_i 128 (w_div_ceil W (w_mul W x m) d))"

definition checked_mul_div_euclid_i128 :: "wide \<Rightarrow> int \<Rightarrow> int \<Rightarrow> int \<Rightarrow> int option" where
  "checked_mul_div_euclid_i128 W x m d =
     (if d = 0 then None else fit_i 128 (w_div_euclid W (w_mul W x m) d))"

text \<open>
  What the code relies on of the 256-bit integers: products of 128-bit values are exact,
  and for a positive divisor \<open>div\<close> truncates, \<open>div_ceil\<close> rounds up and \<open>div_euclid\<close>
  rounds down.
\<close>

definition wide_ok :: "wide \<Rightarrow> bool" where
  "wide_ok W \<longleftrightarrow>
     (\<forall>a b. \<bar>a\<bar> < 2 ^ 128 \<and> \<bar>b\<bar> < 2 ^ 127 \<longrightarrow> w_mul W a b = a * b) \<and>
     (\<forall>a b. \<bar>a\<bar> < 2 ^ 255 \<and> 0 < b \<and> b < 2 ^ 127 \<longrightarrow>
        w_div W a b = sgn a * (\<bar>a\<bar> div b) \<and>
        w_div_ceil W a b = - ((- a) div b) \<and>
        w_div_euclid W a b = a div b)"

definition exact_wide :: wide where
  "exact_wide = \<lparr> w_mul = (\<lambda>a b. a * b),
     w_div = (\<lambda>a b. sgn a * sgn b * (\<bar>a\<bar> div \<bar>b\<bar>)),
     w_div_ceil = (\<lambda>a b. - ((- a) div b)),
     w_div_euclid = (\<lambda>a b. if 0 < b then a div b else - (a div (- b))) \<rparr>"

lemma wide_ok_exact: "wide_ok exact_wide"
  by (simp add: wide_ok_def exact_wide_def)

lemma fit_u_Some [simp]: "fit_u w x = Some n \<longleftrightarrow> x = int n \<and> n \<le> u_max w"
  by (auto simp: fit_u_def)

lemma fit_i_Some [simp]: "fit_i w x = Some y \<longleftrightarrow> y = x \<and> i_min w \<le> x \<and> x \<le> i_max w"
  by (auto simp: fit_i_def)

lemma fit_u_None: "fit_u w x = None \<longleftrightarrow> x < 0 \<or> int (u_max w) < x"
  by (auto simp: fit_u_def)

lemmas checked_defs = checked_add_u_def checked_add_signed_u_def checked_add_i_def
  checked_add_unsigned_i_def checked_sub_u_def checked_sub_i_def checked_sub_unsigned_i_def
  checked_neg_i_def checked_mul_u_def checked_mul_i_def

lemma checked_add_u_Some: "checked_add_u w a b = Some c \<longleftrightarrow> c = a + b \<and> a + b \<le> u_max w"
  by (auto simp: checked_add_u_def)

lemma checked_sub_u_Some:
  "checked_sub_u w a b = Some c \<longleftrightarrow> a = b + c \<and> c \<le> u_max w"
  by (auto simp: checked_sub_u_def)

text \<open>Rounding down and up, as the universal properties of the two divisions.\<close>

lemma le_div_int_iff: "0 < d \<Longrightarrow> q \<le> a div d \<longleftrightarrow> q * d \<le> (a::int)"
proof
  assume d: "0 < d" and "q \<le> a div d"
  then have "q * d \<le> a div d * d" by (simp add: mult_right_mono)
  also have "\<dots> \<le> a" using d by (simp add: minus_mod_eq_div_mult [symmetric])
  finally show "q * d \<le> a" .
next
  assume d: "0 < d" and "q * d \<le> a"
  then have "q * d div d \<le> a div d" by (simp only: zdiv_mono1)
  then show "q \<le> a div d" using d by simp
qed

lemma ceil_div_int_le_iff: "0 < d \<Longrightarrow> - ((- a) div d) \<le> q \<longleftrightarrow> (a::int) \<le> q * d"
  using le_div_int_iff [of d "- q" "- a"] by linarith

lemma ceil_div_floor: "0 < d \<Longrightarrow> - ((- (a * d - x)) div d) = (a::int) - x div d"
proof -
  assume d: "0 < d"
  have eq: "- (a * d - x) = x + (- a) * d" by simp
  show ?thesis unfolding eq using d div_mult_self1 [of d x "- a"] by linarith
qed

subsection \<open>The unsigned 128-bit versions on their full range\<close>

text \<open>
  For \<open>u128\<close> the big integers are unsigned, and the code relies on them for factors and
  divisors of the whole range of \<open>u128\<close>.
\<close>

definition wide_unsigned_ok :: "wide \<Rightarrow> bool" where
  "wide_unsigned_ok W \<longleftrightarrow>
     (\<forall>a b. 0 \<le> a \<and> a < 2 ^ 128 \<and> 0 \<le> b \<and> b < 2 ^ 128 \<longrightarrow> w_mul W a b = a * b) \<and>
     (\<forall>a b. 0 \<le> a \<and> a < 2 ^ 256 \<and> 0 < b \<and> b < 2 ^ 128 \<longrightarrow>
        w_div W a b = a div b \<and> w_div_ceil W a b = - ((- a) div b))"

lemma wide_unsigned_ok_exact: "wide_unsigned_ok exact_wide"
  by (simp add: wide_unsigned_ok_def exact_wide_def sgn_if)

lemma div_ceil_u_le_iff: "0 < d \<Longrightarrow> div_ceil_u a d \<le> q \<longleftrightarrow> a \<le> q * d"
proof -
  assume d: "0 < d"
  have a: "a = a div d * d + a mod d" by simp
  show ?thesis
  proof (cases "a mod d = 0")
    case True
    then have "a = a div d * d" using a by linarith
    then show ?thesis using d True by (metis div_ceil_u_def mult_le_cancel2)
  next
    case False
    then have "div_ceil_u a d \<le> q \<longleftrightarrow> a div d < q" by (simp add: div_ceil_u_def Suc_le_eq)
    also have "\<dots> \<longleftrightarrow> a < q * d" using d by (simp add: less_mult_imp_div_less div_less_iff_less_mult)
    also have "\<dots> \<longleftrightarrow> a \<le> q * d" using False by (metis le_less mod_mult_self2_is_0)
    finally show ?thesis .
  qed
qed

lemma int_div_ceil_u: "0 < d \<Longrightarrow> - ((- int a) div int d) = int (div_ceil_u a d)"
proof (rule order_antisym)
  assume d: "0 < d"
  have "a \<le> div_ceil_u a d * d" using d by (simp flip: div_ceil_u_le_iff)
  then show "- ((- int a) div int d) \<le> int (div_ceil_u a d)"
    using d by (simp add: ceil_div_int_le_iff flip: of_nat_mult)
  have nonneg: "0 \<le> - ((- int a) div int d)" using d by (simp add: div_nonpos_pos_le0)
  have "int a \<le> - ((- int a) div int d) * int d"
    using d ceil_div_int_le_iff [of "int d" "int a" "- ((- int a) div int d)"] by simp
  then have "a \<le> nat (- ((- int a) div int d)) * d" using nonneg by (metis int_nat_eq of_nat_le_iff of_nat_mult)
  then have "div_ceil_u a d \<le> nat (- ((- int a) div int d))" using d by (simp add: div_ceil_u_le_iff)
  then show "int (div_ceil_u a d) \<le> - ((- int a) div int d)" using nonneg by linarith
qed

lemma u128_product: "x \<le> u_max 128 \<Longrightarrow> m \<le> u_max 128 \<Longrightarrow> int x * int m < 2 ^ 256"
proof -
  assume "x \<le> u_max 128" and "m \<le> u_max 128"
  then have "x * m \<le> u_max 128 * u_max 128" by (rule mult_le_mono)
  also have "\<dots> < 2 ^ 256" by (simp add: u_max_def)
  finally show ?thesis by (metis of_nat_less_numeral_power_cancel_iff of_nat_mult)
qed

lemma checked_mul_div_u128_value:
  assumes "wide_unsigned_ok W" and "x \<le> u_max 128" and "m \<le> u_max 128" and "d \<le> u_max 128"
  shows "checked_mul_div_u128 W x m d =
      (if d = 0 \<or> u_max 128 < x * m div d then None else Some (x * m div d))"
proof -
  have "w_mul W (int x) (int m) = int x * int m"
    using assms by (simp add: wide_unsigned_ok_def u_max_def)
  moreover have "0 < d \<Longrightarrow> w_div W (int x * int m) (int d) = int (x * m div d)"
    using assms u128_product [OF assms(2,3)] by (simp add: wide_unsigned_ok_def u_max_def zdiv_int)
  ultimately show ?thesis by (simp add: checked_mul_div_u128_def fit_u_def del: of_nat_mult)
qed

lemma checked_mul_div_ceil_u128_value:
  assumes "wide_unsigned_ok W" and "x \<le> u_max 128" and "m \<le> u_max 128" and "d \<le> u_max 128"
  shows "checked_mul_div_ceil_u128 W x m d =
      (if d = 0 \<or> u_max 128 < div_ceil_u (x * m) d then None else Some (div_ceil_u (x * m) d))"
proof -
  have "w_mul W (int x) (int m) = int (x * m)"
    using assms by (simp add: wide_unsigned_ok_def u_max_def)
  moreover have "w_div_ceil W (int (x * m)) (int d) = int (div_ceil_u (x * m) d)" if "0 < d"
  proof -
    have "w_div_ceil W (int (x * m)) (int d) = - ((- int (x * m)) div int d)"
      using assms that u128_product [OF assms(2,3)] by (simp add: wide_unsigned_ok_def u_max_def)
    then show ?thesis using that by (simp only: int_div_ceil_u)
  qed
  ultimately show ?thesis by (simp add: checked_mul_div_ceil_u128_def fit_u_def del: of_nat_mult)
qed

end
