(* ===== verification/Amounts.thy ===== *)
theory Amounts
  imports NumUtils
begin

text \<open>
  The maps with default values of the crate \<open>map-utils\<close> (\<open>cleanup.rs\<close>) and the token
  amounts built on them (\<open>amounts.rs\<close>). An entry obtained by \<open>entry_or_default\<close> reads as
  the default when the key is missing, and when it is dropped it is stored, or removed from
  the map when its value is the default again. The default of the value type is the first
  argument of the two entry operations.
\<close>

subsection \<open>Maps with default values\<close>

definition entry_read :: "'v \<Rightarrow> 'k \<Rightarrow> ('k \<times> 'v) list \<Rightarrow> 'v" where
  "entry_read d k m = (case map_of m k of None \<Rightarrow> d | Some v \<Rightarrow> v)"

definition entry_write :: "'v \<Rightarrow> 'k \<Rightarrow> 'v \<Rightarrow> ('k \<times> 'v) list \<Rightarrow> ('k \<times> 'v) list" where
  "entry_write d k v m = (if v = d then AList.delete k m else AList.update k v m)"

text \<open>Representation invariant: one entry per key, and no entry holds the default.\<close>

definition entries_ok :: "'v \<Rightarrow> ('k \<times> 'v) list \<Rightarrow> bool" where
  "entries_ok d m \<longleftrightarrow> keys_distinct m \<and> (\<forall>v \<in> snd ` set m. v \<noteq> d)"

text \<open>What a client of such a map may rely on, whatever stores it.\<close>

locale default_map =
  fixes get :: "'k \<Rightarrow> 'm \<Rightarrow> 'v" and put :: "'k \<Rightarrow> 'v \<Rightarrow> 'm \<Rightarrow> 'm" and inv :: "'m \<Rightarrow> bool"
  assumes get_put: "inv m \<Longrightarrow> get k' (put k v m) = (if k' = k then v else get k' m)"
    and inv_put: "inv m \<Longrightarrow> inv (put k v m)"
begin

lemma put_put_same:
  "inv m \<Longrightarrow> get k' (put k v (put k w m)) = get k' (put k v m)"
  by (simp add: get_put inv_put)

lemma put_put_swap:
  "inv m \<Longrightarrow> k \<noteq> k2 \<Longrightarrow> get k' (put k v (put k2 w m)) = get k' (put k2 w (put k v m))"
  by (simp add: get_put inv_put)

lemma put_get: "inv m \<Longrightarrow> get k' (put k (get k m) m) = get k' m"
  by (simp add: get_put)

end

lemma entry_write_set: "snd ` set (entry_write d k v m) \<subseteq> insert v (snd ` set m)"
proof -
  have "snd ` set (AList.update k v m) \<subseteq> insert v (snd ` set m)"
    by (induction m) auto
  moreover have "snd ` set (AList.delete k m) \<subseteq> snd ` set m"
    by (auto simp: AList.delete_eq)
  ultimately show ?thesis by (auto simp: entry_write_def)
qed

lemma entries_ok_Nil [simp]: "entries_ok d []"
  by (simp add: entries_ok_def)

lemma entries_ok_alt: "entries_ok d m \<longleftrightarrow> keys_distinct m \<and> d \<notin> snd ` set m"
  by (auto simp: entries_ok_def)

lemma entries_ok_write [simp]:
  assumes "entries_ok d m" shows "entries_ok d (entry_write d k v m)"
proof -
  have "v = d \<Longrightarrow> snd ` set (entry_write d k v m) \<subseteq> snd ` set m"
    by (auto simp: entry_write_def AList.delete_eq)
  then have "d \<notin> snd ` set (entry_write d k v m)"
    using assms entry_write_set [of d k v m] unfolding entries_ok_alt by blast
  moreover have "keys_distinct (entry_write d k v m)"
    using assms by (simp add: entries_ok_alt entry_write_def)
  ultimately show ?thesis by (simp add: entries_ok_alt)
qed

lemma entry_read_write [simp]:
  "entry_read d k' (entry_write d k v m) = (if k' = k then v else entry_read d k' m)"
  by (auto simp: entry_read_def entry_write_def)

lemma entry_read_Nil [simp]: "entry_read d k [] = d"
  by (simp add: entry_read_def)

lemma map_of_entries_ok:
  "entries_ok d m \<Longrightarrow> map_of m k = (if entry_read d k m = d then None else Some (entry_read d k m))"
  by (force simp: entries_ok_def entry_read_def dest: map_of_SomeD split: option.splits)

lemma entry_read_mem: "entries_ok d m \<Longrightarrow> (k, v) \<in> set m \<longleftrightarrow> entry_read d k m = v \<and> v \<noteq> d"
  by (auto simp: entries_ok_def entry_read_def map_of_eq_None_iff image_iff
      dest: map_of_SomeD map_of_is_SomeI eq_key_imp_eq_value split: option.splits)

interpretation cleanup_map: default_map "entry_read d" "entry_write d" "entries_ok d" for d
  by unfold_locales simp_all

text \<open>Writing an entry changes the sum of the map by the difference of the two values.\<close>

lemma sum_map_entry_write:
  fixes f :: "'v \<Rightarrow> 'n::ab_group_add"
  assumes "entries_ok d m" and "f d = 0"
  shows "sum_map f (entry_write d k v m) = sum_map f m + f v - f (entry_read d k m)"
  using assms
  by (auto simp: entry_write_def entry_read_def entries_ok_def sum_map_update sum_map_delete
      split: option.splits)

subsection \<open>Amounts\<close>

type_synonym 'k amounts = "('k \<times> nat) list"
type_synonym 'k deltas = "('k \<times> int) list"

abbreviation amounts_ok :: "('k \<times> 'v::zero) list \<Rightarrow> bool" where
  "amounts_ok m \<equiv> entries_ok 0 m"

definition amount_for :: "('k \<times> 'v::zero) list \<Rightarrow> 'k \<Rightarrow> 'v" where
  "amount_for m k = entry_read 0 k m"

text \<open>
  \<open>checked_apply\<close> returns the new map with the new value; \<open>None\<close> leaves the map as it was,
  since the entry is dropped unchanged.
\<close>

definition checked_apply ::
  "'k \<Rightarrow> ('v::zero \<Rightarrow> 'v option) \<Rightarrow> ('k \<times> 'v) list \<Rightarrow> (('k \<times> 'v) list \<times> 'v) option" where
  "checked_apply k f m =
     (case f (entry_read 0 k m) of None \<Rightarrow> None | Some a \<Rightarrow> Some (entry_write 0 k a m, a))"

definition amounts_add :: "'k \<Rightarrow> nat \<Rightarrow> 'k amounts \<Rightarrow> ('k amounts \<times> nat) option" where
  "amounts_add k amount = checked_apply k (\<lambda>a. checked_add_u 128 a amount)"

definition amounts_sub :: "'k \<Rightarrow> nat \<Rightarrow> 'k amounts \<Rightarrow> ('k amounts \<times> nat) option" where
  "amounts_sub k amount = checked_apply k (\<lambda>a. checked_sub_u 128 a amount)"

definition deltas_add :: "'k \<Rightarrow> nat \<Rightarrow> 'k deltas \<Rightarrow> ('k deltas \<times> int) option" where
  "deltas_add k amount = checked_apply k (\<lambda>a. checked_add_unsigned_i 128 a amount)"

definition deltas_sub :: "'k \<Rightarrow> nat \<Rightarrow> 'k deltas \<Rightarrow> ('k deltas \<times> int) option" where
  "deltas_sub k amount = checked_apply k (\<lambda>a. checked_sub_unsigned_i 128 a amount)"

definition apply_delta :: "'k \<Rightarrow> int \<Rightarrow> 'k deltas \<Rightarrow> ('k deltas \<times> int) option" where
  "apply_delta k d = checked_apply k (\<lambda>a. checked_add_i 128 a d)"

definition with_add :: "'k amounts \<Rightarrow> 'k \<Rightarrow> nat \<Rightarrow> 'k amounts option" where
  "with_add m k amount = map_option fst (amounts_add k amount m)"

definition with_sub :: "'k amounts \<Rightarrow> 'k \<Rightarrow> nat \<Rightarrow> 'k amounts option" where
  "with_sub m k amount = map_option fst (amounts_sub k amount m)"

definition with_add_many :: "'k amounts \<Rightarrow> ('k \<times> nat) list \<Rightarrow> 'k amounts option" where
  "with_add_many = try_fold (\<lambda>m (k, amount). with_add m k amount)"

definition with_sub_many :: "'k amounts \<Rightarrow> ('k \<times> nat) list \<Rightarrow> 'k amounts option" where
  "with_sub_many = try_fold (\<lambda>m (k, amount). with_sub m k amount)"

definition with_apply_delta :: "'k deltas \<Rightarrow> 'k \<Rightarrow> int \<Rightarrow> 'k deltas option" where
  "with_apply_delta m k d = map_option fst (apply_delta k d m)"

definition with_apply_deltas :: "'k deltas \<Rightarrow> ('k \<times> int) list \<Rightarrow> 'k deltas option" where
  "with_apply_deltas = try_fold (\<lambda>m (k, d). with_apply_delta m k d)"

lemma amount_for_Nil [simp]: "amount_for [] k = 0"
  by (simp add: amount_for_def)

lemma amount_for_write [simp]:
  "amount_for (entry_write 0 k v m) k' = (if k' = k then v else amount_for m k')"
  by (simp add: amount_for_def)

lemma checked_apply_Some:
  "checked_apply k f m = Some (m', a) \<longleftrightarrow> f (amount_for m k) = Some a \<and> m' = entry_write 0 k a m"
  by (auto simp: checked_apply_def amount_for_def split: option.splits)

lemma amounts_add_Some:
  "amounts_add k n m = Some (m', a) \<longleftrightarrow>
     a = amount_for m k + n \<and> a \<le> u_max 128 \<and> m' = entry_write 0 k a m"
  by (auto simp: amounts_add_def checked_apply_Some checked_add_u_Some)

lemma amounts_sub_Some:
  "amounts_sub k n m = Some (m', a) \<longleftrightarrow>
     amount_for m k = n + a \<and> a \<le> u_max 128 \<and> m' = entry_write 0 k a m"
  by (auto simp: amounts_sub_def checked_apply_Some checked_sub_u_Some)

lemma amounts_add_None: "amounts_add k n m = None \<longleftrightarrow> u_max 128 < amount_for m k + n"
  by (auto simp: amounts_add_def checked_apply_def amount_for_def checked_add_u_def fit_u_def
      split: option.splits if_splits)

lemma amounts_sub_None:
  "amount_for m k \<le> u_max 128 \<Longrightarrow> amounts_sub k n m = None \<longleftrightarrow> amount_for m k < n"
  by (auto simp: amounts_sub_def checked_apply_def amount_for_def checked_sub_u_def fit_u_def
      split: option.splits if_splits)

text \<open>Every stored amount fits \<open>u128\<close>: an invariant of both maps of amounts.\<close>

definition amounts_u128 :: "'k amounts \<Rightarrow> bool" where
  "amounts_u128 m \<longleftrightarrow> entries_ok 0 m \<and> (\<forall>k. amount_for m k \<le> u_max 128)"

lemma amounts_u128_Nil [simp]: "amounts_u128 []"
  by (simp add: amounts_u128_def)

lemma amounts_u128_add: "amounts_u128 m \<Longrightarrow> amounts_add k n m = Some (m', a) \<Longrightarrow> amounts_u128 m'"
  by (auto simp: amounts_u128_def amounts_add_Some)

lemma amounts_u128_sub: "amounts_u128 m \<Longrightarrow> amounts_sub k n m = Some (m', a) \<Longrightarrow> amounts_u128 m'"
  by (auto simp: amounts_u128_def amounts_sub_Some)

text \<open>Adding a list of amounts adds, for every key, what the list holds for it, unless a
  partial sum leaves \<open>u128\<close>.\<close>

definition list_amount :: "('k \<times> 'n::comm_monoid_add) list \<Rightarrow> 'k \<Rightarrow> 'n" where
  "list_amount xs k = sum_list (map snd (filter (\<lambda>p. fst p = k) xs))"

lemma list_amount_simps [simp]:
  "list_amount [] k = 0"
  "list_amount ((j, n) # xs) k = (if j = k then n else 0) + list_amount xs k"
  "list_amount (xs @ ys) k = list_amount xs k + list_amount ys k"
  by (simp_all add: list_amount_def)

lemma with_add_many_amount:
  "with_add_many m xs = Some m' \<Longrightarrow> amount_for m' k = amount_for m k + list_amount xs k"
  unfolding with_add_many_def
  by (induction xs arbitrary: m)
    (auto simp: with_add_def amounts_add_Some split: option.splits if_splits)

lemma with_add_many_ok:
  "with_add_many m xs = Some m' \<Longrightarrow> amounts_ok m \<Longrightarrow> amounts_ok m'"
  unfolding with_add_many_def
  by (induction xs arbitrary: m) (auto simp: with_add_def amounts_add_Some split: option.splits)

text \<open>The entries of a well-formed map, read as a list, hold exactly its amounts.\<close>

lemma list_amount_notin: "k \<notin> fst ` set m \<Longrightarrow> list_amount m k = 0"
  by (induction m) auto

lemma list_amount_map:
  assumes "keys_distinct m"
  shows "list_amount m k = (case map_of m k of None \<Rightarrow> 0 | Some v \<Rightarrow> v)"
  using assms
proof (induction m)
  case (Cons p m)
  have "list_amount m (fst p) = 0"
    using Cons.prems by (simp add: list_amount_notin)
  then show ?case
    using Cons by (cases p) auto
qed simp

lemma list_amount_ok: "entries_ok 0 m \<Longrightarrow> list_amount m k = amount_for m k"
  by (simp add: entries_ok_def list_amount_map amount_for_def entry_read_def)

end
