(* ===== verification/TokenId.thy ===== *)
theory TokenId
  imports Prelude "HOL-Library.Char_ord" "HOL-Library.List_Lexorder" "HOL-Library.Product_Lexorder"
begin

text \<open>
  The crate \<open>token-id\<close>: the identifier of a token held inside the contract, its order
  (the key order of the \<open>BTreeMap\<close>s of amounts), and its string form
  \<open>type:contract[:id]\<close> with the parser. Parsing an account id is the crate
  \<open>near-account-id\<close>, not part of the repository: a parameter \<open>parse\<close>.
\<close>

type_synonym account_id = string

datatype token_id =
    Nep141 account_id
  | Nep171 account_id string
  | Nep245 account_id string
  | Imt account_id string

datatype token_id_type = TNep141 | TNep171 | TNep245 | TImt

fun token_type :: "token_id \<Rightarrow> token_id_type" where
  "token_type (Nep141 _) = TNep141"
| "token_type (Nep171 _ _) = TNep171"
| "token_type (Nep245 _ _) = TNep245"
| "token_type (Imt _ _) = TImt"

subsection \<open>The derived order\<close>

text \<open>The order derived by Rust: the variant first, then the fields from left to right.\<close>

fun token_key :: "token_id \<Rightarrow> nat \<times> string \<times> string" where
  "token_key (Nep141 c) = (0, c, [])"
| "token_key (Nep171 c i) = (1, c, i)"
| "token_key (Nep245 c i) = (2, c, i)"
| "token_key (Imt c i) = (3, c, i)"

lemma token_key_inj: "token_key t = token_key u \<longleftrightarrow> t = u"
  by (cases t; cases u) auto

instantiation token_id :: linorder
begin

definition less_eq_token_id :: "token_id \<Rightarrow> token_id \<Rightarrow> bool" where
  "less_eq_token_id t u \<longleftrightarrow> token_key t \<le> token_key u"

definition less_token_id :: "token_id \<Rightarrow> token_id \<Rightarrow> bool" where
  "less_token_id t u \<longleftrightarrow> token_key t < token_key u"

instance
  by standard (auto simp: less_eq_token_id_def less_token_id_def token_key_inj less_le)

end

subsection \<open>Display and FromStr\<close>

datatype token_id_error = TokenAccountId | TokenParseError

fun type_to_string :: "token_id_type \<Rightarrow> string" where
  "type_to_string TNep141 = ''nep141''"
| "type_to_string TNep171 = ''nep171''"
| "type_to_string TNep245 = ''nep245''"
| "type_to_string TImt = ''imt''"

definition type_from_str :: "string \<Rightarrow> token_id_error + token_id_type" where
  "type_from_str s =
     (if s = ''nep141'' then Inr TNep141
      else if s = ''nep171'' then Inr TNep171
      else if s = ''nep245'' then Inr TNep245
      else if s = ''imt'' then Inr TImt
      else Inl TokenParseError)"

fun split_once :: "char \<Rightarrow> string \<Rightarrow> (string \<times> string) option" where
  "split_once c [] = None"
| "split_once c (x # xs) =
     (if x = c then Some ([], xs)
      else map_option (\<lambda>(l, r). (x # l, r)) (split_once c xs))"

fun token_to_string :: "token_id \<Rightarrow> string" where
  "token_to_string (Nep141 c) = type_to_string TNep141 @ '':'' @ c"
| "token_to_string (Nep171 c i) = type_to_string TNep171 @ '':'' @ c @ '':'' @ i"
| "token_to_string (Nep245 c i) = type_to_string TNep245 @ '':'' @ c @ '':'' @ i"
| "token_to_string (Imt c i) = type_to_string TImt @ '':'' @ c @ '':'' @ i"

definition nep141_from_str :: "(string \<Rightarrow> account_id option) \<Rightarrow> string \<Rightarrow> token_id_error + token_id" where
  "nep141_from_str parse s = bind_r (ok_or (parse s) TokenAccountId) (\<lambda>c. Inr (Nep141 c))"

definition pair_from_str ::
  "(account_id \<Rightarrow> string \<Rightarrow> token_id) \<Rightarrow> (string \<Rightarrow> account_id option) \<Rightarrow> string \<Rightarrow> token_id_error + token_id"
  where
  "pair_from_str mk parse s =
     bind_r (ok_or (split_once CHR '':'' s) TokenParseError) (\<lambda>(c, i).
     bind_r (ok_or (parse c) TokenAccountId) (\<lambda>c'. Inr (mk c' i)))"

definition nep171_from_str :: "(string \<Rightarrow> account_id option) \<Rightarrow> string \<Rightarrow> token_id_error + token_id" where
  "nep171_from_str = pair_from_str Nep171"

definition nep245_from_str :: "(string \<Rightarrow> account_id option) \<Rightarrow> string \<Rightarrow> token_id_error + token_id" where
  "nep245_from_str = pair_from_str Nep245"

definition imt_from_str :: "(string \<Rightarrow> account_id option) \<Rightarrow> string \<Rightarrow> token_id_error + token_id" where
  "imt_from_str = pair_from_str Imt"

definition token_from_str :: "(string \<Rightarrow> account_id option) \<Rightarrow> string \<Rightarrow> token_id_error + token_id" where
  "token_from_str parse s =
     bind_r (ok_or (split_once CHR '':'' s) TokenParseError) (\<lambda>(typ, dat).
     bind_r (type_from_str typ) (\<lambda>ty.
       case ty of
         TNep141 \<Rightarrow> nep141_from_str parse dat
       | TNep171 \<Rightarrow> nep171_from_str parse dat
       | TNep245 \<Rightarrow> nep245_from_str parse dat
       | TImt \<Rightarrow> imt_from_str parse dat))"

fun token_contract :: "token_id \<Rightarrow> account_id" where
  "token_contract (Nep141 c) = c"
| "token_contract (Nep171 c _) = c"
| "token_contract (Nep245 c _) = c"
| "token_contract (Imt c _) = c"

text \<open>
  What the parser of account ids promises: it accepts a valid id as it is, and a valid id
  has no colon (account ids are made of \<open>a-z\<close>, \<open>0-9\<close>, \<open>-\<close>, \<open>_\<close> and \<open>.\<close>).
\<close>

definition account_parser :: "(string \<Rightarrow> account_id option) \<Rightarrow> bool" where
  "account_parser parse \<longleftrightarrow> (\<forall>s a. parse s = Some a \<longrightarrow> a = s \<and> CHR '':'' \<notin> set s)"

definition token_valid :: "(string \<Rightarrow> account_id option) \<Rightarrow> token_id \<Rightarrow> bool" where
  "token_valid parse t \<longleftrightarrow> parse (token_contract t) = Some (token_contract t)"

lemma split_once_None: "c \<notin> set s \<Longrightarrow> split_once c s = None"
  by (induction s) auto

lemma split_once_append: "c \<notin> set l \<Longrightarrow> split_once c (l @ c # r) = Some (l, r)"
  by (induction l) auto

lemma split_once_Some: "split_once c s = Some (l, r) \<Longrightarrow> s = l @ c # r"
  by (induction s arbitrary: l) (auto split: if_splits)

lemma type_to_string_no_colon: "CHR '':'' \<notin> set (type_to_string ty)"
  by (cases ty) auto

lemma type_from_to [simp]: "type_from_str (type_to_string ty) = Inr ty"
  by (cases ty) (simp_all add: type_from_str_def)

lemma type_from_str_Inr: "type_from_str s = Inr ty \<longleftrightarrow> s = type_to_string ty"
  by (cases ty) (auto simp: type_from_str_def)

lemmas token_parse_defs = token_from_str_def nep141_from_str_def nep171_from_str_def
  nep245_from_str_def imt_from_str_def pair_from_str_def

lemma split_once_token_string:
  "split_once CHR '':'' (token_to_string t) =
     Some (type_to_string (token_type t), drop (Suc (length (type_to_string (token_type t)))) (token_to_string t))"
  using split_once_append [OF type_to_string_no_colon [of "token_type t"]]
  by (cases t) simp_all

lemma token_parse_print:
  assumes "account_parser parse" and "token_valid parse t"
  shows "token_from_str parse (token_to_string t) = Inr t"
proof -
  have c: "parse (token_contract t) = Some (token_contract t)"
    and nc: "CHR '':'' \<notin> set (token_contract t)"
    using assms by (auto simp: account_parser_def token_valid_def)
  show ?thesis
    using c split_once_append [OF nc]
    by (cases t) (simp_all add: token_from_str_def split_once_token_string token_parse_defs
        type_from_str_def)
qed

lemma pair_from_str_Inr:
  assumes "account_parser parse" and "pair_from_str mk parse s = Inr t"
  shows "\<exists>c i. t = mk c i \<and> s = c @ '':'' @ i"
  using assms
  by (auto simp: pair_from_str_def account_parser_def result_simps dest!: split_once_Some)

lemma nep141_from_str_Inr:
  assumes "account_parser parse" and "nep141_from_str parse s = Inr t"
  shows "t = Nep141 s"
  using assms by (auto simp: nep141_from_str_def account_parser_def result_simps)

lemma token_print_parse:
  assumes "account_parser parse" and "token_from_str parse s = Inr t"
  shows "token_to_string t = s"
proof -
  obtain tag dat ty where s: "s = tag @ CHR '':'' # dat" and tag: "tag = type_to_string ty"
    and "(case ty of TNep141 \<Rightarrow> nep141_from_str parse dat | TNep171 \<Rightarrow> nep171_from_str parse dat
       | TNep245 \<Rightarrow> nep245_from_str parse dat | TImt \<Rightarrow> imt_from_str parse dat) = Inr t"
    using assms(2)
    by (auto simp: token_from_str_def result_simps type_from_str_Inr dest!: split_once_Some)
  then show ?thesis
    using pair_from_str_Inr [OF assms(1)] nep141_from_str_Inr [OF assms(1)]
    by (cases ty) (fastforce simp: nep171_from_str_def nep245_from_str_def imt_from_str_def)+
qed

text \<open>The string form of a token id identifies it: a token whose contract is a valid
  account id parses back to itself from its string form, and whatever string parses as a
  token is the string form of that token, so no two strings name the same token.\<close>

theorem token_id_round_trip:
  assumes "account_parser parse" and "token_valid parse t" and "token_from_str parse s = Inr u"
  shows "token_from_str parse (token_to_string t) = Inr t \<and> token_to_string u = s"
  using token_parse_print [OF assms(1,2)] token_print_parse [OF assms(1,3)] by blast

definition plain_parser :: "string \<Rightarrow> account_id option" where
  "plain_parser s = (if CHR '':'' \<in> set s then None else Some s)"

theorem token_id_round_trip_witness:
  "token_from_str plain_parser (token_to_string (Nep245 ''mt.near'' ''a:b'')) =
     Inr (Nep245 ''mt.near'' ''a:b'') \<and>
   token_to_string (Imt ''minter.near'' '''') = ''imt:minter.near:''"
  by (rule token_id_round_trip)
    (auto simp: account_parser_def plain_parser_def token_valid_def token_parse_defs
      type_from_str_def split: if_splits)

end
