(* ===== verification/MtEvents.thy ===== *)
theory MtEvents
  imports TokenId
begin

text \<open>
  The events of the multi-token standard (crate \<open>nep245\<close>) and the check that the log of a
  transfer, with the log of its possible refund, stays within the runtime's limit
  (\<open>checked.rs\<close>). The JSON form of an event is built by \<open>serde\<close> and \<open>near-sdk\<close>: its
  length is a parameter \<open>log_len\<close>.
\<close>

record mt_mint_event =
  mint_owner_id :: account_id
  mint_token_ids :: "string list"
  mint_amounts :: "nat list"
  mint_memo :: "string option"

record mt_burn_event =
  burn_owner_id :: account_id
  burn_authorized_id :: "account_id option"
  burn_token_ids :: "string list"
  burn_amounts :: "nat list"
  burn_memo :: "string option"

record mt_transfer_event =
  tr_authorized_id :: "account_id option"
  old_owner_id :: account_id
  new_owner_id :: account_id
  tr_token_ids :: "string list"
  tr_amounts :: "nat list"
  tr_memo :: "string option"

datatype mt_event =
    MtMint "mt_mint_event list"
  | MtBurn "mt_burn_event list"
  | MtTransfer "mt_transfer_event list"

subsection \<open>The refund check\<close>

definition REFUND_MEMO :: string where "REFUND_MEMO = ''refund''"
definition TOTAL_LOG_LENGTH_LIMIT :: nat where "TOTAL_LOG_LENGTH_LIMIT = 16384"
definition REFUND_STR_LEN :: nat where "REFUND_STR_LEN = length REFUND_MEMO"

text \<open>The ten characters of \<open>,"memo":""\<close>.\<close>

definition REFUND_EXTRA_BYTES :: nat where "REFUND_EXTRA_BYTES = 10 + REFUND_STR_LEN"

text \<open>\<open>usize\<close> on the contract's target, wasm32.\<close>

definition usize_max :: nat where "usize_max = u32_max"

definition sat_add :: "nat \<Rightarrow> nat \<Rightarrow> nat" where
  "sat_add a b = min (a + b) usize_max"

record refund_log_delta =
  overhead :: nat
  savings :: nat

definition delta_new :: "nat \<Rightarrow> nat \<Rightarrow> refund_log_delta" where
  "delta_new o' s = \<lparr> overhead = o' - s, savings = s - o' \<rparr>"

definition delta_default :: refund_log_delta where
  "delta_default = \<lparr> overhead = 0, savings = 0 \<rparr>"

definition delta_saturating_add :: "refund_log_delta \<Rightarrow> refund_log_delta \<Rightarrow> refund_log_delta" where
  "delta_saturating_add d e =
     delta_new (sat_add (overhead d) (overhead e)) (sat_add (savings d) (savings e))"

definition refund_log_delta_of :: "string option \<Rightarrow> refund_log_delta" where
  "refund_log_delta_of memo = (case memo of
     None \<Rightarrow> \<lparr> overhead = REFUND_EXTRA_BYTES, savings = 0 \<rparr>
   | Some m \<Rightarrow> delta_new REFUND_STR_LEN (length m))"

fun event_memos :: "mt_event \<Rightarrow> string option list" where
  "event_memos (MtMint es) = map mint_memo es"
| "event_memos (MtBurn es) = map burn_memo es"
| "event_memos (MtTransfer es) = map tr_memo es"

definition compute_refund_delta :: "mt_event \<Rightarrow> refund_log_delta" where
  "compute_refund_delta e =
     foldl delta_saturating_add delta_default (map refund_log_delta_of (event_memos e))"

definition check_refund :: "(mt_event \<Rightarrow> nat) \<Rightarrow> mt_event \<Rightarrow> bool" where
  "check_refund log_len e \<longleftrightarrow>
     (let d = compute_refund_delta e
      in sat_add (log_len e) (overhead d) - savings d \<le> TOTAL_LOG_LENGTH_LIMIT)"

subsection \<open>The check is safe\<close>

text \<open>
  The event logged when everything is refunded: the same entries with the refund memo. The
  hypothesis on \<open>log_len\<close> is that of JSON: the memo of an entry adds the ten characters of
  its key and quotes and at least its own characters, and nothing when there is none.
\<close>

fun with_memo :: "string \<Rightarrow> mt_event \<Rightarrow> mt_event" where
  "with_memo m (MtMint es) = MtMint (map (mint_memo_update (\<lambda>_. Some m)) es)"
| "with_memo m (MtBurn es) = MtBurn (map (burn_memo_update (\<lambda>_. Some m)) es)"
| "with_memo m (MtTransfer es) = MtTransfer (map (tr_memo_update (\<lambda>_. Some m)) es)"

fun without_memo :: "mt_event \<Rightarrow> mt_event" where
  "without_memo (MtMint es) = MtMint (map (mint_memo_update (\<lambda>_. None)) es)"
| "without_memo (MtBurn es) = MtBurn (map (burn_memo_update (\<lambda>_. None)) es)"
| "without_memo (MtTransfer es) = MtTransfer (map (tr_memo_update (\<lambda>_. None)) es)"

definition memo_len :: "(string \<Rightarrow> nat) \<Rightarrow> string option \<Rightarrow> nat" where
  "memo_len esc memo = (case memo of None \<Rightarrow> 0 | Some m \<Rightarrow> 10 + esc m)"

definition log_len_ok :: "(mt_event \<Rightarrow> nat) \<Rightarrow> (string \<Rightarrow> nat) \<Rightarrow> bool" where
  "log_len_ok log_len esc \<longleftrightarrow> esc REFUND_MEMO = 6 \<and> (\<forall>m. length m \<le> esc m) \<and>
     (\<forall>e. log_len e = log_len (without_memo e) + sum_list (map (memo_len esc) (event_memos e)))"

definition delta_value :: "refund_log_delta \<Rightarrow> int" where
  "delta_value d = int (overhead d) - int (savings d)"

lemma delta_value_new [simp]: "delta_value (delta_new a b) = int a - int b"
  by (simp add: delta_value_def delta_new_def)

lemma event_memos_with_memo [simp]:
  "event_memos (with_memo m e) = map (\<lambda>_. Some m) (event_memos e)"
  "without_memo (with_memo m e) = without_memo e"
  by (cases e; simp)+

text \<open>No sum saturates as long as the memos and the refund overhead fit \<open>usize\<close>.\<close>

definition memo_weight :: "string option \<Rightarrow> nat" where
  "memo_weight memo = (case memo of None \<Rightarrow> REFUND_EXTRA_BYTES | Some m \<Rightarrow> REFUND_STR_LEN + length m)"

lemma refund_log_delta_of_bounds:
  "overhead (refund_log_delta_of m) + savings (refund_log_delta_of m) \<le> memo_weight m"
  by (auto simp: refund_log_delta_of_def memo_weight_def delta_new_def split: option.splits)

lemma delta_add_exact:
  assumes "overhead d + savings d + (overhead e + savings e) \<le> usize_max"
  shows "delta_value (delta_saturating_add d e) = delta_value d + delta_value e"
    and "overhead (delta_saturating_add d e) + savings (delta_saturating_add d e) \<le>
      overhead d + savings d + (overhead e + savings e)"
  using assms
  by (auto simp: delta_saturating_add_def sat_add_def delta_value_def delta_new_def)

lemma fold_delta_exact:
  assumes "overhead d + savings d + sum_list (map memo_weight ms) \<le> usize_max"
  shows "delta_value (foldl delta_saturating_add d (map refund_log_delta_of ms)) =
    delta_value d + sum_list (map (\<lambda>m. delta_value (refund_log_delta_of m)) ms)"
  using assms
proof (induction ms arbitrary: d)
  case (Cons m ms)
  note w = refund_log_delta_of_bounds [of m]
  have le: "overhead d + savings d +
      (overhead (refund_log_delta_of m) + savings (refund_log_delta_of m)) \<le> usize_max"
    using Cons.prems w by simp
  have next_le: "overhead (delta_saturating_add d (refund_log_delta_of m)) +
      savings (delta_saturating_add d (refund_log_delta_of m)) +
      sum_list (map memo_weight ms) \<le> usize_max"
    using delta_add_exact(2) [OF le] Cons.prems w by simp
  show ?case
    using Cons.IH [OF next_le] delta_add_exact(1) [OF le] by simp
qed simp

lemma overhead_savings_cases: "overhead (compute_refund_delta e) = 0 \<or> savings (compute_refund_delta e) = 0"
proof (cases "event_memos e" rule: rev_cases)
  case Nil
  then show ?thesis by (simp add: compute_refund_delta_def delta_default_def)
next
  case (snoc ms m)
  then show ?thesis
    by (auto simp: compute_refund_delta_def delta_saturating_add_def delta_new_def)
qed

lemma delta_value_of:
  "delta_value (refund_log_delta_of m) = (case m of None \<Rightarrow> 16 | Some s \<Rightarrow> 6 - int (length s))"
  by (cases m) (simp_all add: refund_log_delta_of_def REFUND_EXTRA_BYTES_def REFUND_STR_LEN_def
      REFUND_MEMO_def, simp add: delta_value_def)

lemma refund_memo_len:
  assumes "log_len_ok log_len esc"
  shows "int (memo_len esc (Some REFUND_MEMO)) \<le> int (memo_len esc m) + delta_value (refund_log_delta_of m)"
proof -
  have "esc REFUND_MEMO = 6" and "\<And>s. length s \<le> esc s"
    using assms by (auto simp: log_len_ok_def)
  then show ?thesis
    by (simp add: delta_value_of memo_len_def split: option.splits)
qed

lemma refund_memos_len:
  assumes "log_len_ok log_len esc"
  shows "int (sum_list (map (\<lambda>_. memo_len esc (Some REFUND_MEMO)) ms)) \<le>
      int (sum_list (map (memo_len esc) ms)) + sum_list (map (\<lambda>m. delta_value (refund_log_delta_of m)) ms)"
proof (induction ms)
  case (Cons m ms)
  then show ?case using refund_memo_len [OF assms, of m] by simp
qed simp

lemma delta_value_weight:
  "sum_list (map (\<lambda>m. delta_value (refund_log_delta_of m)) ms) \<le> int (sum_list (map memo_weight ms))"
proof (induction ms)
  case (Cons m ms)
  have "delta_value (refund_log_delta_of m) \<le> int (memo_weight m)"
    using refund_log_delta_of_bounds [of m] by (simp add: delta_value_def)
  with Cons show ?case by simp
qed simp

lemma refund_len_diff:
  assumes "log_len_ok log_len esc"
  shows "int (log_len (with_memo REFUND_MEMO e)) - int (log_len e) \<le>
    sum_list (map (\<lambda>m. delta_value (refund_log_delta_of m)) (event_memos e))"
proof -
  have len: "log_len x = log_len (without_memo x) + sum_list (map (memo_len esc) (event_memos x))" for x
    using assms unfolding log_len_ok_def by blast
  have "log_len (with_memo REFUND_MEMO e) = log_len (without_memo e) +
      sum_list (map (\<lambda>_. memo_len esc (Some REFUND_MEMO)) (event_memos e))"
    by (subst len) (simp add: comp_def)
  then show ?thesis
    using len [of e] refund_memos_len [OF assms, of "event_memos e"] by linarith
qed

text \<open>C38: an event that passes \<open>check_refund\<close> can always be refunded within the log limit:
  the log of the same entries under the refund memo fits, whatever memos they carried
  (escaping in JSON included), as long as the lengths fit \<open>usize\<close>.\<close>

theorem check_refund_safe:
  assumes "log_len_ok log_len esc" and "check_refund log_len e"
    and "log_len e + sum_list (map memo_weight (event_memos e)) \<le> usize_max"
  shows "log_len (with_memo REFUND_MEMO e) \<le> TOTAL_LOG_LENGTH_LIMIT"
proof -
  let ?d = "compute_refund_delta e"
  have val: "delta_value ?d = sum_list (map (\<lambda>m. delta_value (refund_log_delta_of m)) (event_memos e))"
    using assms(3) fold_delta_exact [of delta_default "event_memos e"]
    by (simp add: compute_refund_delta_def delta_default_def delta_value_def)
  have "delta_value ?d \<le> int (sum_list (map memo_weight (event_memos e)))"
    unfolding val by (rule delta_value_weight)
  then have "sat_add (log_len e) (overhead ?d) = log_len e + overhead ?d"
    using assms(3) overhead_savings_cases [of e] by (auto simp: sat_add_def delta_value_def)
  then have "int (log_len e) + delta_value ?d \<le> int TOTAL_LOG_LENGTH_LIMIT"
    using assms(2) by (simp add: check_refund_def Let_def delta_value_def)
  then show ?thesis
    using refund_len_diff [OF assms(1), of e] val by simp
qed

text \<open>A transfer of one token whose log has 16368 characters without its memo.\<close>

definition sample_log_len :: "mt_event \<Rightarrow> nat" where
  "sample_log_len e = 16368 + sum_list (map (memo_len length) (event_memos e))"

definition sample_event :: mt_event where
  "sample_event = MtTransfer [\<lparr> tr_authorized_id = None, old_owner_id = ''a'', new_owner_id = ''b'',
     tr_token_ids = [''nep141:t''], tr_amounts = [5], tr_memo = Some ''m'' \<rparr>]"

theorem check_refund_safe_witness:
  "check_refund sample_log_len sample_event \<and>
   sample_log_len (with_memo REFUND_MEMO sample_event) \<le> TOTAL_LOG_LENGTH_LIMIT"
proof -
  have none: "sum_list (map (memo_len length) (event_memos (without_memo e))) = 0" for e
    by (cases e) (simp_all add: memo_len_def comp_def)
  have ok: "log_len_ok sample_log_len length"
    unfolding log_len_ok_def sample_log_len_def none by (simp add: REFUND_MEMO_def)
  have chk: "check_refund sample_log_len sample_event"
    by (simp add: check_refund_def compute_refund_delta_def sample_event_def sample_log_len_def
        delta_saturating_add_def delta_default_def delta_new_def refund_log_delta_of_def sat_add_def
        usize_max_def u32_max_def memo_len_def REFUND_STR_LEN_def REFUND_MEMO_def TOTAL_LOG_LENGTH_LIMIT_def)
  show ?thesis
    using check_refund_safe [OF ok chk] chk
    by (simp add: sample_log_len_def sample_event_def memo_len_def memo_weight_def usize_max_def
        u32_max_def REFUND_STR_LEN_def REFUND_MEMO_def)
qed

end
