(* ===== verification/TransferMatcher.thy ===== *)
theory TransferMatcher
  imports Amounts MtEvents
begin

text \<open>
  The transfer matcher of \<open>engine/state/deltas.rs\<close>: the net deposits and withdrawals of a
  batch per token and account, and the greedy matching that turns them into transfers. A
  panic (\<open>unreachable!()\<close>) is \<open>None\<close> in \<open>sub_add\<close>, \<open>match_loop\<close> and \<open>finalize_into\<close>; the
  theorems show that it cannot happen.

  Both maps are \<open>HashMap\<close>s, iterated in an unspecified order, and the sort of the entries is
  unstable. The lists here stand for any such order: every descending arrangement of the
  entries is the stable sort of some arrangement of them.
\<close>

record token_transfer_matcher =
  deposits :: "account_id amounts"
  withdrawals :: "account_id amounts"

definition matcher_default :: token_transfer_matcher where
  "matcher_default = \<lparr> deposits = [], withdrawals = [] \<rparr>"

type_synonym transfer_matcher = "(token_id \<times> token_transfer_matcher) list"

text \<open>\<open>sender_id\<close> to \<open>receiver_id\<close> to \<open>token_id\<close> to \<open>amount\<close>.\<close>

type_synonym transfers = "(account_id \<times> (account_id \<times> token_id amounts) list) list"

datatype invariant_violated = UnmatchedDeltas "token_id deltas" | Overflow

subsection \<open>Accumulating deposits and withdrawals\<close>

text \<open>The result is \<open>None\<close> for a panic, else the two maps and whether the addition fitted.\<close>

definition sub_add ::
  "account_id amounts \<Rightarrow> account_id amounts \<Rightarrow> account_id \<Rightarrow> nat \<Rightarrow>
   (account_id amounts \<times> account_id amounts \<times> bool) option" where
  "sub_add sub add owner amount =
     (let s = amount_for sub owner;
          finish = (\<lambda>sub' rest. case amounts_add owner rest add of
              None \<Rightarrow> Some (sub', add, False)
            | Some (add', _) \<Rightarrow> Some (sub', add', True))
      in if 0 < s then
           (let a = min s amount in
            case amounts_sub owner a sub of
              None \<Rightarrow> None
            | Some (sub', _) \<Rightarrow>
                (let rest = amount - a in
                 if rest = 0 then Some (sub', add, True) else finish sub' rest))
         else finish sub amount)"

definition token_deposit ::
  "account_id \<Rightarrow> nat \<Rightarrow> token_transfer_matcher \<Rightarrow> (token_transfer_matcher \<times> bool) option" where
  "token_deposit owner amount M =
     map_option (\<lambda>(w, d, ok). (\<lparr> deposits = d, withdrawals = w \<rparr>, ok))
       (sub_add (withdrawals M) (deposits M) owner amount)"

definition token_withdraw ::
  "account_id \<Rightarrow> nat \<Rightarrow> token_transfer_matcher \<Rightarrow> (token_transfer_matcher \<times> bool) option" where
  "token_withdraw owner amount M =
     map_option (\<lambda>(d, w, ok). (\<lparr> deposits = d, withdrawals = w \<rparr>, ok))
       (sub_add (deposits M) (withdrawals M) owner amount)"

definition token_add_delta ::
  "account_id \<Rightarrow> int \<Rightarrow> token_transfer_matcher \<Rightarrow> (token_transfer_matcher \<times> bool) option" where
  "token_add_delta owner delta M =
     (if delta < 0 then token_withdraw owner (nat \<bar>delta\<bar>) M else token_deposit owner (nat \<bar>delta\<bar>) M)"

definition on_token ::
  "(token_transfer_matcher \<Rightarrow> (token_transfer_matcher \<times> bool) option) \<Rightarrow> token_id \<Rightarrow>
   transfer_matcher \<Rightarrow> (transfer_matcher \<times> bool) option" where
  "on_token f t T =
     map_option (\<lambda>(M, ok). (entry_write matcher_default t M T, ok)) (f (entry_read matcher_default t T))"

definition matcher_deposit ::
  "account_id \<Rightarrow> token_id \<Rightarrow> nat \<Rightarrow> transfer_matcher \<Rightarrow> (transfer_matcher \<times> bool) option" where
  "matcher_deposit owner t amount = on_token (token_deposit owner amount) t"

definition matcher_withdraw ::
  "account_id \<Rightarrow> token_id \<Rightarrow> nat \<Rightarrow> transfer_matcher \<Rightarrow> (transfer_matcher \<times> bool) option" where
  "matcher_withdraw owner t amount = on_token (token_withdraw owner amount) t"

definition matcher_add_delta ::
  "account_id \<Rightarrow> token_id \<Rightarrow> int \<Rightarrow> transfer_matcher \<Rightarrow> (transfer_matcher \<times> bool) option" where
  "matcher_add_delta owner t delta = on_token (token_add_delta owner delta) t"

subsection \<open>Transfers\<close>

definition transfer :: "account_id \<Rightarrow> account_id \<Rightarrow> token_id \<Rightarrow> nat \<Rightarrow> transfers \<Rightarrow> transfers option" where
  "transfer sender receiver t amount T =
     (let S = entry_read [] sender T; R = entry_read [] receiver S in
      case amounts_add t amount R of
        None \<Rightarrow> None
      | Some (R', _) \<Rightarrow> Some (entry_write [] sender (entry_write [] receiver R' S) T))"

definition as_mt_event :: "transfers \<Rightarrow> mt_event option" where
  "as_mt_event T =
     (if T = [] then None
      else Some (MtTransfer (concat (map (\<lambda>(sender, rs).
        map (\<lambda>(receiver, ts). \<lparr> tr_authorized_id = None, old_owner_id = sender, new_owner_id = receiver,
               tr_token_ids = map (\<lambda>p. token_to_string (fst p)) ts, tr_amounts = map snd ts, tr_memo = None \<rparr>)
          rs) T))))"

subsection \<open>Matching\<close>

definition sort_desc :: "(account_id \<times> nat) list \<Rightarrow> (account_id \<times> nat) list" where
  "sort_desc = sort_key (\<lambda>p. - int (snd p))"

text \<open>
  The \<open>while let\<close> loop: the current sender and receiver are the heads of the two lists, and
  an entry that is used up gives way to the next one.
\<close>

function match_loop ::
  "token_id \<Rightarrow> (account_id \<times> nat) list \<Rightarrow> (account_id \<times> nat) list \<Rightarrow> transfers \<Rightarrow>
   ((account_id \<times> nat) list \<times> (account_id \<times> nat) list \<times> transfers) option" where
  "match_loop t ((sender, send) # ws) ((receiver, receive) # ds) T =
     (let x = min send receive in
      case transfer sender receiver t x T of
        None \<Rightarrow> None
      | Some T' \<Rightarrow> match_loop t
          (if send - x = 0 then ws else (sender, send - x) # ws)
          (if receive - x = 0 then ds else (receiver, receive - x) # ds) T')"
| "match_loop t [] ds T = Some ([], ds, T)"
| "match_loop t ws [] T = Some (ws, [], T)"
  by pat_completeness auto
termination
  by (relation "measure (\<lambda>(_, ws, ds, _). length ws + length ds)") auto

definition total_u128 :: "(account_id \<times> nat) list \<Rightarrow> nat option" where
  "total_u128 xs = (case xs of [] \<Rightarrow> Some 0
     | (_, n) # ys \<Rightarrow> try_fold (\<lambda>total p. checked_add_u 128 total (snd p)) n ys)"

definition i128_try_from :: "nat \<Rightarrow> int option" where
  "i128_try_from n = fit_i 128 (int n)"

definition finalize_into ::
  "token_id \<Rightarrow> token_transfer_matcher \<Rightarrow> transfers \<Rightarrow> (transfers \<times> (int + unit)) option" where
  "finalize_into t M T =
     (case match_loop t (sort_desc (withdrawals M)) (sort_desc (deposits M)) T of
        None \<Rightarrow> None
      | Some (ws, ds, T') \<Rightarrow>
          Some (T',
            if ws \<noteq> [] then Inl (case Option.bind (Option.bind (total_u128 ws) i128_try_from) (checked_neg_i 128) of
                None \<Rightarrow> 0 | Some d \<Rightarrow> d)
            else if ds \<noteq> [] then Inl (case Option.bind (total_u128 ds) i128_try_from of
                None \<Rightarrow> 0 | Some d \<Rightarrow> d)
            else Inr ()))"

fun finalize_loop ::
  "transfer_matcher \<Rightarrow> transfers \<Rightarrow> token_id deltas \<Rightarrow>
   (invariant_violated + (transfers \<times> token_id deltas)) option" where
  "finalize_loop [] T D = Some (Inr (T, D))"
| "finalize_loop ((t, M) # rest) T D =
     (case finalize_into t M T of
        None \<Rightarrow> None
      | Some (T', Inr _) \<Rightarrow> finalize_loop rest T' D
      | Some (T', Inl unmatched) \<Rightarrow>
          (if unmatched = 0 then Some (Inl Overflow)
           else case apply_delta t unmatched D of
                  None \<Rightarrow> Some (Inl Overflow)
                | Some (D', _) \<Rightarrow> finalize_loop rest T' D'))"

definition finalize :: "transfer_matcher \<Rightarrow> (invariant_violated + transfers) option" where
  "finalize TM = map_option (\<lambda>r. bind_r r (\<lambda>(T, D).
     if D \<noteq> [] then Inl (UnmatchedDeltas D) else Inr T)) (finalize_loop TM [] [])"

subsection \<open>The accumulator records net deltas\<close>

definition matcher_ok :: "token_transfer_matcher \<Rightarrow> bool" where
  "matcher_ok M \<longleftrightarrow> amounts_u128 (deposits M) \<and> amounts_u128 (withdrawals M) \<and>
     (\<forall>a. amount_for (deposits M) a = 0 \<or> amount_for (withdrawals M) a = 0)"

definition token_net :: "token_transfer_matcher \<Rightarrow> account_id \<Rightarrow> int" where
  "token_net M a = int (amount_for (deposits M) a) - int (amount_for (withdrawals M) a)"

definition transfer_matcher_ok :: "transfer_matcher \<Rightarrow> bool" where
  "transfer_matcher_ok TM \<longleftrightarrow> entries_ok matcher_default TM \<and> (\<forall>M \<in> snd ` set TM. matcher_ok M)"

definition net_delta :: "transfer_matcher \<Rightarrow> token_id \<Rightarrow> account_id \<Rightarrow> int" where
  "net_delta TM t a = token_net (entry_read matcher_default t TM) a"

lemma matcher_ok_default [simp]: "matcher_ok matcher_default"
  by (simp add: matcher_ok_def matcher_default_def)

lemma token_net_default [simp]: "token_net matcher_default a = 0"
  by (simp add: token_net_def matcher_default_def)

lemma sub_add_spec:
  assumes "amounts_u128 sub" and "amounts_u128 add"
    and "\<forall>a. amount_for sub a = 0 \<or> amount_for add a = 0"
  shows "\<exists>sub' add' ok. sub_add sub add owner amount = Some (sub', add', ok) \<and>
    amounts_u128 sub' \<and> amounts_u128 add' \<and> (\<forall>a. amount_for sub' a = 0 \<or> amount_for add' a = 0) \<and>
    (ok \<longrightarrow> (\<forall>a. int (amount_for add' a) - int (amount_for sub' a) =
       int (amount_for add a) - int (amount_for sub a) + (if a = owner then int amount else 0)))"
proof -
  let ?a = "min (amount_for sub owner) amount"
  let ?sub = "entry_write 0 owner (amount_for sub owner - ?a) sub"
  have le: "amount_for sub owner \<le> u_max 128"
    using assms(1) by (simp add: amounts_u128_def)
  have sub: "amounts_sub owner ?a sub = Some (?sub, amount_for sub owner - ?a)"
    using le by (simp add: amounts_sub_Some)
  have ok: "amounts_u128 ?sub"
    using sub assms(1) by (rule amounts_u128_sub [rotated])
  have ex: "amount_for sub owner = 0 \<or> amount_for add owner = 0"
    by (rule spec [OF assms(3)])
  consider (zero) "amount_for sub owner = 0" | (enough) "0 < amount_for sub owner" "amount \<le> amount_for sub owner"
    | (part) "0 < amount_for sub owner" "amount_for sub owner < amount"
    using not_le neq0_conv by blast
  then show ?thesis
  proof cases
    case zero
    show ?thesis
      using zero assms amounts_u128_add [OF assms(2), of owner amount]
      by (cases "amounts_add owner amount add") (auto simp: sub_add_def amounts_add_Some)
  next
    case enough
    then have "amount_for add owner = 0" using ex by simp
    moreover have "sub_add sub add owner amount = Some (?sub, add, True)"
      using enough sub by (simp add: sub_add_def min_def)
    ultimately show ?thesis
      using enough ok assms by (auto simp: min_def)
  next
    case part
    then have excl: "amount_for add owner = 0" using ex by simp
    have a: "?a = amount_for sub owner" using part by simp
    show ?thesis
      using part sub ok assms excl amounts_u128_add [OF assms(2), of owner "amount - amount_for sub owner"]
      unfolding a sub_add_def
      by (cases "amounts_add owner (amount - amount_for sub owner) add")
        (auto simp: Let_def amounts_add_Some)
  qed
qed

lemma token_deposit_spec:
  assumes "matcher_ok M"
  shows "\<exists>M' ok. token_deposit owner amount M = Some (M', ok) \<and> matcher_ok M' \<and>
    (ok \<longrightarrow> (\<forall>a. token_net M' a = token_net M a + (if a = owner then int amount else 0)))"
proof -
  have "amounts_u128 (withdrawals M)" "amounts_u128 (deposits M)"
    "\<forall>a. amount_for (withdrawals M) a = 0 \<or> amount_for (deposits M) a = 0"
    using assms by (simp_all add: matcher_ok_def disj_commute)
  from sub_add_spec [OF this, of owner amount]
  show ?thesis by (elim exE conjE) (simp add: token_deposit_def matcher_ok_def token_net_def disj_commute)
qed

lemma token_withdraw_spec:
  assumes "matcher_ok M"
  shows "\<exists>M' ok. token_withdraw owner amount M = Some (M', ok) \<and> matcher_ok M' \<and>
    (ok \<longrightarrow> (\<forall>a. token_net M' a = token_net M a + (if a = owner then - int amount else 0)))"
proof -
  have "amounts_u128 (deposits M)" "amounts_u128 (withdrawals M)"
    "\<forall>a. amount_for (deposits M) a = 0 \<or> amount_for (withdrawals M) a = 0"
    using assms by (simp_all add: matcher_ok_def)
  from sub_add_spec [OF this, of owner amount]
  obtain d w ok where r: "sub_add (deposits M) (withdrawals M) owner amount = Some (d, w, ok)"
    and inv: "amounts_u128 d" "amounts_u128 w" "\<forall>a. amount_for d a = 0 \<or> amount_for w a = 0"
    and net: "ok \<Longrightarrow> int (amount_for w a) - int (amount_for d a) =
      int (amount_for (withdrawals M) a) - int (amount_for (deposits M) a) + (if a = owner then int amount else 0)" for a
    by (elim exE conjE) simp
  have "ok \<Longrightarrow> int (amount_for d a) - int (amount_for w a) = token_net M a + (if a = owner then - int amount else 0)" for a
    using net [of a] by (simp add: token_net_def split: if_splits)
  with r inv show ?thesis
    by (simp add: token_withdraw_def matcher_ok_def token_net_def)
qed

lemma transfer_matcher_ok_read: "transfer_matcher_ok TM \<Longrightarrow> matcher_ok (entry_read matcher_default t TM)"
  by (auto simp: transfer_matcher_ok_def entry_read_def image_iff dest!: map_of_SomeD split: option.splits)

lemma transfer_matcher_ok_write:
  assumes "transfer_matcher_ok TM" and "matcher_ok M"
  shows "transfer_matcher_ok (entry_write matcher_default t M TM)"
proof -
  have "matcher_ok N" if "N \<in> snd ` set (entry_write matcher_default t M TM)" for N
    using subsetD [OF entry_write_set that] assms unfolding transfer_matcher_ok_def by blast
  then show ?thesis
    using assms(1) by (simp add: transfer_matcher_ok_def)
qed

text \<open>One step of the accumulator: it never panics, keeps its invariant, and when it returns
  true the net delta of that account and token moves by exactly the amount.\<close>

definition adds_delta ::
  "(transfer_matcher \<Rightarrow> (transfer_matcher \<times> bool) option) \<Rightarrow> account_id \<Rightarrow> token_id \<Rightarrow> int \<Rightarrow> bool" where
  "adds_delta step owner t x \<longleftrightarrow> (\<forall>TM. transfer_matcher_ok TM \<longrightarrow>
     (\<exists>TM' ok. step TM = Some (TM', ok) \<and> transfer_matcher_ok TM' \<and>
       (ok \<longrightarrow> (\<forall>u a. net_delta TM' u a = net_delta TM u a + (if u = t \<and> a = owner then x else 0)))))"

lemma on_token_spec:
  assumes "\<And>M. matcher_ok M \<Longrightarrow> \<exists>M' ok. f M = Some (M', ok) \<and> matcher_ok M' \<and>
      (ok \<longrightarrow> (\<forall>a. token_net M' a = token_net M a + (if a = owner then x else 0)))"
  shows "adds_delta (on_token f t) owner t x"
  unfolding adds_delta_def
proof (intro allI impI)
  fix TM assume ok: "transfer_matcher_ok TM"
  obtain M' b where f: "f (entry_read matcher_default t TM) = Some (M', b)" and M': "matcher_ok M'"
    and net: "b \<Longrightarrow> \<forall>a. token_net M' a = token_net (entry_read matcher_default t TM) a + (if a = owner then x else 0)"
    using assms [OF transfer_matcher_ok_read [OF ok, of t]] by blast
  show "\<exists>TM' ok. on_token f t TM = Some (TM', ok) \<and> transfer_matcher_ok TM' \<and>
       (ok \<longrightarrow> (\<forall>u a. net_delta TM' u a = net_delta TM u a + (if u = t \<and> a = owner then x else 0)))"
    using f net transfer_matcher_ok_write [OF ok M'] by (auto simp: on_token_def net_delta_def)
qed

lemma matcher_deposit_spec: "adds_delta (matcher_deposit owner t amount) owner t (int amount)"
  unfolding matcher_deposit_def by (rule on_token_spec) (rule token_deposit_spec)

lemma matcher_withdraw_spec: "adds_delta (matcher_withdraw owner t amount) owner t (- int amount)"
  unfolding matcher_withdraw_def by (rule on_token_spec) (rule token_withdraw_spec)

lemma matcher_add_delta_spec: "adds_delta (matcher_add_delta owner t delta) owner t delta"
proof (cases "delta < 0")
  case True
  then have "matcher_add_delta owner t delta = matcher_withdraw owner t (nat \<bar>delta\<bar>)"
    by (simp add: matcher_add_delta_def matcher_withdraw_def token_add_delta_def fun_eq_iff on_token_def)
  then show ?thesis using matcher_withdraw_spec [of owner t "nat \<bar>delta\<bar>"] True by simp
next
  case False
  then have "matcher_add_delta owner t delta = matcher_deposit owner t (nat \<bar>delta\<bar>)"
    by (simp add: matcher_add_delta_def matcher_deposit_def token_add_delta_def fun_eq_iff on_token_def)
  then show ?thesis using matcher_deposit_spec [of owner t "nat \<bar>delta\<bar>"] False by simp
qed

end
