(* ===== verification/Bitmap.thy ===== *)
theory Bitmap
  imports Amounts "HOL-Library.Word"
begin

text \<open>
  The crate \<open>bitmap\<close>. \<open>BitMap256\<close> (\<open>b256.rs\<close>) is a set of 32-byte numbers: the first 31
  bytes select a 256-bit map, the last one a bit in it. \<open>BitMap\<close> (\<open>lib.rs\<close>) is the same
  over a machine word: the high bits select a word, the low ones a bit of it. Bytes and
  words keep their width.
\<close>

unbundle bit_operations_syntax

type_synonym byte = "8 word"
type_synonym u256 = "byte list"
type_synonym u248 = "byte list"
type_synonym bitmap256 = "(u248 \<times> u256) list"

subsection \<open>Sets of bits as an interface\<close>

text \<open>The four operations of a bitmap, and what they promise on valid positions.\<close>

locale bit_set =
  fixes get :: "'m \<Rightarrow> 'n \<Rightarrow> bool" and set_b clear_b toggle_b :: "'m \<Rightarrow> 'n \<Rightarrow> 'm \<times> bool"
    and inv :: "'m \<Rightarrow> bool" and valid :: "'n \<Rightarrow> bool"
  assumes set_get: "inv m \<Longrightarrow> valid n \<Longrightarrow> valid n' \<Longrightarrow> get (fst (set_b m n)) n' \<longleftrightarrow> n' = n \<or> get m n'"
    and clear_get: "inv m \<Longrightarrow> valid n \<Longrightarrow> valid n' \<Longrightarrow> get (fst (clear_b m n)) n' \<longleftrightarrow> n' \<noteq> n \<and> get m n'"
    and toggle_get: "inv m \<Longrightarrow> valid n \<Longrightarrow> valid n' \<Longrightarrow>
        get (fst (toggle_b m n)) n' \<longleftrightarrow> (if n' = n then \<not> get m n else get m n')"
    and set_old: "inv m \<Longrightarrow> valid n \<Longrightarrow> snd (set_b m n) = get m n"
    and clear_old: "inv m \<Longrightarrow> valid n \<Longrightarrow> snd (clear_b m n) = get m n"
    and toggle_old: "inv m \<Longrightarrow> valid n \<Longrightarrow> snd (toggle_b m n) = get m n"
    and inv_ops: "inv m \<Longrightarrow> valid n \<Longrightarrow> inv (fst (set_b m n)) \<and> inv (fst (clear_b m n)) \<and> inv (fst (toggle_b m n))"
begin

lemma set_set: "inv m \<Longrightarrow> valid n \<Longrightarrow> snd (set_b (fst (set_b m n)) n)"
  by (simp add: set_old inv_ops set_get)

lemma clear_set: "inv m \<Longrightarrow> valid n \<Longrightarrow> \<not> get (fst (clear_b (fst (set_b m n)) n)) n"
  by (simp add: clear_get inv_ops)

lemma toggle_toggle:
  "inv m \<Longrightarrow> valid n \<Longrightarrow> valid n' \<Longrightarrow> get (fst (toggle_b (fst (toggle_b m n)) n)) n' = get m n'"
  by (simp add: toggle_get inv_ops)

end

subsection \<open>BitMap256\<close>

definition byte_mask :: "byte \<Rightarrow> byte" where
  "byte_mask bit_pos = push_bit (unat (bit_pos mod 8)) 1"

definition byte_index :: "byte \<Rightarrow> nat" where
  "byte_index bit_pos = unat (bit_pos div 8)"

definition b256_get :: "bitmap256 \<Rightarrow> u256 \<Rightarrow> bool" where
  "b256_get m n = (case map_of m (butlast n) of
      None \<Rightarrow> False
    | Some bitmap \<Rightarrow> bitmap ! byte_index (last n) AND byte_mask (last n) \<noteq> 0)"

definition u256_zero :: u256 where
  "u256_zero = replicate 32 0"

text \<open>\<open>get_mut_byte_with_mask\<close>: \<open>f\<close> is what the caller does with the byte and the mask.\<close>

definition b256_update :: "(byte \<Rightarrow> byte \<Rightarrow> byte) \<Rightarrow> bitmap256 \<Rightarrow> u256 \<Rightarrow> bitmap256 \<times> bool" where
  "b256_update f m n =
     (let bitmap = (case map_of m (butlast n) of None \<Rightarrow> u256_zero | Some b \<Rightarrow> b);
          i = byte_index (last n); byte = bitmap ! i; mask = byte_mask (last n)
      in (AList.update (butlast n) (bitmap[i := f byte mask]) m, byte AND mask \<noteq> 0))"

definition b256_set :: "bitmap256 \<Rightarrow> u256 \<Rightarrow> bitmap256 \<times> bool" where
  "b256_set = b256_update (\<lambda>byte mask. byte OR mask)"

definition b256_clear :: "bitmap256 \<Rightarrow> u256 \<Rightarrow> bitmap256 \<times> bool" where
  "b256_clear = b256_update (\<lambda>byte mask. byte AND NOT mask)"

definition b256_toggle :: "bitmap256 \<Rightarrow> u256 \<Rightarrow> bitmap256 \<times> bool" where
  "b256_toggle = b256_update (\<lambda>byte mask. byte XOR mask)"

definition b256_set_to :: "bitmap256 \<Rightarrow> u256 \<Rightarrow> bool \<Rightarrow> bitmap256 \<times> bool" where
  "b256_set_to m n v = (if v then b256_set m n else b256_clear m n)"

definition b256_cleanup_by_prefix :: "bitmap256 \<Rightarrow> u248 \<Rightarrow> bitmap256 \<times> bool" where
  "b256_cleanup_by_prefix m prefix = (AList.delete prefix m, map_of m prefix \<noteq> None)"

text \<open>The range \<open>0..=u8::MAX\<close>.\<close>

definition all_u8 :: "byte list" where
  "all_u8 = map word_of_nat [0..<256]"

definition b256_iter :: "bitmap256 \<Rightarrow> u256 list" where
  "b256_iter m = concat (map (\<lambda>(prefix, bitmap).
     map (\<lambda>bit_pos. prefix @ [bit_pos])
       (filter (\<lambda>bit_pos. bitmap ! byte_index bit_pos AND byte_mask bit_pos \<noteq> 0)
         all_u8)) m)"

definition u256_ok :: "u256 \<Rightarrow> bool" where "u256_ok n \<longleftrightarrow> length n = 32"

definition b256_ok :: "bitmap256 \<Rightarrow> bool" where
  "b256_ok m \<longleftrightarrow> keys_distinct m \<and> (\<forall>(prefix, bitmap) \<in> set m. length prefix = 31 \<and> length bitmap = 32)"

lemma byte_index_lt [simp]: "byte_index p < 32"
  using unsigned_less [where 'a = nat, of p] by (simp add: byte_index_def unat_div)

lemma byte_pos_lt [simp]: "unat (p mod 8) < 8" for p :: byte
  by (simp add: unat_mod)

lemma div_mod_eq_nat: "a div k = b div k \<Longrightarrow> a mod k = b mod k \<Longrightarrow> a = b" for a b k :: nat
  by (metis div_mult_mod_eq)

lemma byte_split: "p = q \<longleftrightarrow> byte_index p = byte_index q \<and> unat (p mod 8) = unat (q mod 8)" for p q :: byte
proof
  assume "byte_index p = byte_index q \<and> unat (p mod 8) = unat (q mod 8)"
  then have "unat p div 8 = unat q div 8" and "unat p mod 8 = unat q mod 8"
    by (simp_all add: byte_index_def unat_div unat_mod)
  then have "unat p = unat q" by (rule div_mod_eq_nat)
  then show "p = q" by (simp add: word_unat_eq_iff)
qed simp

lemma mask_bit: "byte AND byte_mask p \<noteq> 0 \<longleftrightarrow> bit byte (unat (p mod 8))"
  by (simp add: byte_mask_def bit_iff_and_push_bit_not_eq_0)

lemma bit_byte_mask: "bit (byte_mask p) k \<longleftrightarrow> k = unat (p mod 8)"
  using byte_pos_lt [of p] by (auto simp: byte_mask_def bit_simps)

lemma split_last: "u256_ok n \<Longrightarrow> u256_ok n' \<Longrightarrow> n = n' \<longleftrightarrow> butlast n = butlast n' \<and> last n = last n'"
proof -
  assume ok: "u256_ok n" "u256_ok n'"
  have "n = butlast n @ [last n]" "n' = butlast n' @ [last n']"
    using ok by (auto simp: u256_ok_def intro!: append_butlast_last_id [symmetric])
  then show "n = n' \<longleftrightarrow> butlast n = butlast n' \<and> last n = last n'" by metis
qed

lemma b256_ok_bitmap: "b256_ok m \<Longrightarrow> map_of m w = Some b \<Longrightarrow> length b = 32"
  by (auto simp: b256_ok_def dest: map_of_SomeD)

text \<open>Reading a bit of the whole map, as the value of one bit of one byte.\<close>

definition stored_byte :: "bitmap256 \<Rightarrow> u248 \<Rightarrow> nat \<Rightarrow> byte" where
  "stored_byte m w i = (case map_of m w of None \<Rightarrow> 0 | Some b \<Rightarrow> b ! i)"

lemma b256_get_bit: "b256_get m n \<longleftrightarrow> bit (stored_byte m (butlast n) (byte_index (last n))) (unat (last n mod 8))"
  by (simp add: b256_get_def stored_byte_def mask_bit split: option.splits)

lemma b256_update_old: "snd (b256_update f m n) = b256_get m n"
  by (auto simp: b256_update_def b256_get_def Let_def u256_zero_def split: option.splits)

lemma b256_update_byte:
  assumes "b256_ok m"
  shows "stored_byte (fst (b256_update f m n)) w i =
    (if w = butlast n \<and> i = byte_index (last n)
     then f (stored_byte m w i) (byte_mask (last n)) else if i < 32 then stored_byte m w i
     else stored_byte (fst (b256_update f m n)) w i)"
  using b256_ok_bitmap [OF assms]
  by (auto simp: b256_update_def stored_byte_def Let_def u256_zero_def nth_list_update split: option.splits)

lemma b256_update_ok:
  assumes "b256_ok m" and "u256_ok n"
  shows "b256_ok (fst (b256_update f m n))"
proof -
  have upd: "set (AList.update k v m') \<subseteq> insert (k, v) (set m')" for k :: u248 and v m'
    by (induction m') auto
  let ?b = "case map_of m (butlast n) of None \<Rightarrow> u256_zero | Some b \<Rightarrow> b"
  have "length ?b = 32"
    using b256_ok_bitmap [OF assms(1), of "butlast n"] by (simp add: u256_zero_def split: option.splits)
  moreover have "length (butlast n) = 31" using assms(2) by (simp add: u256_ok_def)
  ultimately have "\<forall>(prefix, bitmap) \<in> set (AList.update (butlast n) (?b[i := v]) m).
      length prefix = 31 \<and> length bitmap = 32" for i v
    using assms(1) upd [of "butlast n" "?b[i := v]" m] unfolding b256_ok_def by auto
  moreover have "keys_distinct m" using assms(1) by (simp add: b256_ok_def)
  ultimately show ?thesis by (simp add: b256_ok_def b256_update_def Let_def)
qed

lemma b256_update_get:
  assumes "b256_ok m" and "u256_ok n" and "u256_ok n'"
  shows "b256_get (fst (b256_update f m n)) n' \<longleftrightarrow>
    (if butlast n' = butlast n \<and> byte_index (last n') = byte_index (last n)
     then bit (f (stored_byte m (butlast n) (byte_index (last n))) (byte_mask (last n))) (unat (last n' mod 8))
     else b256_get m n')"
  by (auto simp: b256_get_bit b256_update_byte [OF assms(1)])

lemma u256_eq_iff:
  "u256_ok n \<Longrightarrow> u256_ok n' \<Longrightarrow> n' = n \<longleftrightarrow> butlast n' = butlast n \<and>
     byte_index (last n') = byte_index (last n) \<and> unat (last n' mod 8) = unat (last n mod 8)"
  by (simp add: split_last byte_split [of "last n'"])

interpretation b256: bit_set b256_get b256_set b256_clear b256_toggle b256_ok u256_ok
proof (unfold_locales, goal_cases)
  case (1 m n n')
  show ?case
    unfolding b256_set_def b256_update_get [OF 1] u256_eq_iff [OF 1(2,3)]
    by (auto simp: bit_or_iff bit_byte_mask b256_get_bit)
next
  case (2 m n n')
  show ?case
    unfolding b256_clear_def b256_update_get [OF 2] u256_eq_iff [OF 2(2,3)]
    by (auto simp: bit_and_iff bit_not_iff bit_byte_mask b256_get_bit dest: bit_imp_le_length)
next
  case (3 m n n')
  show ?case
    unfolding b256_toggle_def b256_update_get [OF 3] u256_eq_iff [OF 3(2,3)]
    by (auto simp: bit_xor_iff bit_byte_mask b256_get_bit)
qed (simp_all add: b256_set_def b256_clear_def b256_toggle_def b256_update_old b256_update_ok)

lemma b256_cleanup_get:
  "b256_get (fst (b256_cleanup_by_prefix m prefix)) n \<longleftrightarrow> butlast n \<noteq> prefix \<and> b256_get m n"
  by (simp add: b256_cleanup_by_prefix_def b256_get_def)

lemma b256_cleanup_ok: "b256_ok m \<Longrightarrow> b256_ok (fst (b256_cleanup_by_prefix m prefix))"
  by (auto simp: b256_cleanup_by_prefix_def b256_ok_def AList.delete_eq distinct_map inj_on_def)

lemma all_bytes: "set all_u8 = UNIV"
proof -
  have "p \<in> word_of_nat ` {0..<256}" for p :: byte
    using unsigned_less [where 'a = nat, of p] by (intro image_eqI [of _ _ "unat p"]) simp_all
  then show ?thesis unfolding all_u8_def by (simp only: set_map set_upt) blast
qed

lemma distinct_bytes: "distinct all_u8"
  unfolding all_u8_def distinct_map
  by (auto simp: inj_on_def word_of_nat_eq_iff take_bit_nat_eq_self simp del: upt_rec_numeral)

lemma b256_iter_mem:
  "n \<in> set (b256_iter m) \<longleftrightarrow> (\<exists>prefix bitmap p. (prefix, bitmap) \<in> set m \<and> n = prefix @ [p] \<and>
     bitmap ! byte_index p AND byte_mask p \<noteq> 0)"
proof -
  have "n \<in> set (b256_iter m) \<longleftrightarrow> (\<exists>(prefix, bitmap) \<in> set m.
      n \<in> (\<lambda>p. prefix @ [p]) ` {p. bitmap ! byte_index p AND byte_mask p \<noteq> 0})"
    by (simp add: b256_iter_def all_bytes split_def)
  also have "\<dots> \<longleftrightarrow> (\<exists>prefix bitmap p. (prefix, bitmap) \<in> set m \<and> n = prefix @ [p] \<and>
      bitmap ! byte_index p AND byte_mask p \<noteq> 0)"
    unfolding image_iff by blast
  finally show ?thesis .
qed

text \<open>Iterating over a nonce bitmap yields exactly the numbers whose bit is set, each once.\<close>

theorem b256_iter_correct:
  assumes "b256_ok m"
  shows "set (b256_iter m) = {n. u256_ok n \<and> b256_get m n} \<and> distinct (b256_iter m)"
proof
  have dist: "keys_distinct m" and len: "\<And>w b. (w, b) \<in> set m \<Longrightarrow> length w = 31"
    using assms by (auto simp: b256_ok_def)
  show "set (b256_iter m) = {n. u256_ok n \<and> b256_get m n}"
  proof (intro set_eqI iffI)
    fix n assume "n \<in> set (b256_iter m)"
    then show "n \<in> {n. u256_ok n \<and> b256_get m n}"
      using dist len by (auto simp: b256_iter_mem u256_ok_def b256_get_def)
  next
    fix n assume "n \<in> {n. u256_ok n \<and> b256_get m n}"
    then have n: "n = butlast n @ [last n]" and get: "b256_get m n"
      by (auto simp: u256_ok_def intro!: append_butlast_last_id [symmetric])
    then show "n \<in> set (b256_iter m)"
      unfolding b256_iter_mem b256_get_def by (auto dest!: map_of_SomeD split: option.splits)
  qed
  let ?f = "\<lambda>(prefix, bitmap). map (\<lambda>p. prefix @ [p])
    (filter (\<lambda>p. bitmap ! byte_index p AND byte_mask p \<noteq> (0::byte)) all_u8)"
  have pieces: "distinct (?f x)" for x
    using distinct_bytes by (cases x) (auto simp: distinct_map inj_on_def intro!: distinct_filter)
  have prefixes: "n \<in> set (?f x) \<Longrightarrow> butlast n = fst x" for n x
    by (cases x) auto
  have "distinct (concat (map ?f m))"
    using dist pieces prefixes by (rule distinct_concat_by_key)
  then show "distinct (b256_iter m)" by (simp add: b256_iter_def)
qed

text \<open>Two numbers in one block and one in another.\<close>

definition sample_u256 :: "byte \<Rightarrow> byte \<Rightarrow> u256" where
  "sample_u256 x y = replicate 30 0 @ [x, y]"

theorem b256_iter_correct_witness:
  "\<exists>m. m = fst (b256_set (fst (b256_set [] (sample_u256 1 5))) (sample_u256 2 255)) \<and>
    set (b256_iter m) = {sample_u256 1 5, sample_u256 2 255} \<and> distinct (b256_iter m)"
proof -
  let ?m1 = "fst (b256_set [] (sample_u256 1 5))" let ?m = "fst (b256_set ?m1 (sample_u256 2 255))"
  have ok: "b256_ok []" "u256_ok (sample_u256 x y)" for x y
    by (simp_all add: b256_ok_def u256_ok_def sample_u256_def)
  have m1: "b256_ok ?m1" using ok b256.inv_ops by blast
  have m: "b256_ok ?m" using m1 ok b256.inv_ops by blast
  have "b256_get [] n = False" for n by (simp add: b256_get_def)
  then have "u256_ok n \<and> b256_get ?m n \<longleftrightarrow> n = sample_u256 1 5 \<or> n = sample_u256 2 255" for n
    using b256.set_get [OF m1 ok(2)] b256.set_get [OF ok] ok(2) by metis
  then show ?thesis
    using b256_iter_correct [OF m] by auto
qed

subsection \<open>BitMap over a machine word\<close>

fun ilog2 :: "nat \<Rightarrow> nat" where
  "ilog2 n = (if n < 2 then 0 else Suc (ilog2 (n div 2)))"

declare ilog2.simps [simp del]

type_synonym 'w bitmap = "('w word \<times> 'w word) list"

definition bits_for_bit_pos :: "'w::len itself \<Rightarrow> nat" where
  "bits_for_bit_pos _ = ilog2 LENGTH('w)"

definition bit_pos_mask :: "'w::len word" where
  "bit_pos_mask = push_bit (bits_for_bit_pos TYPE('w)) 1 - 1"

definition split_word_mask :: "'w::len word \<Rightarrow> 'w word \<times> 'w word" where
  "split_word_mask n = (drop_bit (bits_for_bit_pos TYPE('w)) n, push_bit (unat (n AND bit_pos_mask)) 1)"

definition bm_get :: "'w::len bitmap \<Rightarrow> 'w word \<Rightarrow> bool" where
  "bm_get m n = (let (w, bit_mask) = split_word_mask n in
     case map_of m w of None \<Rightarrow> False | Some bitmap \<Rightarrow> bitmap AND bit_mask \<noteq> 0)"

definition bm_update :: "('w word \<Rightarrow> 'w word \<Rightarrow> 'w word) \<Rightarrow> 'w::len bitmap \<Rightarrow> 'w word \<Rightarrow> 'w bitmap \<times> bool" where
  "bm_update f m n = (let (w, mask) = split_word_mask n; bitmap = entry_read 0 w m in
     (entry_write 0 w (f bitmap mask) m, bitmap AND mask \<noteq> 0))"

definition bm_set :: "'w::len bitmap \<Rightarrow> 'w word \<Rightarrow> 'w bitmap \<times> bool" where
  "bm_set = bm_update (\<lambda>bitmap mask. bitmap OR mask)"

definition bm_clear :: "'w::len bitmap \<Rightarrow> 'w word \<Rightarrow> 'w bitmap \<times> bool" where
  "bm_clear = bm_update (\<lambda>bitmap mask. bitmap AND NOT mask)"

definition bm_toggle :: "'w::len bitmap \<Rightarrow> 'w word \<Rightarrow> 'w bitmap \<times> bool" where
  "bm_toggle = bm_update (\<lambda>bitmap mask. bitmap XOR mask)"

definition bm_set_to :: "'w::len bitmap \<Rightarrow> 'w word \<Rightarrow> bool \<Rightarrow> 'w bitmap \<times> bool" where
  "bm_set_to m n v = (if v then bm_set m n else bm_clear m n)"

text \<open>The width is a power of two, as it is for every primitive integer type.\<close>

definition bm_ok :: "'w::len bitmap \<Rightarrow> bool" where
  "bm_ok m \<longleftrightarrow> entries_ok 0 m \<and> 2 ^ bits_for_bit_pos TYPE('w) = LENGTH('w)"

lemma split_word_mask_alt:
  "split_word_mask (n :: 'w::len word) = (drop_bit (bits_for_bit_pos TYPE('w)) n,
     push_bit (unat (take_bit (bits_for_bit_pos TYPE('w)) n)) 1)"
  by (simp add: split_word_mask_def bit_pos_mask_def take_bit_eq_mask mask_eq_decr_exp push_bit_eq_mult)

definition bit_pos :: "'w::len word \<Rightarrow> nat" where
  "bit_pos n = unat (take_bit (bits_for_bit_pos TYPE('w)) n)"

definition word_pos :: "'w::len word \<Rightarrow> 'w word" where
  "word_pos n = drop_bit (bits_for_bit_pos TYPE('w)) n"

lemma bit_pos_lt: "bm_ok (m :: 'w::len bitmap) \<Longrightarrow> bit_pos (n :: 'w word) < LENGTH('w)"
proof -
  assume "bm_ok m"
  then have w: "2 ^ bits_for_bit_pos TYPE('w) = LENGTH('w)" by (simp add: bm_ok_def)
  have "bit_pos n = take_bit (bits_for_bit_pos TYPE('w)) (unat n)"
    by (simp add: bit_pos_def unsigned_take_bit_eq)
  also have "\<dots> < 2 ^ bits_for_bit_pos TYPE('w)" by simp
  finally show ?thesis by (simp add: w)
qed

lemma word_bit_pos_eq: "n = n' \<longleftrightarrow> word_pos n = word_pos n' \<and> bit_pos n = bit_pos n'"
proof
  assume "word_pos n = word_pos n' \<and> bit_pos n = bit_pos n'"
  then have "drop_bit (bits_for_bit_pos TYPE('a)) n = drop_bit (bits_for_bit_pos TYPE('a)) n'"
    and "take_bit (bits_for_bit_pos TYPE('a)) n = take_bit (bits_for_bit_pos TYPE('a)) n'"
    by (simp_all add: word_pos_def bit_pos_def word_unat_eq_iff)
  then show "n = n'" by (metis bits_ident)
qed simp

lemma bm_get_bit: "entries_ok 0 m \<Longrightarrow> bm_get m n \<longleftrightarrow> bit (entry_read 0 (word_pos n) m) (bit_pos n)"
  by (simp add: bm_get_def split_word_mask_alt map_of_entries_ok bit_iff_and_push_bit_not_eq_0
      flip: word_pos_def bit_pos_def)

lemma bm_update_alt:
  "bm_update f m n = (entry_write 0 (word_pos n) (f (entry_read 0 (word_pos n) m) (push_bit (bit_pos n) 1)) m,
     bit (entry_read 0 (word_pos n) m) (bit_pos n))"
  by (simp add: bm_update_def split_word_mask_alt bit_iff_and_push_bit_not_eq_0 Let_def
      flip: word_pos_def bit_pos_def)

lemma bm_update_ok: "bm_ok m \<Longrightarrow> bm_ok (fst (bm_update f m n))"
  by (simp add: bm_ok_def bm_update_alt)

lemma bm_update_get:
  assumes "bm_ok m"
  shows "bm_get (fst (bm_update f m n)) n' \<longleftrightarrow>
    (if word_pos n' = word_pos n then bit (f (entry_read 0 (word_pos n) m) (push_bit (bit_pos n) 1)) (bit_pos n')
     else bm_get m n')"
  using assms by (auto simp: bm_ok_def bm_get_bit bm_update_alt)

lemma bit_single: "bm_ok (m :: 'w::len bitmap) \<Longrightarrow> bit (2 ^ bit_pos (n :: 'w word) :: 'w word) k \<longleftrightarrow> k = bit_pos n"
  using bit_pos_lt [of m n] by (auto simp: bit_simps)

interpretation bm: bit_set bm_get bm_set bm_clear bm_toggle bm_ok "\<lambda>_. True"
proof (unfold_locales, goal_cases)
  case (1 m n n')
  then have "entries_ok 0 m" by (simp add: bm_ok_def)
  then show ?case
    unfolding bm_set_def bm_update_get [OF 1(1)] word_bit_pos_eq [of n']
    by (auto simp: bit_or_iff bit_single [OF 1(1)] bm_get_bit)
next
  case (2 m n n')
  then have "entries_ok 0 m" by (simp add: bm_ok_def)
  then show ?case
    unfolding bm_clear_def bm_update_get [OF 2(1)] word_bit_pos_eq [of n']
    by (auto simp: bit_and_iff bit_not_iff bit_single [OF 2(1)] bm_get_bit dest: bit_imp_le_length)
next
  case (3 m n n')
  then have "entries_ok 0 m" by (simp add: bm_ok_def)
  then show ?case
    unfolding bm_toggle_def bm_update_get [OF 3(1)] word_bit_pos_eq [of n']
    by (auto simp: bit_xor_iff bit_single [OF 3(1)] bm_get_bit)
qed (simp_all add: bm_set_def bm_clear_def bm_toggle_def bm_update_ok, simp_all add: bm_update_alt bm_get_bit bm_ok_def)

end
