(* ===== verification/CoreTypes.thy ===== *)
theory CoreTypes
  imports TransferMatcher Bitmap
begin

text \<open>
  Types every part of the contract shares: public keys with their implicit account ids
  (\<open>public_key.rs\<close>) and the error type \<open>DefuseError\<close> (\<open>error.rs\<close>).
\<close>

subsection \<open>Public keys\<close>

text \<open>The bytes of the keys: 32 for Ed25519, 64 for the two uncompressed curve points.\<close>

datatype public_key =
    Ed25519 "byte list"
  | Secp256k1 "byte list"
  | P256 "byte list"

text \<open>
  The hash and the hexadecimal codec are external crates: fields of a record. \<open>hex_decode\<close>
  stands for \<open>decode_to_slice\<close> into a buffer of 32 bytes.
\<close>

record codecs =
  keccak256 :: "byte list \<Rightarrow> byte list"
  sha256 :: "byte list \<Rightarrow> byte list"
  hex_encode :: "byte list \<Rightarrow> string"
  hex_decode32 :: "string \<Rightarrow> byte list option"

definition p256_prefix :: "byte list" where
  "p256_prefix = [0x70, 0x32, 0x35, 0x36]"

text \<open>The bytes \<open>12..32\<close> of a digest.\<close>

definition eth_address :: "byte list \<Rightarrow> byte list" where
  "eth_address digest = take 20 (drop 12 digest)"

fun to_implicit_account_id :: "codecs \<Rightarrow> public_key \<Rightarrow> account_id" where
  "to_implicit_account_id C (Ed25519 pk) = hex_encode C pk"
| "to_implicit_account_id C (Secp256k1 pk) = ''0x'' @ hex_encode C (eth_address (keccak256 C pk))"
| "to_implicit_account_id C (P256 pk) = ''0x'' @ hex_encode C (eth_address (keccak256 C (p256_prefix @ pk)))"

definition from_implicit_account_id :: "codecs \<Rightarrow> account_id \<Rightarrow> public_key option" where
  "from_implicit_account_id C a = map_option Ed25519 (hex_decode32 C a)"

text \<open>What the codec promises for 32-byte strings and lowercase hexadecimal text, the only
  kind an account id can hold.\<close>

definition hex_ok :: "codecs \<Rightarrow> bool" where
  "hex_ok C \<longleftrightarrow> (\<forall>b. length b = 32 \<longrightarrow> hex_decode32 C (hex_encode C b) = Some b) \<and>
     (\<forall>b. length (hex_encode C b) = 2 * length b) \<and>
     (\<forall>s b. hex_decode32 C s = Some b \<longrightarrow> length s = 64 \<and> length b = 32)"

lemma implicit_ed25519:
  "hex_ok C \<Longrightarrow> length pk = 32 \<Longrightarrow>
     from_implicit_account_id C (to_implicit_account_id C (Ed25519 pk)) = Some (Ed25519 pk)"
  by (simp add: hex_ok_def from_implicit_account_id_def)

lemma implicit_eth_not_near:
  assumes "hex_ok C" and "length (keccak256 C x) = 32"
  shows "from_implicit_account_id C (''0x'' @ hex_encode C (eth_address (keccak256 C x))) = None"
proof (rule ccontr)
  let ?s = "''0x'' @ hex_encode C (eth_address (keccak256 C x))"
  assume "from_implicit_account_id C ?s \<noteq> None"
  then obtain b where "hex_decode32 C ?s = Some b"
    unfolding from_implicit_account_id_def by blast
  then have "length ?s = 64"
    using assms(1) unfolding hex_ok_def by blast
  moreover have "length ?s = 42"
    using assms by (simp add: hex_ok_def eth_address_def)
  ultimately show False by simp
qed

subsection \<open>Errors\<close>

text \<open>\<open>JSONError\<close> is the variant that wraps \<open>serde_json\<close>'s errors. The last constructor is
  not part of the source's type: it is a panic, with its message.\<close>

datatype defuse_error =
    AccountNotFound account_id
  | AccountLocked account_id
  | AuthByPredecessorIdDisabled account_id
  | BalanceOverflow
  | DeadlineExpired
  | DeadlineGreaterThanNonce
  | GasOverflow
  | InvalidIntent
  | InvalidSignature
  | InvariantViolated invariant_violated
  | JSONError
  | NftAlreadyDeposited account_id string
  | NonceUsed
  | NonceExpired
  | InvalidNonce
  | PublicKeyExists account_id public_key
  | PublicKeyNotExist account_id public_key
  | ParseTokenId token_id_error
  | WrongVerifyingContract
  | InvalidSalt
  | SaltGenerationFailed
  | TokenIdTooLarge nat
  | LogTooLong
  | Panicked string

type_synonym 'a result = "defuse_error + 'a"

end
