(* ===== verification/Nonces.thy ===== *)
theory Nonces
  imports CoreTypes
begin

text \<open>
  Nonces: the sets of used nonces (\<open>core/src/nonce/mod.rs\<close>, with the legacy maps of
  \<open>contract/accounts/account/nonces.rs\<close>) and the structured nonces that carry a salt and a
  deadline (\<open>core/src/nonce/{versioned,salted,expirable}.rs\<close>). Time stamps are integers in
  nanoseconds.
\<close>

type_synonym nonce = u256
type_synonym nonce_prefix = u248
type_synonym salt = "byte list"
type_synonym timestamp = int

subsection \<open>Sets of used nonces\<close>

text \<open>What replay protection relies on, whatever stores the nonces.\<close>

locale nonce_store =
  fixes used :: "'s \<Rightarrow> nonce \<Rightarrow> bool" and commit :: "'s \<Rightarrow> nonce \<Rightarrow> 's result" and inv :: "'s \<Rightarrow> bool"
  assumes commit_ok: "inv s \<Longrightarrow> u256_ok n \<Longrightarrow> \<not> used s n \<Longrightarrow> \<exists>s'. commit s n = Inr s'"
    and commit_used: "inv s \<Longrightarrow> u256_ok n \<Longrightarrow> used s n \<Longrightarrow> commit s n = Inl NonceUsed"
    and used_commit: "inv s \<Longrightarrow> u256_ok n \<Longrightarrow> u256_ok n' \<Longrightarrow> commit s n = Inr s' \<Longrightarrow>
        used s' n' \<longleftrightarrow> n' = n \<or> used s n'"
    and inv_commit: "inv s \<Longrightarrow> u256_ok n \<Longrightarrow> commit s n = Inr s' \<Longrightarrow> inv s'"
begin

lemma commit_once: "inv s \<Longrightarrow> u256_ok n \<Longrightarrow> commit s n = Inr s' \<Longrightarrow> commit s' n = Inl NonceUsed"
  by (rule commit_used) (blast intro: inv_commit dest: used_commit)+

text \<open>A sequence of nonces commits exactly when it has no repetition and none was used.\<close>

lemma commit_all:
  assumes "inv s" and "\<forall>n \<in> set ns. u256_ok n"
  shows "is_ok (fold_r (\<lambda>n s. commit s n) ns s) \<longleftrightarrow> distinct ns \<and> (\<forall>n \<in> set ns. \<not> used s n)"
  using assms
proof (induction ns arbitrary: s)
  case (Cons n ns)
  show ?case
  proof (cases "used s n")
    case True
    then show ?thesis using Cons.prems by (simp add: commit_used)
  next
    case False
    have n: "u256_ok n" using Cons.prems by simp
    obtain s' where s': "commit s n = Inr s'" using commit_ok [OF Cons.prems(1) n False] by blast
    have inv': "inv s'" using Cons.prems(1) n s' by (rule inv_commit)
    have "used s' m \<longleftrightarrow> m = n \<or> used s m" if "m \<in> set ns" for m
      by (rule used_commit [OF Cons.prems(1) n _ s']) (use Cons.prems(2) that in simp)
    then show ?thesis
      using False s' Cons.IH [OF inv'] Cons.prems(2) by auto
  qed
qed simp

end

definition nonces_commit :: "bitmap256 \<Rightarrow> nonce \<Rightarrow> bitmap256 result" where
  "nonces_commit m n = (case b256_set m n of (m', old) \<Rightarrow> if old then Inl NonceUsed else Inr m')"

definition nonces_is_used :: "bitmap256 \<Rightarrow> nonce \<Rightarrow> bool" where
  "nonces_is_used = b256_get"

definition nonces_cleanup_by_prefix :: "bitmap256 \<Rightarrow> nonce_prefix \<Rightarrow> bitmap256 \<times> bool" where
  "nonces_cleanup_by_prefix = b256_cleanup_by_prefix"

definition nonces_iter :: "bitmap256 \<Rightarrow> nonce list" where
  "nonces_iter = b256_iter"

lemma nonces_commit_alt:
  "nonces_commit m n = (if snd (b256_set m n) then Inl NonceUsed else Inr (fst (b256_set m n)))"
  by (simp add: nonces_commit_def split_def)

interpretation core_nonces: nonce_store nonces_is_used nonces_commit b256_ok
proof (unfold_locales, goal_cases)
  case (3 s n n' s')
  then show ?case
    using b256.set_get [of s n n'] by (auto simp: nonces_is_used_def nonces_commit_alt split: if_splits)
next
  case (4 s n s')
  then show ?case
    using b256.inv_ops [of s n] by (auto simp: nonces_commit_alt split: if_splits)
qed (simp_all add: nonces_commit_alt nonces_is_used_def b256.set_old)

record maybe_legacy_nonces =
  ml_nonces :: bitmap256
  ml_legacy :: "bitmap256 option"

definition ml_new :: maybe_legacy_nonces where
  "ml_new = \<lparr> ml_nonces = [], ml_legacy = None \<rparr>"

definition ml_with_legacy :: "bitmap256 \<Rightarrow> maybe_legacy_nonces" where
  "ml_with_legacy legacy = \<lparr> ml_nonces = [], ml_legacy = Some legacy \<rparr>"

definition legacy_used :: "maybe_legacy_nonces \<Rightarrow> nonce \<Rightarrow> bool" where
  "legacy_used s n = (case ml_legacy s of None \<Rightarrow> False | Some l \<Rightarrow> nonces_is_used l n)"

definition ml_commit :: "maybe_legacy_nonces \<Rightarrow> nonce \<Rightarrow> maybe_legacy_nonces result" where
  "ml_commit s n =
     (if legacy_used s n then Inl NonceUsed
      else bind_r (nonces_commit (ml_nonces s) n) (\<lambda>m. Inr (s\<lparr>ml_nonces := m\<rparr>)))"

definition ml_is_used :: "maybe_legacy_nonces \<Rightarrow> nonce \<Rightarrow> bool" where
  "ml_is_used s n \<longleftrightarrow> nonces_is_used (ml_nonces s) n \<or> legacy_used s n"

definition ml_cleanup_by_prefix :: "maybe_legacy_nonces \<Rightarrow> nonce_prefix \<Rightarrow> maybe_legacy_nonces \<times> bool" where
  "ml_cleanup_by_prefix s p =
     (case nonces_cleanup_by_prefix (ml_nonces s) p of (m, b) \<Rightarrow> (s\<lparr>ml_nonces := m\<rparr>, b))"

definition ml_ok :: "maybe_legacy_nonces \<Rightarrow> bool" where
  "ml_ok s \<longleftrightarrow> b256_ok (ml_nonces s)"

interpretation account_nonces: nonce_store ml_is_used ml_commit ml_ok
proof (unfold_locales, goal_cases)
  case (1 s n)
  then show ?case
    using core_nonces.commit_ok [of "ml_nonces s" n] by (auto simp: ml_is_used_def ml_commit_def ml_ok_def)
next
  case (2 s n)
  then show ?case
    using core_nonces.commit_used [of "ml_nonces s" n] by (auto simp: ml_is_used_def ml_commit_def ml_ok_def)
next
  case (3 s n n' s')
  then show ?case
    using core_nonces.used_commit [of "ml_nonces s" n n']
    by (auto simp: ml_is_used_def ml_commit_def ml_ok_def legacy_used_def result_simps split: if_splits)
next
  case (4 s n s')
  then show ?case
    using core_nonces.inv_commit [of "ml_nonces s" n]
    by (auto simp: ml_commit_def ml_ok_def result_simps split: if_splits)
qed

lemma ml_cleanup_used:
  "ml_is_used (fst (ml_cleanup_by_prefix s p)) n \<longleftrightarrow>
     (butlast n \<noteq> p \<and> nonces_is_used (ml_nonces s) n) \<or> legacy_used s n"
  using b256_cleanup_get [of "ml_nonces s" p n]
  by (auto simp: ml_cleanup_by_prefix_def nonces_cleanup_by_prefix_def ml_is_used_def nonces_is_used_def
      legacy_used_def split: prod.splits)

lemma ml_cleanup_ok: "ml_ok s \<Longrightarrow> ml_ok (fst (ml_cleanup_by_prefix s p))"
  using b256_cleanup_ok [of "ml_nonces s" p]
  by (auto simp: ml_cleanup_by_prefix_def nonces_cleanup_by_prefix_def ml_ok_def split: prod.splits)

subsection \<open>Versioned nonces\<close>

text \<open>Borsh writes integers in little-endian two's complement.\<close>

fun le_bytes :: "nat \<Rightarrow> int \<Rightarrow> byte list" where
  "le_bytes 0 x = []"
| "le_bytes (Suc n) x = word_of_int x # le_bytes n (x div 256)"

fun from_le :: "byte list \<Rightarrow> int" where
  "from_le [] = 0"
| "from_le (b # bs) = uint b + 256 * from_le bs"

definition i64_of :: "int \<Rightarrow> int" where
  "i64_of u = (if u < 2 ^ 63 then u else u - 2 ^ 64)"

record expirable_nonce =
  en_deadline :: timestamp
  en_nonce :: "byte list"

record salted_nonce =
  sn_salt :: salt
  sn_nonce :: expirable_nonce

datatype versioned_nonce = V1 salted_nonce

definition has_expired :: "timestamp \<Rightarrow> expirable_nonce \<Rightarrow> bool" where
  "has_expired now e \<longleftrightarrow> en_deadline e < now"

definition VERSIONED_MAGIC_PREFIX :: "byte list" where
  "VERSIONED_MAGIC_PREFIX = [0x56, 0x28, 0xf6, 0xc6]"

text \<open>The writer's error, when the deadline in nanoseconds does not fit \<open>i64\<close>, reaches the
  \<open>unreachable!()\<close> of \<open>From<VersionedNonce> for Nonce\<close>: \<open>None\<close>.\<close>

fun serialize_versioned :: "versioned_nonce \<Rightarrow> byte list option" where
  "serialize_versioned (V1 s) =
     (case fit_i 64 (en_deadline (sn_nonce s)) of
        None \<Rightarrow> None
      | Some d \<Rightarrow> Some (0 # sn_salt s @ le_bytes 8 d @ en_nonce (sn_nonce s)))"

definition nonce_from_versioned :: "versioned_nonce \<Rightarrow> nonce option" where
  "nonce_from_versioned v = map_option (\<lambda>b. VERSIONED_MAGIC_PREFIX @ b) (serialize_versioned v)"

text \<open>\<open>from_nanos\<close> is the constructor of the crate \<open>time\<close>, which rejects dates out of range.\<close>

definition deserialize_versioned :: "(int \<Rightarrow> timestamp option) \<Rightarrow> byte list \<Rightarrow> versioned_nonce option" where
  "deserialize_versioned from_nanos bs =
     (if length bs < 28 \<or> hd bs \<noteq> 0 then None
      else case from_nanos (i64_of (from_le (take 8 (drop 5 bs)))) of
          None \<Rightarrow> None
        | Some deadline \<Rightarrow> Some (V1 \<lparr> sn_salt = take 4 (drop 1 bs),
            sn_nonce = \<lparr> en_deadline = deadline, en_nonce = take 15 (drop 13 bs) \<rparr> \<rparr>))"

definition maybe_from :: "(int \<Rightarrow> timestamp option) \<Rightarrow> nonce \<Rightarrow> versioned_nonce option" where
  "maybe_from from_nanos n =
     (if take 4 n = VERSIONED_MAGIC_PREFIX then deserialize_versioned from_nanos (drop 4 n) else None)"

fun versioned_ok :: "versioned_nonce \<Rightarrow> bool" where
  "versioned_ok (V1 s) \<longleftrightarrow> length (sn_salt s) = 4 \<and> length (en_nonce (sn_nonce s)) = 15 \<and>
     i_min 64 \<le> en_deadline (sn_nonce s) \<and> en_deadline (sn_nonce s) \<le> i_max 64"

definition nanos_ok :: "(int \<Rightarrow> timestamp option) \<Rightarrow> bool" where
  "nanos_ok from_nanos \<longleftrightarrow> (\<forall>d. i_min 64 \<le> d \<and> d \<le> i_max 64 \<longrightarrow> from_nanos d = Some d)"

lemma length_le_bytes [simp]: "length (le_bytes n x) = n"
  by (induction n arbitrary: x) simp_all

lemma from_le_le_bytes: "from_le (le_bytes n x) = x mod 256 ^ n"
proof (induction n arbitrary: x)
  case (Suc n)
  have "uint (word_of_int x :: byte) = x mod 256" by (simp add: uint_word_of_int)
  then show ?case
    using Suc zmod_zmult2_eq [of "256 ^ n" x 256] by simp
qed simp

lemma byte_256: "(256 :: byte) = 0"
  by (simp add: word_uint_eq_iff)

lemma le_bytes_from_le: "le_bytes (length bs) (from_le bs) = bs"
proof (induction bs)
  case (Cons b bs)
  have "uint b < 256" using unsigned_less [where 'a = int, of b] by simp
  then have "(uint b + 256 * from_le bs) div 256 = from_le bs" by simp
  moreover have "word_of_int (uint b + 256 * from_le bs) = b"
    by (simp add: byte_256)
  ultimately show ?case using Cons by simp
qed simp

lemma from_le_bounds: "0 \<le> from_le bs \<and> from_le bs < 256 ^ length bs"
proof -
  have "from_le bs mod 256 ^ length bs = from_le bs"
    using from_le_le_bytes [of "length bs" "from_le bs"] by (simp add: le_bytes_from_le)
  then show ?thesis by (metis pos_mod_bound pos_mod_sign zero_less_numeral zero_less_power)
qed

lemma i64_decode:
  assumes "i_min 64 \<le> d" and "d \<le> i_max 64"
  shows "i64_of (from_le (le_bytes 8 d)) = d"
proof (cases "0 \<le> d")
  case True
  then show ?thesis
    using assms unfolding from_le_le_bytes i64_of_def i_max_def by (simp add: mod_pos_pos_trivial)
next
  case False
  have "d mod 2 ^ 64 = (d + 2 ^ 64) mod 2 ^ 64" by simp
  also have "\<dots> = d + 2 ^ 64"
    using False assms(1) by (intro mod_pos_pos_trivial) (simp_all add: i_min_def)
  finally show ?thesis
    using False assms(1) unfolding from_le_le_bytes i64_of_def i_min_def by simp
qed

lemma le_bytes_mod: "le_bytes n (x mod 256 ^ n) = le_bytes n x"
  using le_bytes_from_le [of "le_bytes n x"] by (simp add: from_le_le_bytes)

lemma i64_encode: "length bs = 8 \<Longrightarrow> le_bytes 8 (i64_of (from_le bs)) = bs"
proof -
  assume l: "length bs = 8"
  have "le_bytes 8 (from_le bs - 2 ^ 64) = le_bytes 8 (from_le bs)"
    using le_bytes_mod [of 8 "from_le bs - 2 ^ 64"] le_bytes_mod [of 8 "from_le bs"] by simp
  then show ?thesis using le_bytes_from_le [of bs] l by (simp add: i64_of_def)
qed

lemma i64_of_range: "length bs = 8 \<Longrightarrow> i_min 64 \<le> i64_of (from_le bs) \<and> i64_of (from_le bs) \<le> i_max 64"
  using from_le_bounds [of bs] by (simp add: i64_of_def i_min_def i_max_def)

lemma versioned_decode_encode:
  assumes "nanos_ok from_nanos" and "versioned_ok v" and "nonce_from_versioned v = Some n"
  shows "maybe_from from_nanos n = Some v"
proof -
  obtain s where v: "v = V1 s" by (cases v)
  let ?d = "en_deadline (sn_nonce s)"
  have d: "i_min 64 \<le> ?d" "?d \<le> i_max 64" and l: "length (sn_salt s) = 4" "length (en_nonce (sn_nonce s)) = 15"
    using assms(2) v by simp_all
  have n: "n = VERSIONED_MAGIC_PREFIX @ 0 # sn_salt s @ le_bytes 8 ?d @ en_nonce (sn_nonce s)"
    using assms(3) v d by (simp add: nonce_from_versioned_def fit_i_def split: if_splits)
  have "from_nanos (i64_of (from_le (le_bytes 8 ?d))) = Some ?d"
    using assms(1) d by (simp add: nanos_ok_def i64_decode)
  then show ?thesis
    using v l by (simp add: n maybe_from_def VERSIONED_MAGIC_PREFIX_def deserialize_versioned_def)
qed

lemma split28: "length bs = 28 \<Longrightarrow> bs = hd bs # take 4 (drop 1 bs) @ take 8 (drop 5 bs) @ take 15 (drop 13 bs)"
proof (cases bs)
  case (Cons b cs)
  assume "length bs = 28"
  then have l: "length cs = 27" using Cons by simp
  have "cs = take 4 cs @ take 8 (drop 4 cs) @ drop 8 (drop 4 cs)" by (simp only: append_take_drop_id)
  also have "drop 8 (drop 4 cs) = take 15 (drop 12 cs)" using l by simp
  finally show ?thesis using Cons by simp
qed simp

lemma versioned_encode_decode:
  assumes "nanos_ok from_nanos" and "u256_ok n" and "maybe_from from_nanos n = Some v"
  shows "versioned_ok v \<and> nonce_from_versioned v = Some n"
proof -
  let ?bs = "drop 4 n" let ?d = "i64_of (from_le (take 8 (drop 5 ?bs)))"
  have l: "length ?bs = 28" using assms(2) by (simp add: u256_ok_def)
  then have l8: "length (take 8 (drop 5 ?bs)) = 8" by simp
  have d: "i_min 64 \<le> ?d \<and> ?d \<le> i_max 64" by (rule i64_of_range [OF l8])
  then have nan: "from_nanos ?d = Some ?d" using assms(1) by (simp add: nanos_ok_def)
  have pre: "take 4 n = VERSIONED_MAGIC_PREFIX" and "deserialize_versioned from_nanos ?bs = Some v"
    using assms(3) by (auto simp: maybe_from_def split: if_splits)
  then have h: "hd ?bs = 0" and v: "v = V1 \<lparr> sn_salt = take 4 (drop 1 ?bs),
      sn_nonce = \<lparr> en_deadline = ?d, en_nonce = take 15 (drop 13 ?bs) \<rparr> \<rparr>"
    using nan by (auto simp: deserialize_versioned_def split: if_splits)
  have "serialize_versioned v = Some (0 # take 4 (drop 1 ?bs) @ le_bytes 8 ?d @ take 15 (drop 13 ?bs))"
    using d by (simp only: v serialize_versioned.simps) (simp add: fit_i_def)
  also have "\<dots> = Some ?bs"
    by (simp only: i64_encode [OF l8] split28 [OF l, unfolded h, symmetric])
  finally have "nonce_from_versioned v = Some n"
    using pre append_take_drop_id [of 4 n] by (simp add: nonce_from_versioned_def)
  moreover have "length (take 4 (drop 1 ?bs)) = 4" "length (take 15 (drop 13 ?bs)) = 15"
    using l by simp_all
  ultimately show ?thesis
    using d unfolding v versioned_ok.simps salted_nonce.simps expirable_nonce.simps by blast
qed

text \<open>C40: a structured nonce and its 32 bytes determine each other: decoding what was
  encoded gives the nonce back, and whatever decodes is the encoding of what it decodes to,
  with a deadline in the range of \<open>i64\<close> nanoseconds.\<close>

theorem versioned_nonce_round_trip:
  assumes "nanos_ok from_nanos" and "versioned_ok v" and "nonce_from_versioned v = Some n"
    and "u256_ok m" and "maybe_from from_nanos m = Some w"
  shows "maybe_from from_nanos n = Some v \<and> versioned_ok w \<and> nonce_from_versioned w = Some m"
  using versioned_decode_encode [OF assms(1-3)] versioned_encode_decode [OF assms(1,4,5)] by blast

definition sample_nonce :: versioned_nonce where
  "sample_nonce = V1 \<lparr> sn_salt = [1, 2, 3, 4],
     sn_nonce = \<lparr> en_deadline = 1700000000000000000, en_nonce = replicate 15 7 \<rparr> \<rparr>"

theorem versioned_nonce_round_trip_witness:
  "\<exists>n. nonce_from_versioned sample_nonce = Some n \<and> maybe_from Some n = Some sample_nonce \<and> versioned_ok sample_nonce"
proof -
  have ok: "versioned_ok sample_nonce"
    by (simp add: sample_nonce_def i_min_def i_max_def)
  obtain n where n: "nonce_from_versioned sample_nonce = Some n" and l: "u256_ok n"
    by (simp add: sample_nonce_def nonce_from_versioned_def fit_i_def i_min_def i_max_def u256_ok_def
        VERSIONED_MAGIC_PREFIX_def)
  have nan: "nanos_ok Some" by (simp add: nanos_ok_def)
  have "maybe_from Some n = Some sample_nonce"
    by (rule versioned_decode_encode [OF nan ok n])
  from versioned_nonce_round_trip [OF nan ok n l this] n show ?thesis by blast
qed

text \<open>Encoding a structured nonce aborts exactly when its deadline is not representable as
  \<open>i64\<close> nanoseconds (before the year 1677 or after 2262), although the source marks this
  branch unreachable.\<close>

theorem nonce_encoding_aborts:
  "nonce_from_versioned (V1 s) = None \<longleftrightarrow>
     en_deadline (sn_nonce s) < i_min 64 \<or> i_max 64 < en_deadline (sn_nonce s)"
  by (auto simp: nonce_from_versioned_def fit_i_def not_le split: option.splits if_splits)

end
