(* ===== verification/Fees.thy ===== *)
theory Fees
  imports NumUtils
begin

text \<open>
  The crate \<open>fees\<close>: \<open>Pips\<close>, a fraction in units of one millionth, and the two fee
  functions, rounding down and rounding up. A panicking \<open>unwrap\<close> or \<open>unreachable!()\<close>
  is \<open>None\<close>.
\<close>

datatype pips = Pips (as_pips: nat)

definition pips_zero :: pips where "pips_zero = Pips 0"
definition one_pip :: pips where "one_pip = Pips 1"
definition one_bip :: pips where "one_bip = Pips (as_pips one_pip * 100)"
definition one_percent :: pips where "one_percent = Pips (as_pips one_bip * 100)"
definition pips_max :: pips where "pips_max = Pips (as_pips one_percent * 100)"

definition from_pips :: "nat \<Rightarrow> pips option" where
  "from_pips p = (if as_pips pips_max < p then None else Some (Pips p))"

definition pips_checked_mul :: "pips \<Rightarrow> nat \<Rightarrow> pips option" where
  "pips_checked_mul p r =
     (case checked_mul_u 32 (as_pips p) r of None \<Rightarrow> None | Some x \<Rightarrow> from_pips x)"

definition from_bips :: "nat \<Rightarrow> pips option" where
  "from_bips b = pips_checked_mul one_bip b"

definition from_percent :: "nat \<Rightarrow> pips option" where
  "from_percent c = pips_checked_mul one_percent c"

definition as_bips :: "pips \<Rightarrow> nat" where
  "as_bips p = as_pips p div as_pips one_bip"

definition as_percent :: "pips \<Rightarrow> nat" where
  "as_percent p = as_pips p div as_pips one_percent"

definition pips_is_zero :: "pips \<Rightarrow> bool" where
  "pips_is_zero p \<longleftrightarrow> as_pips p = 0"

definition pips_checked_add :: "pips \<Rightarrow> pips \<Rightarrow> pips option" where
  "pips_checked_add p q =
     (case checked_add_u 32 (as_pips p) (as_pips q) of None \<Rightarrow> None | Some x \<Rightarrow> from_pips x)"

definition pips_checked_sub :: "pips \<Rightarrow> pips \<Rightarrow> pips option" where
  "pips_checked_sub p q =
     (case checked_sub_u 32 (as_pips p) (as_pips q) of None \<Rightarrow> None | Some x \<Rightarrow> from_pips x)"

definition pips_checked_div :: "pips \<Rightarrow> nat \<Rightarrow> pips option" where
  "pips_checked_div p r = map_option Pips (checked_div_u (as_pips p) r)"

text \<open>\<open>MAX - self\<close> cannot underflow on the values the constructors build (\<open>pips_ok\<close>).\<close>

definition invert :: "pips \<Rightarrow> pips" where
  "invert p = Pips (as_pips pips_max - as_pips p)"

definition fee :: "wide \<Rightarrow> pips \<Rightarrow> nat \<Rightarrow> nat option" where
  "fee W p amount = checked_mul_div_u128 W amount (as_pips p) (as_pips pips_max)"

definition fee_ceil :: "wide \<Rightarrow> pips \<Rightarrow> nat \<Rightarrow> nat option" where
  "fee_ceil W p amount = checked_mul_div_ceil_u128 W amount (as_pips p) (as_pips pips_max)"

definition pips_ok :: "pips \<Rightarrow> bool" where
  "pips_ok p \<longleftrightarrow> as_pips p \<le> as_pips pips_max"

lemma pips_max_val [simp]: "as_pips pips_max = 1000000"
  by (simp add: pips_max_def one_percent_def one_bip_def one_pip_def)

lemma pips_ok_constructors:
  "from_pips n = Some p \<Longrightarrow> pips_ok p"
  "pips_checked_add p q = Some r \<Longrightarrow> pips_ok r"
  "pips_checked_sub p q = Some r \<Longrightarrow> pips_ok r"
  "pips_checked_mul p n = Some r \<Longrightarrow> pips_ok r"
  "pips_ok p \<Longrightarrow> pips_checked_div p n = Some r \<Longrightarrow> pips_ok r"
  "pips_ok (invert p)"
  by (auto simp: from_pips_def pips_ok_def pips_checked_add_def pips_checked_sub_def
      pips_checked_mul_def pips_checked_div_def checked_div_u_def invert_def
      split: if_splits option.splits intro: le_trans [OF div_le_dividend])

subsection \<open>The two fee functions\<close>

lemma pips_product_small:
  assumes "pips_ok p" and "amount \<le> u_max 128"
  shows "\<bar>int amount\<bar> < 2 ^ 128" and "\<bar>int (as_pips p)\<bar> < 2 ^ 127"
    and "\<bar>int amount * int (as_pips p)\<bar> < 2 ^ 255"
proof -
  show a: "\<bar>int amount\<bar> < 2 ^ 128" and p: "\<bar>int (as_pips p)\<bar> < 2 ^ 127"
    using assms by (simp_all add: pips_ok_def u_max_def)
  have "int amount * int (as_pips p) \<le> (2 ^ 128) * 1000000"
    using a assms(1) by (intro mult_mono) (simp_all add: pips_ok_def)
  then show "\<bar>int amount * int (as_pips p)\<bar> < 2 ^ 255" by simp
qed

lemma share_le: "n \<le> 1000000 \<Longrightarrow> amount * n div 1000000 \<le> (amount::nat)"
  using div_le_mono [OF mult_le_mono2, of n 1000000 amount 1000000] by simp

lemma fee_value:
  assumes "wide_ok W" and "pips_ok p" and "amount \<le> u_max 128"
  shows "fee W p amount = Some (amount * as_pips p div 1000000)"
proof -
  note small = pips_product_small [OF assms(2,3)]
  have q: "amount * as_pips p div 1000000 \<le> amount"
    using assms(2) by (intro share_le) (simp add: pips_ok_def)
  have "w_div W (w_mul W (int amount) (int (as_pips p))) 1000000 =
      int (amount * as_pips p) div 1000000"
    using assms(1) small by (simp add: wide_ok_def sgn_if)
  then show ?thesis
    using q assms(3) by (simp add: fee_def checked_mul_div_u128_def zdiv_int)
qed

lemma fee_ceil_value:
  assumes "wide_ok W" and "pips_ok p" and "amount \<le> u_max 128"
  shows "fee_ceil W p amount = Some (amount - amount * (1000000 - as_pips p) div 1000000)"
proof -
  let ?q = "amount * (1000000 - as_pips p) div 1000000"
  note small = pips_product_small [OF assms(2,3)]
  have q: "?q \<le> amount" by (rule share_le) simp
  have p: "as_pips p \<le> 1000000" using assms(2) by (simp add: pips_ok_def)
  have split: "int amount * int (as_pips p) =
      int amount * 1000000 - int (amount * (1000000 - as_pips p))"
    using p by (simp add: of_nat_diff algebra_simps)
  have "w_div_ceil W (w_mul W (int amount) (int (as_pips p))) 1000000 =
      - ((- (int amount * int (as_pips p))) div 1000000)"
    using assms(1) small by (simp add: wide_ok_def)
  also have "\<dots> = int amount - int (amount * (1000000 - as_pips p)) div 1000000"
    unfolding split by (rule ceil_div_floor) simp
  also have "\<dots> = int (amount - ?q)"
    using q by (simp add: of_nat_diff zdiv_int)
  finally show ?thesis
    using assms(3) by (simp add: fee_ceil_def checked_mul_div_ceil_u128_def)
qed

text \<open>C36: the fee rounded up always exists and is the exact fee, the amount times the pips over a
  million, rounded up to a unit: at least the exact fee and less than one unit above it. It never
  exceeds the amount, the fee rounded down is at most the exact fee and less than a unit below it, and
  what is left after the fee rounded up is exactly the inverse share rounded down.\<close>

theorem fee_ceil_bounds:
  assumes "wide_ok W" and "pips_ok p" and "amount \<le> u_max 128"
  shows "\<exists>up down. fee_ceil W p amount = Some up \<and> fee W p amount = Some down \<and>
    amount * as_pips p \<le> up * 1000000 \<and> up * 1000000 < amount * as_pips p + 1000000 \<and> up \<le> amount \<and>
    down * 1000000 \<le> amount * as_pips p \<and> amount * as_pips p < down * 1000000 + 1000000 \<and>
    fee W (invert p) amount = Some (amount - up)"
proof -
  let ?rest = "amount * (1000000 - as_pips p) div 1000000"
  let ?down = "amount * as_pips p div 1000000"
  have p: "as_pips p \<le> 1000000" using assms(2) by (simp add: pips_ok_def)
  have "amount * (1000000 - as_pips p) + amount * as_pips p = amount * 1000000"
    using p by (simp flip: distrib_left)
  then have up: "amount * as_pips p \<le> (amount - ?rest) * 1000000" "(amount - ?rest) * 1000000 < amount * as_pips p + 1000000"
    and rest: "?rest \<le> amount"
    by linarith+
  have down: "?down * 1000000 \<le> amount * as_pips p" "amount * as_pips p < ?down * 1000000 + 1000000"
    by linarith+
  show ?thesis
    using fee_ceil_value [OF assms] fee_value [OF assms] up down rest
      fee_value [OF assms(1) pips_ok_constructors(6) assms(3), of p]
    by (simp add: invert_def)
qed

theorem fee_ceil_bounds_witness:
  "\<exists>up down. fee_ceil exact_wide one_percent 12345 = Some up \<and> fee exact_wide one_percent 12345 = Some down \<and>
    12345 * as_pips one_percent \<le> up * 1000000 \<and> up * 1000000 < 12345 * as_pips one_percent + 1000000 \<and> up \<le> 12345 \<and>
    down * 1000000 \<le> 12345 * as_pips one_percent \<and> 12345 * as_pips one_percent < down * 1000000 + 1000000 \<and>
    fee exact_wide (invert one_percent) 12345 = Some (12345 - up)"
  by (rule fee_ceil_bounds [OF wide_ok_exact])
    (simp_all add: pips_ok_def one_percent_def one_bip_def one_pip_def u_max_def)

end
