(* ===== verification/Intents.thy ===== *)
theory Intents
  imports Nonces Fees
begin

text \<open>
  The intents a user can sign (\<open>core/src/intents\<close>), the gas each withdrawal reserves, the
  fee arithmetic of token diffs (\<open>token_diff.rs\<close>) and the events of the contract
  (\<open>core/src/events/mod.rs\<close>, \<open>accounts.rs\<close>, \<open>tokens.rs\<close>). The state-init of a receiver
  contract is passed through unread: its bytes.
\<close>

type_synonym gas = nat
type_synonym near_token = nat
type_synonym state_init = "byte list"
type_synonym intent_hash = "byte list"

definition tgas :: "nat \<Rightarrow> gas" where "tgas n = n * 1000000000000"

definition MAX_TOKEN_ID_LEN :: nat where "MAX_TOKEN_ID_LEN = 127"
definition MT_ON_TRANSFER_GAS_MIN :: gas where "MT_ON_TRANSFER_GAS_MIN = tgas 5"
definition MT_ON_TRANSFER_GAS_DEFAULT :: gas where "MT_ON_TRANSFER_GAS_DEFAULT = tgas 30"

definition unwrap_or :: "'a option \<Rightarrow> 'a \<Rightarrow> 'a" where
  "unwrap_or m d = (case m of None \<Rightarrow> d | Some x \<Rightarrow> x)"

subsection \<open>The intents\<close>

record notify_on_transfer =
  no_state_init :: "state_init option"
  no_msg :: string
  no_min_gas :: "gas option"

text \<open>What \<open>Transfer\<close> and \<open>imt_mint\<close> do to the notification before sending it.\<close>

definition adjust_min_gas :: "notify_on_transfer \<Rightarrow> notify_on_transfer" where
  "adjust_min_gas n =
     n\<lparr>no_min_gas := Some (max (unwrap_or (no_min_gas n) MT_ON_TRANSFER_GAS_DEFAULT) MT_ON_TRANSFER_GAS_MIN)\<rparr>"

record transfer_intent =
  ti_receiver_id :: account_id
  ti_tokens :: "token_id amounts"
  ti_memo :: "string option"
  ti_notification :: "notify_on_transfer option"

record ft_withdraw =
  fw_token :: account_id
  fw_receiver_id :: account_id
  fw_amount :: nat
  fw_memo :: "string option"
  fw_msg :: "string option"
  fw_storage_deposit :: "near_token option"
  fw_min_gas :: "gas option"

record nft_withdraw =
  nw_token :: account_id
  nw_receiver_id :: account_id
  nw_token_id :: string
  nw_memo :: "string option"
  nw_msg :: "string option"
  nw_storage_deposit :: "near_token option"
  nw_min_gas :: "gas option"

record mt_withdraw =
  mw_token :: account_id
  mw_receiver_id :: account_id
  mw_token_ids :: "string list"
  mw_amounts :: "nat list"
  mw_memo :: "string option"
  mw_msg :: "string option"
  mw_storage_deposit :: "near_token option"
  mw_min_gas :: "gas option"

record native_withdraw =
  nat_receiver_id :: account_id
  nat_amount :: near_token

record storage_deposit =
  sd_contract_id :: account_id
  sd_deposit_for_account_id :: account_id
  sd_amount :: near_token

record token_diff =
  td_diff :: "token_id deltas"
  td_memo :: "string option"
  td_referral :: "account_id option"

record auth_call =
  ac_contract_id :: account_id
  ac_state_init :: "state_init option"
  ac_msg :: string
  ac_attached_deposit :: near_token
  ac_min_gas :: "gas option"

record imt_mint =
  im_receiver_id :: account_id
  im_tokens :: "string amounts"
  im_memo :: "string option"
  im_notification :: "notify_on_transfer option"

record imt_burn =
  ib_minter_id :: account_id
  ib_tokens :: "string amounts"
  ib_memo :: "string option"

datatype intent =
    AddPublicKey public_key
  | RemovePublicKey public_key
  | Transfer transfer_intent
  | FtWithdraw ft_withdraw
  | NftWithdraw nft_withdraw
  | MtWithdraw mt_withdraw
  | NativeWithdraw native_withdraw
  | StorageDeposit storage_deposit
  | TokenDiff token_diff
  | SetAuthByPredecessorId bool
  | AuthCall auth_call
  | ImtMint imt_mint
  | ImtBurn imt_burn

text \<open>The wrapping of minted token ids, with the check of their length.\<close>

fun into_generic_tokens :: "account_id \<Rightarrow> string amounts \<Rightarrow> token_id amounts result" where
  "into_generic_tokens minter [] = Inr []"
| "into_generic_tokens minter ((t, amount) # ts) =
     bind_r (require_r (length t \<le> MAX_TOKEN_ID_LEN) (TokenIdTooLarge (length t))) (\<lambda>_.
     bind_r (into_generic_tokens minter ts) (\<lambda>rest. Inr ((Imt minter t, amount) # rest)))"

subsection \<open>Gas\<close>

definition min_gas :: "gas option \<Rightarrow> bool \<Rightarrow> gas \<times> gas \<Rightarrow> gas \<times> gas \<Rightarrow> gas" where
  "min_gas requested is_call call plain =
     (let (mn, default) = (if is_call then call else plain) in max (unwrap_or requested default) mn)"

definition ft_min_gas :: "ft_withdraw \<Rightarrow> gas" where
  "ft_min_gas w = min_gas (fw_min_gas w) (fw_msg w \<noteq> None) (tgas 30, tgas 50) (tgas 15, tgas 15)"

definition nft_min_gas :: "nft_withdraw \<Rightarrow> gas" where
  "nft_min_gas w = min_gas (nw_min_gas w) (nw_msg w \<noteq> None) (tgas 30, tgas 50) (tgas 15, tgas 15)"

definition mt_min_gas :: "mt_withdraw \<Rightarrow> gas" where
  "mt_min_gas w = min_gas (mw_min_gas w) (mw_msg w \<noteq> None) (tgas 35, tgas 50) (tgas 20, tgas 20)"

definition auth_call_min_gas :: "auth_call \<Rightarrow> gas" where
  "auth_call_min_gas a = unwrap_or (ac_min_gas a) (tgas 10)"

subsection \<open>Events\<close>

text \<open>An event about an account, with the hash of the intent that caused it, if any.\<close>

record 'e account_event =
  ae_intent_hash :: "intent_hash option"
  ae_account_id :: account_id
  ae_event :: 'e

definition intent_event :: "intent_hash \<Rightarrow> account_id \<Rightarrow> 'e \<Rightarrow> 'e account_event" where
  "intent_event h a e = \<lparr> ae_intent_hash = Some h, ae_account_id = a, ae_event = e \<rparr>"

definition fn_call_event :: "account_id \<Rightarrow> 'e \<Rightarrow> 'e account_event" where
  "fn_call_event a e = \<lparr> ae_intent_hash = None, ae_account_id = a, ae_event = e \<rparr>"

record transfer_event =
  te_receiver_id :: account_id
  te_tokens :: "token_id amounts"
  te_memo :: "string option"

definition transfer_event_from :: "transfer_intent \<Rightarrow> transfer_event" where
  "transfer_event_from i =
     \<lparr> te_receiver_id = ti_receiver_id i, te_tokens = ti_tokens i, te_memo = ti_memo i \<rparr>"

record token_diff_event =
  tde_diff :: token_diff
  tde_fees_collected :: "token_id amounts"

record imt_mint_event =
  ime_receiver_id :: account_id
  ime_tokens :: "string amounts"
  ime_memo :: "string option"

definition imt_mint_event_from :: "imt_mint \<Rightarrow> imt_mint_event" where
  "imt_mint_event_from i =
     \<lparr> ime_receiver_id = im_receiver_id i, ime_tokens = im_tokens i, ime_memo = im_memo i \<rparr>"

datatype defuse_event =
    EPublicKeyAdded "public_key account_event"
  | EPublicKeyRemoved "public_key account_event"
  | EFeeChanged pips pips
  | EFeeCollectorChanged account_id account_id
  | ETransfer "transfer_event account_event list"
  | ETokenDiff "token_diff_event account_event list"
  | EIntentsExecuted "nonce account_event list"
  | EFtWithdraw "ft_withdraw account_event list"
  | ENftWithdraw "nft_withdraw account_event list"
  | EMtWithdraw "mt_withdraw account_event list"
  | ENativeWithdraw "native_withdraw account_event list"
  | EStorageDeposit "storage_deposit account_event list"
  | EImtMint "imt_mint_event account_event list"
  | EImtBurn "imt_burn account_event list"
  | EAccountLocked account_id
  | EAccountUnlocked account_id
  | ESetAuthByPredecessorId "bool account_event"
  | ESaltRotation salt "salt list"

end
