(* ===== verification/TokenDiffs.thy ===== *)
theory TokenDiffs
  imports Intents
begin

text \<open>
  The arithmetic of \<open>TokenDiff\<close> intents (\<open>core/src/intents/token_diff.rs\<close>): which fee a
  token pays, how much of a delta reaches the total, and the closures that solvers compute
  to complete a batch. The theorems relate the closure of a delta to the deltas it closes,
  at every fee.
\<close>

fun token_fee :: "token_id_type \<Rightarrow> nat \<Rightarrow> pips \<Rightarrow> pips" where
  "token_fee TNep141 amount f = f"
| "token_fee TNep245 amount f = (if 1 < amount then f else pips_zero)"
| "token_fee TImt amount f = (if 1 < amount then f else pips_zero)"
| "token_fee TNep171 amount f = pips_zero"

definition supply_delta :: "wide \<Rightarrow> token_id \<Rightarrow> int \<Rightarrow> pips \<Rightarrow> int option" where
  "supply_delta W t delta f =
     (if delta < 0
      then checked_mul_div_ceil_i128 W delta
        (int (as_pips (invert (token_fee (token_type t) (nat \<bar>delta\<bar>) f)))) (int (as_pips pips_max))
      else Some delta)"

definition closure_supply_delta :: "wide \<Rightarrow> token_id \<Rightarrow> int \<Rightarrow> pips \<Rightarrow> int option" where
  "closure_supply_delta W t delta f =
     (case checked_neg_i 128 delta of
        None \<Rightarrow> None
      | Some closure \<Rightarrow>
          if closure < 0
          then checked_mul_div_euclid_i128 W closure (int (as_pips pips_max))
            (int (as_pips (invert (token_fee (token_type t) (nat \<bar>delta\<bar>) f))))
          else Some closure)"

definition closure_delta :: "wide \<Rightarrow> token_id \<Rightarrow> int \<Rightarrow> pips \<Rightarrow> int option" where
  "closure_delta W t delta f = Option.bind (supply_delta W t delta f) (\<lambda>d. closure_supply_delta W t d f)"

text \<open>The folds of \<open>closure_deltas\<close>; the second runs over a \<open>BTreeMap\<close>, in key order.\<close>

definition closure_deltas :: "wide \<Rightarrow> (token_id \<times> int) list \<Rightarrow> pips \<Rightarrow> token_id deltas option" where
  "closure_deltas W deltas f =
     Option.bind (try_fold (\<lambda>acc (t, d). Option.bind (supply_delta W t d f) (with_apply_delta acc t)) [] deltas)
       (\<lambda>sums. try_fold (\<lambda>acc (t, d). Option.bind (closure_supply_delta W t d f) (with_apply_delta acc t)) []
         (sort_key fst sums))"

definition closure :: "wide \<Rightarrow> token_diff \<Rightarrow> pips \<Rightarrow> token_id deltas option" where
  "closure W td f = closure_deltas W (td_diff td) f"

definition closure_many :: "wide \<Rightarrow> token_diff list \<Rightarrow> pips \<Rightarrow> token_id deltas option" where
  "closure_many W tds f = closure_deltas W (concat (map td_diff tds)) f"

subsection \<open>Values\<close>

lemma pips_zero_ok [simp]: "pips_ok pips_zero" "as_pips pips_zero = 0"
  by (simp_all add: pips_ok_def pips_zero_def)

lemma token_fee_ok: "pips_ok f \<Longrightarrow> pips_ok (token_fee ty n f)"
  by (cases ty) simp_all

lemma invert_value: "pips_ok p \<Longrightarrow> int (as_pips (invert p)) = 1000000 - int (as_pips p)"
  by (simp add: invert_def pips_ok_def of_nat_diff)

text \<open>The share of a delta that reaches the total: all of a positive one, and of a negative
  one what the fee leaves, rounded towards zero.\<close>

definition kept :: "token_id \<Rightarrow> nat \<Rightarrow> pips \<Rightarrow> int" where
  "kept t n f = 1000000 - int (as_pips (token_fee (token_type t) n f))"

lemma kept_bounds: "pips_ok f \<Longrightarrow> 0 \<le> kept t n f \<and> kept t n f \<le> 1000000"
  using token_fee_ok [of f "token_type t" n] by (simp add: kept_def pips_ok_def)

lemma i128_product:
  fixes d k :: int
  assumes "\<bar>d\<bar> \<le> 2 ^ 127" and "0 \<le> k" and "k \<le> 1000000"
  shows "\<bar>d * k\<bar> < 2 ^ 255"
proof -
  have "\<bar>d * k\<bar> = \<bar>d\<bar> * k" using assms by (simp add: abs_mult)
  also have "\<dots> \<le> 2 ^ 127 * 1000000" using assms by (intro mult_mono) simp_all
  finally show ?thesis by simp
qed

lemma share_bounds:
  fixes a k :: int
  assumes "0 \<le> a" and "0 \<le> k" and "k \<le> 1000000"
  shows "0 \<le> a * k div 1000000 \<and> a * k div 1000000 \<le> a"
proof -
  have "a * k div 1000000 \<le> a * 1000000 div 1000000"
    by (intro zdiv_mono1 mult_left_mono) (use assms in simp_all)
  then show ?thesis using assms by (simp add: pos_imp_zdiv_nonneg_iff)
qed

lemma supply_delta_value:
  assumes "wide_ok W" and "pips_ok f" and "i_min 128 \<le> d" and "d \<le> i_max 128"
  shows "supply_delta W t d f = Some (if d < 0 then - ((- d) * kept t (nat \<bar>d\<bar>) f div 1000000) else d)"
proof (cases "d < 0")
  case True
  let ?k = "kept t (nat \<bar>d\<bar>) f"
  note k = kept_bounds [OF assms(2), of t "nat \<bar>d\<bar>"]
  have d: "\<bar>d\<bar> \<le> 2 ^ 127" using assms(3) True by (simp add: i_min_def)
  have "w_mul W d ?k = d * ?k"
    using assms(1) d k by (simp add: wide_ok_def)
  moreover have "w_div_ceil W (d * ?k) 1000000 = - ((- (d * ?k)) div 1000000)"
    using assms(1) i128_product [OF d, of ?k] k by (simp add: wide_ok_def)
  moreover have "0 \<le> (- d) * ?k div 1000000 \<and> (- d) * ?k div 1000000 \<le> - d"
    by (rule share_bounds) (use True k in simp_all)
  ultimately show ?thesis
    using True assms(2-4) token_fee_ok [OF assms(2), of "token_type t" "nat \<bar>d\<bar>"]
    by (simp add: supply_delta_def checked_mul_div_ceil_i128_def invert_value kept_def i_min_def i_max_def)
qed (simp add: supply_delta_def)

text \<open>Dividing up by the kept share and taking the share again gives the amount back.\<close>

lemma share_of_ceil:
  fixes x k :: int
  assumes "0 < k" and "k \<le> 1000000"
  shows "- ((- x * 1000000) div k) * k div 1000000 = x"
proof -
  let ?m = "- ((- x * 1000000) div k)"
  have lo: "x * 1000000 \<le> ?m * k"
    using ceil_div_int_le_iff [of k "x * 1000000" ?m] assms(1) by simp
  have "\<not> x * 1000000 \<le> (?m - 1) * k"
    using ceil_div_int_le_iff [of k "x * 1000000" "?m - 1"] assms(1) by simp
  then have hi: "?m * k < (x + 1) * 1000000"
    using assms(2) by (simp add: algebra_simps)
  have "x \<le> ?m * k div 1000000"
    using lo by (simp add: le_div_int_iff)
  moreover have "\<not> x + 1 \<le> ?m * k div 1000000"
    using hi le_div_int_iff [of 1000000 "x + 1" "?m * k"] by linarith
  ultimately show ?thesis by linarith
qed

lemma ceil_ge:
  fixes x k :: int
  assumes "0 < k" and "k \<le> 1000000" and "0 < x"
  shows "x \<le> - ((- x * 1000000) div k)"
proof (rule ccontr)
  assume "\<not> ?thesis"
  then have "- ((- x * 1000000) div k) \<le> x - 1" by simp
  then have "x * 1000000 \<le> (x - 1) * k"
    using ceil_div_int_le_iff [OF assms(1), of "x * 1000000" "x - 1"] by simp
  also have "\<dots> \<le> (x - 1) * 1000000"
    using assms by (intro mult_left_mono) simp_all
  finally show False by simp
qed

text \<open>The fee a token pays does not change when the amount is divided up by the kept share.\<close>

lemma kept_stable:
  assumes "pips_ok f" and "0 < kept t (nat x) f" and "0 < x"
  shows "kept t (nat (- ((- x * 1000000) div kept t (nat x) f))) f = kept t (nat x) f"
proof -
  let ?k = "kept t (nat x) f" let ?m = "- ((- x * 1000000) div ?k)"
  have le: "x \<le> ?m"
    using ceil_ge [of ?k x] assms kept_bounds [OF assms(1), of t "nat x"] by simp
  show ?thesis
  proof (cases "1 < x")
    case True
    then have "1 < nat x" "1 < nat ?m" using le by simp_all
    then show ?thesis by (cases "token_type t") (simp_all add: kept_def)
  next
    case False
    then have x: "x = 1" using assms(3) by simp
    show ?thesis
    proof (cases "token_type t")
      case TNep141
      then show ?thesis by (simp add: kept_def)
    qed (simp_all add: kept_def x)
  qed
qed

lemma closure_supply_delta_closes:
  assumes "wide_ok W" and "pips_ok f" and "i_min 128 \<le> x" and "x \<le> i_max 128"
    and "closure_supply_delta W t x f = Some c"
  shows "supply_delta W t c f = Some (- x)"
proof (cases "0 < x")
  case False
  then have "c = - x" and "i_min 128 \<le> - x" and "- x \<le> i_max 128"
    using assms(5) by (auto simp: closure_supply_delta_def checked_neg_i_def fit_i_def split: if_splits)
  with False show ?thesis by (simp add: supply_delta_def)
next
  case pos: True
  let ?k = "kept t (nat x) f"
  have neg: "checked_neg_i 128 x = Some (- x)"
    using assms(3,4) pos by (simp add: checked_neg_i_def i_min_def i_max_def)
  have inv: "int (as_pips (invert (token_fee (token_type t) (nat \<bar>x\<bar>) f))) = ?k"
    using pos invert_value [OF token_fee_ok [OF assms(2)]] by (simp add: kept_def)
  have k0: "?k \<noteq> 0" and fit: "fit_i 128 (w_div_euclid W (w_mul W (- x) 1000000) ?k) = Some c"
    using assms(5) neg pos inv
    by (auto simp: closure_supply_delta_def checked_mul_div_euclid_i128_def split: if_splits)
  have k: "0 < ?k" "?k \<le> 1000000" using kept_bounds [OF assms(2), of t "nat x"] k0 by simp_all
  have x: "\<bar>- x\<bar> \<le> 2 ^ 127" using assms(4) pos by (simp add: i_max_def)
  have "w_mul W (- x) 1000000 = - x * 1000000"
    using assms(1) x by (simp add: wide_ok_def)
  moreover have "w_div_euclid W (- x * 1000000) ?k = (- x * 1000000) div ?k"
    using assms(1) i128_product [OF x, of 1000000] k by (simp add: wide_ok_def)
  ultimately have c: "c = (- x * 1000000) div ?k" and range: "i_min 128 \<le> c" "c \<le> i_max 128"
    using fit by simp_all
  have "x \<le> - c" using ceil_ge [OF k pos] c by simp
  then have "c < 0" using pos by simp
  then have "supply_delta W t c f = Some (- ((- c) * kept t (nat (- c)) f div 1000000))"
    using supply_delta_value [OF assms(1,2) range, of t] by simp
  also have "kept t (nat (- c)) f = ?k"
    using kept_stable [OF assms(2) k(1) pos] by (simp add: c)
  also have "(- c) * ?k div 1000000 = x"
    using share_of_ceil [OF k, of x] by (simp only: c)
  finally show ?thesis by simp
qed

subsection \<open>Closures close\<close>

text \<open>What executing one entry of a diff does to the total of the batch: the delta itself and,
  for a negative one, the fee that goes to the collector.\<close>

definition executed_delta :: "wide \<Rightarrow> token_id \<Rightarrow> int \<Rightarrow> pips \<Rightarrow> int option" where
  "executed_delta W t d f =
     (if d < 0 then map_option (\<lambda>x. d + int x) (fee_ceil W (token_fee (token_type t) (nat \<bar>d\<bar>) f) (nat \<bar>d\<bar>))
      else Some d)"

text \<open>The supply delta that solvers compute for a token delta is exactly what executing it
  adds to the total of the batch, for every token, amount and fee: the delta plus the fee
  that the collector receives, rounded up.\<close>

theorem supply_delta_is_executed:
  assumes "wide_ok W" and "pips_ok f" and "i_min 128 \<le> d" and "d \<le> i_max 128"
  shows "supply_delta W t d f = executed_delta W t d f"
proof (cases "d < 0")
  case True
  let ?p = "token_fee (token_type t) (nat \<bar>d\<bar>) f"
  have n: "nat \<bar>d\<bar> \<le> u_max 128"
    using assms(3) True by (simp add: i_min_def u_max_def)
  have p: "as_pips ?p \<le> 1000000" using token_fee_ok [OF assms(2)] by (simp add: pips_ok_def)
  have "fee_ceil W ?p (nat \<bar>d\<bar>) = Some (nat \<bar>d\<bar> - nat \<bar>d\<bar> * (1000000 - as_pips ?p) div 1000000)"
    by (rule fee_ceil_value [OF assms(1) token_fee_ok [OF assms(2)] n])
  moreover have "nat \<bar>d\<bar> * (1000000 - as_pips ?p) div 1000000 \<le> nat \<bar>d\<bar>"
    by (rule share_le) simp
  moreover have "int (nat \<bar>d\<bar> * (1000000 - as_pips ?p) div 1000000) = (- d) * kept t (nat \<bar>d\<bar>) f div 1000000"
    using True p by (simp add: zdiv_int of_nat_diff kept_def)
  ultimately show ?thesis
    using True supply_delta_value [OF assms, of t] by (simp add: executed_delta_def of_nat_diff)
qed (simp add: supply_delta_def executed_delta_def)

theorem supply_delta_is_executed_witness:
  "supply_delta exact_wide (Nep141 ''ft.near'') (- 12345) one_percent =
     executed_delta exact_wide (Nep141 ''ft.near'') (- 12345) one_percent"
  by (rule supply_delta_is_executed [OF wide_ok_exact])
    (simp_all add: pips_ok_def one_percent_def one_bip_def one_pip_def i_min_def i_max_def)

text \<open>The total of a list of deltas in a token, after fees.\<close>

definition supply_sum :: "wide \<Rightarrow> pips \<Rightarrow> (token_id \<times> int) list \<Rightarrow> token_id \<Rightarrow> int" where
  "supply_sum W f ds t = sum_list (map (\<lambda>(u, d). if u = t then the (supply_delta W u d f) else 0) ds)"

definition deltas_i128 :: "token_id deltas \<Rightarrow> bool" where
  "deltas_i128 D \<longleftrightarrow> entries_ok 0 D \<and> (\<forall>t. i_min 128 \<le> amount_for D t \<and> amount_for D t \<le> i_max 128)"

lemma deltas_i128_Nil [simp]: "deltas_i128 []"
  by (simp add: deltas_i128_def i_min_def i_max_def)

lemma with_apply_delta_Some:
  "with_apply_delta D t d = Some D' \<longleftrightarrow> i_min 128 \<le> amount_for D t + d \<and> amount_for D t + d \<le> i_max 128 \<and>
     D' = entry_write 0 t (amount_for D t + d) D"
  by (auto simp: with_apply_delta_def apply_delta_def checked_apply_Some checked_add_i_def)

lemma supply_fold:
  assumes "try_fold (\<lambda>acc (t, d). Option.bind (supply_delta W t d f) (with_apply_delta acc t)) D ds = Some D'"
    and "deltas_i128 D"
  shows "deltas_i128 D' \<and> (\<forall>t. amount_for D' t = amount_for D t + supply_sum W f ds t)"
  using assms
proof (induction ds arbitrary: D)
  case (Cons p ds)
  obtain t d where p: "p = (t, d)" by (cases p)
  obtain x D1 where x: "supply_delta W t d f = Some x" and D1: "with_apply_delta D t x = Some D1"
    and rest: "try_fold (\<lambda>acc (t, d). Option.bind (supply_delta W t d f) (with_apply_delta acc t)) D1 ds = Some D'"
    using Cons.prems(1) p by (auto split: option.splits bind_splits)
  have "deltas_i128 D1"
    using D1 Cons.prems(2) by (auto simp: with_apply_delta_Some deltas_i128_def)
  from Cons.IH [OF rest this] show ?case
    using D1 x p by (auto simp: with_apply_delta_Some supply_sum_def)
qed (simp add: supply_sum_def)

lemma closure_fold:
  assumes "try_fold (\<lambda>acc (t, d). Option.bind (closure_supply_delta W t d f) (with_apply_delta acc t)) D ys = Some D'"
    and "keys_distinct ys" and "\<forall>t \<in> fst ` set ys. amount_for D t = 0"
  shows "(\<forall>(t, d) \<in> set ys. closure_supply_delta W t d f = Some (amount_for D' t)) \<and>
    (\<forall>t. t \<notin> fst ` set ys \<longrightarrow> amount_for D' t = amount_for D t)"
  using assms
proof (induction ys arbitrary: D)
  case (Cons p ys)
  obtain t d where p: "p = (t, d)" by (cases p)
  obtain x D1 where x: "closure_supply_delta W t d f = Some x" and D1: "with_apply_delta D t x = Some D1"
    and rest: "try_fold (\<lambda>acc (t, d). Option.bind (closure_supply_delta W t d f) (with_apply_delta acc t)) D1 ys = Some D'"
    using Cons.prems(1) p by (auto split: option.splits bind_splits)
  have D1': "amount_for D1 u = (if u = t then x else amount_for D u)" for u
    using D1 Cons.prems(3) p by (simp add: with_apply_delta_Some)
  have "\<forall>u \<in> fst ` set ys. amount_for D1 u = 0"
    using Cons.prems(2,3) p D1' by auto
  from Cons.IH [OF rest _ this] Cons.prems(2) have IH:
    "\<forall>(t, d) \<in> set ys. closure_supply_delta W t d f = Some (amount_for D' t)"
    "\<forall>u. u \<notin> fst ` set ys \<longrightarrow> amount_for D' u = amount_for D1 u" by auto
  then show ?case using Cons.prems(2) p x D1' by auto
qed simp

lemma closure_deltas_amount:
  assumes "closure_deltas W ds f = Some C"
  shows "i_min 128 \<le> supply_sum W f ds t \<and> supply_sum W f ds t \<le> i_max 128 \<and>
    closure_supply_delta W t (supply_sum W f ds t) f = Some (amount_for C t)"
proof -
  obtain S where S: "try_fold (\<lambda>acc (t, d). Option.bind (supply_delta W t d f) (with_apply_delta acc t)) [] ds = Some S"
    and C: "try_fold (\<lambda>acc (t, d). Option.bind (closure_supply_delta W t d f) (with_apply_delta acc t)) []
      (sort_key fst S) = Some C"
    using assms by (auto simp: closure_deltas_def split: bind_splits)
  from supply_fold [OF S] have ok: "deltas_i128 S" and amt: "amount_for S t = supply_sum W f ds t" by auto
  have dist: "keys_distinct S" using ok by (simp add: deltas_i128_def entries_ok_def)
  then have dist': "keys_distinct (sort_key fst S)"
    using mset_eq_imp_distinct_iff [of "map fst (sort_key fst S)" "map fst S"] by simp
  note fold = closure_fold [OF C dist']
  have "closure_supply_delta W t (amount_for S t) f = Some (amount_for C t)"
  proof (cases "t \<in> fst ` set S")
    case True
    then obtain d where "(t, d) \<in> set S" by auto
    moreover from this have "amount_for S t = d"
      using dist by (simp add: amount_for_def entry_read_def)
    ultimately show ?thesis using fold by auto
  next
    case False
    then have "amount_for S t = 0" by (simp add: amount_for_def entry_read_def map_of_eq_None_iff [THEN iffD2])
    moreover have "amount_for C t = 0" using fold False by simp
    ultimately show ?thesis
      by (simp add: closure_supply_delta_def checked_neg_i_def fit_i_def i_min_def i_max_def)
  qed
  moreover have "i_min 128 \<le> amount_for S t \<and> amount_for S t \<le> i_max 128"
    using ok unfolding deltas_i128_def by blast
  ultimately show ?thesis by (simp only: amt simp_thms)
qed

text \<open>C32: the closure that \<open>closure_deltas\<close> returns for a list of token deltas closes the batch:
  executed as one token diff at the same fee, it changes the total of every token by exactly
  the opposite of what the given deltas change it by, so that nothing is left unmatched.\<close>

theorem closure_deltas_close:
  assumes "wide_ok W" and "pips_ok f" and "closure_deltas W ds f = Some C"
  shows "supply_delta W t (amount_for C t) f = Some (- supply_sum W f ds t)"
  using closure_supply_delta_closes [OF assms(1,2)] closure_deltas_amount [OF assms(3), of t] by blast

definition sample_deltas :: "(token_id \<times> int) list" where
  "sample_deltas = [(Nep141 ''a'', - 100), (Nep141 ''b'', 200), (Nep141 ''b'', 99)]"

theorem closure_deltas_close_witness:
  "\<exists>C. closure_deltas exact_wide sample_deltas one_percent = Some C \<and>
    supply_delta exact_wide (Nep141 ''b'') (amount_for C (Nep141 ''b'')) one_percent =
      Some (- supply_sum exact_wide one_percent sample_deltas (Nep141 ''b''))"
proof -
  have f: "pips_ok one_percent" by (simp add: pips_ok_def one_percent_def one_bip_def one_pip_def)
  have "closure_deltas exact_wide sample_deltas one_percent = Some [(Nep141 ''a'', 99), (Nep141 ''b'', - 303)]"
    by (simp add: closure_deltas_def sample_deltas_def supply_delta_def closure_supply_delta_def exact_wide_def
        one_percent_def one_bip_def one_pip_def invert_def checked_mul_div_ceil_i128_def
        checked_mul_div_euclid_i128_def checked_neg_i_def fit_i_def i_min_def i_max_def with_apply_delta_def
        apply_delta_def checked_apply_def checked_add_i_def entry_read_def entry_write_def
        less_eq_token_id_def)
  from closure_deltas_close [OF wide_ok_exact f this] this show ?thesis by blast
qed

end
