(* ===== verification/Matching.thy ===== *)
theory Matching
  imports TransferMatcher
begin

text \<open>
  Correctness of \<open>TransferMatcher::finalize\<close>: it never panics, its outcome is decided by the
  sum of the net deltas of each token alone, and on success the transfers reproduce the net
  delta of every account in every token.
\<close>

subsection \<open>Reading transfers\<close>

definition sender_ok :: "(account_id \<times> token_id amounts) list \<Rightarrow> bool" where
  "sender_ok S \<longleftrightarrow> entries_ok [] S \<and> (\<forall>R \<in> snd ` set S. entries_ok 0 R)"

definition transfers_ok :: "transfers \<Rightarrow> bool" where
  "transfers_ok T \<longleftrightarrow> entries_ok [] T \<and> (\<forall>S \<in> snd ` set T. sender_ok S)"

definition transfer_amount :: "transfers \<Rightarrow> account_id \<Rightarrow> account_id \<Rightarrow> token_id \<Rightarrow> nat" where
  "transfer_amount T sender receiver t =
     amount_for (entry_read [] receiver (entry_read [] sender T)) t"

definition sent :: "transfers \<Rightarrow> account_id \<Rightarrow> token_id \<Rightarrow> int" where
  "sent T a t = sum_map (\<lambda>R. int (amount_for R t)) (entry_read [] a T)"

definition received :: "transfers \<Rightarrow> account_id \<Rightarrow> token_id \<Rightarrow> int" where
  "received T a t = sum_map (\<lambda>S. int (amount_for (entry_read [] a S) t)) T"

lemma transfers_ok_Nil [simp]: "transfers_ok []"
  by (simp add: transfers_ok_def)

lemma sent_received_Nil [simp]: "sent [] a t = 0" "received [] a t = 0"
  by (simp_all add: sent_def received_def)

lemma entry_read_in: "entry_read d k m = d \<or> entry_read d k m \<in> snd ` set m"
  by (force simp: entry_read_def dest!: map_of_SomeD split: option.splits)

lemma entries_forall_write:
  "(\<forall>v \<in> snd ` set m. P v) \<Longrightarrow> P v \<Longrightarrow> \<forall>w \<in> snd ` set (entry_write d k v m). P w"
  using entry_write_set [of d k v m] by blast

lemma entries_forall_read: "(\<forall>v \<in> snd ` set m. P v) \<Longrightarrow> P d \<Longrightarrow> P (entry_read d k m)"
  using entry_read_in [of d k m] by auto

lemma sender_ok_Nil [simp]: "sender_ok []"
  by (simp add: sender_ok_def)

lemma transfers_ok_sender: "transfers_ok T \<Longrightarrow> sender_ok (entry_read [] s T)"
  by (rule entries_forall_read [of _ sender_ok]) (simp_all add: transfers_ok_def)

lemma sender_ok_receiver: "sender_ok S \<Longrightarrow> entries_ok 0 (entry_read [] r S)"
  by (rule entries_forall_read [of _ "entries_ok 0"]) (simp_all add: sender_ok_def)

lemma sender_ok_write: "sender_ok S \<Longrightarrow> entries_ok 0 R \<Longrightarrow> sender_ok (entry_write [] r R S)"
  unfolding sender_ok_def by (intro conjI entries_ok_write entries_forall_write [of _ "entries_ok 0"]) simp_all

lemma transfers_ok_write: "transfers_ok T \<Longrightarrow> sender_ok S \<Longrightarrow> transfers_ok (entry_write [] s S T)"
  unfolding transfers_ok_def by (intro conjI entries_ok_write entries_forall_write [of _ sender_ok]) simp_all

text \<open>One transfer is recorded exactly, for the pair, the sender and the receiver.\<close>

definition records_transfer :: "transfers \<Rightarrow> account_id \<Rightarrow> account_id \<Rightarrow> token_id \<Rightarrow> nat \<Rightarrow> transfers \<Rightarrow> bool" where
  "records_transfer T s r t x T' \<longleftrightarrow>
     (\<forall>s' r' t'. transfer_amount T' s' r' t' =
        transfer_amount T s' r' t' + (if s' = s \<and> r' = r \<and> t' = t then x else 0)) \<and>
     (\<forall>a t'. sent T' a t' = sent T a t' + (if a = s \<and> t' = t then int x else 0)) \<and>
     (\<forall>a t'. received T' a t' = received T a t' + (if a = r \<and> t' = t then int x else 0))"

lemma transfer_records:
  assumes "transfers_ok T" and "transfer_amount T s r t + x \<le> u_max 128"
  shows "\<exists>T'. transfer s r t x T = Some T' \<and> transfers_ok T' \<and> records_transfer T s r t x T'"
proof -
  let ?S = "entry_read [] s T" let ?R = "entry_read [] r ?S"
  let ?a = "amount_for ?R t + x"
  let ?R' = "entry_write 0 t ?a ?R" let ?S' = "entry_write [] r ?R' ?S" let ?T' = "entry_write [] s ?S' T"
  note S = transfers_ok_sender [OF assms(1), of s] note R = sender_ok_receiver [OF S, of r]
  have add: "amounts_add t x ?R = Some (?R', ?a)"
    using assms(2) by (simp add: amounts_add_Some transfer_amount_def)
  have T': "transfers_ok ?T'"
    by (intro transfers_ok_write sender_ok_write entries_ok_write assms(1) S R)
  have amount: "transfer_amount ?T' s' r' t' =
      transfer_amount T s' r' t' + (if s' = s \<and> r' = r \<and> t' = t then x else 0)" for s' r' t'
    by (simp add: transfer_amount_def)
  have sent: "sent ?T' a t' = sent T a t' + (if a = s \<and> t' = t then int x else 0)" for a t'
    using S by (simp add: sent_def sum_map_entry_write sender_ok_def)
  have received: "received ?T' a t' = received T a t' + (if a = r \<and> t' = t then int x else 0)" for a t'
    using assms(1) by (simp add: received_def sum_map_entry_write transfers_ok_def)
  have "records_transfer T s r t x ?T'"
    unfolding records_transfer_def using amount sent received by blast
  moreover have "transfer s r t x T = Some ?T'"
    using add by (simp add: transfer_def Let_def)
  ultimately show ?thesis using T' by blast
qed

subsection \<open>The matching loop\<close>

abbreviation positive :: "(account_id \<times> nat) list \<Rightarrow> bool" where
  "positive xs \<equiv> (\<forall>p \<in> set xs. 0 < snd p \<and> snd p \<le> u_max 128)"

abbreviation list_total :: "(account_id \<times> nat) list \<Rightarrow> int" where
  "list_total xs \<equiv> int (sum_list (map snd xs))"

text \<open>What the loop leaves: nothing on one side, and for every account the transfers cover
  what was taken from the lists.\<close>

definition loop_post where
  "loop_post t ws ds T ws' ds' T' \<longleftrightarrow>
     transfers_ok T' \<and> (ws' = [] \<or> ds' = []) \<and> positive ws' \<and> positive ds' \<and>
     list_total ws' - list_total ds' = list_total ws - list_total ds \<and>
     (\<forall>s r t'. t' \<noteq> t \<longrightarrow> transfer_amount T' s r t' = transfer_amount T s r t') \<and>
     (\<forall>a. sent T' a t + int (list_amount ws' a) = sent T a t + int (list_amount ws a)) \<and>
     (\<forall>a. received T' a t + int (list_amount ds' a) = received T a t + int (list_amount ds a)) \<and>
     (\<forall>a t'. t' \<noteq> t \<longrightarrow> sent T' a t' = sent T a t' \<and> received T' a t' = received T a t')"

lemma match_loop_correct:
  assumes "transfers_ok T" and "positive ws" and "positive ds" and "keys_distinct ws" and "keys_distinct ds"
    and "\<forall>s \<in> fst ` set ws. \<forall>r \<in> fst ` set ds. transfer_amount T s r t = 0"
  shows "\<exists>ws' ds' T'. match_loop t ws ds T = Some (ws', ds', T') \<and> loop_post t ws ds T ws' ds' T'"
  using assms
proof (induction t ws ds T rule: match_loop.induct)
  case (1 t s send ws r receive ds T)
  let ?x = "min send receive"
  let ?ws = "if send - ?x = 0 then ws else (s, send - ?x) # ws"
  let ?ds = "if receive - ?x = 0 then ds else (r, receive - ?x) # ds"
  have "transfer_amount T s r t = 0" using "1.prems"(6) by simp
  then have "transfer_amount T s r t + ?x \<le> u_max 128" using "1.prems"(2) by auto
  from transfer_records [OF "1.prems"(1) this]
  obtain T1 where tr: "transfer s r t ?x T = Some T1" and ok: "transfers_ok T1"
    and rec: "records_transfer T s r t ?x T1" by blast
  have fresh: "\<forall>s' \<in> fst ` set ?ws. \<forall>r' \<in> fst ` set ?ds. transfer_amount T1 s' r' t = 0"
  proof (intro ballI)
    fix s' r' assume in': "s' \<in> fst ` set ?ws" "r' \<in> fst ` set ?ds"
    then have "\<not> (s' = s \<and> r' = r)"
      using "1.prems"(4,5) by (auto simp: min_def split: if_splits)
    moreover have "s' \<in> fst ` set ((s, send) # ws)" "r' \<in> fst ` set ((r, receive) # ds)"
      using in' by (auto split: if_splits)
    ultimately show "transfer_amount T1 s' r' t = 0"
      using rec "1.prems"(6) unfolding records_transfer_def by auto
  qed
  have pos: "positive ?ws" "positive ?ds" and dist: "keys_distinct ?ws" "keys_distinct ?ds"
    using "1.prems"(2-5) by (auto simp: min_def)
  have "\<exists>ws' ds' T'. match_loop t ?ws ?ds T1 = Some (ws', ds', T') \<and> loop_post t ?ws ?ds T1 ws' ds' T'"
    by (rule "1.IH" [OF refl tr ok pos dist fresh])
  then obtain ws' ds' T' where run: "match_loop t ?ws ?ds T1 = Some (ws', ds', T')"
    and post: "loop_post t ?ws ?ds T1 ws' ds' T'" by blast
  have totals: "list_total ?ws - list_total ?ds = list_total ((s, send) # ws) - list_total ((r, receive) # ds)"
    by (auto simp: min_def)
  have amounts: "int (list_amount ?ws a) = int (list_amount ((s, send) # ws) a) - (if a = s then int ?x else 0)"
    "int (list_amount ?ds a) = int (list_amount ((r, receive) # ds) a) - (if a = r then int ?x else 0)" for a
    by (auto simp: min_def)
  have "loop_post t ((s, send) # ws) ((r, receive) # ds) T ws' ds' T'"
    using post rec totals amounts unfolding loop_post_def records_transfer_def by (simp split: if_splits)
  with tr run show ?case by (simp add: Let_def)
qed (simp_all add: loop_post_def)

subsection \<open>One token\<close>

text \<open>The sum of the net deltas of all accounts in one token: what the contract as a whole
  would gain or lose of it.\<close>

definition token_sum :: "token_transfer_matcher \<Rightarrow> int" where
  "token_sum M = sum_map int (deposits M) - sum_map int (withdrawals M)"

definition sum_fits :: "int \<Rightarrow> bool" where
  "sum_fits d \<longleftrightarrow> \<bar>d\<bar> \<le> i_max 128"

lemma list_amount_mset:
  "mset xs = mset ys \<Longrightarrow> list_amount xs a = list_amount ys a"
  by (simp add: list_amount_def flip: sum_mset_sum_list)

lemma list_total_sum_map: "list_total xs = sum_map int xs"
  by (induction xs) simp_all

lemma sort_desc_mset: "mset (sort_desc xs) = mset xs"
  by (simp add: sort_desc_def)

lemma sort_desc_facts:
  "set (sort_desc xs) = set xs"
  "list_amount (sort_desc xs) a = list_amount xs a"
  "list_total (sort_desc xs) = sum_map int xs"
  "keys_distinct (sort_desc xs) = keys_distinct xs"
proof -
  note m = sort_desc_mset [of xs]
  show "set (sort_desc xs) = set xs" using m by (rule mset_eq_setD)
  show "list_amount (sort_desc xs) a = list_amount xs a" using m by (rule list_amount_mset)
  show "list_total (sort_desc xs) = sum_map int xs"
    unfolding list_total_sum_map using m by (rule sum_map_mset)
  show "keys_distinct (sort_desc xs) = keys_distinct xs"
    by (rule mset_eq_imp_distinct_iff) (simp add: m)
qed

lemma total_u128_fold:
  "n \<le> u_max 128 \<Longrightarrow> try_fold (\<lambda>total p. checked_add_u 128 total (snd p)) n xs =
     (if n + sum_list (map snd xs) \<le> u_max 128 then Some (n + sum_list (map snd xs)) else None)"
proof (induction xs arbitrary: n)
  case (Cons p xs)
  then show ?case
    by (cases "n + snd p \<le> u_max 128") (auto simp: checked_add_u_def fit_u_def ac_simps)
qed simp

lemma total_u128_value:
  "positive xs \<Longrightarrow> total_u128 xs =
     (if sum_list (map snd xs) \<le> u_max 128 then Some (sum_list (map snd xs)) else None)"
  by (cases xs) (auto simp: total_u128_def total_u128_fold)

lemma unmatched_total:
  assumes "positive xs"
  shows "Option.bind (total_u128 xs) i128_try_from =
    (if sum_fits (list_total xs) then Some (list_total xs) else None)"
  using assms
  by (auto simp: total_u128_value i128_try_from_def fit_i_def sum_fits_def i_max_def i_min_def u_max_def)

lemma positive_total: "positive xs \<Longrightarrow> xs \<noteq> [] \<Longrightarrow> 0 < list_total xs"
  by (cases xs) auto

lemma amounts_positive: "amounts_u128 m \<Longrightarrow> positive m"
proof
  fix p assume m: "amounts_u128 m" and "p \<in> set m"
  then have "entry_read 0 (fst p) m = snd p \<and> snd p \<noteq> 0"
    using entry_read_mem [of 0 m "fst p" "snd p"] by (simp add: amounts_u128_def)
  with m show "0 < snd p \<and> snd p \<le> u_max 128"
    unfolding amounts_u128_def amount_for_def by (metis neq0_conv)
qed

definition unmatched_of :: "token_transfer_matcher \<Rightarrow> int + unit" where
  "unmatched_of M =
     (if token_sum M = 0 then Inr () else Inl (if sum_fits (token_sum M) then token_sum M else 0))"

text \<open>Transfers of a token that has not been finalized yet are all zero.\<close>

definition untouched :: "token_id \<Rightarrow> transfers \<Rightarrow> bool" where
  "untouched t T \<longleftrightarrow> (\<forall>s r. transfer_amount T s r t = 0) \<and> (\<forall>a. sent T a t = 0 \<and> received T a t = 0)"

definition same_for :: "token_id \<Rightarrow> transfers \<Rightarrow> transfers \<Rightarrow> bool" where
  "same_for t T T' \<longleftrightarrow> (\<forall>s r. transfer_amount T' s r t = transfer_amount T s r t) \<and>
     (\<forall>a. sent T' a t = sent T a t \<and> received T' a t = received T a t)"

lemma finalize_into_correct:
  assumes "matcher_ok M" and "transfers_ok T" and "untouched t T"
  shows "\<exists>T'. finalize_into t M T = Some (T', unmatched_of M) \<and> transfers_ok T' \<and>
    (\<forall>t'. t' \<noteq> t \<longrightarrow> same_for t' T T') \<and>
    (token_sum M = 0 \<longrightarrow> (\<forall>a. sent T' a t = int (amount_for (withdrawals M) a) \<and>
       received T' a t = int (amount_for (deposits M) a)))"
proof -
  let ?ws = "sort_desc (withdrawals M)" let ?ds = "sort_desc (deposits M)"
  have w: "amounts_u128 (withdrawals M)" and d: "amounts_u128 (deposits M)"
    using assms(1) by (simp_all add: matcher_ok_def)
  have "\<exists>ws' ds' T'. match_loop t ?ws ?ds T = Some (ws', ds', T') \<and> loop_post t ?ws ?ds T ws' ds' T'"
  proof (rule match_loop_correct)
    show "positive ?ws" "positive ?ds"
      using amounts_positive [OF w] amounts_positive [OF d] by (simp_all add: sort_desc_facts)
    show "keys_distinct ?ws" "keys_distinct ?ds"
      using w d by (simp_all add: sort_desc_facts amounts_u128_def entries_ok_def)
  qed (use assms in \<open>simp_all add: untouched_def\<close>)
  then obtain ws ds T' where run: "match_loop t ?ws ?ds T = Some (ws, ds, T')"
    and post: "loop_post t ?ws ?ds T ws ds T'" by blast
  have p: "positive ws" "positive ds" and one: "ws = [] \<or> ds = []"
    and sum: "list_total ws - list_total ds = - token_sum M"
    using post by (auto simp: loop_post_def sort_desc_facts token_sum_def)
  have out: "finalize_into t M T = Some (T', unmatched_of M)"
  proof -
    consider "ws = []" "ds = []" | "ws \<noteq> []" "ds = []" | "ws = []" "ds \<noteq> []"
      using one by blast
    then show ?thesis
    proof cases
      case 1
      then show ?thesis using run sum by (simp add: finalize_into_def unmatched_of_def)
    next
      case 2
      then have t: "token_sum M = - list_total ws" "0 < list_total ws"
        using sum positive_total [OF p(1)] by simp_all
      have "Option.bind (Option.bind (total_u128 ws) i128_try_from) (checked_neg_i 128) =
          (if sum_fits (token_sum M) then Some (token_sum M) else None)"
        using t by (simp only: unmatched_total [OF p(1)])
          (simp add: sum_fits_def checked_neg_i_def fit_i_def i_max_def i_min_def)
      moreover have "token_sum M \<noteq> 0" using t by linarith
      ultimately show ?thesis using 2 run by (simp add: finalize_into_def unmatched_of_def)
    next
      case 3
      then have t: "token_sum M = list_total ds" "0 < list_total ds"
        using sum positive_total [OF p(2)] by simp_all
      have "Option.bind (total_u128 ds) i128_try_from =
          (if sum_fits (token_sum M) then Some (token_sum M) else None)"
        unfolding t(1) by (rule unmatched_total [OF p(2)])
      moreover have "token_sum M \<noteq> 0" using t by linarith
      ultimately show ?thesis using 3 run by (simp add: finalize_into_def unmatched_of_def)
    qed
  qed
  have "token_sum M = 0 \<Longrightarrow> ws = [] \<and> ds = []"
    using one sum positive_total [OF p(1)] positive_total [OF p(2)]
    by (cases "ws = []"; cases "ds = []") (auto simp del: sum_list_eq_0_iff)
  moreover have "list_amount (withdrawals M) a = amount_for (withdrawals M) a"
    "list_amount (deposits M) a = amount_for (deposits M) a" for a
    using w d by (simp_all add: amounts_u128_def list_amount_ok)
  ultimately have "token_sum M = 0 \<Longrightarrow> sent T' a t = int (amount_for (withdrawals M) a) \<and>
       received T' a t = int (amount_for (deposits M) a)" for a
    using post assms(3) by (auto simp: loop_post_def untouched_def sort_desc_facts)
  then show ?thesis
    using out post by (auto simp: loop_post_def same_for_def)
qed

subsection \<open>All tokens\<close>

lemma same_for_trans: "same_for t T U \<Longrightarrow> same_for t U V \<Longrightarrow> same_for t T V"
  by (simp add: same_for_def)

lemma same_for_refl [simp]: "same_for t T T"
  by (simp add: same_for_def)

lemma untouched_same: "untouched t T \<Longrightarrow> same_for t T T' \<Longrightarrow> untouched t T'"
  by (simp add: untouched_def same_for_def)

text \<open>What the loop over the tokens establishes when no sum overflows.\<close>

definition tokens_done where
  "tokens_done TM T D T' D' \<longleftrightarrow> transfers_ok T' \<and> entries_ok 0 D' \<and>
     (\<forall>t. t \<notin> fst ` set TM \<longrightarrow> same_for t T T' \<and> amount_for D' t = amount_for D t) \<and>
     (\<forall>(t, M) \<in> set TM. amount_for D' t = token_sum M \<and>
        (token_sum M = 0 \<longrightarrow> (\<forall>a. sent T' a t = int (amount_for (withdrawals M) a) \<and>
           received T' a t = int (amount_for (deposits M) a))))"

lemma apply_delta_fresh:
  "amount_for D t = 0 \<Longrightarrow> sum_fits d \<Longrightarrow> apply_delta t d D = Some (entry_write 0 t d D, d)"
  by (auto simp: apply_delta_def checked_apply_Some checked_add_i_def sum_fits_def i_max_def i_min_def)

lemma finalize_loop_correct:
  assumes "\<forall>M \<in> snd ` set TM. matcher_ok M" and "keys_distinct TM" and "transfers_ok T" and "entries_ok 0 D"
    and "\<forall>t \<in> fst ` set TM. untouched t T \<and> amount_for D t = 0"
  shows "if \<forall>M \<in> snd ` set TM. sum_fits (token_sum M)
    then \<exists>T' D'. finalize_loop TM T D = Some (Inr (T', D')) \<and> tokens_done TM T D T' D'
    else finalize_loop TM T D = Some (Inl Overflow)"
  using assms
proof (induction TM arbitrary: T D)
  case Nil
  then show ?case by (simp add: tokens_done_def)
next
  case (Cons p TM)
  obtain t M where p: "p = (t, M)" by (cases p)
  let ?d = "token_sum M"
  obtain T1 where fin: "finalize_into t M T = Some (T1, unmatched_of M)" and T1: "transfers_ok T1"
    and other: "\<And>t'. t' \<noteq> t \<Longrightarrow> same_for t' T T1"
    and this_token: "?d = 0 \<Longrightarrow> \<forall>a. sent T1 a t = int (amount_for (withdrawals M) a) \<and>
      received T1 a t = int (amount_for (deposits M) a)"
    using finalize_into_correct [of M T t] Cons.prems p by auto
  show ?case
  proof (cases "sum_fits ?d")
    case False
    then have "unmatched_of M = Inl 0" by (auto simp: unmatched_of_def sum_fits_def i_max_def)
    with False fin p show ?thesis by simp
  next
    case True
    let ?D = "if ?d = 0 then D else entry_write 0 t ?d D"
    have D1: "amount_for ?D t' = (if t' = t then ?d else amount_for D t')" for t'
      using Cons.prems(5) p by simp
    have run: "finalize_loop ((t, M) # TM) T D = finalize_loop TM T1 ?D"
      using True fin Cons.prems(5) p by (simp add: unmatched_of_def apply_delta_fresh)
    have fresh: "t' \<in> fst ` set TM \<Longrightarrow> t' \<noteq> t" for t'
      using Cons.prems(2) p by auto
    have pre: "\<forall>t' \<in> fst ` set TM. untouched t' T1 \<and> amount_for ?D t' = 0"
    proof
      fix t' assume t': "t' \<in> fst ` set TM"
      then have "untouched t' T" "amount_for D t' = 0" using Cons.prems(5) by auto
      then show "untouched t' T1 \<and> amount_for ?D t' = 0"
        using fresh [OF t'] untouched_same [OF _ other] D1 by simp
    qed
    have IH: "if \<forall>M \<in> snd ` set TM. sum_fits (token_sum M)
        then \<exists>T' D'. finalize_loop TM T1 ?D = Some (Inr (T', D')) \<and> tokens_done TM T1 ?D T' D'
        else finalize_loop TM T1 ?D = Some (Inl Overflow)"
      by (rule Cons.IH [OF _ _ T1 _ pre]) (use Cons.prems in simp_all)
    have head: "t \<notin> fst ` set TM" using fresh by blast
    have step: "tokens_done (p # TM) T D T' D'" if "tokens_done TM T1 ?D T' D'" for T' D'
    proof -
      have "same_for t T1 T'" "amount_for D' t = ?d"
        using that head D1 by (auto simp: tokens_done_def)
      moreover have "same_for t' T T' \<and> amount_for D' t' = amount_for D t'"
        if "t' \<noteq> t" "t' \<notin> fst ` set TM" for t'
        using \<open>tokens_done TM T1 ?D T' D'\<close> that D1 same_for_trans [OF other [OF that(1)]]
        by (auto simp: tokens_done_def)
      ultimately show ?thesis
        using that this_token p by (auto simp: tokens_done_def same_for_def)
    qed
    show ?thesis
      using IH True step p by (simp only: run) (auto split: if_splits)
  qed
qed

definition delta_sum :: "transfer_matcher \<Rightarrow> token_id \<Rightarrow> int" where
  "delta_sum TM t = token_sum (entry_read matcher_default t TM)"

lemma token_sum_default [simp]: "token_sum matcher_default = 0"
  by (simp add: token_sum_def matcher_default_def)

lemma map_of_matcher:
  "keys_distinct TM \<Longrightarrow> (t, M) \<in> set TM \<Longrightarrow> entry_read matcher_default t TM = M"
  by (simp add: entry_read_def)

lemma all_sums_fit:
  assumes "keys_distinct TM"
  shows "(\<forall>M \<in> snd ` set TM. sum_fits (token_sum M)) \<longleftrightarrow> (\<forall>t. sum_fits (delta_sum TM t))"
proof
  assume *: "\<forall>M \<in> snd ` set TM. sum_fits (token_sum M)"
  show "\<forall>t. sum_fits (delta_sum TM t)"
    unfolding delta_sum_def
    using entries_forall_read [OF *, of matcher_default] by (simp add: sum_fits_def i_max_def)
next
  assume *: "\<forall>t. sum_fits (delta_sum TM t)"
  show "\<forall>M \<in> snd ` set TM. sum_fits (token_sum M)"
  proof
    fix M assume "M \<in> snd ` set TM"
    then obtain t where "(t, M) \<in> set TM" by auto
    with assms * show "sum_fits (token_sum M)"
      using map_of_matcher unfolding delta_sum_def by metis
  qed
qed

lemma tokens_done_all:
  assumes "transfer_matcher_ok TM" and "tokens_done TM [] [] T D"
  shows "amount_for D t = delta_sum TM t"
    and "delta_sum TM t = 0 \<Longrightarrow>
      sent T a t = int (amount_for (withdrawals (entry_read matcher_default t TM)) a) \<and>
      received T a t = int (amount_for (deposits (entry_read matcher_default t TM)) a)"
proof -
  have dist: "keys_distinct TM"
    using assms(1) by (simp add: transfer_matcher_ok_def entries_ok_def)
  consider (missing) "t \<notin> fst ` set TM" | (present) M where "(t, M) \<in> set TM" by force
  then have "amount_for D t = delta_sum TM t \<and> (delta_sum TM t = 0 \<longrightarrow>
      sent T a t = int (amount_for (withdrawals (entry_read matcher_default t TM)) a) \<and>
      received T a t = int (amount_for (deposits (entry_read matcher_default t TM)) a))"
  proof cases
    case missing
    then have "entry_read matcher_default t TM = matcher_default"
      by (simp add: entry_read_def map_of_eq_None_iff [THEN iffD2])
    moreover have "same_for t [] T" "amount_for D t = 0"
      using assms(2) missing by (auto simp: tokens_done_def)
    ultimately show ?thesis
      by (simp add: delta_sum_def same_for_def) (simp add: matcher_default_def)
  next
    case present
    then have "entry_read matcher_default t TM = M" using dist by (rule map_of_matcher [rotated])
    with present assms(2) show ?thesis
      unfolding tokens_done_def delta_sum_def by fastforce
  qed
  then show "amount_for D t = delta_sum TM t"
    and "delta_sum TM t = 0 \<Longrightarrow>
      sent T a t = int (amount_for (withdrawals (entry_read matcher_default t TM)) a) \<and>
      received T a t = int (amount_for (deposits (entry_read matcher_default t TM)) a)" by blast+
qed

lemma entries_ok_empty: "entries_ok 0 D \<Longrightarrow> D = [] \<longleftrightarrow> (\<forall>t. amount_for D t = (0::int))"
proof -
  assume ok: "entries_ok 0 D"
  have "(fst p, snd p) \<in> set D \<Longrightarrow> amount_for D (fst p) \<noteq> 0" for p
    using entry_read_mem [OF ok, of "fst p" "snd p"] by (simp add: amount_for_def)
  then show ?thesis by (cases D) auto
qed

lemma finalize_correct:
  assumes "transfer_matcher_ok TM"
  shows "if \<exists>t. \<not> sum_fits (delta_sum TM t) then finalize TM = Some (Inl Overflow)
    else if \<exists>t. delta_sum TM t \<noteq> 0
      then \<exists>D. finalize TM = Some (Inl (UnmatchedDeltas D)) \<and> (\<forall>t. amount_for D t = delta_sum TM t)
    else \<exists>T. finalize TM = Some (Inr T) \<and> transfers_ok T \<and>
      (\<forall>t a. sent T a t = int (amount_for (withdrawals (entry_read matcher_default t TM)) a) \<and>
             received T a t = int (amount_for (deposits (entry_read matcher_default t TM)) a))"
proof -
  have dist: "keys_distinct TM" and ok: "\<forall>M \<in> snd ` set TM. matcher_ok M"
    using assms by (simp_all add: transfer_matcher_ok_def entries_ok_def)
  have "\<forall>t \<in> fst ` set TM. untouched t [] \<and> amount_for [] t = (0::int)"
    by (simp add: untouched_def transfer_amount_def)
  from finalize_loop_correct [OF ok dist transfers_ok_Nil entries_ok_Nil this] all_sums_fit [OF dist]
  have loop: "if \<forall>t. sum_fits (delta_sum TM t)
    then \<exists>T' D'. finalize_loop TM [] [] = Some (Inr (T', D')) \<and> tokens_done TM [] [] T' D'
    else finalize_loop TM [] [] = Some (Inl Overflow)" by simp
  show ?thesis
  proof (cases "\<forall>t. sum_fits (delta_sum TM t)")
    case False
    then show ?thesis using loop by (auto simp: finalize_def)
  next
    case True
    then obtain T D where run: "finalize_loop TM [] [] = Some (Inr (T, D))" and res: "tokens_done TM [] [] T D"
      using loop by auto
    note all = tokens_done_all [OF assms res]
    have empty: "D = [] \<longleftrightarrow> (\<forall>t. delta_sum TM t = 0)"
      using entries_ok_empty [of D] all(1) res by (auto simp: tokens_done_def)
    show ?thesis
      using True run empty all res by (auto simp: finalize_def tokens_done_def)
  qed
qed

subsection \<open>From the deltas of a batch to its transfers\<close>

text \<open>Feeding a list of deltas to an accumulator, as the engine does one call at a time:
  \<open>None\<close> when a call panics or returns false.\<close>

fun add_deltas :: "(account_id \<times> token_id \<times> int) list \<Rightarrow> transfer_matcher \<Rightarrow> transfer_matcher option" where
  "add_deltas [] TM = Some TM"
| "add_deltas ((a, t, d) # xs) TM =
     (case matcher_add_delta a t d TM of
        Some (TM', True) \<Rightarrow> add_deltas xs TM'
      | _ \<Rightarrow> None)"

definition delta_of :: "(account_id \<times> token_id \<times> int) list \<Rightarrow> account_id \<Rightarrow> token_id \<Rightarrow> int" where
  "delta_of xs a t = sum_list (map (\<lambda>(b, u, d). if b = a \<and> u = t then d else 0) xs)"

lemma delta_of_simps [simp]:
  "delta_of [] a t = 0"
  "delta_of ((b, u, d) # xs) a t = (if b = a \<and> u = t then d else 0) + delta_of xs a t"
  by (simp_all add: delta_of_def)

lemma add_deltas_net:
  assumes "transfer_matcher_ok TM" and "add_deltas xs TM = Some TM'"
  shows "transfer_matcher_ok TM' \<and> (\<forall>t a. net_delta TM' t a = net_delta TM t a + delta_of xs a t)"
  using assms
proof (induction xs arbitrary: TM)
  case (Cons x xs)
  obtain a t d where x: "x = (a, t, d)" by (cases x)
  obtain TM1 ok where step: "matcher_add_delta a t d TM = Some (TM1, ok)" "transfer_matcher_ok TM1"
    and net: "ok \<Longrightarrow> \<forall>u b. net_delta TM1 u b = net_delta TM u b + (if u = t \<and> b = a then d else 0)"
    using matcher_add_delta_spec [of a t d] Cons.prems(1) unfolding adds_delta_def by blast
  have ok: "ok" and rest: "add_deltas xs TM1 = Some TM'"
    using Cons.prems(2) x step(1) by (auto split: bool.splits)
  show ?case
    using Cons.IH [OF step(2) rest] net [OF ok] x by auto
qed simp

lemma transfer_matcher_ok_Nil [simp]: "transfer_matcher_ok []"
  by (simp add: transfer_matcher_ok_def)

lemma net_delta_Nil [simp]: "net_delta [] t a = 0"
  by (simp add: net_delta_def)

lemma matcher_ok_exclusive:
  "matcher_ok M \<Longrightarrow> amount_for (deposits M) a = 0 \<or> amount_for (withdrawals M) a = 0"
  unfolding matcher_ok_def by (elim conjE) (erule spec)

text \<open>Every transfer that is listed moves something, and no sender or receiver is listed in vain.\<close>

definition all_positive :: "transfers \<Rightarrow> bool" where
  "all_positive T \<longleftrightarrow>
     list_all (\<lambda>(_, rs). rs \<noteq> [] \<and> list_all (\<lambda>(_, ts). ts \<noteq> [] \<and> list_all (\<lambda>(_, n). 0 < n) ts) rs) T"

lemma transfers_ok_positive: "transfers_ok T \<Longrightarrow> all_positive T"
  by (force simp: transfers_ok_def sender_ok_def entries_ok_def all_positive_def list_all_iff)

text \<open>C15: the transfers that \<open>finalize\<close> returns are the net effect of the batch: in every token
  every account receives minus sends exactly the sum of its deltas, no account both sends
  and receives the same token (so nobody transfers to itself), and every transfer that is listed
  has a positive amount.\<close>

theorem transfers_reproduce_deltas:
  assumes "add_deltas xs [] = Some TM" and "finalize TM = Some (Inr T)"
  shows "received T a t - sent T a t = delta_of xs a t \<and> (sent T a t = 0 \<or> received T a t = 0) \<and> all_positive T"
proof -
  let ?M = "entry_read matcher_default t TM"
  have ok: "transfer_matcher_ok TM" and net: "token_net ?M a = delta_of xs a t"
    using add_deltas_net [OF transfer_matcher_ok_Nil assms(1)] by (auto simp: net_delta_def)
  have "sent T a t = int (amount_for (withdrawals ?M) a) \<and> received T a t = int (amount_for (deposits ?M) a) \<and> transfers_ok T"
    using finalize_correct [OF ok] assms(2) by (auto split: if_splits)
  moreover have "amount_for (deposits ?M) a = 0 \<or> amount_for (withdrawals ?M) a = 0"
    by (rule matcher_ok_exclusive [OF transfer_matcher_ok_read [OF ok]])
  ultimately show ?thesis
    using net transfers_ok_positive by (auto simp: token_net_def)
qed

text \<open>The sum over all accounts of the deltas of a token.\<close>

definition batch_sum :: "(account_id \<times> token_id \<times> int) list \<Rightarrow> token_id \<Rightarrow> int" where
  "batch_sum xs t = sum_list (map (\<lambda>(_, u, d). if u = t then d else 0) xs)"

lemma token_sum_write:
  assumes "matcher_ok M" and "\<forall>a. token_net M' a = token_net M a + (if a = owner then x else 0)" and "matcher_ok M'"
  shows "token_sum M' = token_sum M + x"
proof -
  let ?A = "insert owner (fst ` set (deposits M) \<union> fst ` set (withdrawals M) \<union>
    fst ` set (deposits M') \<union> fst ` set (withdrawals M'))"
  have sums: "sum_map int m = (\<Sum>a\<in>?A. int (amount_for m a))"
    if "amounts_u128 m" "fst ` set m \<subseteq> ?A" for m :: "account_id amounts"
  proof -
    have m: "entries_ok 0 m" using that by (simp add: amounts_u128_def)
    have "sum_map int m = (\<Sum>p\<in>set m. int (snd p))"
      using m by (simp add: sum_map_def entries_ok_def sum_list_distinct_conv_sum_set distinct_map)
    also have "\<dots> = (\<Sum>a\<in>fst ` set m. int (amount_for m a))"
      using m by (subst sum.reindex)
        (auto simp: entries_ok_def distinct_map amount_for_def entry_read_def intro!: sum.cong)
    also have "\<dots> = (\<Sum>a\<in>?A. int (amount_for m a))"
      by (rule sum.mono_neutral_left)
        (use that in \<open>auto simp: amount_for_def entry_read_def map_of_eq_None_iff [THEN iffD2]\<close>)
    finally show ?thesis .
  qed
  have tot: "token_sum N = (\<Sum>a\<in>?A. token_net N a)" if "N = M \<or> N = M'" "matcher_ok N" for N
  proof -
    have "amounts_u128 (deposits N)" "amounts_u128 (withdrawals N)"
      using that(2) by (simp_all add: matcher_ok_def)
    moreover have "fst ` set (deposits N) \<subseteq> ?A" "fst ` set (withdrawals N) \<subseteq> ?A"
      using that(1) by blast+
    ultimately show ?thesis
      by (simp only: token_sum_def sums token_net_def sum_subtractf)
  qed
  have "token_sum M' = (\<Sum>a\<in>?A. token_net M a + (if a = owner then x else 0))"
    using tot [of M'] assms by (simp only: simp_thms)
  also have "\<dots> = token_sum M + x"
    using tot [of M] assms(1) by (simp add: sum.distrib)
  finally show ?thesis .
qed

lemma add_deltas_sum:
  assumes "transfer_matcher_ok TM" and "add_deltas xs TM = Some TM'"
  shows "delta_sum TM' t = delta_sum TM t + batch_sum xs t"
  using assms
proof (induction xs arbitrary: TM)
  case Nil
  then show ?case by (simp add: batch_sum_def)
next
  case (Cons x xs)
  obtain a u d where x: "x = (a, u, d)" by (cases x)
  obtain TM1 ok where step: "matcher_add_delta a u d TM = Some (TM1, ok)" "transfer_matcher_ok TM1"
    and net: "ok \<Longrightarrow> \<forall>v b. net_delta TM1 v b = net_delta TM v b + (if v = u \<and> b = a then d else 0)"
    using matcher_add_delta_spec [of a u d] Cons.prems(1) unfolding adds_delta_def by blast
  have ok: "ok" and rest: "add_deltas xs TM1 = Some TM'"
    using Cons.prems(2) x step(1) by (auto split: bool.splits)
  have "delta_sum TM1 t = delta_sum TM t + (if u = t then d else 0)"
    unfolding delta_sum_def
    by (rule token_sum_write [of _ _ a])
      (use net [OF ok] step(2) Cons.prems(1) in \<open>auto simp: net_delta_def transfer_matcher_ok_read\<close>)
  then show ?case
    using Cons.IH [OF step(2) rest] x by (simp add: batch_sum_def)
qed

text \<open>C16: the outcome of \<open>finalize\<close> depends on the sums of the deltas per token only. It never
  panics; it reports an overflow exactly when some sum leaves the range of \<open>i128\<close> (in absolute
  value), succeeds exactly when all sums are zero, and the unmatched deltas it reports are
  these sums.\<close>

theorem finalize_outcome:
  assumes "add_deltas xs [] = Some TM"
  shows "finalize TM \<noteq> None \<and>
    (finalize TM = Some (Inl Overflow) \<longleftrightarrow> (\<exists>t. i_max 128 < \<bar>batch_sum xs t\<bar>)) \<and>
    ((\<exists>T. finalize TM = Some (Inr T)) \<longleftrightarrow> (\<forall>t. batch_sum xs t = 0)) \<and>
    (\<forall>D. finalize TM = Some (Inl (UnmatchedDeltas D)) \<longrightarrow> (\<forall>t. amount_for D t = batch_sum xs t))"
proof -
  have ok: "transfer_matcher_ok TM"
    using add_deltas_net [OF transfer_matcher_ok_Nil assms] by blast
  have sum: "delta_sum TM t = batch_sum xs t" for t
    using add_deltas_sum [OF transfer_matcher_ok_Nil assms] by (simp add: delta_sum_def)
  have zero: "sum_fits 0" by (simp add: sum_fits_def i_max_def)
  consider (over) t where "\<not> sum_fits (batch_sum xs t)"
    | (unmatched) t where "\<forall>t. sum_fits (batch_sum xs t)" "batch_sum xs t \<noteq> 0"
    | (matched) "\<forall>t. batch_sum xs t = 0" by blast
  then show ?thesis
  proof cases
    case over
    then have "\<not> sum_fits (delta_sum TM t)" by (simp add: sum)
    then have "finalize TM = Some (Inl Overflow)"
      using finalize_correct [OF ok] by meson
    moreover have "batch_sum xs t \<noteq> 0" using over zero by metis
    ultimately show ?thesis using over by (auto simp: sum_fits_def not_le)
  next
    case unmatched
    then obtain D where "finalize TM = Some (Inl (UnmatchedDeltas D))" "\<forall>t. amount_for D t = batch_sum xs t"
      using finalize_correct [OF ok] by (auto simp: sum split: if_splits)
    with unmatched show ?thesis by (auto simp: sum_fits_def not_less)
  next
    case matched
    then obtain T where "finalize TM = Some (Inr T)"
      using finalize_correct [OF ok] by (auto simp: sum zero split: if_splits)
    with matched show ?thesis by (auto simp: i_max_def)
  qed
qed

text \<open>Two batches from the repository's own tests of the matcher.\<close>

definition ft1 :: token_id where "ft1 = Nep141 ''ft1.near''"
definition ft2 :: token_id where "ft2 = Nep141 ''ft2.near''"

definition matched_batch :: "(account_id \<times> token_id \<times> int) list" where
  "matched_batch = [(''a'', ft1, -5), (''a'', ft2, 1), (''b'', ft1, 4), (''b'', ft2, -1), (''c'', ft1, 3),
     (''d'', ft1, -10), (''e'', ft1, -1), (''f'', ft1, 10), (''g'', ft1, -1)]"

definition unmatched_batch :: "(account_id \<times> token_id \<times> int) list" where
  "unmatched_batch = [(''a'', ft1, -5), (''b'', ft1, 4), (''d'', ft1, -10), (''e'', ft1, -1),
     (''f'', ft1, 10), (''g'', ft1, -1), (''a'', ft2, -1)]"

definition outcome :: "(account_id \<times> token_id \<times> int) list \<Rightarrow> (invariant_violated + transfers) option" where
  "outcome xs = Option.bind (add_deltas xs []) finalize"

lemmas matcher_eval = outcome_def matcher_add_delta_def on_token_def token_add_delta_def token_withdraw_def
  token_deposit_def sub_add_def Let_def entry_read_def entry_write_def matcher_default_def amount_for_def
  amounts_add_def amounts_sub_def checked_apply_def checked_add_u_def checked_sub_u_def fit_u_def u_max_def
  finalize_def finalize_into_def sort_desc_def transfer_def total_u128_def i128_try_from_def fit_i_def
  i_max_def i_min_def checked_neg_i_def apply_delta_def checked_add_i_def

lemma matched_batch_runs: "\<exists>T. outcome matched_batch = Some (Inr T)"
  by (simp add: matched_batch_def ft1_def ft2_def matcher_eval)

lemma unmatched_batch_runs:
  "outcome unmatched_batch = Some (Inl (UnmatchedDeltas [(ft1, -3), (ft2, -1)]))"
  by (simp add: unmatched_batch_def ft1_def ft2_def matcher_eval)

theorem transfers_reproduce_deltas_witness:
  "\<exists>T. outcome matched_batch = Some (Inr T) \<and>
    received T ''a'' ft1 - sent T ''a'' ft1 = -5 \<and> (sent T ''a'' ft1 = 0 \<or> received T ''a'' ft1 = 0) \<and> all_positive T"
proof -
  obtain TM T where run: "add_deltas matched_batch [] = Some TM" and fin: "finalize TM = Some (Inr T)"
    using matched_batch_runs by (auto simp: outcome_def split: option.splits sum.splits bind_splits)
  have "delta_of matched_batch ''a'' ft1 = -5"
    by (simp add: matched_batch_def ft1_def ft2_def)
  then show ?thesis
    using transfers_reproduce_deltas [OF run fin, of "''a''" ft1] run fin by (simp add: outcome_def)
qed

theorem finalize_outcome_witness:
  "\<exists>TM D. add_deltas unmatched_batch [] = Some TM \<and>
    finalize TM = Some (Inl (UnmatchedDeltas D)) \<and> (\<forall>t. amount_for D t = batch_sum unmatched_batch t)"
proof -
  obtain TM where run: "add_deltas unmatched_batch [] = Some TM"
    and fin: "finalize TM = Some (Inl (UnmatchedDeltas [(ft1, -3), (ft2, -1)]))"
    using unmatched_batch_runs by (auto simp: outcome_def split: bind_splits)
  then show ?thesis
    using finalize_outcome [OF run] by blast
qed

end
