(* ===== verification/Engine.thy ===== *)
theory Engine
  imports TokenDiffs Matching
begin

text \<open>
  The intents engine (\<open>core/src/engine\<close>). The traits \<open>StateView\<close> and \<open>State\<close> are a record of
  operations over an abstract state \<open>'s\<close>, one field per method; the default methods of the
  trait are definitions over such a record. \<open>deltas_ops\<close> is the wrapper \<open>Deltas<S>\<close>, which
  adds the transfer matcher to the state. Every method that can fail or change the state
  returns a result.
\<close>

subsection \<open>The traits \<open>StateView\<close> and \<open>State\<close>\<close>

record 's state_ops =
  so_verifying_contract :: "'s \<Rightarrow> account_id"
  so_wnear_id :: "'s \<Rightarrow> account_id"
  so_fee :: "'s \<Rightarrow> pips"
  so_fee_collector :: "'s \<Rightarrow> account_id"
  so_has_public_key :: "'s \<Rightarrow> account_id \<Rightarrow> public_key \<Rightarrow> bool"
  so_iter_public_keys :: "'s \<Rightarrow> account_id \<Rightarrow> public_key list"
  so_is_nonce_used :: "'s \<Rightarrow> account_id \<Rightarrow> nonce \<Rightarrow> bool"
  so_balance_of :: "'s \<Rightarrow> account_id \<Rightarrow> token_id \<Rightarrow> nat"
  so_is_account_locked :: "'s \<Rightarrow> account_id \<Rightarrow> bool"
  so_is_auth_by_predecessor_id_enabled :: "'s \<Rightarrow> account_id \<Rightarrow> bool"
  so_is_valid_salt :: "'s \<Rightarrow> salt \<Rightarrow> bool"
  so_add_public_key :: "account_id \<Rightarrow> public_key \<Rightarrow> 's \<Rightarrow> 's result"
  so_remove_public_key :: "account_id \<Rightarrow> public_key \<Rightarrow> 's \<Rightarrow> 's result"
  so_commit_nonce :: "account_id \<Rightarrow> nonce \<Rightarrow> 's \<Rightarrow> 's result"
  so_cleanup_nonce_by_prefix :: "account_id \<Rightarrow> nonce_prefix \<Rightarrow> 's \<Rightarrow> ('s \<times> bool) result"
  so_internal_add_balance :: "account_id \<Rightarrow> (token_id \<times> nat) list \<Rightarrow> 's \<Rightarrow> 's result"
  so_internal_sub_balance :: "account_id \<Rightarrow> (token_id \<times> nat) list \<Rightarrow> 's \<Rightarrow> 's result"
  so_ft_withdraw :: "account_id \<Rightarrow> ft_withdraw \<Rightarrow> 's \<Rightarrow> 's result"
  so_nft_withdraw :: "account_id \<Rightarrow> nft_withdraw \<Rightarrow> 's \<Rightarrow> 's result"
  so_mt_withdraw :: "account_id \<Rightarrow> mt_withdraw \<Rightarrow> 's \<Rightarrow> 's result"
  so_native_withdraw :: "account_id \<Rightarrow> native_withdraw \<Rightarrow> 's \<Rightarrow> 's result"
  so_notify_on_transfer ::
    "account_id \<Rightarrow> account_id \<Rightarrow> token_id amounts \<Rightarrow> notify_on_transfer \<Rightarrow> 's \<Rightarrow> 's result"
  so_storage_deposit :: "account_id \<Rightarrow> storage_deposit \<Rightarrow> 's \<Rightarrow> 's result"
  so_set_auth_by_predecessor_id :: "account_id \<Rightarrow> bool \<Rightarrow> 's \<Rightarrow> ('s \<times> bool) result"
  so_auth_call :: "account_id \<Rightarrow> auth_call \<Rightarrow> 's \<Rightarrow> 's result"
  so_mint :: "account_id \<Rightarrow> token_id amounts \<Rightarrow> string option \<Rightarrow> 's \<Rightarrow> 's result"
  so_burn :: "account_id \<Rightarrow> token_id amounts \<Rightarrow> string option \<Rightarrow> 's \<Rightarrow> 's result"

definition wnear_token_id :: "'s state_ops \<Rightarrow> 's \<Rightarrow> token_id" where
  "wnear_token_id ops s = Nep141 (so_wnear_id ops s)"

definition internal_apply_deltas ::
  "'s state_ops \<Rightarrow> account_id \<Rightarrow> (token_id \<times> int) list \<Rightarrow> 's \<Rightarrow> 's result" where
  "internal_apply_deltas ops owner tokens = fold_r (\<lambda>(t, delta).
     if delta < 0 then so_internal_sub_balance ops owner [(t, nat \<bar>delta\<bar>)]
     else so_internal_add_balance ops owner [(t, nat \<bar>delta\<bar>)]) tokens"

definition imt_mint ::
  "'s state_ops \<Rightarrow> account_id \<Rightarrow> account_id \<Rightarrow> string amounts \<Rightarrow> string option \<Rightarrow>
   notify_on_transfer option \<Rightarrow> 's \<Rightarrow> 's result" where
  "imt_mint ops minter receiver tokens memo notification s =
     bind_r (require_r (tokens \<noteq> []) InvalidIntent) (\<lambda>_.
     bind_r (into_generic_tokens minter tokens) (\<lambda>ts.
     bind_r (so_mint ops receiver ts memo s) (\<lambda>s'.
       case notification of
         None \<Rightarrow> Inr s'
       | Some n \<Rightarrow> so_notify_on_transfer ops minter receiver ts (adjust_min_gas n) s')))"

definition imt_burn ::
  "'s state_ops \<Rightarrow> account_id \<Rightarrow> account_id \<Rightarrow> string amounts \<Rightarrow> string option \<Rightarrow> 's \<Rightarrow> 's result" where
  "imt_burn ops owner minter tokens memo s =
     bind_r (require_r (tokens \<noteq> []) InvalidIntent) (\<lambda>_.
     bind_r (into_generic_tokens minter tokens) (\<lambda>ts. so_burn ops owner ts memo s))"

subsection \<open>\<open>Deltas\<close>\<close>

type_synonym 's deltas_state = "'s \<times> transfer_matcher"

definition on_inner :: "('s \<Rightarrow> 's result) \<Rightarrow> 's deltas_state \<Rightarrow> 's deltas_state result" where
  "on_inner f d = bind_r (f (fst d)) (\<lambda>s. Inr (s, snd d))"

definition on_inner_b :: "('s \<Rightarrow> ('s \<times> bool) result) \<Rightarrow> 's deltas_state \<Rightarrow> ('s deltas_state \<times> bool) result" where
  "on_inner_b f d = bind_r (f (fst d)) (\<lambda>(s, b). Inr ((s, snd d), b))"

text \<open>\<open>None\<close> is a panic of the matcher, which its invariant excludes; false is an overflow.\<close>

definition record_delta ::
  "(transfer_matcher \<times> bool) option \<Rightarrow> 's \<Rightarrow> 's deltas_state result" where
  "record_delta m s = (case m of
      None \<Rightarrow> Inl (Panicked ''unreachable'')
    | Some (TM, ok) \<Rightarrow> if ok then Inr (s, TM) else Inl BalanceOverflow)"

definition deltas_add_balance ::
  "'s state_ops \<Rightarrow> account_id \<Rightarrow> (token_id \<times> nat) list \<Rightarrow> 's deltas_state \<Rightarrow> 's deltas_state result" where
  "deltas_add_balance ops owner tokens = fold_r (\<lambda>(t, amount) (s, TM).
     bind_r (so_internal_add_balance ops owner [(t, amount)] s) (\<lambda>s'.
       record_delta (matcher_deposit owner t amount TM) s')) tokens"

definition deltas_sub_balance ::
  "'s state_ops \<Rightarrow> account_id \<Rightarrow> (token_id \<times> nat) list \<Rightarrow> 's deltas_state \<Rightarrow> 's deltas_state result" where
  "deltas_sub_balance ops owner tokens = fold_r (\<lambda>(t, amount) (s, TM).
     bind_r (so_internal_sub_balance ops owner [(t, amount)] s) (\<lambda>s'.
       record_delta (matcher_withdraw owner t amount TM) s')) tokens"

definition deltas_ops :: "'s state_ops \<Rightarrow> 's deltas_state state_ops" where
  "deltas_ops ops = \<lparr>
     so_verifying_contract = (\<lambda>d. so_verifying_contract ops (fst d)),
     so_wnear_id = (\<lambda>d. so_wnear_id ops (fst d)),
     so_fee = (\<lambda>d. so_fee ops (fst d)),
     so_fee_collector = (\<lambda>d. so_fee_collector ops (fst d)),
     so_has_public_key = (\<lambda>d. so_has_public_key ops (fst d)),
     so_iter_public_keys = (\<lambda>d. so_iter_public_keys ops (fst d)),
     so_is_nonce_used = (\<lambda>d. so_is_nonce_used ops (fst d)),
     so_balance_of = (\<lambda>d. so_balance_of ops (fst d)),
     so_is_account_locked = (\<lambda>d. so_is_account_locked ops (fst d)),
     so_is_auth_by_predecessor_id_enabled = (\<lambda>d. so_is_auth_by_predecessor_id_enabled ops (fst d)),
     so_is_valid_salt = (\<lambda>d. so_is_valid_salt ops (fst d)),
     so_add_public_key = (\<lambda>a k. on_inner (so_add_public_key ops a k)),
     so_remove_public_key = (\<lambda>a k. on_inner (so_remove_public_key ops a k)),
     so_commit_nonce = (\<lambda>a n. on_inner (so_commit_nonce ops a n)),
     so_cleanup_nonce_by_prefix = (\<lambda>a p. on_inner_b (so_cleanup_nonce_by_prefix ops a p)),
     so_internal_add_balance = deltas_add_balance ops,
     so_internal_sub_balance = deltas_sub_balance ops,
     so_ft_withdraw = (\<lambda>a w. on_inner (so_ft_withdraw ops a w)),
     so_nft_withdraw = (\<lambda>a w. on_inner (so_nft_withdraw ops a w)),
     so_mt_withdraw = (\<lambda>a w. on_inner (so_mt_withdraw ops a w)),
     so_native_withdraw = (\<lambda>a w. on_inner (so_native_withdraw ops a w)),
     so_notify_on_transfer = (\<lambda>a r ts n. on_inner (so_notify_on_transfer ops a r ts n)),
     so_storage_deposit = (\<lambda>a d. on_inner (so_storage_deposit ops a d)),
     so_set_auth_by_predecessor_id = (\<lambda>a e. on_inner_b (so_set_auth_by_predecessor_id ops a e)),
     so_auth_call = (\<lambda>a c. on_inner (so_auth_call ops a c)),
     so_mint = (\<lambda>a ts m. on_inner (so_mint ops a ts m)),
     so_burn = (\<lambda>a ts m. on_inner (so_burn ops a ts m)) \<rparr>"

subsection \<open>The inspector\<close>

record 'i inspector_ops =
  io_on_deadline :: "timestamp \<Rightarrow> 'i \<Rightarrow> 'i"
  io_on_event :: "defuse_event \<Rightarrow> 'i \<Rightarrow> 'i"
  io_on_intent_executed :: "account_id \<Rightarrow> intent_hash \<Rightarrow> nonce \<Rightarrow> 'i \<Rightarrow> 'i"

type_synonym ('d, 'i) engine = "'d \<times> 'i"

definition on_state :: "('d \<Rightarrow> 'd result) \<Rightarrow> ('d, 'i) engine \<Rightarrow> ('d, 'i) engine result" where
  "on_state f e = bind_r (f (fst e)) (\<lambda>d. Inr (d, snd e))"

definition emit :: "'i inspector_ops \<Rightarrow> defuse_event \<Rightarrow> ('d, 'i) engine \<Rightarrow> ('d, 'i) engine" where
  "emit io ev e = (fst e, io_on_event io ev (snd e))"

subsection \<open>Executing one intent\<close>

text \<open>
  The \<open>execute_intent\<close> of every kind of intent, over the operations \<open>ops\<close> of the engine's
  state and with the order of the source: some emit their event before the state changes,
  some after.
\<close>

definition exec_add_public_key ::
  "'d state_ops \<Rightarrow> 'i inspector_ops \<Rightarrow> public_key \<Rightarrow> account_id \<Rightarrow> intent_hash \<Rightarrow> ('d, 'i) engine \<Rightarrow> ('d, 'i) engine result" where
  "exec_add_public_key ops io k signer h e =
     bind_r (on_state (so_add_public_key ops signer k) e) (\<lambda>e'.
       Inr (emit io (EPublicKeyAdded (intent_event h signer k)) e'))"

definition exec_remove_public_key ::
  "'d state_ops \<Rightarrow> 'i inspector_ops \<Rightarrow> public_key \<Rightarrow> account_id \<Rightarrow> intent_hash \<Rightarrow> ('d, 'i) engine \<Rightarrow> ('d, 'i) engine result" where
  "exec_remove_public_key ops io k signer h e =
     bind_r (on_state (so_remove_public_key ops signer k) e) (\<lambda>e'.
       Inr (emit io (EPublicKeyRemoved (intent_event h signer k)) e'))"

definition exec_set_auth ::
  "'d state_ops \<Rightarrow> 'i inspector_ops \<Rightarrow> bool \<Rightarrow> account_id \<Rightarrow> intent_hash \<Rightarrow> ('d, 'i) engine \<Rightarrow> ('d, 'i) engine result" where
  "exec_set_auth ops io enabled signer h e =
     bind_r (so_set_auth_by_predecessor_id ops signer enabled (fst e)) (\<lambda>(d, toggled).
       let e' = (d, snd e) in
       Inr (if toggled then emit io (ESetAuthByPredecessorId (intent_event h signer enabled)) e' else e'))"

definition exec_transfer ::
  "'d state_ops \<Rightarrow> 'i inspector_ops \<Rightarrow> transfer_intent \<Rightarrow> account_id \<Rightarrow> intent_hash \<Rightarrow> ('d, 'i) engine \<Rightarrow> ('d, 'i) engine result" where
  "exec_transfer ops io i sender h e =
     bind_r (require_r (sender \<noteq> ti_receiver_id i \<and> ti_tokens i \<noteq> []) InvalidIntent) (\<lambda>_.
     let e0 = emit io (ETransfer [intent_event h sender (transfer_event_from i)]) e in
     bind_r (on_state (so_internal_sub_balance ops sender (ti_tokens i)) e0) (\<lambda>e1.
     bind_r (on_state (so_internal_add_balance ops (ti_receiver_id i) (ti_tokens i)) e1) (\<lambda>e2.
       case ti_notification i of
         None \<Rightarrow> Inr e2
       | Some n \<Rightarrow> on_state (so_notify_on_transfer ops sender (ti_receiver_id i) (ti_tokens i) (adjust_min_gas n)) e2)))"

definition exec_ft_withdraw ::
  "'d state_ops \<Rightarrow> 'i inspector_ops \<Rightarrow> ft_withdraw \<Rightarrow> account_id \<Rightarrow> intent_hash \<Rightarrow> ('d, 'i) engine \<Rightarrow> ('d, 'i) engine result" where
  "exec_ft_withdraw ops io w owner h e =
     on_state (so_ft_withdraw ops owner w) (emit io (EFtWithdraw [intent_event h owner w]) e)"

definition exec_nft_withdraw ::
  "'d state_ops \<Rightarrow> 'i inspector_ops \<Rightarrow> nft_withdraw \<Rightarrow> account_id \<Rightarrow> intent_hash \<Rightarrow> ('d, 'i) engine \<Rightarrow> ('d, 'i) engine result" where
  "exec_nft_withdraw ops io w owner h e =
     on_state (so_nft_withdraw ops owner w) (emit io (ENftWithdraw [intent_event h owner w]) e)"

definition exec_mt_withdraw ::
  "'d state_ops \<Rightarrow> 'i inspector_ops \<Rightarrow> mt_withdraw \<Rightarrow> account_id \<Rightarrow> intent_hash \<Rightarrow> ('d, 'i) engine \<Rightarrow> ('d, 'i) engine result" where
  "exec_mt_withdraw ops io w owner h e =
     on_state (so_mt_withdraw ops owner w) (emit io (EMtWithdraw [intent_event h owner w]) e)"

definition exec_native_withdraw ::
  "'d state_ops \<Rightarrow> 'i inspector_ops \<Rightarrow> native_withdraw \<Rightarrow> account_id \<Rightarrow> intent_hash \<Rightarrow> ('d, 'i) engine \<Rightarrow> ('d, 'i) engine result" where
  "exec_native_withdraw ops io w owner h e =
     on_state (so_native_withdraw ops owner w) (emit io (ENativeWithdraw [intent_event h owner w]) e)"

definition exec_storage_deposit ::
  "'d state_ops \<Rightarrow> 'i inspector_ops \<Rightarrow> storage_deposit \<Rightarrow> account_id \<Rightarrow> intent_hash \<Rightarrow> ('d, 'i) engine \<Rightarrow> ('d, 'i) engine result" where
  "exec_storage_deposit ops io w owner h e =
     on_state (so_storage_deposit ops owner w) (emit io (EStorageDeposit [intent_event h owner w]) e)"

definition exec_auth_call ::
  "'d state_ops \<Rightarrow> auth_call \<Rightarrow> account_id \<Rightarrow> ('d, 'i) engine \<Rightarrow> ('d, 'i) engine result" where
  "exec_auth_call ops c signer e = on_state (so_auth_call ops signer c) e"

definition exec_imt_mint ::
  "'d state_ops \<Rightarrow> 'i inspector_ops \<Rightarrow> imt_mint \<Rightarrow> account_id \<Rightarrow> intent_hash \<Rightarrow> ('d, 'i) engine \<Rightarrow> ('d, 'i) engine result" where
  "exec_imt_mint ops io i signer h e =
     on_state (imt_mint ops signer (im_receiver_id i) (im_tokens i) (im_memo i) (im_notification i))
       (emit io (EImtMint [intent_event h signer (imt_mint_event_from i)]) e)"

definition exec_imt_burn ::
  "'d state_ops \<Rightarrow> 'i inspector_ops \<Rightarrow> imt_burn \<Rightarrow> account_id \<Rightarrow> intent_hash \<Rightarrow> ('d, 'i) engine \<Rightarrow> ('d, 'i) engine result" where
  "exec_imt_burn ops io i signer h e =
     on_state (imt_burn ops signer (ib_minter_id i) (ib_tokens i) (ib_memo i))
       (emit io (EImtBurn [intent_event h signer i]) e)"

text \<open>The loop of a token diff: the signer's delta is applied and the fee of a negative delta
  is added to the fees collected so far.\<close>

definition diff_step ::
  "wide \<Rightarrow> 'd state_ops \<Rightarrow> pips \<Rightarrow> account_id \<Rightarrow> token_id \<times> int \<Rightarrow> 'd \<times> token_id amounts \<Rightarrow> ('d \<times> token_id amounts) result" where
  "diff_step W ops protocol_fee signer p acc = (case p of (t, delta) \<Rightarrow> case acc of (d, fees) \<Rightarrow>
     bind_r (require_r (delta \<noteq> 0) InvalidIntent) (\<lambda>_.
     bind_r (internal_apply_deltas ops signer [(t, delta)] d) (\<lambda>d'.
       if delta < 0 then
         (let amount = nat \<bar>delta\<bar> in
          bind_r (ok_or (fee_ceil W (token_fee (token_type t) amount protocol_fee) amount) (Panicked ''fee'')) (\<lambda>x.
          bind_r (ok_or (amounts_add t x fees) BalanceOverflow) (\<lambda>(fees', _). Inr (d', fees'))))
       else Inr (d', fees))))"

definition exec_token_diff ::
  "wide \<Rightarrow> 'd state_ops \<Rightarrow> 'i inspector_ops \<Rightarrow> token_diff \<Rightarrow> account_id \<Rightarrow> intent_hash \<Rightarrow> ('d, 'i) engine \<Rightarrow> ('d, 'i) engine result" where
  "exec_token_diff W ops io td signer h e =
     bind_r (require_r (td_diff td \<noteq> []) InvalidIntent) (\<lambda>_.
     bind_r (fold_r (diff_step W ops (so_fee ops (fst e)) signer) (td_diff td) (fst e, [])) (\<lambda>(d, fees).
     let e' = emit io (ETokenDiff [intent_event h signer \<lparr> tde_diff = td, tde_fees_collected = fees \<rparr>]) (d, snd e) in
       if fees \<noteq> [] then on_state (so_internal_add_balance ops (so_fee_collector ops d) fees) e'
       else Inr e'))"

fun execute_intent ::
  "wide \<Rightarrow> 'd state_ops \<Rightarrow> 'i inspector_ops \<Rightarrow> account_id \<Rightarrow> intent_hash \<Rightarrow> intent \<Rightarrow> ('d, 'i) engine \<Rightarrow> ('d, 'i) engine result" where
  "execute_intent W ops io signer h (AddPublicKey k) e = exec_add_public_key ops io k signer h e"
| "execute_intent W ops io signer h (RemovePublicKey k) e = exec_remove_public_key ops io k signer h e"
| "execute_intent W ops io signer h (Transfer i) e = exec_transfer ops io i signer h e"
| "execute_intent W ops io signer h (FtWithdraw w) e = exec_ft_withdraw ops io w signer h e"
| "execute_intent W ops io signer h (NftWithdraw w) e = exec_nft_withdraw ops io w signer h e"
| "execute_intent W ops io signer h (MtWithdraw w) e = exec_mt_withdraw ops io w signer h e"
| "execute_intent W ops io signer h (NativeWithdraw w) e = exec_native_withdraw ops io w signer h e"
| "execute_intent W ops io signer h (StorageDeposit w) e = exec_storage_deposit ops io w signer h e"
| "execute_intent W ops io signer h (TokenDiff td) e = exec_token_diff W ops io td signer h e"
| "execute_intent W ops io signer h (SetAuthByPredecessorId b) e = exec_set_auth ops io b signer h e"
| "execute_intent W ops io signer h (AuthCall c) e = exec_auth_call ops c signer e"
| "execute_intent W ops io signer h (ImtMint i) e = exec_imt_mint ops io i signer h e"
| "execute_intent W ops io signer h (ImtBurn i) e = exec_imt_burn ops io i signer h e"

definition execute_intents_of ::
  "wide \<Rightarrow> 'd state_ops \<Rightarrow> 'i inspector_ops \<Rightarrow> account_id \<Rightarrow> intent_hash \<Rightarrow> intent list \<Rightarrow> ('d, 'i) engine \<Rightarrow> ('d, 'i) engine result" where
  "execute_intents_of W ops io signer h = fold_r (execute_intent W ops io signer h)"

subsection \<open>Executing signed intents\<close>

record defuse_payload =
  dp_signer_id :: account_id
  dp_verifying_contract :: account_id
  dp_deadline :: timestamp
  dp_nonce :: nonce
  dp_message :: "intent list"

text \<open>
  The environment: the big integers, the clock, the date constructor, and what the engine
  uses of a signed payload of type \<open>'p\<close>: the key that verifies its signature, its hash and
  the intents extracted from it.
\<close>

record 'p engine_env =
  ev_wide :: wide
  ev_now :: timestamp
  ev_from_nanos :: "int \<Rightarrow> timestamp option"
  ev_verify :: "'p \<Rightarrow> public_key option"
  ev_hash :: "'p \<Rightarrow> intent_hash"
  ev_extract :: "'p \<Rightarrow> defuse_payload result"

definition verify_intent_nonce ::
  "'p engine_env \<Rightarrow> 'd state_ops \<Rightarrow> 'd \<Rightarrow> nonce \<Rightarrow> timestamp \<Rightarrow> unit result" where
  "verify_intent_nonce env ops d n intent_deadline =
     (case maybe_from (ev_from_nanos env) n of
        None \<Rightarrow> Inr ()
      | Some (V1 s) \<Rightarrow>
          bind_r (require_r (so_is_valid_salt ops d (sn_salt s)) InvalidSalt) (\<lambda>_.
          bind_r (require_r (intent_deadline \<le> en_deadline (sn_nonce s)) DeadlineGreaterThanNonce) (\<lambda>_.
          require_r (ev_now env \<le> en_deadline (sn_nonce s)) NonceExpired)))"

definition execute_signed_intent ::
  "'p engine_env \<Rightarrow> 'd state_ops \<Rightarrow> 'i inspector_ops \<Rightarrow> 'p \<Rightarrow> ('d, 'i) engine \<Rightarrow> ('d, 'i) engine result" where
  "execute_signed_intent env ops io payload e =
     bind_r (ok_or (ev_verify env payload) InvalidSignature) (\<lambda>pk.
     let h = ev_hash env payload in
     bind_r (ev_extract env payload) (\<lambda>p.
     bind_r (require_r (dp_verifying_contract p = so_verifying_contract ops (fst e)) WrongVerifyingContract) (\<lambda>_.
     let e1 = (fst e, io_on_deadline io (dp_deadline p) (snd e)) in
     bind_r (require_r (ev_now env \<le> dp_deadline p) DeadlineExpired) (\<lambda>_.
     bind_r (require_r (so_has_public_key ops (fst e1) (dp_signer_id p) pk) (PublicKeyNotExist (dp_signer_id p) pk)) (\<lambda>_.
     bind_r (verify_intent_nonce env ops (fst e1) (dp_nonce p) (dp_deadline p)) (\<lambda>_.
     bind_r (on_state (so_commit_nonce ops (dp_signer_id p) (dp_nonce p)) e1) (\<lambda>e2.
     bind_r (execute_intents_of (ev_wide env) ops io (dp_signer_id p) h (dp_message p) e2) (\<lambda>e3.
       Inr (fst e3, io_on_intent_executed io (dp_signer_id p) h (dp_nonce p) (snd e3))))))))))"

definition engine_finalize :: "'s deltas_state \<Rightarrow> transfers result" where
  "engine_finalize d = (case finalize (snd d) of
      None \<Rightarrow> Inl (Panicked ''unreachable'')
    | Some (Inl v) \<Rightarrow> Inl (InvariantViolated v)
    | Some (Inr T) \<Rightarrow> Inr T)"

text \<open>The engine is consumed; the state and the inspector it borrowed are returned with the
  transfers.\<close>

definition execute_signed_intents ::
  "'p engine_env \<Rightarrow> 's state_ops \<Rightarrow> 'i inspector_ops \<Rightarrow> 'p list \<Rightarrow> 's \<times> 'i \<Rightarrow> (transfers \<times> 's \<times> 'i) result" where
  "execute_signed_intents env ops io payloads si =
     bind_r (fold_r (execute_signed_intent env (deltas_ops ops) io) payloads ((fst si, []), snd si)) (\<lambda>e.
     bind_r (engine_finalize (fst e)) (\<lambda>T. Inr (T, fst (fst e), snd e)))"

end
