(* ===== verification/EngineLaws.thy ===== *)
theory EngineLaws
  imports Engine
begin

text \<open>
  What holds of the engine over any state that obeys a contract. \<open>frame_laws\<close> says that every
  state operation, called on behalf of an allowed signer, keeps a relation between the state
  before and after; the locale \<open>engine_frame\<close> lifts this to whole batches. The locale
  \<open>ledger\<close> is the contract of a state that keeps token balances and total supplies; the
  engine turns it into conservation of every token.
\<close>

subsection \<open>Operations that keep a relation\<close>

definition keeps :: "('d \<Rightarrow> 'd \<Rightarrow> bool) \<Rightarrow> ('d \<Rightarrow> 'd result) \<Rightarrow> bool" where
  "keeps R f \<longleftrightarrow> (\<forall>d d'. f d = Inr d' \<longrightarrow> R d d')"

definition keeps_b :: "('d \<Rightarrow> 'd \<Rightarrow> bool) \<Rightarrow> ('d \<Rightarrow> ('d \<times> 'b) result) \<Rightarrow> bool" where
  "keeps_b R f \<longleftrightarrow> (\<forall>d d' b. f d = Inr (d', b) \<longrightarrow> R d d')"

definition frame_laws :: "'d state_ops \<Rightarrow> (account_id \<Rightarrow> bool) \<Rightarrow> ('d \<Rightarrow> 'd \<Rightarrow> bool) \<Rightarrow> bool" where
  "frame_laws ops A R \<longleftrightarrow>
     (\<forall>a k. A a \<longrightarrow> keeps R (so_add_public_key ops a k)) \<and>
     (\<forall>a k. A a \<longrightarrow> keeps R (so_remove_public_key ops a k)) \<and>
     (\<forall>a n. A a \<longrightarrow> u256_ok n \<longrightarrow> keeps R (so_commit_nonce ops a n)) \<and>
     (\<forall>a ts. keeps R (so_internal_add_balance ops a ts)) \<and>
     (\<forall>a ts. A a \<longrightarrow> keeps R (so_internal_sub_balance ops a ts)) \<and>
     (\<forall>a w. A a \<longrightarrow> keeps R (so_ft_withdraw ops a w)) \<and>
     (\<forall>a w. A a \<longrightarrow> keeps R (so_nft_withdraw ops a w)) \<and>
     (\<forall>a w. A a \<longrightarrow> keeps R (so_mt_withdraw ops a w)) \<and>
     (\<forall>a w. A a \<longrightarrow> keeps R (so_native_withdraw ops a w)) \<and>
     (\<forall>a r ts n. A a \<longrightarrow> keeps R (so_notify_on_transfer ops a r ts n)) \<and>
     (\<forall>a w. A a \<longrightarrow> keeps R (so_storage_deposit ops a w)) \<and>
     (\<forall>a b. A a \<longrightarrow> keeps_b R (so_set_auth_by_predecessor_id ops a b)) \<and>
     (\<forall>a c. A a \<longrightarrow> keeps R (so_auth_call ops a c)) \<and>
     (\<forall>a ts m. keeps R (so_mint ops a ts m)) \<and>
     (\<forall>a ts m. A a \<longrightarrow> keeps R (so_burn ops a ts m))"

lemma keepsD: "keeps R f \<Longrightarrow> f d = Inr d' \<Longrightarrow> R d d'"
  by (simp add: keeps_def)

lemma keeps_bD: "keeps_b R f \<Longrightarrow> f d = Inr (d', b) \<Longrightarrow> R d d'"
  unfolding keeps_b_def by blast

lemma keepsI: "(\<And>d d'. f d = Inr d' \<Longrightarrow> R d d') \<Longrightarrow> keeps R f"
  by (simp add: keeps_def)

lemma keeps_bI: "(\<And>d d' b. f d = Inr (d', b) \<Longrightarrow> R d d') \<Longrightarrow> keeps_b R f"
  unfolding keeps_b_def by blast

locale engine_frame =
  fixes ops :: "'d state_ops" and A :: "account_id \<Rightarrow> bool" and R :: "'d \<Rightarrow> 'd \<Rightarrow> bool"
  assumes laws: "frame_laws ops A R" and R_refl: "R d d" and R_trans: "R d e \<Longrightarrow> R e f \<Longrightarrow> R d f"
begin

lemma op_keeps:
  "A a \<Longrightarrow> keeps R (so_add_public_key ops a k)"
  "A a \<Longrightarrow> keeps R (so_remove_public_key ops a k)"
  "A a \<Longrightarrow> u256_ok n \<Longrightarrow> keeps R (so_commit_nonce ops a n)"
  "keeps R (so_internal_add_balance ops b ts)"
  "A a \<Longrightarrow> keeps R (so_internal_sub_balance ops a ts)"
  "A a \<Longrightarrow> keeps R (so_ft_withdraw ops a fw)"
  "A a \<Longrightarrow> keeps R (so_nft_withdraw ops a nw)"
  "A a \<Longrightarrow> keeps R (so_mt_withdraw ops a mw)"
  "A a \<Longrightarrow> keeps R (so_native_withdraw ops a vw)"
  "A a \<Longrightarrow> keeps R (so_notify_on_transfer ops a b us nt)"
  "A a \<Longrightarrow> keeps R (so_storage_deposit ops a sd)"
  "A a \<Longrightarrow> keeps_b R (so_set_auth_by_predecessor_id ops a x)"
  "A a \<Longrightarrow> keeps R (so_auth_call ops a c)"
  "keeps R (so_mint ops b us m)"
  "A a \<Longrightarrow> keeps R (so_burn ops a us m)"
  using laws by (simp_all add: frame_laws_def)

lemmas op_R = op_keeps(1-2,4-11,13-15) [THEN keepsD, rotated] op_keeps(12) [THEN keeps_bD, rotated]

lemma commit_R: "so_commit_nonce ops a n d = Inr d' \<Longrightarrow> A a \<Longrightarrow> u256_ok n \<Longrightarrow> R d d'"
  using op_keeps(3) by (rule keepsD)

abbreviation RE :: "('d, 'i) engine \<Rightarrow> ('d, 'i) engine \<Rightarrow> bool" where
  "RE e e' \<equiv> R (fst e) (fst e')"

lemma on_state_Inr: "on_state f e = Inr e' \<longleftrightarrow> f (fst e) = Inr (fst e') \<and> snd e' = snd e"
  by (cases e') (auto simp: on_state_def result_simps)

lemma emit_fst [simp]: "fst (emit io ev e) = fst e"
  by (simp add: emit_def)

lemma apply_deltas_frame: "internal_apply_deltas ops a ts d = Inr d' \<Longrightarrow> A a \<Longrightarrow> R d d'"
  unfolding internal_apply_deltas_def
  by (erule fold_r_rel [OF _ _ R_refl R_trans]) (auto dest: op_R(3,4) split: if_splits)

lemma diff_step_frame: "diff_step W ops f a p acc = Inr acc' \<Longrightarrow> A a \<Longrightarrow> R (fst acc) (fst acc')"
  by (cases p; cases acc) (auto simp: diff_step_def Let_def result_simps dest: apply_deltas_frame split: if_splits)

lemma token_diff_frame:
  assumes "exec_token_diff W ops io td a h e = Inr e'" and "A a"
  shows "RE e e'"
proof -
  obtain d fees where fold: "fold_r (diff_step W ops (so_fee ops (fst e)) a) (td_diff td) (fst e, []) = Inr (d, fees)"
    and rest: "(let e' = emit io (ETokenDiff [intent_event h a \<lparr> tde_diff = td, tde_fees_collected = fees \<rparr>]) (d, snd e) in
       if fees \<noteq> [] then on_state (so_internal_add_balance ops (so_fee_collector ops d) fees) e' else Inr e') = Inr e'"
    using assms(1) by (auto simp: exec_token_diff_def result_simps)
  have "R (fst (fst e, [] :: token_id amounts)) (fst (d, fees))"
    by (rule fold_r_rel [OF fold, where R = "\<lambda>x y. R (fst x) (fst y)"])
      (use diff_step_frame assms(2) R_refl R_trans in blast)+
  moreover have "R d (fst e')"
    using rest R_refl by (auto simp: Let_def on_state_Inr dest: op_R(3) split: if_splits)
  ultimately show ?thesis using R_trans by simp
qed

lemma imt_mint_frame:
  assumes "imt_mint ops a r ts m n d = Inr d'" and "A a"
  shows "R d d'"
proof -
  obtain us d1 where mint: "so_mint ops r us m d = Inr d1"
    and rest: "(case n of None \<Rightarrow> Inr d1 | Some x \<Rightarrow> so_notify_on_transfer ops a r us (adjust_min_gas x) d1) = Inr d'"
    using assms(1) by (auto simp: imt_mint_def result_simps)
  have "R d1 d'"
    using rest assms(2) R_refl by (cases n) (auto dest: op_R(9))
  with op_R(12) [OF mint] show ?thesis by (rule R_trans)
qed

lemma imt_burn_frame: "imt_burn ops a minter ts m d = Inr d' \<Longrightarrow> A a \<Longrightarrow> R d d'"
  by (auto simp: imt_burn_def result_simps dest: op_R(13))

lemma transfer_frame:
  assumes "exec_transfer ops io i a h e = Inr e'" and "A a"
  shows "RE e e'"
proof -
  obtain e1 e2 where 1: "so_internal_sub_balance ops a (ti_tokens i) (fst e) = Inr (fst e1)"
    and 2: "so_internal_add_balance ops (ti_receiver_id i) (ti_tokens i) (fst e1) = Inr (fst e2)"
    and 3: "(case ti_notification i of None \<Rightarrow> Inr e2
       | Some n \<Rightarrow> on_state (so_notify_on_transfer ops a (ti_receiver_id i) (ti_tokens i) (adjust_min_gas n)) e2) = Inr e'"
    using assms(1) by (auto simp: exec_transfer_def Let_def result_simps on_state_Inr)
  have "R (fst e2) (fst e')"
    using 3 assms(2) R_refl by (cases "ti_notification i") (auto simp: on_state_Inr dest: op_R(9))
  then show ?thesis
    by (rule R_trans [OF R_trans [OF op_R(4) [OF 1 assms(2)] op_R(3) [OF 2]]])
qed

lemma execute_intent_frame:
  assumes "execute_intent W ops io a h i e = Inr e'" and "A a"
  shows "RE e e'"
  using assms
  by (cases i)
    (auto simp: exec_add_public_key_def exec_remove_public_key_def exec_ft_withdraw_def exec_nft_withdraw_def
      exec_mt_withdraw_def exec_native_withdraw_def exec_storage_deposit_def exec_auth_call_def exec_set_auth_def
      exec_imt_mint_def exec_imt_burn_def Let_def on_state_Inr result_simps split: if_splits
      dest: op_R token_diff_frame transfer_frame imt_mint_frame imt_burn_frame)

lemma execute_intents_frame:
  assumes "execute_intents_of W ops io a h is e = Inr e'" and "A a"
  shows "RE e e'"
  using fold_r_rel [OF assms(1) [unfolded execute_intents_of_def], where R = RE]
    execute_intent_frame [OF _ assms(2)] R_refl R_trans by metis

lemma execute_signed_intent_frame:
  assumes "execute_signed_intent env ops io payload e = Inr e'"
    and "\<And>p. ev_extract env payload = Inr p \<Longrightarrow> A (dp_signer_id p) \<and> u256_ok (dp_nonce p)"
  shows "RE e e'"
proof -
  obtain p d2 e3 where p: "ev_extract env payload = Inr p"
    and commit: "so_commit_nonce ops (dp_signer_id p) (dp_nonce p) (fst e) = Inr d2"
    and run: "execute_intents_of (ev_wide env) ops io (dp_signer_id p) (ev_hash env payload) (dp_message p)
       (d2, io_on_deadline io (dp_deadline p) (snd e)) = Inr e3"
    and e': "fst e' = fst e3"
    using assms(1) by (auto simp: execute_signed_intent_def Let_def result_simps on_state_def)
  have a: "A (dp_signer_id p)" and n: "u256_ok (dp_nonce p)" using assms(2) [OF p] by blast+
  have "R d2 (fst e3)" using execute_intents_frame [OF run a] by simp
  with commit_R [OF commit a n] show ?thesis by (simp add: e' R_trans)
qed

lemma execute_batch_frame:
  assumes "fold_r (execute_signed_intent env ops io) payloads e = Inr e'"
    and "\<And>x p. x \<in> set payloads \<Longrightarrow> ev_extract env x = Inr p \<Longrightarrow> A (dp_signer_id p) \<and> u256_ok (dp_nonce p)"
  shows "RE e e'"
proof (rule fold_r_rel [OF assms(1), where R = RE])
  show "RE t t'" if "x \<in> set payloads" "execute_signed_intent env ops io x t = Inr t'" for x t t'
    using that(2) assms(2) [OF that(1)] by (rule execute_signed_intent_frame)
qed (use R_refl R_trans in blast)+

end

subsection \<open>The laws of a state carry over to \<open>Deltas\<close>\<close>

lemma on_inner_Inr: "on_inner f d = Inr d' \<longleftrightarrow> f (fst d) = Inr (fst d') \<and> snd d' = snd d"
  by (cases d') (auto simp: on_inner_def result_simps)

lemma on_inner_b_Inr: "on_inner_b f d = Inr (d', b) \<longleftrightarrow> f (fst d) = Inr (fst d', b) \<and> snd d' = snd d"
  by (cases d') (auto simp: on_inner_b_def result_simps)

lemma keeps_inner: "keeps R f \<Longrightarrow> keeps (\<lambda>d d'. R (fst d) (fst d')) (on_inner f)"
  by (auto simp: keeps_def on_inner_Inr)

lemma keeps_inner_b: "keeps_b R f \<Longrightarrow> keeps_b (\<lambda>d d'. R (fst d) (fst d')) (on_inner_b f)"
  unfolding keeps_b_def on_inner_b_Inr by blast

lemma record_delta_Inr: "record_delta m s = Inr d \<longleftrightarrow> m = Some (snd d, True) \<and> fst d = s"
  by (cases d) (auto simp: record_delta_def split: option.splits)

lemma keeps_deltas_balance:
  assumes "\<And>ts. keeps R (so_internal_add_balance ops a ts)" "\<And>d. R d d" "\<And>d e f. R d e \<Longrightarrow> R e f \<Longrightarrow> R d f"
  shows "keeps (\<lambda>d d'. R (fst d) (fst d')) (deltas_add_balance ops a ts)"
proof (rule keepsI)
  fix d d' assume "deltas_add_balance ops a ts d = Inr d'"
  then show "R (fst d) (fst d')"
    unfolding deltas_add_balance_def
    by (rule fold_r_rel [where R = "\<lambda>d d'. R (fst d) (fst d')"])
      (use keepsD [OF assms(1)] in \<open>auto simp: result_simps record_delta_Inr intro: assms(2,3)\<close>)
qed

lemma keeps_deltas_sub_balance:
  assumes "\<And>ts. keeps R (so_internal_sub_balance ops a ts)" "\<And>d. R d d" "\<And>d e f. R d e \<Longrightarrow> R e f \<Longrightarrow> R d f"
  shows "keeps (\<lambda>d d'. R (fst d) (fst d')) (deltas_sub_balance ops a ts)"
proof (rule keepsI)
  fix d d' assume "deltas_sub_balance ops a ts d = Inr d'"
  then show "R (fst d) (fst d')"
    unfolding deltas_sub_balance_def
    by (rule fold_r_rel [where R = "\<lambda>d d'. R (fst d) (fst d')"])
      (use keepsD [OF assms(1)] in \<open>auto simp: result_simps record_delta_Inr intro: assms(2,3)\<close>)
qed

lemma frame_laws_deltas:
  assumes "frame_laws ops A R" and refl: "\<And>d. R d d" and trans: "\<And>d e f. R d e \<Longrightarrow> R e f \<Longrightarrow> R d f"
  shows "frame_laws (deltas_ops ops) A (\<lambda>d d'. R (fst d) (fst d'))"
  using assms(1) unfolding frame_laws_def deltas_ops_def
  by (simp add: keeps_inner keeps_inner_b)
    (auto intro!: keeps_deltas_balance [of R, OF _ refl trans] keeps_deltas_sub_balance [of R, OF _ refl trans])

text \<open>What a batch keeps of a state that obeys the laws, up to and including finalization.\<close>

lemma execute_signed_intents_frame:
  assumes laws: "frame_laws ops A R" and refl: "\<And>d. R d d" and trans: "\<And>d e f. R d e \<Longrightarrow> R e f \<Longrightarrow> R d f"
    and run: "execute_signed_intents env ops io payloads (s, i) = Inr (T, s', i')"
    and signers: "\<And>x p. x \<in> set payloads \<Longrightarrow> ev_extract env x = Inr p \<Longrightarrow> A (dp_signer_id p) \<and> u256_ok (dp_nonce p)"
  shows "R s s'"
proof -
  let ?L = "\<lambda>d d'. R (fst d) (fst d')"
  have frame: "engine_frame (deltas_ops ops) A ?L"
    by (rule engine_frame.intro [OF frame_laws_deltas [OF laws refl trans] refl trans])
  obtain e where e: "fold_r (execute_signed_intent env (deltas_ops ops) io) payloads ((s, []), i) = Inr e"
    and s': "s' = fst (fst e)"
    using run by (auto simp: execute_signed_intents_def result_simps)
  from engine_frame.execute_batch_frame [OF frame e signers] show ?thesis by (simp add: s')
qed

subsection \<open>Ledgers\<close>

lemma adds_delta_sum:
  assumes "adds_delta step owner t x" and "transfer_matcher_ok TM" and "step TM = Some (TM', True)"
  shows "transfer_matcher_ok TM' \<and> delta_sum TM' u = delta_sum TM u + (if u = t then x else 0)"
proof -
  have ok: "transfer_matcher_ok TM'"
    and net: "\<forall>u a. net_delta TM' u a = net_delta TM u a + (if u = t \<and> a = owner then x else 0)"
    using assms unfolding adds_delta_def by fastforce+
  have "delta_sum TM' u = delta_sum TM u + (if u = t then x else 0)"
    unfolding delta_sum_def
    by (rule token_sum_write [of _ _ owner])
      (use net ok assms(2) in \<open>auto simp: net_delta_def transfer_matcher_ok_read\<close>)
  with ok show ?thesis by blast
qed

text \<open>
  A ledger has an invariant and, for every token, a gap between the recorded supply and the
  sum of the balances. Adding to a balance lowers the gap of that token by the amount,
  subtracting raises it, and every other operation leaves all gaps as they are.
\<close>

definition same_gap :: "('s \<Rightarrow> bool) \<Rightarrow> ('s \<Rightarrow> token_id \<Rightarrow> int) \<Rightarrow> 's \<Rightarrow> 's \<Rightarrow> bool" where
  "same_gap I gap s s' \<longleftrightarrow> (I s \<longrightarrow> I s' \<and> gap s' = gap s)"

definition ledger_rel ::
  "('s \<Rightarrow> bool) \<Rightarrow> ('s \<Rightarrow> token_id \<Rightarrow> int) \<Rightarrow> 's deltas_state \<Rightarrow> 's deltas_state \<Rightarrow> bool" where
  "ledger_rel I gap d d' \<longleftrightarrow> (I (fst d) \<and> transfer_matcher_ok (snd d) \<longrightarrow>
     I (fst d') \<and> transfer_matcher_ok (snd d') \<and>
     (\<forall>t. gap (fst d') t + delta_sum (snd d') t = gap (fst d) t + delta_sum (snd d) t))"

locale ledger =
  fixes ops :: "'s state_ops" and I :: "'s \<Rightarrow> bool" and gap :: "'s \<Rightarrow> token_id \<Rightarrow> int"
  assumes add_gap: "I s \<Longrightarrow> so_internal_add_balance ops a [(t, n)] s = Inr s' \<Longrightarrow>
      I s' \<and> gap s' u = gap s u - (if u = t then int n else 0)"
    and sub_gap: "I s \<Longrightarrow> so_internal_sub_balance ops a [(t, n)] s = Inr s' \<Longrightarrow>
      I s' \<and> gap s' u = gap s u + (if u = t then int n else 0)"
    and others: "frame_laws (ops\<lparr>so_internal_add_balance := \<lambda>_ _ _. Inl InvalidIntent,
        so_internal_sub_balance := \<lambda>_ _ _. Inl InvalidIntent\<rparr>) (\<lambda>_. True) (same_gap I gap)"
begin

lemma ledger_rel_refl: "ledger_rel I gap d d"
  by (simp add: ledger_rel_def)

lemma ledger_rel_trans: "ledger_rel I gap d e \<Longrightarrow> ledger_rel I gap e f \<Longrightarrow> ledger_rel I gap d f"
  by (simp add: ledger_rel_def)

lemma inner_rel: "keeps (same_gap I gap) f \<Longrightarrow> keeps (ledger_rel I gap) (on_inner f)"
  by (auto simp: keeps_def on_inner_Inr same_gap_def ledger_rel_def)

lemma inner_rel_b: "keeps_b (same_gap I gap) f \<Longrightarrow> keeps_b (ledger_rel I gap) (on_inner_b f)"
  unfolding keeps_b_def on_inner_b_Inr same_gap_def ledger_rel_def by metis

lemma add_rel: "keeps (ledger_rel I gap) (deltas_add_balance ops a ts)"
proof (rule keepsI)
  fix d d' assume "deltas_add_balance ops a ts d = Inr d'"
  then show "ledger_rel I gap d d'"
    unfolding deltas_add_balance_def
  proof (rule fold_r_rel [OF _ _ ledger_rel_refl ledger_rel_trans])
    fix x e e' assume "(case x of (t, n) \<Rightarrow> \<lambda>(s, TM). bind_r (so_internal_add_balance ops a [(t, n)] s)
        (\<lambda>s'. record_delta (matcher_deposit a t n TM) s')) e = Inr e'"
    then obtain t n where add: "so_internal_add_balance ops a [(t, n)] (fst e) = Inr (fst e')"
      and dep: "matcher_deposit a t n (snd e) = Some (snd e', True)"
      by (cases x; cases e) (auto simp: result_simps record_delta_Inr)
    show "ledger_rel I gap e e'"
      using add_gap [OF _ add] adds_delta_sum [OF matcher_deposit_spec _ dep] by (auto simp: ledger_rel_def)
  qed
qed

lemma sub_rel: "keeps (ledger_rel I gap) (deltas_sub_balance ops a ts)"
proof (rule keepsI)
  fix d d' assume "deltas_sub_balance ops a ts d = Inr d'"
  then show "ledger_rel I gap d d'"
    unfolding deltas_sub_balance_def
  proof (rule fold_r_rel [OF _ _ ledger_rel_refl ledger_rel_trans])
    fix x e e' assume "(case x of (t, n) \<Rightarrow> \<lambda>(s, TM). bind_r (so_internal_sub_balance ops a [(t, n)] s)
        (\<lambda>s'. record_delta (matcher_withdraw a t n TM) s')) e = Inr e'"
    then obtain t n where sub: "so_internal_sub_balance ops a [(t, n)] (fst e) = Inr (fst e')"
      and wd: "matcher_withdraw a t n (snd e) = Some (snd e', True)"
      by (cases x; cases e) (auto simp: result_simps record_delta_Inr)
    show "ledger_rel I gap e e'"
      using sub_gap [OF _ sub] adds_delta_sum [OF matcher_withdraw_spec _ wd] by (auto simp: ledger_rel_def)
  qed
qed

lemma deltas_laws: "frame_laws (deltas_ops ops) (\<lambda>_. True) (ledger_rel I gap)"
  using others unfolding frame_laws_def deltas_ops_def by (simp add: inner_rel inner_rel_b add_rel sub_rel)

end

sublocale ledger \<subseteq> engine_frame "deltas_ops ops" "\<lambda>_. True" "ledger_rel I gap"
  by (rule engine_frame.intro [OF deltas_laws ledger_rel_refl ledger_rel_trans])

context ledger
begin

text \<open>A batch that the engine accepts keeps the invariant and every gap: tokens are only moved.\<close>

lemma batch_keeps_gap:
  assumes "execute_signed_intents env ops io payloads (s, i) = Inr (T, s', i')" and "I s"
    and "\<And>x p. x \<in> set payloads \<Longrightarrow> ev_extract env x = Inr p \<Longrightarrow> u256_ok (dp_nonce p)"
  shows "I s' \<and> gap s' t = gap s t"
proof -
  obtain e where e: "fold_r (execute_signed_intent env (deltas_ops ops) io) payloads ((s, []), i) = Inr e"
    and fin: "engine_finalize (fst e) = Inr T" and s': "s' = fst (fst e)"
    using assms(1) by (auto simp: execute_signed_intents_def result_simps)
  have "ledger_rel I gap (s, []) (fst e)"
    using execute_batch_frame [OF e] assms(3) by simp
  then have inv: "I s'" "transfer_matcher_ok (snd (fst e))" and gap: "gap s' t + delta_sum (snd (fst e)) t = gap s t"
    using assms(2) by (auto simp: ledger_rel_def s' delta_sum_def)
  have "finalize (snd (fst e)) = Some (Inr T)"
    using fin by (auto simp: engine_finalize_def split: option.splits sum.splits)
  then have "delta_sum (snd (fst e)) t = 0"
    using finalize_correct [OF inv(2)] by (auto split: if_splits)
  with inv gap show ?thesis by simp
qed

end

end
