(* ===== verification/Lock.thy ===== *)
theory Lock
  imports Main
begin

text \<open>
  The persistent lock of \<open>core/src/lock.rs\<close>. A method that returns a mutable reference
  returns the value it refers to, and the caller writes through it with \<open>write_inner\<close>; a
  method that also changes the state of the lock returns the new lock.
\<close>

record 'a lock =
  lk_locked :: bool
  lk_value :: 'a

definition lock_new :: "bool \<Rightarrow> 'a \<Rightarrow> 'a lock" where
  "lock_new l v = \<lparr> lk_locked = l, lk_value = v \<rparr>"

definition unlocked :: "'a \<Rightarrow> 'a lock" where
  "unlocked v = lock_new False v"

definition locked :: "'a \<Rightarrow> 'a lock" where
  "locked v = lock_new True v"

definition set_locked :: "bool \<Rightarrow> 'a lock \<Rightarrow> 'a lock" where
  "set_locked b l = l\<lparr>lk_locked := b\<rparr>"

definition as_inner_unchecked :: "'a lock \<Rightarrow> 'a" where
  "as_inner_unchecked l = lk_value l"

definition write_inner :: "'a \<Rightarrow> 'a lock \<Rightarrow> 'a lock" where
  "write_inner v l = l\<lparr>lk_value := v\<rparr>"

definition is_locked :: "'a lock \<Rightarrow> bool" where
  "is_locked l = lk_locked l"

definition as_locked :: "'a lock \<Rightarrow> 'a option" where
  "as_locked l = (if \<not> is_locked l then None else Some (as_inner_unchecked l))"

definition as_locked_mut_maybe_forced :: "bool \<Rightarrow> 'a lock \<Rightarrow> 'a option" where
  "as_locked_mut_maybe_forced force l = (if force then Some (as_inner_unchecked l) else as_locked l)"

definition lock_lock :: "'a lock \<Rightarrow> 'a lock option" where
  "lock_lock l = (if is_locked l then None else Some (l\<lparr>lk_locked := True\<rparr>))"

definition force_lock :: "'a lock \<Rightarrow> 'a lock" where
  "force_lock l = l\<lparr>lk_locked := True\<rparr>"

definition lock_get :: "'a lock \<Rightarrow> 'a option" where
  "lock_get l = (if is_locked l then None else Some (as_inner_unchecked l))"

definition get_mut_maybe_forced :: "bool \<Rightarrow> 'a lock \<Rightarrow> 'a option" where
  "get_mut_maybe_forced force l = (if force then Some (as_inner_unchecked l) else lock_get l)"

definition lock_unlock :: "'a lock \<Rightarrow> 'a lock option" where
  "lock_unlock l = (if \<not> is_locked l then None else Some (l\<lparr>lk_locked := False\<rparr>))"

definition force_unlock :: "'a lock \<Rightarrow> 'a lock" where
  "force_unlock l = l\<lparr>lk_locked := False\<rparr>"

definition map_inner_unchecked :: "('a \<Rightarrow> 'b) \<Rightarrow> 'a lock \<Rightarrow> 'b lock" where
  "map_inner_unchecked f l = lock_new (is_locked l) (f (as_inner_unchecked l))"

lemmas lock_defs = lock_new_def unlocked_def locked_def set_locked_def as_inner_unchecked_def
  write_inner_def is_locked_def as_locked_def as_locked_mut_maybe_forced_def lock_lock_def
  force_lock_def lock_get_def get_mut_maybe_forced_def lock_unlock_def force_unlock_def
  map_inner_unchecked_def

lemma lock_read_write [simp]:
  "lk_value (write_inner v l) = v"
  "lk_locked (write_inner v l) = lk_locked l"
  "write_inner v (write_inner w l) = write_inner v l"
  by (simp_all add: write_inner_def)

lemma unlocked_simps [simp]: "lk_value (unlocked v) = v" "lk_locked (unlocked v) = False"
  by (simp_all add: lock_defs)

lemma get_mut_maybe_forced_Some:
  "get_mut_maybe_forced force l = Some v \<longleftrightarrow> v = lk_value l \<and> (force \<or> \<not> lk_locked l)"
  by (auto simp: lock_defs)

lemma lock_get_Some: "lock_get l = Some v \<longleftrightarrow> v = lk_value l \<and> \<not> lk_locked l"
  by (auto simp: lock_defs)

text \<open>The two states exclude each other: exactly one of \<open>lock\<close> and \<open>unlock\<close> succeeds,
  the access it returns is to the same value, the guarded accessors agree with the state, and
  locking followed by unlocking restores the lock.\<close>

theorem lock_state_machine:
  "(lock_lock l = None \<longleftrightarrow> lock_unlock l \<noteq> None) \<and>
   (lock_get l = None \<longleftrightarrow> as_locked l \<noteq> None) \<and>
   Option.bind (lock_lock l) lock_unlock = (if is_locked l then None else Some l) \<and>
   Option.bind (lock_unlock l) lock_lock = (if is_locked l then Some l else None) \<and>
   as_locked (force_lock l) = Some (as_inner_unchecked l) \<and>
   lock_get (force_unlock l) = Some (as_inner_unchecked l) \<and>
   get_mut_maybe_forced True l = Some (as_inner_unchecked l)"
  by (cases l) (simp add: lock_defs)

end
