(* ===== verification/Accounts.thy ===== *)
theory Accounts
  imports Nonces Lock
begin

text \<open>
  One account of the contract (\<open>contract/accounts/account/mod.rs\<close>, \<open>accounts/state.rs\<close>), the
  map of accounts (\<open>contract/accounts/mod.rs\<close>) and the migration of stored accounts
  (\<open>account/entry\<close>). The storage prefixes that near-sdk's collections carry have no part in
  the behaviour and are left out; an \<open>IterableSet\<close> is a list without repetition.
\<close>

unbundle bit_operations_syntax

subsection \<open>Flags\<close>

type_synonym account_flags = "8 word"

definition IMPLICIT_PUBLIC_KEY_REMOVED :: account_flags where
  "IMPLICIT_PUBLIC_KEY_REMOVED = 1"

definition AUTH_BY_PREDECESSOR_ID_DISABLED :: account_flags where
  "AUTH_BY_PREDECESSOR_ID_DISABLED = 2"

text \<open>What the code uses of the crate \<open>bitflags\<close>.\<close>

definition flags_contains :: "account_flags \<Rightarrow> account_flags \<Rightarrow> bool" where
  "flags_contains fs f \<longleftrightarrow> fs AND f = f"

definition flags_set :: "account_flags \<Rightarrow> account_flags \<Rightarrow> bool \<Rightarrow> account_flags" where
  "flags_set fs f b = (if b then fs OR f else fs AND NOT f)"

definition flags_toggle :: "account_flags \<Rightarrow> account_flags \<Rightarrow> account_flags" where
  "flags_toggle fs f = fs XOR f"

lemma flag_bits:
  "bit IMPLICIT_PUBLIC_KEY_REMOVED n \<longleftrightarrow> n = 0"
  "bit AUTH_BY_PREDECESSOR_ID_DISABLED n \<longleftrightarrow> n = 1"
proof -
  have two: "(2 :: 8 word) = push_bit 1 1" by simp
  show "bit IMPLICIT_PUBLIC_KEY_REMOVED n \<longleftrightarrow> n = 0"
    by (simp add: IMPLICIT_PUBLIC_KEY_REMOVED_def bit_1_iff)
  show "bit AUTH_BY_PREDECESSOR_ID_DISABLED n \<longleftrightarrow> n = 1"
    unfolding AUTH_BY_PREDECESSOR_ID_DISABLED_def two by (auto simp: bit_simps)
qed

lemma flags_contains_iff: "flags_contains fs f \<longleftrightarrow> (\<forall>n. bit f n \<longrightarrow> bit fs n)"
proof
  show "flags_contains fs f \<Longrightarrow> \<forall>n. bit f n \<longrightarrow> bit fs n"
    unfolding flags_contains_def by (metis bit_and_iff)
  show "\<forall>n. bit f n \<longrightarrow> bit fs n \<Longrightarrow> flags_contains fs f"
    unfolding flags_contains_def by (rule bit_word_eqI) (auto simp: bit_and_iff)
qed

lemma flags_contains_bit:
  "flags_contains fs IMPLICIT_PUBLIC_KEY_REMOVED \<longleftrightarrow> bit fs 0"
  "flags_contains fs AUTH_BY_PREDECESSOR_ID_DISABLED \<longleftrightarrow> bit fs 1"
  by (simp_all add: flags_contains_iff flag_bits)

lemma flags_set_contains [simp]:
  "flags_contains (flags_set fs IMPLICIT_PUBLIC_KEY_REMOVED b) IMPLICIT_PUBLIC_KEY_REMOVED \<longleftrightarrow> b"
  "flags_contains (flags_set fs IMPLICIT_PUBLIC_KEY_REMOVED b) AUTH_BY_PREDECESSOR_ID_DISABLED \<longleftrightarrow>
     flags_contains fs AUTH_BY_PREDECESSOR_ID_DISABLED"
  "flags_contains (flags_toggle fs AUTH_BY_PREDECESSOR_ID_DISABLED) AUTH_BY_PREDECESSOR_ID_DISABLED \<longleftrightarrow>
     \<not> flags_contains fs AUTH_BY_PREDECESSOR_ID_DISABLED"
  "flags_contains (flags_toggle fs AUTH_BY_PREDECESSOR_ID_DISABLED) IMPLICIT_PUBLIC_KEY_REMOVED \<longleftrightarrow>
     flags_contains fs IMPLICIT_PUBLIC_KEY_REMOVED"
  by (auto simp: flags_contains_bit flags_set_def flags_toggle_def bit_simps flag_bits)

subsection \<open>An account\<close>

record account =
  ac_nonces :: maybe_legacy_nonces
  ac_flags :: account_flags
  ac_public_keys :: "public_key list"
  ac_token_balances :: "token_id amounts"

text \<open>The type of an account id is decided by the crate \<open>near-account-id\<close>.\<close>

datatype account_type = NearImplicitAccount | EthImplicitAccount | NamedAccount | NearDeterministicAccount

fun has_implicit_public_key :: "account_type \<Rightarrow> bool" where
  "has_implicit_public_key NearImplicitAccount = True"
| "has_implicit_public_key EthImplicitAccount = True"
| "has_implicit_public_key NamedAccount = False"
| "has_implicit_public_key NearDeterministicAccount = False"

definition account_new :: "(account_id \<Rightarrow> account_type) \<Rightarrow> account_id \<Rightarrow> account" where
  "account_new ty me = \<lparr> ac_nonces = ml_new,
     ac_flags = (if has_implicit_public_key (ty me) then 0 else IMPLICIT_PUBLIC_KEY_REMOVED),
     ac_public_keys = [], ac_token_balances = [] \<rparr>"

definition is_implicit_public_key_removed :: "account \<Rightarrow> bool" where
  "is_implicit_public_key_removed a = flags_contains (ac_flags a) IMPLICIT_PUBLIC_KEY_REMOVED"

definition set_implicit_public_key_removed :: "bool \<Rightarrow> account \<Rightarrow> account" where
  "set_implicit_public_key_removed b a =
     a\<lparr>ac_flags := flags_set (ac_flags a) IMPLICIT_PUBLIC_KEY_REMOVED b\<rparr>"

definition set_insert :: "'a \<Rightarrow> 'a list \<Rightarrow> 'a list \<times> bool" where
  "set_insert x xs = (if x \<in> set xs then (xs, False) else (xs @ [x], True))"

definition set_remove :: "'a \<Rightarrow> 'a list \<Rightarrow> 'a list \<times> bool" where
  "set_remove x xs = (if x \<in> set xs then (remove1 x xs, True) else (xs, False))"

definition account_add_public_key :: "codecs \<Rightarrow> account_id \<Rightarrow> public_key \<Rightarrow> account \<Rightarrow> account \<times> bool" where
  "account_add_public_key C me pk a =
     (if me = to_implicit_account_id C pk
      then (set_implicit_public_key_removed False a, is_implicit_public_key_removed a)
      else case set_insert pk (ac_public_keys a) of (ks, b) \<Rightarrow> (a\<lparr>ac_public_keys := ks\<rparr>, b))"

definition account_remove_public_key :: "codecs \<Rightarrow> account_id \<Rightarrow> public_key \<Rightarrow> account \<Rightarrow> account \<times> bool" where
  "account_remove_public_key C me pk a =
     (if me = to_implicit_account_id C pk
      then (set_implicit_public_key_removed True a, \<not> is_implicit_public_key_removed a)
      else case set_remove pk (ac_public_keys a) of (ks, b) \<Rightarrow> (a\<lparr>ac_public_keys := ks\<rparr>, b))"

definition account_has_public_key :: "codecs \<Rightarrow> account_id \<Rightarrow> public_key \<Rightarrow> account \<Rightarrow> bool" where
  "account_has_public_key C me pk a \<longleftrightarrow>
     (\<not> is_implicit_public_key_removed a \<and> me = to_implicit_account_id C pk) \<or> pk \<in> set (ac_public_keys a)"

definition account_iter_public_keys :: "codecs \<Rightarrow> account_id \<Rightarrow> account \<Rightarrow> public_key list" where
  "account_iter_public_keys C me a = ac_public_keys a @
     (if \<not> is_implicit_public_key_removed a
      then case from_implicit_account_id C me of None \<Rightarrow> [] | Some pk \<Rightarrow> [pk] else [])"

definition account_is_nonce_used :: "account \<Rightarrow> nonce \<Rightarrow> bool" where
  "account_is_nonce_used a n = ml_is_used (ac_nonces a) n"

definition account_commit_nonce :: "nonce \<Rightarrow> account \<Rightarrow> account result" where
  "account_commit_nonce n a = bind_r (ml_commit (ac_nonces a) n) (\<lambda>m. Inr (a\<lparr>ac_nonces := m\<rparr>))"

definition account_cleanup_nonce_by_prefix :: "nonce_prefix \<Rightarrow> account \<Rightarrow> account \<times> bool" where
  "account_cleanup_nonce_by_prefix p a =
     (case ml_cleanup_by_prefix (ac_nonces a) p of (m, b) \<Rightarrow> (a\<lparr>ac_nonces := m\<rparr>, b))"

definition account_auth_enabled :: "account \<Rightarrow> bool" where
  "account_auth_enabled a \<longleftrightarrow> \<not> flags_contains (ac_flags a) AUTH_BY_PREDECESSOR_ID_DISABLED"

definition account_set_auth :: "bool \<Rightarrow> account \<Rightarrow> account \<times> bool" where
  "account_set_auth enable a =
     (let toggle = (account_auth_enabled a \<noteq> enable) in
      (if toggle then a\<lparr>ac_flags := flags_toggle (ac_flags a) AUTH_BY_PREDECESSOR_ID_DISABLED\<rparr> else a, toggle))"

text \<open>The well-formedness of a stored account: its keys are listed once and its implicit key
  is not among them, its nonces and its balances are well-formed.\<close>

definition account_ok :: "codecs \<Rightarrow> account_id \<Rightarrow> account \<Rightarrow> bool" where
  "account_ok C me a \<longleftrightarrow> ml_ok (ac_nonces a) \<and> amounts_u128 (ac_token_balances a) \<and>
     distinct (ac_public_keys a) \<and> (\<forall>pk \<in> set (ac_public_keys a). to_implicit_account_id C pk \<noteq> me)"

lemma account_new_ok: "account_ok C me (account_new ty me)"
  by (simp add: account_ok_def account_new_def ml_ok_def ml_new_def b256_ok_def)

lemma add_public_key_ok: "account_ok C me a \<Longrightarrow> account_ok C me (fst (account_add_public_key C me pk a))"
  by (auto simp: account_ok_def account_add_public_key_def set_implicit_public_key_removed_def set_insert_def)

lemma remove_public_key_ok: "account_ok C me a \<Longrightarrow> account_ok C me (fst (account_remove_public_key C me pk a))"
  by (auto simp: account_ok_def account_remove_public_key_def set_implicit_public_key_removed_def set_remove_def
      dest: notin_set_remove1 in_set_remove1 [THEN iffD1, rotated] set_remove1_subset [THEN subsetD])

lemma set_auth_ok: "account_ok C me a \<Longrightarrow> account_ok C me (fst (account_set_auth b a))"
  by (simp add: account_ok_def account_set_auth_def Let_def)

lemma commit_nonce_ok:
  "account_ok C me a \<Longrightarrow> u256_ok n \<Longrightarrow> account_commit_nonce n a = Inr a' \<Longrightarrow> account_ok C me a'"
  using account_nonces.inv_commit [of "ac_nonces a" n]
  by (auto simp: account_ok_def account_commit_nonce_def result_simps)

lemma cleanup_nonce_ok: "account_ok C me a \<Longrightarrow> account_ok C me (fst (account_cleanup_nonce_by_prefix p a))"
  using ml_cleanup_ok [of "ac_nonces a" p]
  by (auto simp: account_ok_def account_cleanup_nonce_by_prefix_def split: prod.splits)

lemma public_keys_effect:
  assumes "account_ok C me a"
  shows "(account_has_public_key C me k (fst (account_add_public_key C me pk a)) \<longleftrightarrow>
       k = pk \<or> account_has_public_key C me k a \<or>
       (me = to_implicit_account_id C pk \<and> me = to_implicit_account_id C k)) \<and>
     (snd (account_add_public_key C me pk a) \<longleftrightarrow> \<not> account_has_public_key C me pk a) \<and>
     (account_has_public_key C me k (fst (account_remove_public_key C me pk a)) \<longleftrightarrow>
       account_has_public_key C me k a \<and> k \<noteq> pk \<and>
       \<not> (me = to_implicit_account_id C pk \<and> me = to_implicit_account_id C k)) \<and>
     (snd (account_remove_public_key C me pk a) \<longleftrightarrow> account_has_public_key C me pk a)"
proof -
  have d: "distinct (ac_public_keys a)" and n: "\<And>k. k \<in> set (ac_public_keys a) \<Longrightarrow> to_implicit_account_id C k \<noteq> me"
    using assms by (auto simp: account_ok_def)
  show ?thesis
    using d n [of pk] n [of k]
    by (auto simp: account_has_public_key_def account_add_public_key_def account_remove_public_key_def
        set_insert_def set_remove_def is_implicit_public_key_removed_def set_implicit_public_key_removed_def)
qed

text \<open>Registered keys behave as a set: after an addition exactly that key is new, after a
  removal exactly that key is gone, whether it is the account's implicit key or an explicit
  one, and the returned flag says whether the set changed.\<close>

theorem public_keys_set:
  assumes "account_ok C me a"
  shows "(account_has_public_key C me k (fst (account_add_public_key C me pk a)) \<longleftrightarrow>
       k = pk \<or> account_has_public_key C me k a \<or>
       (me = to_implicit_account_id C pk \<and> me = to_implicit_account_id C k)) \<and>
     (snd (account_add_public_key C me pk a) \<longleftrightarrow> \<not> account_has_public_key C me pk a) \<and>
     (account_has_public_key C me k (fst (account_remove_public_key C me pk a)) \<longleftrightarrow>
       account_has_public_key C me k a \<and> k \<noteq> pk \<and>
       \<not> (me = to_implicit_account_id C pk \<and> me = to_implicit_account_id C k)) \<and>
     (snd (account_remove_public_key C me pk a) \<longleftrightarrow> account_has_public_key C me pk a)"
  using assms by (rule public_keys_effect)

text \<open>A codec for examples: each byte is written as two characters, one per nibble.\<close>

fun nibbles :: "byte list \<Rightarrow> string" where
  "nibbles [] = []"
| "nibbles (b # bs) = char_of (unat b div 16) # char_of (unat b mod 16) # nibbles bs"

fun unnibbles :: "string \<Rightarrow> byte list" where
  "unnibbles (x # y # s) = word_of_nat (of_char x * 16 + of_char y) # unnibbles s"
| "unnibbles _ = []"

definition sample_codecs :: codecs where
  "sample_codecs = \<lparr> keccak256 = (\<lambda>b. take 32 (b @ replicate 32 0)), sha256 = (\<lambda>b. take 32 (b @ replicate 32 0)),
     hex_encode = nibbles, hex_decode32 = (\<lambda>s. if length s = 64 then Some (unnibbles s) else None) \<rparr>"

lemma unnibbles_nibbles: "unnibbles (nibbles bs) = bs"
proof (induction bs)
  case (Cons b bs)
  have "unat b < 256" using unsigned_less [where 'a = nat, of b] by simp
  then have "of_char (char_of (unat b div 16) :: char) * 16 + of_char (char_of (unat b mod 16) :: char) = unat b"
    by (simp add: of_char_of)
  with Cons show ?case by simp
qed simp

lemma length_nibbles [simp]: "length (nibbles bs) = 2 * length bs"
  by (induction bs) simp_all

lemma length_unnibbles: "length (unnibbles s) = length s div 2"
  by (induction s rule: unnibbles.induct) simp_all

lemma sample_codecs_ok: "hex_ok sample_codecs"
  by (auto simp: hex_ok_def sample_codecs_def unnibbles_nibbles length_unnibbles split: if_splits)

definition sample_key :: public_key where
  "sample_key = Ed25519 (replicate 32 7)"

theorem public_keys_set_witness:
  "account_has_public_key sample_codecs ''alice'' sample_key
     (fst (account_add_public_key sample_codecs ''alice'' sample_key (account_new (\<lambda>_. NamedAccount) ''alice'')))"
  using public_keys_set [OF account_new_ok [of sample_codecs "''alice''" "\<lambda>_. NamedAccount"], of sample_key sample_key] by blast

text \<open>Turning authorization by predecessor on or off has exactly the requested effect, tells
  whether it changed something and leaves the keys of the account alone.\<close>

theorem set_auth_effect:
  "account_auth_enabled (fst (account_set_auth enable a)) = enable \<and>
   (snd (account_set_auth enable a) \<longleftrightarrow> account_auth_enabled a \<noteq> enable) \<and>
   account_has_public_key C me k (fst (account_set_auth enable a)) = account_has_public_key C me k a"
  by (simp add: account_set_auth_def Let_def account_auth_enabled_def account_has_public_key_def
      is_implicit_public_key_removed_def)

subsection \<open>Stored accounts of earlier versions\<close>

record account_v0 =
  v0_nonces :: bitmap256
  v0_implicit_public_key_removed :: bool
  v0_public_keys :: "public_key list"
  v0_token_balances :: "token_id amounts"

record account_v1 =
  v1_nonces :: bitmap256
  v1_flags :: account_flags
  v1_public_keys :: "public_key list"
  v1_token_balances :: "token_id amounts"

definition account_from_v0 :: "account_v0 \<Rightarrow> account" where
  "account_from_v0 a = \<lparr> ac_nonces = ml_with_legacy (v0_nonces a),
     ac_flags = (if v0_implicit_public_key_removed a then IMPLICIT_PUBLIC_KEY_REMOVED else 0),
     ac_public_keys = v0_public_keys a, ac_token_balances = v0_token_balances a \<rparr>"

definition account_from_v1 :: "account_v1 \<Rightarrow> account" where
  "account_from_v1 a = \<lparr> ac_nonces = ml_with_legacy (v1_nonces a), ac_flags = v1_flags a,
     ac_public_keys = v1_public_keys a, ac_token_balances = v1_token_balances a \<rparr>"

datatype versioned_account_entry =
    EntryV0 account_v0
  | EntryV1 "account_v1 lock"
  | EntryLatest "account lock"

fun entry_into :: "versioned_account_entry \<Rightarrow> account lock" where
  "entry_into (EntryV0 a) = unlocked (account_from_v0 a)"
| "entry_into (EntryV1 l) = map_inner_unchecked account_from_v1 l"
| "entry_into (EntryLatest l) = map_inner_unchecked id l"

definition ACCOUNT_MAGIC_PREFIX :: int where
  "ACCOUNT_MAGIC_PREFIX = 2 ^ 32 - 1"

text \<open>The derived borsh codecs are arguments: \<open>dv\<close> and \<open>ev\<close> of the versioned entry, \<open>d0\<close> of
  the first version.\<close>

definition deserialize_entry ::
  "(byte list \<Rightarrow> versioned_account_entry option) \<Rightarrow> (byte list \<Rightarrow> account_v0 option) \<Rightarrow> byte list \<Rightarrow> account lock option" where
  "deserialize_entry dv d0 bs =
     (if length bs < 4 then None
      else map_option entry_into
        (if from_le (take 4 bs) = ACCOUNT_MAGIC_PREFIX then dv (drop 4 bs) else map_option EntryV0 (d0 bs)))"

definition serialize_entry :: "(versioned_account_entry \<Rightarrow> byte list) \<Rightarrow> account lock \<Rightarrow> byte list" where
  "serialize_entry ev l = le_bytes 4 ACCOUNT_MAGIC_PREFIX @ ev (EntryLatest l)"

text \<open>C39: stored accounts survive an upgrade: what the contract writes it reads back, and an
  account of the first version, which does not start with the magic prefix, becomes an
  unlocked account with the same keys, balances and used nonces, authorization by predecessor
  enabled.\<close>

theorem account_migration:
  assumes "dv (ev (EntryLatest l)) = Some (EntryLatest l)"
    and "d0 bs = Some a" and "4 \<le> length bs" and "take 4 bs \<noteq> replicate 4 255"
  shows "deserialize_entry dv d0 (serialize_entry ev l) = Some l \<and>
    (\<exists>l0. deserialize_entry dv d0 bs = Some l0 \<and> \<not> lk_locked l0 \<and>
       account_auth_enabled (lk_value l0) \<and> ac_token_balances (lk_value l0) = v0_token_balances a \<and>
       (\<forall>n. account_is_nonce_used (lk_value l0) n \<longleftrightarrow> nonces_is_used (v0_nonces a) n) \<and>
       (\<forall>me k. account_has_public_key C me k (lk_value l0) \<longleftrightarrow>
          (\<not> v0_implicit_public_key_removed a \<and> me = to_implicit_account_id C k) \<or> k \<in> set (v0_public_keys a)))"
proof
  have magic: "le_bytes 4 ACCOUNT_MAGIC_PREFIX = replicate 4 255"
    by code_simp
  show "deserialize_entry dv d0 (serialize_entry ev l) = Some l"
    using assms(1)
    by (simp add: deserialize_entry_def serialize_entry_def from_le_le_bytes lock_defs)
      (simp add: ACCOUNT_MAGIC_PREFIX_def)
  have "from_le (take 4 bs) \<noteq> ACCOUNT_MAGIC_PREFIX"
    using le_bytes_from_le [of "take 4 bs"] magic assms(3,4) by (metis length_take min_absorb2)
  then have "deserialize_entry dv d0 bs = Some (unlocked (account_from_v0 a))"
    using assms(2,3) by (simp add: deserialize_entry_def)
  then show "\<exists>l0. deserialize_entry dv d0 bs = Some l0 \<and> \<not> lk_locked l0 \<and>
       account_auth_enabled (lk_value l0) \<and> ac_token_balances (lk_value l0) = v0_token_balances a \<and>
       (\<forall>n. account_is_nonce_used (lk_value l0) n \<longleftrightarrow> nonces_is_used (v0_nonces a) n) \<and>
       (\<forall>me k. account_has_public_key C me k (lk_value l0) \<longleftrightarrow>
          (\<not> v0_implicit_public_key_removed a \<and> me = to_implicit_account_id C k) \<or> k \<in> set (v0_public_keys a))"
    by (auto simp: account_from_v0_def account_auth_enabled_def account_is_nonce_used_def ml_is_used_def
        ml_with_legacy_def legacy_used_def nonces_is_used_def b256_get_def account_has_public_key_def
        is_implicit_public_key_removed_def flags_contains_bit flag_bits)
qed

definition sample_v0 :: account_v0 where
  "sample_v0 = \<lparr> v0_nonces = [], v0_implicit_public_key_removed = True, v0_public_keys = [sample_key],
     v0_token_balances = [(Nep141 ''t'', 5)] \<rparr>"

text \<open>A codec that writes the lock's state in one byte and reads it back.\<close>

definition sample_dv :: "byte list \<Rightarrow> versioned_account_entry option" where
  "sample_dv bs = Some (EntryLatest (lock_new (bs = [1]) (account_from_v0 sample_v0)))"

fun sample_ev :: "versioned_account_entry \<Rightarrow> byte list" where
  "sample_ev (EntryLatest l) = (if lk_locked l then [1] else [0])"
| "sample_ev _ = []"

theorem account_migration_witness:
  "\<exists>l0. deserialize_entry sample_dv (\<lambda>_. Some sample_v0) [3, 0, 0, 0] = Some l0 \<and>
     ac_token_balances (lk_value l0) = v0_token_balances sample_v0"
proof -
  have "take 4 [3, 0, 0, 0 :: byte] \<noteq> replicate 4 255" by code_simp
  moreover have "sample_dv (sample_ev (EntryLatest (locked (account_from_v0 sample_v0)))) =
      Some (EntryLatest (locked (account_from_v0 sample_v0)))"
    by (simp add: sample_dv_def lock_defs)
  ultimately show ?thesis
    using account_migration [of sample_dv sample_ev "locked (account_from_v0 sample_v0)"
      "\<lambda>_. Some sample_v0" "[3, 0, 0, 0]" sample_v0 sample_codecs] by force
qed

end
