(* ===== verification/SaltRegistry.thy ===== *)
theory SaltRegistry
  imports Accounts
begin

text \<open>
  The registry of salts (\<open>contract/state/salt_registry.rs\<close>): the current salt and the salts
  used before it, each marked valid or invalid. The random seed of the block is an argument
  of the operations that draw a new salt; an error leaves the registry as it was.
\<close>

record salt_registry =
  sr_previous :: "(salt \<times> bool) list"
  sr_current :: salt

definition derive_salt :: "codecs \<Rightarrow> byte list \<Rightarrow> byte \<Rightarrow> salt" where
  "derive_salt C seed num = take 4 (sha256 C (seed @ [num]))"

definition salts_new :: "codecs \<Rightarrow> byte list \<Rightarrow> salt_registry" where
  "salts_new C seed = \<lparr> sr_previous = [], sr_current = derive_salt C seed 0 \<rparr>"

definition salt_is_used :: "salt_registry \<Rightarrow> salt \<Rightarrow> bool" where
  "salt_is_used r s \<longleftrightarrow> s = sr_current r \<or> map_of (sr_previous r) s \<noteq> None"

definition derive_next_salt :: "codecs \<Rightarrow> byte list \<Rightarrow> salt_registry \<Rightarrow> salt result" where
  "derive_next_salt C seed r =
     ok_or (find (\<lambda>s. \<not> salt_is_used r s) (map (derive_salt C seed) all_u8)) SaltGenerationFailed"

definition salt_set_new :: "codecs \<Rightarrow> byte list \<Rightarrow> salt_registry \<Rightarrow> (salt_registry \<times> salt) result" where
  "salt_set_new C seed r =
     bind_r (derive_next_salt C seed r) (\<lambda>s.
       Inr (\<lparr> sr_previous = AList.update (sr_current r) True (sr_previous r), sr_current = s \<rparr>, sr_current r))"

definition salt_invalidate :: "codecs \<Rightarrow> byte list \<Rightarrow> salt \<Rightarrow> salt_registry \<Rightarrow> salt_registry result" where
  "salt_invalidate C seed s r =
     bind_r (if s = sr_current r then bind_r (salt_set_new C seed r) (\<lambda>(r', _). Inr r') else Inr r) (\<lambda>r'.
       case map_of (sr_previous r') s of
         None \<Rightarrow> Inl InvalidSalt
       | Some _ \<Rightarrow> Inr (r'\<lparr>sr_previous := AList.update s False (sr_previous r')\<rparr>))"

definition salt_is_valid :: "salt_registry \<Rightarrow> salt \<Rightarrow> bool" where
  "salt_is_valid r s \<longleftrightarrow> s = sr_current r \<or> map_of (sr_previous r) s = Some True"

text \<open>Invariant: the current salt is not among the previous ones, which are listed once.\<close>

definition salts_ok :: "salt_registry \<Rightarrow> bool" where
  "salts_ok r \<longleftrightarrow> keys_distinct (sr_previous r) \<and> map_of (sr_previous r) (sr_current r) = None"

lemma salts_new_ok: "salts_ok (salts_new C seed)"
  by (simp add: salts_ok_def salts_new_def)

lemma derive_next_fresh: "derive_next_salt C seed r = Inr s \<Longrightarrow> \<not> salt_is_used r s"
  by (auto simp: derive_next_salt_def result_simps find_Some_iff)

lemma salt_set_new_Inr:
  assumes "salt_set_new C seed r = Inr (r', old)"
  shows "old = sr_current r" and "sr_previous r' = AList.update (sr_current r) True (sr_previous r)"
    and "\<not> salt_is_used r (sr_current r')"
  using assms derive_next_fresh by (auto simp: salt_set_new_def result_simps)

lemma set_new_ok: "salts_ok r \<Longrightarrow> salt_set_new C seed r = Inr (r', old) \<Longrightarrow> salts_ok r'"
  using salt_set_new_Inr [of C seed r r' old] by (auto simp: salts_ok_def salt_is_used_def simp del: map_of_eq_None_iff not_None_eq)

lemma set_new_valid:
  assumes "salts_ok r" and "salt_set_new C seed r = Inr (r', old)"
  shows "salt_is_valid r' s \<longleftrightarrow> s = sr_current r' \<or> salt_is_valid r s"
    and "salt_is_used r' s \<longleftrightarrow> s = sr_current r' \<or> salt_is_used r s"
  using assms salt_set_new_Inr [OF assms(2)] by (auto simp: salt_is_valid_def salt_is_used_def salts_ok_def)

lemma invalidate_cases:
  assumes "salt_invalidate C seed s r = Inr r'"
  obtains (rotated) r1 old where "s = sr_current r" "salt_set_new C seed r = Inr (r1, old)"
      "r' = r1\<lparr>sr_previous := AList.update s False (sr_previous r1)\<rparr>"
    | (plain) "s \<noteq> sr_current r" "map_of (sr_previous r) s \<noteq> None"
      "r' = r\<lparr>sr_previous := AList.update s False (sr_previous r)\<rparr>"
  using assms
  by (auto simp: salt_invalidate_def result_simps split: if_splits option.splits prod.splits)

lemma invalidate_step:
  assumes "salts_ok r" and "salt_invalidate C seed s r = Inr r'"
  shows "salts_ok r' \<and> \<not> salt_is_valid r' s \<and> salt_is_used r s \<and>
    (\<forall>t. t \<noteq> s \<longrightarrow> salt_is_valid r t \<longrightarrow> salt_is_valid r' t) \<and>
    (\<forall>t. salt_is_used r t \<longrightarrow> salt_is_used r' t) \<and>
    (\<forall>t. salt_is_used r t \<longrightarrow> salt_is_valid r' t \<longrightarrow> salt_is_valid r t)"
  using assms(2)
proof (cases rule: invalidate_cases)
  case (rotated r1 old)
  note n = salt_set_new_Inr [OF rotated(2)] set_new_ok [OF assms(1) rotated(2)]
  show ?thesis
    using n rotated(1) assms(1) unfolding rotated(3)
    by (auto simp: salts_ok_def salt_is_valid_def salt_is_used_def)
next
  case plain
  then show ?thesis
    using assms(1) by (auto simp: salts_ok_def salt_is_valid_def salt_is_used_def)
qed

subsection \<open>Sequences of operations\<close>

inductive salt_step :: "codecs \<Rightarrow> salt_registry \<Rightarrow> salt_registry \<Rightarrow> bool" for C where
  rotate: "salt_set_new C seed r = Inr (r', old) \<Longrightarrow> salt_step C r r'"
| retire: "salt_invalidate C seed s r = Inr r' \<Longrightarrow> salt_step C r r'"

inductive_cases salt_stepE: "salt_step C r r'"

text \<open>A salt that was used and is invalid stays so.\<close>

lemma salt_step_dead:
  assumes "salt_step C r r'" and "salts_ok r \<and> salt_is_used r s \<and> \<not> salt_is_valid r s"
  shows "salts_ok r' \<and> salt_is_used r' s \<and> \<not> salt_is_valid r' s"
  using assms(1)
proof cases
  case (rotate seed old)
  then show ?thesis
    using assms(2) set_new_ok [OF _ rotate] set_new_valid [OF _ rotate, of s] salt_set_new_Inr(3) [OF rotate] by auto
next
  case (retire seed t)
  then show ?thesis
    using assms(2) invalidate_step [OF _ retire] by blast
qed

text \<open>C35: an invalidated salt never becomes valid again, whatever rotations and
  invalidations follow, even if the generator draws it anew.\<close>

theorem invalidated_forever:
  assumes "salts_ok r" and "salt_invalidate C seed s r = Inr r1" and "(salt_step C)\<^sup>*\<^sup>* r1 r2"
  shows "\<not> salt_is_valid r2 s"
proof -
  have "salts_ok r2 \<and> salt_is_used r2 s \<and> \<not> salt_is_valid r2 s"
    using assms(3)
  proof induction
    case base
    then show ?case using invalidate_step [OF assms(1,2)] by blast
  next
    case (step y z)
    show ?case by (rule salt_step_dead [OF step.hyps(2) step.IH])
  qed
  then show ?thesis by blast
qed

text \<open>Rotating the salt keeps every valid salt valid, makes a salt current that was never
  used before and returns the one it replaced; it fails exactly when all 256 candidates of the
  block's seed were used before.\<close>

theorem rotation:
  assumes "salts_ok r"
  shows "(\<exists>r'. salt_set_new C seed r = Inr (r', sr_current r) \<and> salts_ok r' \<and>
        \<not> salt_is_used r (sr_current r') \<and>
        (\<forall>s. salt_is_valid r' s \<longleftrightarrow> s = sr_current r' \<or> salt_is_valid r s)) \<or>
     salt_set_new C seed r = Inl SaltGenerationFailed \<and> (\<forall>n. salt_is_used r (derive_salt C seed n))"
proof (cases "salt_set_new C seed r")
  case (Inl e)
  then have "e = SaltGenerationFailed" "\<forall>n \<in> set all_u8. salt_is_used r (derive_salt C seed n)"
    by (auto simp: salt_set_new_def derive_next_salt_def result_simps find_None_iff)
  with Inl show ?thesis by (auto simp: all_bytes)
next
  case (Inr p)
  then obtain r' old where p: "salt_set_new C seed r = Inr (r', old)" by (cases p) auto
  with salt_set_new_Inr [OF p] set_new_ok [OF assms p] set_new_valid [OF assms p] show ?thesis by blast
qed

text \<open>A registry whose current salt is retired, which makes the generator draw its second candidate.\<close>

definition sample_salts :: salt_registry where
  "sample_salts = salts_new sample_codecs []"

definition sample_retired :: salt_registry where
  "sample_retired = \<lparr> sr_previous = [([0, 0, 0, 0], False)], sr_current = [1, 0, 0, 0] \<rparr>"

lemma sample_retire: "salt_invalidate sample_codecs [] [0, 0, 0, 0] sample_salts = Inr sample_retired"
  by code_simp

theorem invalidated_forever_witness: "\<not> salt_is_valid sample_retired [0, 0, 0, 0]"
  by (rule invalidated_forever [OF _ sample_retire]) (simp_all add: sample_salts_def salts_new_ok)

theorem rotation_witness:
  "\<exists>r'. salt_set_new sample_codecs [] sample_salts = Inr (r', sr_current sample_salts) \<and>
     \<not> salt_is_used sample_salts (sr_current r')"
proof -
  have "\<not> salt_is_used sample_salts (derive_salt sample_codecs [] 1)" by code_simp
  then show ?thesis
    using rotation [of sample_salts sample_codecs "[]"] by (auto simp: sample_salts_def salts_new_ok)
qed

end
