(* ===== verification/ContractState.thy ===== *)
theory ContractState
  imports EngineLaws Accounts SaltRegistry
begin

text \<open>
  The state of the contract (\<open>contract/mod.rs\<close>, \<open>contract/state/mod.rs\<close>), the promises it
  schedules, the host functions it reads, and the two operations that change the supply of a
  token: \<open>deposit\<close> and \<open>withdraw\<close> (\<open>contract/tokens/mod.rs\<close>). An error aborts the call and the
  host discards the state, so an error carries no state.
\<close>

subsection \<open>Promises\<close>

text \<open>The calls the contract makes, to itself and to other contracts, with their arguments.\<close>

datatype (plugins only: code size) call =
    NearWithdraw nat
  | DoNativeWithdraw native_withdraw
  | DoStorageDeposit storage_deposit
  | DoAuthCall account_id auth_call
  | DoFtWithdraw ft_withdraw
  | DoNftWithdraw nft_withdraw
  | DoMtWithdraw mt_withdraw
  | StorageDepositFor account_id
  | FtTransfer account_id nat "string option"
  | FtTransferCall account_id nat "string option" string
  | NftTransfer account_id string "string option"
  | NftTransferCall account_id string "string option" string
  | MtBatchTransfer account_id "string list" "nat list" "string option"
  | MtBatchTransferCall account_id "string list" "nat list" "string option" string
  | FtResolveWithdraw account_id account_id nat bool
  | NftResolveWithdraw account_id account_id string bool
  | MtResolveWithdraw account_id account_id "string list" "nat list" bool
  | MtOnTransfer account_id "account_id list" "string list" "nat list" string
  | MtResolveTransfer "account_id list" account_id "string list" "nat list"
  | FtResolveDeposit account_id account_id nat
  | NftResolveDeposit account_id account_id string
  | MtResolveDeposit account_id account_id "string list" "nat list"
  | OnAuth account_id string
  | DoAddRelayerKey string

text \<open>A function call carries its deposit, its static gas and its weight in the distribution of
  unused gas, which is 1 unless the code sets it; the call of \<open>execute_intents\<close> carries signed
  payloads, whose type is a parameter.\<close>

datatype (plugins only: code size) 'p action =
    ACall call near_token gas nat
  | AExecuteIntents "'p list" near_token gas nat
  | ATransfer near_token
  | AStateInit state_init
  | AAddAccessKey string account_id string
  | AAddFullAccessKey string
  | ADeleteKey string

datatype (plugins only: code size) 'p promise =
    PReceipt account_id "'p action list"
  | PThen "'p promise" "'p promise"

fun on_receipt :: "'p action \<Rightarrow> 'p promise \<Rightarrow> 'p promise" where
  "on_receipt a (PReceipt r as) = PReceipt r (as @ [a])"
| "on_receipt a (PThen p q) = PThen p (on_receipt a q)"

subsection \<open>The contract and its host\<close>

datatype log_entry = LMt mt_event | LDefuse defuse_event

record 'p contract =
  c_accounts :: "(account_id \<times> account lock) list"
  c_total_supplies :: "token_id amounts"
  c_wnear_id :: account_id
  c_fee :: pips
  c_fee_collector :: account_id
  c_salts :: salt_registry
  c_relayer_keys :: "string list"
  c_postponed_burns :: "mt_burn_event list"
  c_logs :: "log_entry list"
  c_promises :: "'p promise list"

datatype role =
    DAO | FeesManager | RelayerKeysManager | UnrestrictedWithdrawer | PauseManager | Upgrader
  | UnpauseManager | UnrestrictedAccountLocker | UnrestrictedAccountUnlocker | SaltManager
  | GarbageCollector | UnrestrictedAccountManager

text \<open>The message of a deposit: who receives it and what to do then (\<open>src/tokens/mod.rs\<close>).\<close>

datatype (plugins only: code size) 'p deposit_action =
    Execute "'p list" bool
  | Notify notify_on_transfer

record 'p deposit_message =
  dm_receiver_id :: account_id
  dm_action :: "'p deposit_action option"

text \<open>
  What the contract reads from its host and from other crates in one call: the account ids,
  the attached deposit, the random seed, the access control and pause state kept by
  \<open>near-plugins\<close>, the codecs, the kind and the parser of account ids, the length of a log line,
  the result of the awaited promise (bounded by a length) with the JSON decoders for it, and
  the engine's environment.
\<close>

record 'p host =
  h_current :: account_id
  h_predecessor :: account_id
  h_deposit :: near_token
  h_seed :: "byte list"
  h_has_role :: "role \<Rightarrow> bool"
  h_paused :: "string \<Rightarrow> bool"
  h_codecs :: codecs
  h_account_type :: "account_id \<Rightarrow> account_type"
  h_parse :: "string \<Rightarrow> account_id option"
  h_log_len :: "mt_event \<Rightarrow> nat"
  h_promise_result :: "nat \<Rightarrow> byte list option"
  h_json_u128 :: "byte list \<Rightarrow> nat option"
  h_json_u128s :: "byte list \<Rightarrow> nat list option"
  h_json_bool :: "byte list \<Rightarrow> bool option"
  h_json_deposit :: "string \<Rightarrow> 'p deposit_message option"
  h_engine :: "'p engine_env"

definition contract_new :: "'p host \<Rightarrow> account_id \<Rightarrow> pips \<Rightarrow> account_id \<Rightarrow> 'p contract" where
  "contract_new env wnear protocol_fee collector = \<lparr> c_accounts = [], c_total_supplies = [], c_wnear_id = wnear,
     c_fee = protocol_fee, c_fee_collector = collector, c_salts = salts_new (h_codecs env) (h_seed env),
     c_relayer_keys = [], c_postponed_burns = [], c_logs = [], c_promises = [] \<rparr>"

subsection \<open>Accounts of the contract\<close>

text \<open>The entry of an account, or the fresh unlocked account \<open>get_or_create\<close> makes for it.\<close>

definition account_or_new :: "'p host \<Rightarrow> account_id \<Rightarrow> 'p contract \<Rightarrow> account lock" where
  "account_or_new env a c = (case map_of (c_accounts c) a of
      None \<Rightarrow> unlocked (account_new (h_account_type env) a)
    | Some l \<Rightarrow> l)"

definition put_account :: "account_id \<Rightarrow> account lock \<Rightarrow> 'p contract \<Rightarrow> 'p contract" where
  "put_account a l c = c\<lparr>c_accounts := AList.update a l (c_accounts c)\<rparr>"

definition get_or_create :: "'p host \<Rightarrow> account_id \<Rightarrow> 'p contract \<Rightarrow> 'p contract \<times> account lock" where
  "get_or_create env a c = (let l = account_or_new env a c in (put_account a l c, l))"

text \<open>Writing the account behind the lock, and its balances.\<close>

definition put_inner :: "account_id \<Rightarrow> account lock \<Rightarrow> account \<Rightarrow> 'p contract \<Rightarrow> 'p contract" where
  "put_inner a l x c = put_account a (write_inner x l) c"

definition balances_of :: "'p host \<Rightarrow> account_id \<Rightarrow> 'p contract \<Rightarrow> token_id amounts" where
  "balances_of env a c = ac_token_balances (lk_value (account_or_new env a c))"

definition set_balances :: "'p host \<Rightarrow> account_id \<Rightarrow> token_id amounts \<Rightarrow> 'p contract \<Rightarrow> 'p contract" where
  "set_balances env a m c =
     (let l = account_or_new env a c in put_inner a l ((lk_value l)\<lparr>ac_token_balances := m\<rparr>) c)"

definition add_log :: "log_entry \<Rightarrow> 'p contract \<Rightarrow> 'p contract" where
  "add_log e c = c\<lparr>c_logs := c_logs c @ [e]\<rparr>"

definition detach :: "'p promise \<Rightarrow> 'p contract \<Rightarrow> 'p contract" where
  "detach p c = c\<lparr>c_promises := c_promises c @ [p]\<rparr>"

text \<open>\<open>event.check_refund()?.emit()\<close>.\<close>

definition emit_checked :: "'p host \<Rightarrow> mt_event \<Rightarrow> 'p contract \<Rightarrow> 'p contract result" where
  "emit_checked env e c = bind_r (require_r (check_refund (h_log_len env) e) LogTooLong) (\<lambda>_. Inr (add_log (LMt e) c))"

subsection \<open>Deposit and withdraw\<close>

fun nft_supply_check :: "token_id \<Rightarrow> nat \<Rightarrow> unit result" where
  "nft_supply_check (Nep171 k nft) supply = require_r (supply \<le> 1) (NftAlreadyDeposited k nft)"
| "nft_supply_check _ supply = Inr ()"

definition deposit_step :: "'p host \<Rightarrow> account_id \<Rightarrow> token_id \<times> nat \<Rightarrow> 'p contract \<Rightarrow> 'p contract result" where
  "deposit_step env owner p c = (case p of (t, amount) \<Rightarrow>
     bind_r (require_r (amount \<noteq> 0) InvalidIntent) (\<lambda>_.
     bind_r (ok_or (amounts_add t amount (c_total_supplies c)) BalanceOverflow) (\<lambda>(supplies, total_supply).
     bind_r (nft_supply_check t total_supply) (\<lambda>_.
     bind_r (ok_or (amounts_add t amount (balances_of env owner c)) BalanceOverflow) (\<lambda>(balances, _).
       Inr (set_balances env owner balances (c\<lparr>c_total_supplies := supplies\<rparr>)))))))"

definition deposit ::
  "'p host \<Rightarrow> account_id \<Rightarrow> (token_id \<times> nat) list \<Rightarrow> string option \<Rightarrow> 'p contract \<Rightarrow> 'p contract result" where
  "deposit env owner tokens memo c =
     bind_r (fold_r (deposit_step env owner) tokens (fst (get_or_create env owner c))) (\<lambda>c'.
       if tokens \<noteq> [] then
         emit_checked env (MtMint [\<lparr> mint_owner_id = owner, mint_token_ids = map (token_to_string \<circ> fst) tokens,
           mint_amounts = map snd tokens, mint_memo = memo \<rparr>]) c'
       else Inr c')"

definition withdraw_step :: "'p host \<Rightarrow> account_id \<Rightarrow> token_id \<times> nat \<Rightarrow> 'p contract \<Rightarrow> 'p contract result" where
  "withdraw_step env owner p c = (case p of (t, amount) \<Rightarrow>
     bind_r (require_r (amount \<noteq> 0) InvalidIntent) (\<lambda>_.
     bind_r (ok_or (amounts_sub t amount (balances_of env owner c)) BalanceOverflow) (\<lambda>(balances, _).
     bind_r (ok_or (amounts_sub t amount (c_total_supplies c)) BalanceOverflow) (\<lambda>(supplies, _).
       Inr (set_balances env owner balances (c\<lparr>c_total_supplies := supplies\<rparr>))))))"

definition withdraw ::
  "'p host \<Rightarrow> account_id \<Rightarrow> (token_id \<times> nat) list \<Rightarrow> string option \<Rightarrow> bool \<Rightarrow> 'p contract \<Rightarrow> 'p contract result" where
  "withdraw env owner tokens memo force c =
     bind_r (ok_or (map_of (c_accounts c) owner) (AccountNotFound owner)) (\<lambda>l.
     bind_r (ok_or (get_mut_maybe_forced force l) (AccountLocked owner)) (\<lambda>_.
     bind_r (fold_r (withdraw_step env owner) tokens c) (\<lambda>c'.
       Inr (if tokens \<noteq> [] then c'\<lparr>c_postponed_burns := c_postponed_burns c' @
           [\<lparr> burn_owner_id = owner, burn_authorized_id = None, burn_token_ids = map (token_to_string \<circ> fst) tokens,
              burn_amounts = map snd tokens, burn_memo = memo \<rparr>]\<rparr>
         else c'))))"

text \<open>\<open>PostponedMtBurnEvents::flush\<close>, which also runs when the contract is dropped at the end of a call.\<close>

definition flush_burns :: "'p host \<Rightarrow> 'p contract \<Rightarrow> 'p contract result" where
  "flush_burns env c =
     (if c_postponed_burns c = [] then Inr c
      else emit_checked env (MtBurn (c_postponed_burns c)) (c\<lparr>c_postponed_burns := []\<rparr>))"

end
