(* ===== verification/ContractOps.thy ===== *)
theory ContractOps
  imports ContractState
begin

text \<open>
  The contract as a state of the engine (\<open>contract/intents/state.rs\<close>), with the withdrawals
  and notifications it schedules (\<open>contract/tokens/nep141/withdraw.rs\<close>, \<open>native.rs\<close>,
  \<open>storage_deposit.rs\<close>, \<open>nep171/withdraw.rs\<close>, \<open>nep245/withdraw.rs\<close>, \<open>nep245/core.rs\<close>,
  \<open>contract/intents/auth_call.rs\<close>). Functions that create a promise return it.
\<close>

subsection \<open>Gas\<close>

definition NEAR_WITHDRAW_GAS :: gas where "NEAR_WITHDRAW_GAS = tgas 10"
definition STORAGE_DEPOSIT_GAS :: gas where "STORAGE_DEPOSIT_GAS = tgas 10"
definition DO_NATIVE_WITHDRAW_GAS :: gas where "DO_NATIVE_WITHDRAW_GAS = tgas 12"
definition DO_STORAGE_DEPOSIT_GAS :: gas where "DO_STORAGE_DEPOSIT_GAS = tgas 5 + STORAGE_DEPOSIT_GAS"
definition DO_FT_WITHDRAW_GAS :: gas where "DO_FT_WITHDRAW_GAS = tgas 5 + STORAGE_DEPOSIT_GAS"
definition DO_NFT_WITHDRAW_GAS :: gas where "DO_NFT_WITHDRAW_GAS = tgas 5 + STORAGE_DEPOSIT_GAS"
definition DO_MT_WITHDRAW_GAS :: gas where "DO_MT_WITHDRAW_GAS = tgas 5 + STORAGE_DEPOSIT_GAS"
definition FT_RESOLVE_WITHDRAW_GAS :: gas where "FT_RESOLVE_WITHDRAW_GAS = tgas 5"
definition NFT_RESOLVE_WITHDRAW_GAS :: gas where "NFT_RESOLVE_WITHDRAW_GAS = tgas 5"
definition DO_AUTH_CALL_MIN_GAS :: gas where "DO_AUTH_CALL_MIN_GAS = tgas 5"
definition STATE_INIT_GAS :: gas where "STATE_INIT_GAS = tgas 15"

text \<open>A linear model of gas in \<open>u64\<close>: a base and a cost per token.\<close>

definition linear_gas :: "gas \<Rightarrow> gas \<Rightarrow> nat \<Rightarrow> gas result" where
  "linear_gas base per_token n =
     bind_r (ok_or (checked_mul_u 64 per_token n) GasOverflow) (\<lambda>g.
     ok_or (checked_add_u 64 base g) GasOverflow)"

definition mt_resolve_gas :: "nat \<Rightarrow> gas result" where
  "mt_resolve_gas token_count = linear_gas (tgas 8) (tgas 2) token_count"

definition mt_resolve_withdraw_gas :: "nat \<Rightarrow> gas result" where
  "mt_resolve_withdraw_gas token_count = linear_gas (tgas 8) (tgas 2) token_count"

definition mt_resolve_deposit_gas :: "nat \<Rightarrow> gas result" where
  "mt_resolve_deposit_gas token_count = linear_gas (tgas 4) (tgas 2) token_count"

definition auth_call_callback_gas :: "auth_call \<Rightarrow> gas option" where
  "auth_call_callback_gas ac =
     (case checked_add_u 64 DO_AUTH_CALL_MIN_GAS (if ac_state_init ac = None then 0 else STATE_INIT_GAS) of
        None \<Rightarrow> None | Some g \<Rightarrow> checked_add_u 64 g (auth_call_min_gas ac))"

subsection \<open>Promises of the withdrawals\<close>

definition promise_void_ok :: "'p host \<Rightarrow> bool" where
  "promise_void_ok env \<longleftrightarrow> h_promise_result env 0 \<noteq> None"

definition self_call :: "'p host \<Rightarrow> call \<Rightarrow> gas \<Rightarrow> nat \<Rightarrow> 'p promise" where
  "self_call env f g weight = PReceipt (h_current env) [ACall f 0 g weight]"

definition near_withdraw_promise :: "account_id \<Rightarrow> near_token \<Rightarrow> 'p promise" where
  "near_withdraw_promise wnear amount = PReceipt wnear [ACall (NearWithdraw amount) 1 NEAR_WITHDRAW_GAS 0]"

text \<open>The receipt of a withdrawal starts with the storage deposit, paid from the unwrapped NEAR.\<close>

definition storage_deposit_receipt ::
  "'p host \<Rightarrow> account_id \<Rightarrow> account_id \<Rightarrow> near_token option \<Rightarrow> 'p promise result" where
  "storage_deposit_receipt env token receiver sd = (case sd of
      None \<Rightarrow> Inr (PReceipt token [])
    | Some amount \<Rightarrow>
        bind_r (require_r (promise_void_ok env) (Panicked ''near_withdraw failed'')) (\<lambda>_.
          Inr (PReceipt token [ACall (StorageDepositFor receiver) amount STORAGE_DEPOSIT_GAS 0])))"

definition do_ft_withdraw :: "'p host \<Rightarrow> ft_withdraw \<Rightarrow> 'p promise result" where
  "do_ft_withdraw env w =
     bind_r (storage_deposit_receipt env (fw_token w) (fw_receiver_id w) (fw_storage_deposit w)) (\<lambda>p.
       Inr (on_receipt (ACall (case fw_msg w of
           Some msg \<Rightarrow> FtTransferCall (fw_receiver_id w) (fw_amount w) (fw_memo w) msg
         | None \<Rightarrow> FtTransfer (fw_receiver_id w) (fw_amount w) (fw_memo w)) 1 (ft_min_gas w) 1) p))"

definition do_nft_withdraw :: "'p host \<Rightarrow> nft_withdraw \<Rightarrow> 'p promise result" where
  "do_nft_withdraw env w =
     bind_r (storage_deposit_receipt env (nw_token w) (nw_receiver_id w) (nw_storage_deposit w)) (\<lambda>p.
       Inr (on_receipt (ACall (case nw_msg w of
           Some msg \<Rightarrow> NftTransferCall (nw_receiver_id w) (nw_token_id w) (nw_memo w) msg
         | None \<Rightarrow> NftTransfer (nw_receiver_id w) (nw_token_id w) (nw_memo w)) 1 (nft_min_gas w) 1) p))"

definition do_mt_withdraw :: "'p host \<Rightarrow> mt_withdraw \<Rightarrow> 'p promise result" where
  "do_mt_withdraw env w =
     bind_r (storage_deposit_receipt env (mw_token w) (mw_receiver_id w) (mw_storage_deposit w)) (\<lambda>p.
       Inr (on_receipt (ACall (case mw_msg w of
           Some msg \<Rightarrow> MtBatchTransferCall (mw_receiver_id w) (mw_token_ids w) (mw_amounts w) (mw_memo w) msg
         | None \<Rightarrow> MtBatchTransfer (mw_receiver_id w) (mw_token_ids w) (mw_amounts w) (mw_memo w)) 1 (mt_min_gas w) 1) p))"

definition do_native_withdraw :: "'p host \<Rightarrow> native_withdraw \<Rightarrow> 'p promise result" where
  "do_native_withdraw env w =
     bind_r (require_r (promise_void_ok env) (Panicked ''near_withdraw failed'')) (\<lambda>_.
       Inr (PReceipt (nat_receiver_id w) [ATransfer (nat_amount w)]))"

definition do_storage_deposit :: "'p host \<Rightarrow> storage_deposit \<Rightarrow> 'p promise result" where
  "do_storage_deposit env w =
     bind_r (require_r (promise_void_ok env) (Panicked ''near_withdraw failed'')) (\<lambda>_.
       Inr (PReceipt (sd_contract_id w)
         [ACall (StorageDepositFor (sd_deposit_for_account_id w)) (sd_amount w) STORAGE_DEPOSIT_GAS 0]))"

definition do_auth_call :: "'p host \<Rightarrow> account_id \<Rightarrow> auth_call \<Rightarrow> 'p promise result" where
  "do_auth_call env signer ac =
     bind_r (require_r (ac_attached_deposit ac = 0 \<or> promise_void_ok env) (Panicked ''near_withdraw failed'')) (\<lambda>_.
       Inr (PReceipt (ac_contract_id ac)
         ((case ac_state_init ac of None \<Rightarrow> [] | Some si \<Rightarrow> [AStateInit si]) @
          [ACall (OnAuth signer (ac_msg ac)) (ac_attached_deposit ac) (auth_call_min_gas ac) 1])))"

text \<open>The wNEAR that pays a storage deposit is withdrawn with the tokens.\<close>

definition wnear_deposit :: "'p contract \<Rightarrow> near_token option \<Rightarrow> (token_id \<times> nat) list" where
  "wnear_deposit c sd = (case sd of None \<Rightarrow> [] | Some amount \<Rightarrow> [(Nep141 (c_wnear_id c), amount)])"

text \<open>With a storage deposit the transfer is a callback, made after \<open>near_withdraw\<close> returns, with
  the callback's own gas added to what the transfer needs; without one it is made directly.\<close>

definition after_near_withdraw ::
  "'p host \<Rightarrow> 'p contract \<Rightarrow> near_token option \<Rightarrow> call \<Rightarrow> gas \<Rightarrow> gas \<Rightarrow> 'p promise result \<Rightarrow> 'p promise result" where
  "after_near_withdraw env c sd callback base transfer_gas direct = (case sd of
      None \<Rightarrow> direct
    | Some amount \<Rightarrow>
        bind_r (ok_or (checked_add_u 64 base transfer_gas) GasOverflow) (\<lambda>g.
          Inr (PThen (near_withdraw_promise (c_wnear_id c) amount) (self_call env callback g 1))))"

definition internal_ft_withdraw ::
  "'p host \<Rightarrow> account_id \<Rightarrow> ft_withdraw \<Rightarrow> bool \<Rightarrow> 'p contract \<Rightarrow> ('p contract \<times> 'p promise) result" where
  "internal_ft_withdraw env owner w force c =
     bind_r (withdraw env owner ((Nep141 (fw_token w), fw_amount w) # wnear_deposit c (fw_storage_deposit w))
       (Some ''withdraw'') force c) (\<lambda>c'.
     bind_r (after_near_withdraw env c' (fw_storage_deposit w) (DoFtWithdraw w) DO_FT_WITHDRAW_GAS (ft_min_gas w)
       (do_ft_withdraw env w)) (\<lambda>p.
       Inr (c', PThen p (self_call env (FtResolveWithdraw (fw_token w) owner (fw_amount w) (fw_msg w \<noteq> None))
         FT_RESOLVE_WITHDRAW_GAS 0))))"

definition internal_nft_withdraw ::
  "'p host \<Rightarrow> account_id \<Rightarrow> nft_withdraw \<Rightarrow> bool \<Rightarrow> 'p contract \<Rightarrow> ('p contract \<times> 'p promise) result" where
  "internal_nft_withdraw env owner w force c =
     bind_r (withdraw env owner ((Nep171 (nw_token w) (nw_token_id w), 1) # wnear_deposit c (nw_storage_deposit w))
       (Some ''withdraw'') force c) (\<lambda>c'.
     bind_r (after_near_withdraw env c' (nw_storage_deposit w) (DoNftWithdraw w) DO_NFT_WITHDRAW_GAS (nft_min_gas w)
       (do_nft_withdraw env w)) (\<lambda>p.
       Inr (c', PThen p (self_call env (NftResolveWithdraw (nw_token w) owner (nw_token_id w) (nw_msg w \<noteq> None))
         NFT_RESOLVE_WITHDRAW_GAS 0))))"

definition internal_mt_withdraw ::
  "'p host \<Rightarrow> account_id \<Rightarrow> mt_withdraw \<Rightarrow> bool \<Rightarrow> 'p contract \<Rightarrow> ('p contract \<times> 'p promise) result" where
  "internal_mt_withdraw env owner w force c =
     bind_r (require_r (length (mw_token_ids w) = length (mw_amounts w) \<and> mw_token_ids w \<noteq> []) InvalidIntent) (\<lambda>_.
     bind_r (withdraw env owner
       (zip (map (Nep245 (mw_token w)) (mw_token_ids w)) (mw_amounts w) @ wnear_deposit c (mw_storage_deposit w))
       (Some ''withdraw'') force c) (\<lambda>c'.
     bind_r (after_near_withdraw env c' (mw_storage_deposit w) (DoMtWithdraw w) DO_MT_WITHDRAW_GAS (mt_min_gas w)
       (do_mt_withdraw env w)) (\<lambda>p.
     bind_r (mt_resolve_withdraw_gas (length (mw_token_ids w))) (\<lambda>g.
       Inr (c', PThen p (self_call env (MtResolveWithdraw (mw_token w) owner (mw_token_ids w) (mw_amounts w)
         (mw_msg w \<noteq> None)) g 0))))))"

text \<open>A withdrawal of wNEAR whose unwrapped NEAR a callback spends.\<close>

definition wnear_withdraw_then ::
  "'p host \<Rightarrow> account_id \<Rightarrow> near_token \<Rightarrow> ('p contract \<Rightarrow> 'p promise result) \<Rightarrow> 'p contract \<Rightarrow> 'p contract result" where
  "wnear_withdraw_then env owner amount callback c =
     bind_r (withdraw env owner [(Nep141 (c_wnear_id c), amount)] (Some ''withdraw'') False c) (\<lambda>c'.
     bind_r (callback c') (\<lambda>q.
       Inr (detach (PThen (near_withdraw_promise (c_wnear_id c') amount) q) c')))"

definition contract_native_withdraw :: "'p host \<Rightarrow> account_id \<Rightarrow> native_withdraw \<Rightarrow> 'p contract \<Rightarrow> 'p contract result" where
  "contract_native_withdraw env owner w =
     wnear_withdraw_then env owner (nat_amount w)
       (\<lambda>_. Inr (self_call env (DoNativeWithdraw w) DO_NATIVE_WITHDRAW_GAS 0))"

definition contract_storage_deposit :: "'p host \<Rightarrow> account_id \<Rightarrow> storage_deposit \<Rightarrow> 'p contract \<Rightarrow> 'p contract result" where
  "contract_storage_deposit env owner w =
     wnear_withdraw_then env owner (sd_amount w)
       (\<lambda>_. Inr (self_call env (DoStorageDeposit w) DO_STORAGE_DEPOSIT_GAS 0))"

definition contract_auth_call :: "'p host \<Rightarrow> account_id \<Rightarrow> auth_call \<Rightarrow> 'p contract \<Rightarrow> 'p contract result" where
  "contract_auth_call env signer ac c =
     (if ac_attached_deposit ac = 0
      then bind_r (do_auth_call env signer ac) (\<lambda>p. Inr (detach p c))
      else wnear_withdraw_then env signer (ac_attached_deposit ac)
        (\<lambda>_. bind_r (ok_or (auth_call_callback_gas ac) GasOverflow) (\<lambda>g.
           Inr (self_call env (DoAuthCall signer ac) g 1))) c)"

subsection \<open>Notifications\<close>

definition notify_on_transfer_promise ::
  "account_id \<Rightarrow> account_id list \<Rightarrow> account_id \<Rightarrow> string list \<Rightarrow> nat list \<Rightarrow> notify_on_transfer \<Rightarrow> 'p promise" where
  "notify_on_transfer_promise sender previous_owners receiver token_ids amounts n =
     PReceipt receiver ((case no_state_init n of None \<Rightarrow> [] | Some si \<Rightarrow> [AStateInit si]) @
       [ACall (MtOnTransfer sender previous_owners token_ids amounts (no_msg n)) 0 (unwrap_or (no_min_gas n) 0) 1])"

definition notify_and_resolve_transfer ::
  "'p host \<Rightarrow> account_id \<Rightarrow> account_id \<Rightarrow> string list \<Rightarrow> nat list \<Rightarrow> notify_on_transfer \<Rightarrow> 'p promise result" where
  "notify_and_resolve_transfer env sender receiver token_ids amounts n =
     (let previous_owners = replicate (length token_ids) sender in
      bind_r (mt_resolve_gas (length token_ids)) (\<lambda>g.
        Inr (PThen (notify_on_transfer_promise sender previous_owners receiver token_ids amounts n)
          (self_call env (MtResolveTransfer previous_owners receiver token_ids amounts) g 0))))"

definition contract_notify_on_transfer ::
  "'p host \<Rightarrow> account_id \<Rightarrow> account_id \<Rightarrow> token_id amounts \<Rightarrow> notify_on_transfer \<Rightarrow> 'p contract \<Rightarrow> 'p contract result" where
  "contract_notify_on_transfer env sender receiver tokens n c =
     bind_r (notify_and_resolve_transfer env sender receiver (map (token_to_string \<circ> fst) tokens) (map snd tokens) n) (\<lambda>p.
       Inr (detach p c))"

subsection \<open>Keys, nonces and balances\<close>

text \<open>An account that is written must be unlocked.\<close>

definition unlocked_account :: "account_id \<Rightarrow> account lock \<Rightarrow> account result" where
  "unlocked_account a l = ok_or (lock_get l) (AccountLocked a)"

definition contract_has_public_key :: "'p host \<Rightarrow> 'p contract \<Rightarrow> account_id \<Rightarrow> public_key \<Rightarrow> bool" where
  "contract_has_public_key env c a pk = (case map_of (c_accounts c) a of
      None \<Rightarrow> a = to_implicit_account_id (h_codecs env) pk
    | Some l \<Rightarrow> account_has_public_key (h_codecs env) a pk (as_inner_unchecked l))"

definition contract_iter_public_keys :: "'p host \<Rightarrow> 'p contract \<Rightarrow> account_id \<Rightarrow> public_key list" where
  "contract_iter_public_keys env c a = (case map_of (c_accounts c) a of
      Some l \<Rightarrow> account_iter_public_keys (h_codecs env) a (as_inner_unchecked l)
    | None \<Rightarrow> (case from_implicit_account_id (h_codecs env) a of None \<Rightarrow> [] | Some pk \<Rightarrow> [pk]))"

definition contract_is_nonce_used :: "'p contract \<Rightarrow> account_id \<Rightarrow> nonce \<Rightarrow> bool" where
  "contract_is_nonce_used c a n = (case map_of (c_accounts c) a of
      None \<Rightarrow> False | Some l \<Rightarrow> account_is_nonce_used (as_inner_unchecked l) n)"

definition contract_balance_of :: "'p contract \<Rightarrow> account_id \<Rightarrow> token_id \<Rightarrow> nat" where
  "contract_balance_of c a t = (case map_of (c_accounts c) a of
      None \<Rightarrow> 0 | Some l \<Rightarrow> amount_for (ac_token_balances (as_inner_unchecked l)) t)"

definition contract_is_account_locked :: "'p contract \<Rightarrow> account_id \<Rightarrow> bool" where
  "contract_is_account_locked c a = (case map_of (c_accounts c) a of None \<Rightarrow> False | Some l \<Rightarrow> is_locked l)"

definition contract_is_auth_enabled :: "'p contract \<Rightarrow> account_id \<Rightarrow> bool" where
  "contract_is_auth_enabled c a = (case map_of (c_accounts c) a of
      None \<Rightarrow> True | Some l \<Rightarrow> account_auth_enabled (as_inner_unchecked l))"

definition contract_add_public_key :: "'p host \<Rightarrow> account_id \<Rightarrow> public_key \<Rightarrow> 'p contract \<Rightarrow> 'p contract result" where
  "contract_add_public_key env a pk c = (case get_or_create env a c of (c1, l) \<Rightarrow>
     bind_r (unlocked_account a l) (\<lambda>x. case account_add_public_key (h_codecs env) a pk x of (x', added) \<Rightarrow>
     bind_r (require_r added (PublicKeyExists a pk)) (\<lambda>_. Inr (put_inner a l x' c1))))"

definition contract_remove_public_key :: "'p host \<Rightarrow> account_id \<Rightarrow> public_key \<Rightarrow> 'p contract \<Rightarrow> 'p contract result" where
  "contract_remove_public_key env a pk c = (case get_or_create env a c of (c1, l) \<Rightarrow>
     bind_r (unlocked_account a l) (\<lambda>x. case account_remove_public_key (h_codecs env) a pk x of (x', removed) \<Rightarrow>
     bind_r (require_r removed (PublicKeyNotExist a pk)) (\<lambda>_. Inr (put_inner a l x' c1))))"

definition contract_commit_nonce :: "'p host \<Rightarrow> account_id \<Rightarrow> nonce \<Rightarrow> 'p contract \<Rightarrow> 'p contract result" where
  "contract_commit_nonce env a n c = (case get_or_create env a c of (c1, l) \<Rightarrow>
     bind_r (unlocked_account a l) (\<lambda>x.
     bind_r (account_commit_nonce n x) (\<lambda>x'. Inr (put_inner a l x' c1))))"

definition contract_cleanup_nonce_by_prefix ::
  "account_id \<Rightarrow> nonce_prefix \<Rightarrow> 'p contract \<Rightarrow> ('p contract \<times> bool) result" where
  "contract_cleanup_nonce_by_prefix a p c =
     bind_r (ok_or (map_of (c_accounts c) a) (AccountNotFound a)) (\<lambda>l.
       case account_cleanup_nonce_by_prefix p (as_inner_unchecked l) of (x', b) \<Rightarrow> Inr (put_inner a l x' c, b))"

definition add_balance_step :: "'p host \<Rightarrow> account_id \<Rightarrow> token_id \<times> nat \<Rightarrow> 'p contract \<Rightarrow> 'p contract result" where
  "add_balance_step env owner p c = (case p of (t, amount) \<Rightarrow>
     bind_r (require_r (amount \<noteq> 0) InvalidIntent) (\<lambda>_.
     bind_r (ok_or (amounts_add t amount (balances_of env owner c)) BalanceOverflow) (\<lambda>(m, _).
       Inr (set_balances env owner m c))))"

definition contract_add_balance ::
  "'p host \<Rightarrow> account_id \<Rightarrow> (token_id \<times> nat) list \<Rightarrow> 'p contract \<Rightarrow> 'p contract result" where
  "contract_add_balance env owner tokens c =
     fold_r (add_balance_step env owner) tokens (fst (get_or_create env owner c))"

definition sub_balance_step :: "'p host \<Rightarrow> account_id \<Rightarrow> token_id \<times> nat \<Rightarrow> 'p contract \<Rightarrow> 'p contract result" where
  "sub_balance_step env owner p c = (case p of (t, amount) \<Rightarrow>
     bind_r (require_r (amount \<noteq> 0) InvalidIntent) (\<lambda>_.
     bind_r (ok_or (amounts_sub t amount (balances_of env owner c)) BalanceOverflow) (\<lambda>(m, _).
       Inr (set_balances env owner m c))))"

definition contract_sub_balance ::
  "'p host \<Rightarrow> account_id \<Rightarrow> (token_id \<times> nat) list \<Rightarrow> 'p contract \<Rightarrow> 'p contract result" where
  "contract_sub_balance env owner tokens c =
     bind_r (ok_or (map_of (c_accounts c) owner) (AccountNotFound owner)) (\<lambda>l.
     bind_r (unlocked_account owner l) (\<lambda>_. fold_r (sub_balance_step env owner) tokens c))"

definition set_auth_on ::
  "account_id \<Rightarrow> bool \<Rightarrow> bool \<Rightarrow> 'p contract \<times> account lock \<Rightarrow> ('p contract \<times> bool) result" where
  "set_auth_on a enable force p = (case p of (c, l) \<Rightarrow>
     bind_r (ok_or (get_mut_maybe_forced force l) (AccountLocked a)) (\<lambda>x.
       case account_set_auth enable x of (x', toggled) \<Rightarrow> Inr (put_inner a l x' c, toggled)))"

definition internal_set_auth ::
  "'p host \<Rightarrow> account_id \<Rightarrow> bool \<Rightarrow> bool \<Rightarrow> 'p contract \<Rightarrow> ('p contract \<times> bool) result" where
  "internal_set_auth env a enable force c =
     (if enable then (case map_of (c_accounts c) a of
          None \<Rightarrow> Inr (c, False)
        | Some l \<Rightarrow> set_auth_on a enable force (c, l))
      else set_auth_on a enable force (get_or_create env a c))"

definition detached :: "('p contract \<times> 'p promise) result \<Rightarrow> 'p contract result" where
  "detached r = bind_r r (\<lambda>(c, p). Inr (detach p c))"

text \<open>\<open>impl StateView for Contract\<close> and \<open>impl State for Contract\<close>.\<close>

definition contract_ops :: "'p host \<Rightarrow> 'p contract state_ops" where
  "contract_ops env = \<lparr>
     so_verifying_contract = (\<lambda>c. h_current env),
     so_wnear_id = c_wnear_id,
     so_fee = c_fee,
     so_fee_collector = c_fee_collector,
     so_has_public_key = contract_has_public_key env,
     so_iter_public_keys = contract_iter_public_keys env,
     so_is_nonce_used = contract_is_nonce_used,
     so_balance_of = contract_balance_of,
     so_is_account_locked = contract_is_account_locked,
     so_is_auth_by_predecessor_id_enabled = contract_is_auth_enabled,
     so_is_valid_salt = (\<lambda>c. salt_is_valid (c_salts c)),
     so_add_public_key = contract_add_public_key env,
     so_remove_public_key = contract_remove_public_key env,
     so_commit_nonce = contract_commit_nonce env,
     so_cleanup_nonce_by_prefix = contract_cleanup_nonce_by_prefix,
     so_internal_add_balance = contract_add_balance env,
     so_internal_sub_balance = contract_sub_balance env,
     so_ft_withdraw = (\<lambda>a w c. detached (internal_ft_withdraw env a w False c)),
     so_nft_withdraw = (\<lambda>a w c. detached (internal_nft_withdraw env a w False c)),
     so_mt_withdraw = (\<lambda>a w c. detached (internal_mt_withdraw env a w False c)),
     so_native_withdraw = contract_native_withdraw env,
     so_notify_on_transfer = contract_notify_on_transfer env,
     so_storage_deposit = contract_storage_deposit env,
     so_set_auth_by_predecessor_id = (\<lambda>a enable. internal_set_auth env a enable False),
     so_auth_call = contract_auth_call env,
     so_mint = deposit env,
     so_burn = (\<lambda>a ts memo. withdraw env a ts memo False) \<rparr>"

end
