(* ===== verification/ContractLaws.thy ===== *)
theory ContractLaws
  imports ContractOps
begin

text \<open>
  The laws of the contract's state: the invariant of accounts and supplies, the gap between the
  supply of a token and the balances that hold it, and what every operation of the engine's
  interface does to them. The interpretation of \<open>ledger\<close> on \<open>contract_ops\<close> gives
  conservation.
\<close>

subsection \<open>The invariant\<close>

definition accounts_ok :: "codecs \<Rightarrow> (account_id \<times> account lock) list \<Rightarrow> bool" where
  "accounts_ok C m \<longleftrightarrow> keys_distinct m \<and> (\<forall>a l. map_of m a = Some l \<longrightarrow> account_ok C a (lk_value l))"

definition supplies_ok :: "token_id amounts \<Rightarrow> bool" where
  "supplies_ok m \<longleftrightarrow> amounts_u128 m \<and> (\<forall>k nft. amount_for m (Nep171 k nft) \<le> 1)"

definition contract_ok :: "'p host \<Rightarrow> 'p contract \<Rightarrow> bool" where
  "contract_ok env c \<longleftrightarrow> accounts_ok (h_codecs env) (c_accounts c) \<and> supplies_ok (c_total_supplies c) \<and>
     salts_ok (c_salts c)"

definition lock_balance :: "token_id \<Rightarrow> account lock \<Rightarrow> nat" where
  "lock_balance t l = amount_for (ac_token_balances (lk_value l)) t"

text \<open>The tokens all accounts hold together, and the supply that is not held by any account.\<close>

definition held :: "'p contract \<Rightarrow> token_id \<Rightarrow> nat" where
  "held c t = sum_map (lock_balance t) (c_accounts c)"

definition contract_gap :: "'p contract \<Rightarrow> token_id \<Rightarrow> int" where
  "contract_gap c t = int (amount_for (c_total_supplies c) t) - int (held c t)"

lemma contract_okD:
  "contract_ok env c \<Longrightarrow> map_of (c_accounts c) a = Some l \<Longrightarrow> account_ok (h_codecs env) a (lk_value l)"
  by (simp add: contract_ok_def accounts_ok_def)

lemma account_or_new_ok: "contract_ok env c \<Longrightarrow> account_ok (h_codecs env) a (lk_value (account_or_new env a c))"
  by (auto simp: account_or_new_def account_new_ok dest: contract_okD split: option.splits)

lemma account_or_new_Some [simp]: "map_of (c_accounts c) a = Some l \<Longrightarrow> account_or_new env a c = l"
  by (simp add: account_or_new_def)

lemma account_or_new_put [simp]:
  "account_or_new env b (put_account a l c) = (if b = a then l else account_or_new env b c)"
  by (simp add: account_or_new_def put_account_def)

lemma put_account_fields [simp]:
  "c_total_supplies (put_account a l c) = c_total_supplies c"
  "c_salts (put_account a l c) = c_salts c"
  "map_of (c_accounts (put_account a l c)) b = (if b = a then Some l else map_of (c_accounts c) b)"
  by (simp_all add: put_account_def)

lemma contract_ok_put:
  "contract_ok env c \<Longrightarrow> account_ok (h_codecs env) a (lk_value l) \<Longrightarrow> contract_ok env (put_account a l c)"
  by (auto simp: contract_ok_def accounts_ok_def put_account_def)

lemma held_put:
  "int (held (put_account a l c) t) =
     int (held c t) + int (lock_balance t l) - int (lock_balance t (account_or_new env a c))"
  by (auto simp: held_def sum_map_int put_account_def sum_map_update account_or_new_def lock_balance_def
      account_new_def split: option.splits)

text \<open>A balance is what the balances of the account's entry, real or fresh, say.\<close>

lemma contract_balance_alt: "contract_balance_of c a t = lock_balance t (account_or_new env a c)"
  by (auto simp: contract_balance_of_def lock_balance_def account_or_new_def account_new_def lock_defs split: option.splits)

lemma balances_of_amount: "amount_for (balances_of env a c) t = contract_balance_of c a t"
  by (simp add: contract_balance_alt [of _ _ _ env] lock_balance_def balances_of_def)

lemma held_ge_balance: "contract_balance_of c a t \<le> held c t"
  by (auto simp: contract_balance_of_def held_def lock_balance_def [abs_def] lock_defs split: option.splits
      dest: sum_map_ge [of _ _ _ "lock_balance t"])

subsection \<open>Writing an account\<close>

lemma put_inner_ok:
  "contract_ok env c \<Longrightarrow> account_ok (h_codecs env) a x \<Longrightarrow> contract_ok env (put_inner a l x c)"
  by (simp add: put_inner_def contract_ok_put)

lemma put_inner_gap:
  assumes "ac_token_balances x = balances_of env a c"
  shows "contract_gap (put_inner a l x c) = contract_gap c"
  using assms held_put [of a "write_inner x l" c _ env]
  by (auto simp: contract_gap_def put_inner_def lock_balance_def balances_of_def)

lemma set_balances_ok:
  assumes "contract_ok env c" and "amounts_u128 m"
  shows "contract_ok env (set_balances env a m c)"
  using assms account_or_new_ok [OF assms(1), of a]
  by (auto simp: set_balances_def Let_def account_ok_def intro: put_inner_ok)

lemma set_balances_held:
  "int (held (set_balances env a m c) t) = int (held c t) + int (amount_for m t) - int (contract_balance_of c a t)"
  by (simp add: set_balances_def Let_def put_inner_def held_put [of _ _ _ _ env] contract_balance_alt [of _ _ _ env])
    (simp add: lock_balance_def)

lemma set_balances_supplies [simp]:
  "c_total_supplies (set_balances env a m c) = c_total_supplies c"
  by (simp add: set_balances_def Let_def put_inner_def)

lemma get_or_create_ok: "contract_ok env c \<Longrightarrow> contract_ok env (fst (get_or_create env a c))"
  by (simp add: get_or_create_def Let_def contract_ok_put account_or_new_ok)

lemma get_or_create_gap [simp]: "contract_gap (fst (get_or_create env a c)) = contract_gap c"
  using held_put [of a "account_or_new env a c" c _ env]
  by (auto simp: get_or_create_def Let_def contract_gap_def)

lemma get_or_create_snd [simp]: "snd (get_or_create env a c) = account_or_new env a c"
  by (simp add: get_or_create_def Let_def)

lemma balances_u128: "contract_ok env c \<Longrightarrow> amounts_u128 (balances_of env a c)"
  using account_or_new_ok [of env c a] by (simp add: account_ok_def balances_of_def)

subsection \<open>What one step does to the supply and the balances\<close>

lemma contract_ok_supplies: "contract_ok env c \<Longrightarrow> supplies_ok m \<Longrightarrow> contract_ok env (c\<lparr>c_total_supplies := m\<rparr>)"
  by (simp add: contract_ok_def)

lemma balances_of_supplies [simp]:
  "balances_of env a (c\<lparr>c_total_supplies := m\<rparr>) = balances_of env a c"
  "contract_balance_of (c\<lparr>c_total_supplies := m\<rparr>) a t = contract_balance_of c a t"
  "held (c\<lparr>c_total_supplies := m\<rparr>) t = held c t"
  by (simp_all add: balances_of_def account_or_new_def contract_balance_of_def held_def)

lemma deposit_step_spec:
  assumes "contract_ok env c" and "deposit_step env a (t, n) c = Inr c'"
  shows "contract_ok env c' \<and> contract_gap c' = contract_gap c \<and>
    amount_for (c_total_supplies c') t = amount_for (c_total_supplies c) t + n \<and> 0 < n \<and>
    c' = set_balances env a (entry_write 0 t (amount_for (balances_of env a c) t + n) (balances_of env a c))
      (c\<lparr>c_total_supplies := entry_write 0 t (amount_for (c_total_supplies c) t + n) (c_total_supplies c)\<rparr>)"
proof -
  obtain m b x y where sup: "amounts_add t n (c_total_supplies c) = Some (m, x)"
    and nft: "nft_supply_check t x = Inr ()" and bal: "amounts_add t n (balances_of env a c) = Some (b, y)" and n: "0 < n"
    and c': "c' = set_balances env a b (c\<lparr>c_total_supplies := m\<rparr>)"
    using assms(2) by (auto simp: deposit_step_def result_simps split: prod.splits)
  have "amounts_u128 m" using assms(1) sup by (auto simp: contract_ok_def supplies_ok_def intro: amounts_u128_add)
  moreover have "amount_for m (Nep171 k i) \<le> 1" for k i
    using assms(1) sup nft
    by (cases t) (auto simp: amounts_add_Some contract_ok_def supplies_ok_def result_simps)
  ultimately have "supplies_ok m" by (simp add: supplies_ok_def)
  moreover have "amounts_u128 b" using balances_u128 [OF assms(1)] bal by (rule amounts_u128_add)
  ultimately have ok: "contract_ok env c'"
    by (simp add: c' set_balances_ok contract_ok_supplies assms(1))
  have "contract_gap c' u = contract_gap c u" for u
    using sup bal
    by (auto simp: contract_gap_def c' set_balances_held amounts_add_Some balances_of_amount)
  with ok n show ?thesis using sup bal by (auto simp: c' amounts_add_Some)
qed

lemma withdraw_step_spec:
  assumes "contract_ok env c" and "withdraw_step env a (t, n) c = Inr c'"
  shows "contract_ok env c' \<and> contract_gap c' = contract_gap c \<and>
    amount_for (c_total_supplies c) t = n + amount_for (c_total_supplies c') t \<and>
    contract_balance_of c a t \<ge> n \<and> 0 < n \<and>
    c' = set_balances env a (entry_write 0 t (amount_for (balances_of env a c) t - n) (balances_of env a c))
      (c\<lparr>c_total_supplies := entry_write 0 t (amount_for (c_total_supplies c) t - n) (c_total_supplies c)\<rparr>)"
proof -
  obtain m b x y where sup: "amounts_sub t n (c_total_supplies c) = Some (m, x)"
    and bal: "amounts_sub t n (balances_of env a c) = Some (b, y)" and n: "0 < n"
    and c': "c' = set_balances env a b (c\<lparr>c_total_supplies := m\<rparr>)"
    using assms(2) by (auto simp: withdraw_step_def result_simps split: prod.splits)
  have "amounts_u128 m" using assms(1) sup by (auto simp: contract_ok_def supplies_ok_def intro: amounts_u128_sub)
  moreover have "amount_for m (Nep171 k i) \<le> 1" for k i
  proof -
    have "amount_for m (Nep171 k i) \<le> amount_for (c_total_supplies c) (Nep171 k i)"
      using sup by (auto simp: amounts_sub_Some)
    also have "\<dots> \<le> 1" using assms(1) by (simp add: contract_ok_def supplies_ok_def)
    finally show ?thesis .
  qed
  ultimately have "supplies_ok m" by (simp add: supplies_ok_def)
  moreover have "amounts_u128 b" using balances_u128 [OF assms(1)] bal by (rule amounts_u128_sub)
  ultimately have ok: "contract_ok env c'"
    by (simp add: c' set_balances_ok contract_ok_supplies assms(1))
  have "contract_gap c' u = contract_gap c u" for u
    using sup bal
    by (auto simp: contract_gap_def c' set_balances_held amounts_sub_Some balances_of_amount)
  with ok n show ?thesis using sup bal by (auto simp: c' amounts_sub_Some balances_of_amount)
qed

lemma add_balance_step_spec:
  assumes "contract_ok env c" and "add_balance_step env a (t, n) c = Inr c'"
  shows "contract_ok env c' \<and> contract_gap c' u = contract_gap c u - (if u = t then int n else 0) \<and>
    c' = set_balances env a (entry_write 0 t (amount_for (balances_of env a c) t + n) (balances_of env a c)) c"
proof -
  obtain b y where bal: "amounts_add t n (balances_of env a c) = Some (b, y)" and c': "c' = set_balances env a b c"
    using assms(2) by (auto simp: add_balance_step_def result_simps split: prod.splits)
  have "amounts_u128 b" using balances_u128 [OF assms(1)] bal by (rule amounts_u128_add)
  then show ?thesis
    using bal assms(1)
    by (auto simp: c' set_balances_ok contract_gap_def set_balances_held amounts_add_Some balances_of_amount)
qed

lemma sub_balance_step_spec:
  assumes "contract_ok env c" and "sub_balance_step env a (t, n) c = Inr c'"
  shows "contract_ok env c' \<and> contract_gap c' u = contract_gap c u + (if u = t then int n else 0) \<and>
    contract_balance_of c a t \<ge> n \<and>
    c' = set_balances env a (entry_write 0 t (amount_for (balances_of env a c) t - n) (balances_of env a c)) c"
proof -
  obtain b y where bal: "amounts_sub t n (balances_of env a c) = Some (b, y)" and c': "c' = set_balances env a b c"
    using assms(2) by (auto simp: sub_balance_step_def result_simps split: prod.splits)
  have "amounts_u128 b" using balances_u128 [OF assms(1)] bal by (rule amounts_u128_sub)
  then show ?thesis
    using bal assms(1)
    by (auto simp: c' set_balances_ok contract_gap_def set_balances_held amounts_sub_Some balances_of_amount)
qed

subsection \<open>Deposits and withdrawals keep the gap\<close>

lemma logs_laws [simp]:
  "contract_ok env (add_log e c) = contract_ok env c" "contract_gap (add_log e c) = contract_gap c"
  "contract_ok env (detach p c) = contract_ok env c" "contract_gap (detach p c) = contract_gap c"
  "contract_ok env (c\<lparr>c_postponed_burns := bs\<rparr>) = contract_ok env c"
  "contract_gap (c\<lparr>c_postponed_burns := bs\<rparr>) = contract_gap c"
  by (simp_all add: contract_ok_def contract_gap_def held_def add_log_def detach_def fun_eq_iff)

lemma emit_checked_Inr: "emit_checked env e c = Inr c' \<longleftrightarrow> check_refund (h_log_len env) e \<and> c' = add_log (LMt e) c"
  by (auto simp: emit_checked_def result_simps)

abbreviation keeps_gap :: "'p host \<Rightarrow> 'p contract \<Rightarrow> 'p contract \<Rightarrow> bool" where
  "keeps_gap env \<equiv> same_gap (contract_ok env) contract_gap"

lemma keeps_gap_refl [simp]: "keeps_gap env c c"
  by (simp add: same_gap_def)

lemma keeps_gap_trans: "keeps_gap env c d \<Longrightarrow> keeps_gap env d e \<Longrightarrow> keeps_gap env c e"
  by (simp add: same_gap_def)

lemma fold_deposit_gap: "fold_r (deposit_step env a) ts c = Inr c' \<Longrightarrow> keeps_gap env c c'"
  by (erule fold_r_rel [OF _ _ keeps_gap_refl keeps_gap_trans]) (auto simp: same_gap_def dest: deposit_step_spec)

lemma fold_withdraw_gap: "fold_r (withdraw_step env a) ts c = Inr c' \<Longrightarrow> keeps_gap env c c'"
  by (erule fold_r_rel [OF _ _ keeps_gap_refl keeps_gap_trans]) (auto simp: same_gap_def dest: withdraw_step_spec)

lemma deposit_gap: "keeps (keeps_gap env) (deposit env a ts memo)"
proof (rule keepsI)
  fix c c' assume "deposit env a ts memo c = Inr c'"
  then obtain c1 where f: "fold_r (deposit_step env a) ts (fst (get_or_create env a c)) = Inr c1"
    and c': "c' = c1 \<or> (\<exists>e. c' = add_log e c1)"
    by (auto simp: deposit_def result_simps emit_checked_Inr split: if_splits)
  from fold_deposit_gap [OF f] c' show "keeps_gap env c c'"
    by (auto simp: same_gap_def get_or_create_ok)
qed

lemma withdraw_gap: "keeps (keeps_gap env) (withdraw env a ts memo force)"
proof (rule keepsI)
  fix c c' assume "withdraw env a ts memo force c = Inr c'"
  then obtain c1 where f: "fold_r (withdraw_step env a) ts c = Inr c1"
    and c': "c' = c1 \<or> (\<exists>bs. c' = c1\<lparr>c_postponed_burns := bs\<rparr>)"
    by (auto simp: withdraw_def result_simps split: if_splits)
  from fold_withdraw_gap [OF f] c' show "keeps_gap env c c'" by (auto simp: same_gap_def)
qed

lemmas deposit_gapD = deposit_gap [THEN keepsD] and withdraw_gapD = withdraw_gap [THEN keepsD]

text \<open>Everything the withdrawals do besides withdrawing is to schedule a promise.\<close>

lemma internal_ft_withdraw_Inr:
  "internal_ft_withdraw env a w force c = Inr (c', p) \<Longrightarrow>
     withdraw env a ((Nep141 (fw_token w), fw_amount w) # wnear_deposit c (fw_storage_deposit w)) (Some ''withdraw'') force c = Inr c'"
  by (auto simp: internal_ft_withdraw_def result_simps)

lemma internal_nft_withdraw_Inr:
  "internal_nft_withdraw env a w force c = Inr (c', p) \<Longrightarrow>
     withdraw env a ((Nep171 (nw_token w) (nw_token_id w), 1) # wnear_deposit c (nw_storage_deposit w)) (Some ''withdraw'') force c = Inr c'"
  by (auto simp: internal_nft_withdraw_def result_simps)

lemma internal_mt_withdraw_Inr:
  "internal_mt_withdraw env a w force c = Inr (c', p) \<Longrightarrow>
     withdraw env a (zip (map (Nep245 (mw_token w)) (mw_token_ids w)) (mw_amounts w) @ wnear_deposit c (mw_storage_deposit w))
       (Some ''withdraw'') force c = Inr c'"
  by (auto simp: internal_mt_withdraw_def result_simps)

lemmas internal_withdraw_Inr = internal_ft_withdraw_Inr internal_nft_withdraw_Inr internal_mt_withdraw_Inr

lemma detached_Inr: "detached r = Inr c' \<longleftrightarrow> (\<exists>c p. r = Inr (c, p) \<and> c' = detach p c)"
  by (auto simp: detached_def result_simps split: prod.splits)

lemma wnear_withdraw_then_Inr:
  "wnear_withdraw_then env a n f c = Inr c' \<Longrightarrow>
     \<exists>c1 p. withdraw env a [(Nep141 (c_wnear_id c), n)] (Some ''withdraw'') False c = Inr c1 \<and> c' = detach p c1"
  by (auto simp: wnear_withdraw_then_def result_simps)

subsection \<open>Writing keys, nonces and flags\<close>

text \<open>The operations that write one account through its lock, brought to one form: the entry of
  the account, real or fresh, gets a new content.\<close>

lemma put_inner_get_or_create [simp]:
  "put_inner a l x (fst (get_or_create env a c)) = put_inner a l x c"
  by (simp add: get_or_create_def Let_def put_inner_def put_account_def update_Some_unfold)

lemma get_or_create_split: "get_or_create env a c = (fst (get_or_create env a c), account_or_new env a c)"
  by (simp add: get_or_create_def Let_def)

lemma unlocked_account_Inr: "unlocked_account a l = Inr x \<longleftrightarrow> x = lk_value l \<and> \<not> lk_locked l"
  by (auto simp: unlocked_account_def result_simps lock_get_Some)

lemma add_public_key_Inr:
  "contract_add_public_key env a pk c = Inr c' \<longleftrightarrow> (let l = account_or_new env a c in \<not> lk_locked l \<and>
     snd (account_add_public_key (h_codecs env) a pk (lk_value l)) \<and>
     c' = put_inner a l (fst (account_add_public_key (h_codecs env) a pk (lk_value l))) c)"
  unfolding contract_add_public_key_def
  by (subst get_or_create_split) (auto simp: Let_def result_simps unlocked_account_Inr split: prod.splits)

lemma remove_public_key_Inr:
  "contract_remove_public_key env a pk c = Inr c' \<longleftrightarrow> (let l = account_or_new env a c in \<not> lk_locked l \<and>
     snd (account_remove_public_key (h_codecs env) a pk (lk_value l)) \<and>
     c' = put_inner a l (fst (account_remove_public_key (h_codecs env) a pk (lk_value l))) c)"
  unfolding contract_remove_public_key_def
  by (subst get_or_create_split) (auto simp: Let_def result_simps unlocked_account_Inr split: prod.splits)

lemma commit_nonce_Inr:
  "contract_commit_nonce env a n c = Inr c' \<longleftrightarrow> (let l = account_or_new env a c in \<not> lk_locked l \<and>
     (\<exists>x. account_commit_nonce n (lk_value l) = Inr x \<and> c' = put_inner a l x c))"
  unfolding contract_commit_nonce_def
  by (subst get_or_create_split) (auto simp: Let_def result_simps unlocked_account_Inr)

lemma set_auth_on_Inr:
  "set_auth_on a enable force (c, l) = Inr (c', b) \<longleftrightarrow> (force \<or> \<not> lk_locked l) \<and>
     b = snd (account_set_auth enable (lk_value l)) \<and> c' = put_inner a l (fst (account_set_auth enable (lk_value l))) c"
  by (auto simp: set_auth_on_def result_simps get_mut_maybe_forced_Some split: prod.splits)

lemma internal_set_auth_Inr:
  assumes "internal_set_auth env a enable force c = Inr (c', b)"
  obtains (absent) "enable" "map_of (c_accounts c) a = None" "c' = c"
    | (stored) "force \<or> \<not> lk_locked (account_or_new env a c)"
      "c' = put_inner a (account_or_new env a c) (fst (account_set_auth enable (lk_value (account_or_new env a c)))) c"
proof (cases "enable \<and> map_of (c_accounts c) a = None")
  case True
  show ?thesis by (rule absent) (use assms True in \<open>auto simp: internal_set_auth_def\<close>)
next
  case False
  then have "set_auth_on a enable force (if enable then c else fst (get_or_create env a c), account_or_new env a c) = Inr (c', b)"
    using assms get_or_create_split [of env a c] by (auto simp: internal_set_auth_def split: if_splits)
  then show ?thesis by (intro stored) (auto simp: set_auth_on_Inr split: if_splits)
qed

lemma account_ops_balances [simp]:
  "ac_token_balances (fst (account_add_public_key C a pk x)) = ac_token_balances x"
  "ac_token_balances (fst (account_remove_public_key C a pk x)) = ac_token_balances x"
  "ac_token_balances (fst (account_set_auth b x)) = ac_token_balances x"
  by (simp_all add: account_add_public_key_def account_remove_public_key_def account_set_auth_def Let_def
      set_implicit_public_key_removed_def split: prod.splits)

lemma commit_nonce_balances: "account_commit_nonce n x = Inr y \<Longrightarrow> ac_token_balances y = ac_token_balances x"
  by (auto simp: account_commit_nonce_def result_simps)

lemma put_inner_keeps_gap:
  assumes "ac_token_balances x = ac_token_balances (lk_value (account_or_new env a c))"
    and "contract_ok env c \<Longrightarrow> account_ok (h_codecs env) a x"
  shows "keeps_gap env c (put_inner a l x c)"
  using assms by (simp add: same_gap_def put_inner_ok put_inner_gap [of _ env] balances_of_def)

lemma key_ops_gap:
  "keeps (keeps_gap env) (contract_add_public_key env a pk)"
  "keeps (keeps_gap env) (contract_remove_public_key env a pk)"
  "keeps_b (keeps_gap env) (internal_set_auth env a enable force)"
proof -
  show "keeps (keeps_gap env) (contract_add_public_key env a pk)"
    by (rule keepsI) (auto simp: add_public_key_Inr Let_def intro!: put_inner_keeps_gap add_public_key_ok account_or_new_ok)
  show "keeps (keeps_gap env) (contract_remove_public_key env a pk)"
    by (rule keepsI) (auto simp: remove_public_key_Inr Let_def intro!: put_inner_keeps_gap remove_public_key_ok account_or_new_ok)
  show "keeps_b (keeps_gap env) (internal_set_auth env a enable force)"
    by (rule keeps_bI, erule internal_set_auth_Inr)
      (auto intro!: put_inner_keeps_gap set_auth_ok account_or_new_ok)
qed

lemma commit_nonce_gap:
  assumes "u256_ok n"
  shows "keeps (keeps_gap env) (contract_commit_nonce env a n)"
proof (rule keepsI)
  fix c c' assume "contract_commit_nonce env a n c = Inr c'"
  then obtain x where x: "account_commit_nonce n (lk_value (account_or_new env a c)) = Inr x"
    and c': "c' = put_inner a (account_or_new env a c) x c"
    by (auto simp: commit_nonce_Inr Let_def)
  show "keeps_gap env c c'"
    unfolding c'
    by (rule put_inner_keeps_gap [OF commit_nonce_balances [OF x]])
      (rule commit_nonce_ok [OF account_or_new_ok assms x])
qed

lemma promise_ops_gap:
  "keeps (keeps_gap env) (\<lambda>c. detached (internal_ft_withdraw env a fw force c))"
  "keeps (keeps_gap env) (\<lambda>c. detached (internal_nft_withdraw env a nw force c))"
  "keeps (keeps_gap env) (\<lambda>c. detached (internal_mt_withdraw env a mw force c))"
  "keeps (keeps_gap env) (contract_native_withdraw env a vw)"
  "keeps (keeps_gap env) (contract_storage_deposit env a sd)"
  "keeps (keeps_gap env) (contract_auth_call env a ac)"
  "keeps (keeps_gap env) (contract_notify_on_transfer env a r ts nt)"
  unfolding contract_native_withdraw_def contract_storage_deposit_def
  by (rule keepsI; auto simp: detached_Inr contract_auth_call_def contract_notify_on_transfer_def result_simps same_gap_def
      dest!: internal_withdraw_Inr wnear_withdraw_then_Inr withdraw_gapD split: if_splits)+

text \<open>The contract is a ledger.\<close>

lemma add_balance_gap:
  assumes "contract_ok env c" and "contract_add_balance env a [(t, n)] c = Inr c'"
  shows "contract_ok env c' \<and> contract_gap c' u = contract_gap c u - (if u = t then int n else 0)"
proof -
  have "add_balance_step env a (t, n) (fst (get_or_create env a c)) = Inr c'"
    using assms(2) by (auto simp: contract_add_balance_def result_simps)
  from add_balance_step_spec [OF get_or_create_ok [OF assms(1)] this, of u] show ?thesis
    unfolding get_or_create_gap by blast
qed

lemma sub_balance_gap:
  assumes "contract_ok env c" and "contract_sub_balance env a [(t, n)] c = Inr c'"
  shows "contract_ok env c' \<and> contract_gap c' u = contract_gap c u + (if u = t then int n else 0)"
proof -
  have "sub_balance_step env a (t, n) c = Inr c'"
    using assms(2) by (auto simp: contract_sub_balance_def result_simps)
  from sub_balance_step_spec [OF assms(1) this, of u] show ?thesis by blast
qed

interpretation contract_ledger: ledger "contract_ops env" "contract_ok env" contract_gap for env :: "'p host"
proof
  fix s s' :: "'p contract" and a t n u
  assume ok: "contract_ok env s"
  show "so_internal_add_balance (contract_ops env) a [(t, n)] s = Inr s' \<Longrightarrow>
      contract_ok env s' \<and> contract_gap s' u = contract_gap s u - (if u = t then int n else 0)"
    using add_balance_gap [OF ok] by (simp add: contract_ops_def)
  show "so_internal_sub_balance (contract_ops env) a [(t, n)] s = Inr s' \<Longrightarrow>
      contract_ok env s' \<and> contract_gap s' u = contract_gap s u + (if u = t then int n else 0)"
    using sub_balance_gap [OF ok] by (simp add: contract_ops_def)
next
  show "frame_laws ((contract_ops env)\<lparr>so_internal_add_balance := \<lambda>_ _ _. Inl InvalidIntent,
        so_internal_sub_balance := \<lambda>_ _ _. Inl InvalidIntent\<rparr>) (\<lambda>_. True) (keeps_gap env)"
    unfolding frame_laws_def contract_ops_def
    by (simp add: key_ops_gap commit_nonce_gap promise_ops_gap deposit_gap withdraw_gap) (simp add: keeps_def)
qed

subsection \<open>Accounts that did not sign\<close>

text \<open>An entry after an operation that may only raise balances.\<close>

definition deposits_only :: "account lock \<Rightarrow> account lock \<Rightarrow> bool" where
  "deposits_only l l' \<longleftrightarrow> (\<exists>m. l' = write_inner ((lk_value l)\<lparr>ac_token_balances := m\<rparr>) l \<and>
     (\<forall>t. lock_balance t l \<le> amount_for m t))"

text \<open>
  The relation between the states before and after operations on behalf of the signers in \<open>A\<close>:
  locks stay as they are, used nonces stay used, and the entry of an account that is not a
  signer, or is locked, gains deposits at most.
\<close>

definition entry_rel :: "bool \<Rightarrow> account lock \<Rightarrow> account lock \<Rightarrow> bool" where
  "entry_rel signer l l' \<longleftrightarrow> lk_locked l' = lk_locked l \<and>
     (\<forall>n. u256_ok n \<longrightarrow> account_is_nonce_used (lk_value l) n \<longrightarrow> account_is_nonce_used (lk_value l') n) \<and>
     (\<not> signer \<or> lk_locked l \<longrightarrow> deposits_only l l')"

definition frame_rel :: "'p host \<Rightarrow> (account_id \<Rightarrow> bool) \<Rightarrow> 'p contract \<Rightarrow> 'p contract \<Rightarrow> bool" where
  "frame_rel env A c c' \<longleftrightarrow> (contract_ok env c \<longrightarrow> contract_ok env c' \<and>
     (\<forall>a. entry_rel (A a) (account_or_new env a c) (account_or_new env a c')))"

lemma deposits_onlyI:
  "(\<And>t. amount_for (ac_token_balances (lk_value l)) t \<le> amount_for m t) \<Longrightarrow>
     deposits_only l (write_inner ((lk_value l)\<lparr>ac_token_balances := m\<rparr>) l)"
  unfolding deposits_only_def lock_balance_def by blast

lemma deposits_only_refl [simp]: "deposits_only l l"
  unfolding deposits_only_def
  by (rule exI [of _ "ac_token_balances (lk_value l)"]) (cases l, simp add: lock_balance_def write_inner_def)

lemma deposits_only_trans:
  assumes "deposits_only l m" and "deposits_only m n"
  shows "deposits_only l n"
proof -
  obtain p where m: "m = write_inner ((lk_value l)\<lparr>ac_token_balances := p\<rparr>) l" and p: "\<And>t. lock_balance t l \<le> amount_for p t"
    using assms(1) unfolding deposits_only_def by blast
  obtain q where n: "n = write_inner ((lk_value m)\<lparr>ac_token_balances := q\<rparr>) m" and q: "\<And>t. lock_balance t m \<le> amount_for q t"
    using assms(2) unfolding deposits_only_def by blast
  have "lock_balance t l \<le> amount_for q t" for t
    using p [of t] q [of t] by (simp add: m lock_balance_def)
  moreover have "n = write_inner ((lk_value l)\<lparr>ac_token_balances := q\<rparr>) l" by (simp add: n m)
  ultimately show ?thesis unfolding deposits_only_def by blast
qed

lemma entry_rel_refl [simp]: "entry_rel s l l"
  by (simp add: entry_rel_def)

lemma entry_rel_trans: "entry_rel s l m \<Longrightarrow> entry_rel s m n \<Longrightarrow> entry_rel s l n"
  unfolding entry_rel_def using deposits_only_trans by blast

lemma frame_rel_refl [simp]: "frame_rel env A c c"
  by (simp add: frame_rel_def)

lemma frame_rel_trans: "frame_rel env A c d \<Longrightarrow> frame_rel env A d e \<Longrightarrow> frame_rel env A c e"
  unfolding frame_rel_def using entry_rel_trans by blast

lemma deposits_only_entry: "deposits_only l l' \<Longrightarrow> entry_rel s l l'"
  by (auto simp: entry_rel_def deposits_only_def account_is_nonce_used_def)

lemma account_or_new_put_inner [simp]:
  "account_or_new env b (put_inner a l x c) = (if b = a then write_inner x l else account_or_new env b c)"
  by (simp add: put_inner_def)

lemma account_or_new_irrelevant [simp]:
  "account_or_new env a (c\<lparr>c_total_supplies := m\<rparr>) = account_or_new env a c"
  "account_or_new env a (c\<lparr>c_postponed_burns := bs\<rparr>) = account_or_new env a c"
  "account_or_new env a (add_log e c) = account_or_new env a c"
  "account_or_new env a (detach p c) = account_or_new env a c"
  "account_or_new env a (fst (get_or_create env b c)) = account_or_new env a c"
  by (auto simp: account_or_new_def add_log_def detach_def get_or_create_def Let_def put_account_def)

lemma account_or_new_set_balances [simp]:
  "account_or_new env b (set_balances env a m c) =
     (if b = a then write_inner ((lk_value (account_or_new env a c))\<lparr>ac_token_balances := m\<rparr>) (account_or_new env a c)
      else account_or_new env b c)"
  by (simp add: set_balances_def Let_def)

text \<open>Raising a balance is always allowed; lowering one needs an unlocked signer.\<close>

lemma set_balances_raise:
  "(\<And>t. amount_for (balances_of env a c) t \<le> amount_for m t) \<Longrightarrow>
     entry_rel s (account_or_new env b c) (account_or_new env b (set_balances env a m c))"
  by (cases "b = a") (auto intro!: deposits_only_entry deposits_onlyI simp: balances_of_def)

lemma add_balance_step_frame: "add_balance_step env a p c = Inr c' \<Longrightarrow> frame_rel env A c c'"
proof (cases p)
  case (Pair t n)
  assume "add_balance_step env a p c = Inr c'"
  note s = add_balance_step_spec [OF _ this [unfolded Pair]]
  show ?thesis
    unfolding frame_rel_def
  proof (intro impI conjI allI)
    assume ok: "contract_ok env c"
    show "contract_ok env c'" using s [OF ok] by blast
    obtain m where c': "c' = set_balances env a m c" and m: "\<And>t. amount_for (balances_of env a c) t \<le> amount_for m t"
      using s [OF ok] by force
    fix b show "entry_rel (A b) (account_or_new env b c) (account_or_new env b c')"
      unfolding c' by (rule set_balances_raise [OF m])
  qed
qed

lemma deposit_step_frame: "deposit_step env a p c = Inr c' \<Longrightarrow> frame_rel env A c c'"
proof (cases p)
  case (Pair t n)
  assume "deposit_step env a p c = Inr c'"
  note s = deposit_step_spec [OF _ this [unfolded Pair]]
  show ?thesis
    unfolding frame_rel_def
  proof (intro impI conjI allI)
    assume ok: "contract_ok env c"
    show "contract_ok env c'" using s [OF ok] by blast
    obtain m sup where c': "c' = set_balances env a m (c\<lparr>c_total_supplies := sup\<rparr>)"
      and m: "\<And>t. amount_for (balances_of env a (c\<lparr>c_total_supplies := sup\<rparr>)) t \<le> amount_for m t"
      using s [OF ok] by force
    fix b show "entry_rel (A b) (account_or_new env b c) (account_or_new env b c')"
      using set_balances_raise [OF m, of "A b" b] by (simp add: c')
  qed
qed

definition free_signer :: "'p host \<Rightarrow> (account_id \<Rightarrow> bool) \<Rightarrow> account_id \<Rightarrow> 'p contract \<Rightarrow> bool" where
  "free_signer env A a c \<longleftrightarrow> A a \<and> \<not> lk_locked (account_or_new env a c)"

lemma entry_rel_signer:
  "\<not> lk_locked l \<Longrightarrow> lk_locked l' = lk_locked l \<Longrightarrow> ac_nonces (lk_value l') = ac_nonces (lk_value l) \<Longrightarrow> entry_rel True l l'"
  by (simp add: entry_rel_def account_is_nonce_used_def)

lemma set_balances_signer:
  assumes "free_signer env A a c"
  shows "entry_rel (A b) (account_or_new env b c) (account_or_new env b (set_balances env a m c))"
    and "free_signer env A a (set_balances env a m c)"
  using assms by (auto simp: free_signer_def intro!: entry_rel_signer)

lemma free_signer_supplies [simp]: "free_signer env A a (c\<lparr>c_total_supplies := m\<rparr>) = free_signer env A a c"
  by (simp add: free_signer_def)

lemma sub_balance_step_frame:
  assumes "sub_balance_step env a p c = Inr c'" and free: "free_signer env A a c" and ok: "contract_ok env c"
  shows "contract_ok env c' \<and> free_signer env A a c' \<and>
    (\<forall>b. entry_rel (A b) (account_or_new env b c) (account_or_new env b c'))"
proof -
  obtain t n where p: "p = (t, n)" by (cases p)
  have ok': "contract_ok env c'" and "\<exists>m. c' = set_balances env a m c"
    using sub_balance_step_spec [OF ok assms(1) [unfolded p]] by blast+
  then obtain m where c': "c' = set_balances env a m c" by blast
  show ?thesis
    using ok' set_balances_signer [OF free] unfolding c' by blast
qed

lemma withdraw_step_frame:
  assumes "withdraw_step env a p c = Inr c'" and free: "free_signer env A a c" and ok: "contract_ok env c"
  shows "contract_ok env c' \<and> free_signer env A a c' \<and>
    (\<forall>b. entry_rel (A b) (account_or_new env b c) (account_or_new env b c'))"
proof -
  obtain t n where p: "p = (t, n)" by (cases p)
  have ok': "contract_ok env c'" and "\<exists>m sup. c' = set_balances env a m (c\<lparr>c_total_supplies := sup\<rparr>)"
    using withdraw_step_spec [OF ok assms(1) [unfolded p]] by blast+
  then obtain m sup where c': "c' = set_balances env a m (c\<lparr>c_total_supplies := sup\<rparr>)" by blast
  have "free_signer env A a (c\<lparr>c_total_supplies := sup\<rparr>)" using free by simp
  from ok' set_balances_signer [OF this] show ?thesis
    unfolding c' account_or_new_irrelevant(1) by blast
qed

text \<open>A loop of such steps on an unlocked signer.\<close>

lemma fold_signer_frame:
  assumes "fold_r step ts c = Inr c'" and "free_signer env A a c"
    and step: "\<And>p d d'. step p d = Inr d' \<Longrightarrow> free_signer env A a d \<Longrightarrow> contract_ok env d \<Longrightarrow>
      contract_ok env d' \<and> free_signer env A a d' \<and>
      (\<forall>b. entry_rel (A b) (account_or_new env b d) (account_or_new env b d'))"
  shows "frame_rel env A c c'"
proof -
  let ?R = "\<lambda>d d'. contract_ok env d \<and> free_signer env A a d \<longrightarrow> contract_ok env d' \<and> free_signer env A a d' \<and>
      (\<forall>b. entry_rel (A b) (account_or_new env b d) (account_or_new env b d'))"
  have "?R c c'"
  proof (rule fold_r_rel [OF assms(1), where R = ?R])
    show "?R d d'" if "p \<in> set ts" "step p d = Inr d'" for p d d' using step [OF that(2)] by blast
    show "?R d d" for d by simp
    show "?R d f" if "?R d e" "?R e f" for d e f using that entry_rel_trans by blast
  qed
  then show ?thesis using assms(2) by (simp add: frame_rel_def)
qed

lemma sub_balance_frame: "A a \<Longrightarrow> keeps (frame_rel env A) (contract_sub_balance env a ts)"
proof (rule keepsI)
  fix c c' assume "A a" and "contract_sub_balance env a ts c = Inr c'"
  then have "free_signer env A a c" "fold_r (sub_balance_step env a) ts c = Inr c'"
    by (auto simp: contract_sub_balance_def result_simps unlocked_account_Inr free_signer_def)
  then show "frame_rel env A c c'" using fold_signer_frame sub_balance_step_frame by blast
qed

lemma frame_rel_later:
  "frame_rel env A c d \<Longrightarrow> contract_ok env e = contract_ok env d \<Longrightarrow>
    (\<And>a. account_or_new env a e = account_or_new env a d) \<Longrightarrow> frame_rel env A c e"
  by (simp add: frame_rel_def)

lemma withdraw_frame: "A a \<Longrightarrow> keeps (frame_rel env A) (withdraw env a ts memo False)"
proof (rule keepsI)
  fix c c' assume A: "A a" and w: "withdraw env a ts memo False c = Inr c'"
  then obtain d where free: "free_signer env A a c" and f: "fold_r (withdraw_step env a) ts c = Inr d"
    and c': "c' = d \<or> (\<exists>bs. c' = d\<lparr>c_postponed_burns := bs\<rparr>)"
    by (auto simp: withdraw_def result_simps get_mut_maybe_forced_Some free_signer_def split: if_splits)
  have "frame_rel env A c d" using fold_signer_frame [OF f free] withdraw_step_frame by blast
  then show "frame_rel env A c c'" using c' by (auto intro: frame_rel_later)
qed

lemma get_or_create_frame: "frame_rel env A (fst (get_or_create env a c)) c' \<Longrightarrow> frame_rel env A c c'"
  by (simp add: frame_rel_def get_or_create_ok)

lemma add_balance_frame: "keeps (frame_rel env A) (contract_add_balance env a ts)"
  unfolding contract_add_balance_def
  by (rule keepsI, rule get_or_create_frame, erule fold_r_rel [OF _ _ frame_rel_refl frame_rel_trans])
    (rule add_balance_step_frame)

lemma deposit_frame: "keeps (frame_rel env A) (deposit env a ts memo)"
proof (rule keepsI)
  fix c c' assume "deposit env a ts memo c = Inr c'"
  then obtain d where f: "fold_r (deposit_step env a) ts (fst (get_or_create env a c)) = Inr d"
    and c': "c' = d \<or> (\<exists>e. c' = add_log e d)"
    by (auto simp: deposit_def result_simps emit_checked_Inr split: if_splits)
  have "frame_rel env A (fst (get_or_create env a c)) d"
    using f by (rule fold_r_rel [OF _ _ frame_rel_refl frame_rel_trans]) (rule deposit_step_frame)
  then have "frame_rel env A c d" by (rule get_or_create_frame)
  then show "frame_rel env A c c'" using c' by (auto intro: frame_rel_later)
qed

lemma put_inner_frame:
  assumes "free_signer env A a c" and "contract_ok env c \<Longrightarrow> account_ok (h_codecs env) a x"
    and "\<And>n. contract_ok env c \<Longrightarrow> u256_ok n \<Longrightarrow> account_is_nonce_used (lk_value (account_or_new env a c)) n \<Longrightarrow> account_is_nonce_used x n"
  shows "frame_rel env A c (put_inner a (account_or_new env a c) x c)"
  using assms by (auto simp: frame_rel_def put_inner_ok entry_rel_def free_signer_def)

lemma account_ops_nonces [simp]:
  "account_is_nonce_used (fst (account_add_public_key C a pk x)) n = account_is_nonce_used x n"
  "account_is_nonce_used (fst (account_remove_public_key C a pk x)) n = account_is_nonce_used x n"
  "account_is_nonce_used (fst (account_set_auth b x)) n = account_is_nonce_used x n"
  by (simp_all add: account_is_nonce_used_def account_add_public_key_def account_remove_public_key_def account_set_auth_def
      Let_def set_implicit_public_key_removed_def split: prod.splits)

lemma commit_nonce_used:
  assumes "account_ok C a x" and "u256_ok n" and "u256_ok n'" and "account_commit_nonce n x = Inr y"
  shows "account_is_nonce_used y n' \<longleftrightarrow> n' = n \<or> account_is_nonce_used x n'"
  using assms account_nonces.used_commit [of "ac_nonces x" n n']
  by (auto simp: account_commit_nonce_def account_is_nonce_used_def account_ok_def result_simps)

lemma key_ops_frame:
  "A a \<Longrightarrow> keeps (frame_rel env A) (contract_add_public_key env a pk)"
  "A a \<Longrightarrow> keeps (frame_rel env A) (contract_remove_public_key env a pk)"
  "A a \<Longrightarrow> keeps_b (frame_rel env A) (internal_set_auth env a enable False)"
proof -
  assume A: "A a"
  show "keeps (frame_rel env A) (contract_add_public_key env a pk)"
    using A by (intro keepsI)
      (auto simp: add_public_key_Inr Let_def free_signer_def intro!: put_inner_frame add_public_key_ok account_or_new_ok)
  show "keeps (frame_rel env A) (contract_remove_public_key env a pk)"
    using A by (intro keepsI)
      (auto simp: remove_public_key_Inr Let_def free_signer_def intro!: put_inner_frame remove_public_key_ok account_or_new_ok)
  show "keeps_b (frame_rel env A) (internal_set_auth env a enable False)"
    using A by (intro keeps_bI, elim internal_set_auth_Inr)
      (auto simp: free_signer_def intro!: put_inner_frame set_auth_ok account_or_new_ok)
qed

lemma commit_nonce_frame:
  assumes "A a" and n: "u256_ok n"
  shows "keeps (frame_rel env A) (contract_commit_nonce env a n)"
proof (rule keepsI)
  fix c c' assume "contract_commit_nonce env a n c = Inr c'"
  then obtain x where free: "free_signer env A a c"
    and x: "account_commit_nonce n (lk_value (account_or_new env a c)) = Inr x"
    and c': "c' = put_inner a (account_or_new env a c) x c"
    using assms(1) by (auto simp: commit_nonce_Inr Let_def free_signer_def)
  show "frame_rel env A c c'"
    unfolding c'
    by (rule put_inner_frame [OF free])
      (use account_or_new_ok commit_nonce_ok [OF _ n x] commit_nonce_used [OF _ n _ x] in blast)+
qed

lemma frame_rel_detach [simp]: "frame_rel env A c (detach p d) = frame_rel env A c d"
  by (simp add: frame_rel_def)

lemma withdraw_frameD: "withdraw env a ts memo False c = Inr c' \<Longrightarrow> A a \<Longrightarrow> frame_rel env A c c'"
  using withdraw_frame by (rule keepsD)

lemma wnear_withdraw_then_frame: "wnear_withdraw_then env a n f c = Inr c' \<Longrightarrow> A a \<Longrightarrow> frame_rel env A c c'"
  by (drule wnear_withdraw_then_Inr) (use withdraw_frameD in fastforce)

lemma promise_ops_frame:
  "A a \<Longrightarrow> keeps (frame_rel env A) (\<lambda>c. detached (internal_ft_withdraw env a fw False c))"
  "A a \<Longrightarrow> keeps (frame_rel env A) (\<lambda>c. detached (internal_nft_withdraw env a nw False c))"
  "A a \<Longrightarrow> keeps (frame_rel env A) (\<lambda>c. detached (internal_mt_withdraw env a mw False c))"
  "A a \<Longrightarrow> keeps (frame_rel env A) (contract_native_withdraw env a vw)"
  "A a \<Longrightarrow> keeps (frame_rel env A) (contract_storage_deposit env a sd)"
  "A a \<Longrightarrow> keeps (frame_rel env A) (contract_auth_call env a ac)"
  "keeps (frame_rel env A) (contract_notify_on_transfer env a r ts nt)"
  unfolding contract_native_withdraw_def contract_storage_deposit_def
  by (rule keepsI; auto simp: detached_Inr contract_auth_call_def contract_notify_on_transfer_def result_simps
      dest!: internal_withdraw_Inr intro: withdraw_frameD wnear_withdraw_then_frame split: if_splits)+

text \<open>What a batch of intents does to the accounts, whoever signed it.\<close>

lemma contract_frame_laws: "frame_laws (contract_ops env) A (frame_rel env A)"
  unfolding frame_laws_def contract_ops_def
  by (simp add: key_ops_frame commit_nonce_frame promise_ops_frame deposit_frame withdraw_frame add_balance_frame sub_balance_frame)

interpretation contract_frame: engine_frame "contract_ops env" A "frame_rel env A"
  for env :: "'p host" and A :: "account_id \<Rightarrow> bool"
  by unfold_locales (simp_all add: contract_frame_laws, rule frame_rel_trans)

subsection \<open>Reading an account\<close>

text \<open>
  What the crate of account ids and the derivation of implicit ids promise together: an id
  derived from a key is an implicit account id.
\<close>

definition types_ok :: "'p host \<Rightarrow> bool" where
  "types_ok env \<longleftrightarrow>
     (\<forall>pk. has_implicit_public_key (h_account_type env (to_implicit_account_id (h_codecs env) pk)))"

lemma views_alt:
  "contract_is_nonce_used c a n = account_is_nonce_used (lk_value (account_or_new env a c)) n"
  "contract_is_account_locked c a = lk_locked (account_or_new env a c)"
  "contract_is_auth_enabled c a = account_auth_enabled (lk_value (account_or_new env a c))"
  by (auto simp: contract_is_nonce_used_def contract_is_account_locked_def contract_is_auth_enabled_def
      account_or_new_def account_new_def account_is_nonce_used_def ml_is_used_def ml_new_def nonces_is_used_def b256_get_def
      legacy_used_def account_auth_enabled_def flags_contains_bit flag_bits lock_defs split: option.splits)

lemma has_public_key_alt:
  "types_ok env \<Longrightarrow> contract_has_public_key env c a k =
     account_has_public_key (h_codecs env) a k (lk_value (account_or_new env a c))"
  by (auto simp: contract_has_public_key_def account_or_new_def account_new_def account_has_public_key_def
      is_implicit_public_key_removed_def flags_contains_bit flag_bits types_ok_def lock_defs split: option.splits)

lemma deposits_only_views:
  assumes "types_ok env" and "deposits_only (account_or_new env a c) (account_or_new env a c')"
  shows "contract_balance_of c a t \<le> contract_balance_of c' a t \<and>
    contract_has_public_key env c' a k = contract_has_public_key env c a k \<and>
    contract_is_nonce_used c' a n = contract_is_nonce_used c a n \<and>
    contract_is_auth_enabled c' a = contract_is_auth_enabled c a"
  using assms(2)
  by (auto simp: deposits_only_def contract_balance_alt [of _ _ _ env] has_public_key_alt [OF assms(1)] views_alt(1) [of _ _ _ env] views_alt(2,3) [of _ _ env] lock_balance_def
      account_has_public_key_def is_implicit_public_key_removed_def account_is_nonce_used_def account_auth_enabled_def)

subsection \<open>The fresh contract\<close>

lemma contract_new_ok: "contract_ok env (contract_new env wnear protocol_fee collector)"
  by (simp add: contract_ok_def contract_new_def accounts_ok_def supplies_ok_def amounts_u128_def salts_new_ok
      amount_for_def entry_read_def)

lemma contract_new_gap: "contract_gap (contract_new env wnear protocol_fee collector) t = 0"
  by (simp add: contract_gap_def contract_new_def held_def amount_for_def entry_read_def)

end
