(* ===== verification/ExecuteIntents.thy ===== *)
theory ExecuteIntents
  imports ContractLaws
begin

text \<open>
  The entry point \<open>execute_intents\<close> (\<open>contract/intents/mod.rs\<close>, \<open>execute.rs\<close>) and what the
  contract guarantees for a batch of signed intents: tokens are conserved, nobody but an
  unlocked signer loses anything, every intent was authorized, and none is executed twice.
\<close>

subsection \<open>The entry point\<close>

text \<open>The inspector keeps the events it emits; its \<open>Drop\<close> adds the list of executed intents. The
  order between these events and those of the token standard is not modelled.\<close>

record execute_inspector =
  ei_emitted :: "defuse_event list"
  ei_intents_executed :: "nonce account_event list"

definition ei_new :: execute_inspector where
  "ei_new = \<lparr> ei_emitted = [], ei_intents_executed = [] \<rparr>"

definition execute_inspector_ops :: "execute_inspector inspector_ops" where
  "execute_inspector_ops = \<lparr>
     io_on_deadline = (\<lambda>_ i. i),
     io_on_event = (\<lambda>e i. i\<lparr>ei_emitted := ei_emitted i @ [e]\<rparr>),
     io_on_intent_executed = (\<lambda>signer h n i.
       i\<lparr>ei_intents_executed := ei_intents_executed i @ [intent_event h signer n]\<rparr>) \<rparr>"

definition ei_drop :: "execute_inspector \<Rightarrow> defuse_event list" where
  "ei_drop i = ei_emitted i @
     (if ei_intents_executed i \<noteq> [] then [EIntentsExecuted (ei_intents_executed i)] else [])"

definition add_logs :: "log_entry list \<Rightarrow> 'p contract \<Rightarrow> 'p contract" where
  "add_logs es c = c\<lparr>c_logs := c_logs c @ es\<rparr>"

definition not_paused :: "'p host \<Rightarrow> string \<Rightarrow> unit result" where
  "not_paused env feature = require_r (\<not> h_paused env feature) (Panicked ''Pausable: Method is paused'')"

definition execute_intents :: "'p host \<Rightarrow> 'p list \<Rightarrow> 'p contract \<Rightarrow> 'p contract result" where
  "execute_intents env payloads c =
     bind_r (not_paused env ''intents'') (\<lambda>_.
     bind_r (execute_signed_intents (h_engine env) (contract_ops env) execute_inspector_ops payloads (c, ei_new)) (\<lambda>(T, c1, i).
     let c2 = add_logs (map LDefuse (ei_drop i)) c1 in
     case as_mt_event T of
       None \<Rightarrow> Inr c2
     | Some e \<Rightarrow> emit_checked env e c2))"

text \<open>The nonces of signed payloads have 32 bytes.\<close>

definition payloads_ok :: "'p host \<Rightarrow> bool" where
  "payloads_ok env \<longleftrightarrow> (\<forall>x p. ev_extract (h_engine env) x = Inr p \<longrightarrow> u256_ok (dp_nonce p))"

lemma execute_intents_Inr:
  assumes "execute_intents env xs c = Inr c'"
  obtains T c1 i es where
    "execute_signed_intents (h_engine env) (contract_ops env) execute_inspector_ops xs (c, ei_new) = Inr (T, c1, i)"
    "c' = add_logs es c1"
proof -
  obtain T c1 i where run: "execute_signed_intents (h_engine env) (contract_ops env) execute_inspector_ops xs (c, ei_new) = Inr (T, c1, i)"
    and rest: "(case as_mt_event T of None \<Rightarrow> Inr (add_logs (map LDefuse (ei_drop i)) c1)
       | Some e \<Rightarrow> emit_checked env e (add_logs (map LDefuse (ei_drop i)) c1)) = Inr c'"
    using assms by (auto simp: execute_intents_def result_simps Let_def split: prod.splits)
  have "\<exists>es. c' = add_logs es c1"
    using rest by (auto simp: emit_checked_Inr add_log_def add_logs_def split: option.splits)
  with run that show ?thesis by blast
qed

lemma add_logs_laws [simp]:
  "contract_ok env (add_logs es c) = contract_ok env c"
  "contract_gap (add_logs es c) = contract_gap c"
  "account_or_new env a (add_logs es c) = account_or_new env a c"
  "c_total_supplies (add_logs es c) = c_total_supplies c"
  "held (add_logs es c) t = held c t"
  "c_accounts (add_logs es c) = c_accounts c"
  "c_salts (add_logs es c) = c_salts c"
  by (simp_all add: contract_ok_def contract_gap_def held_def add_logs_def account_or_new_def fun_eq_iff)

subsection \<open>Conservation\<close>

text \<open>All tokens of the recorded supply are held by accounts of the contract.\<close>

definition backed :: "'p contract \<Rightarrow> bool" where
  "backed c \<longleftrightarrow> (\<forall>t. amount_for (c_total_supplies c) t = held c t)"

lemma backed_gap: "backed c \<longleftrightarrow> (\<forall>t. contract_gap c t = 0)"
  by (auto simp: backed_def contract_gap_def)

lemma execute_intents_gap:
  assumes "execute_intents env xs c = Inr c'" and "contract_ok env c" and "payloads_ok env"
  shows "contract_ok env c' \<and> contract_gap c' = contract_gap c"
proof -
  obtain T c1 i es where
    run: "execute_signed_intents (h_engine env) (contract_ops env) execute_inspector_ops xs (c, ei_new) = Inr (T, c1, i)"
    and c': "c' = add_logs es c1"
    using assms(1) by (rule execute_intents_Inr)
  have "contract_ok env c1 \<and> contract_gap c1 t = contract_gap c t" for t
    using run assms(2) by (rule contract_ledger.batch_keeps_gap) (use assms(3) in \<open>auto simp: payloads_ok_def\<close>)
  then show ?thesis by (auto simp: c')
qed

text \<open>C1: executing a batch of signed intents conserves every token: if the supply of each
  token was held by the accounts before, it is so after, whatever the intents were (transfers,
  token diffs with fees, withdrawals, minting and burning), and the invariant of the state
  is kept.\<close>

theorem execute_intents_conserves:
  assumes "execute_intents env xs c = Inr c'" and "contract_ok env c" and "payloads_ok env" and "backed c"
  shows "contract_ok env c' \<and> backed c'"
  using execute_intents_gap [OF assms(1-3)] assms(4) by (simp add: backed_gap)

subsection \<open>Only unlocked signers lose anything\<close>

lemma contract_execute_frame:
  assumes "execute_intents env xs c = Inr c'" and "payloads_ok env"
    and "\<And>x p. x \<in> set xs \<Longrightarrow> ev_extract (h_engine env) x = Inr p \<Longrightarrow> A (dp_signer_id p)"
  shows "frame_rel env A c c'"
proof -
  obtain T c1 i es where
    run: "execute_signed_intents (h_engine env) (contract_ops env) execute_inspector_ops xs (c, ei_new) = Inr (T, c1, i)"
    and c': "c' = add_logs es c1"
    using assms(1) by (rule execute_intents_Inr)
  have "frame_rel env A c c1"
    by (rule execute_signed_intents_frame [OF contract_frame_laws frame_rel_refl frame_rel_trans run])
      (use assms(2,3) in \<open>auto simp: payloads_ok_def\<close>)
  then show ?thesis by (simp add: c' frame_rel_def)
qed

text \<open>C3: a batch touches only its signers, and of those only the unlocked ones: the balances of
  any other account, and of a locked one, do not decrease, and its keys, its used nonces, its
  authorization flag and every lock stay as they were.\<close>

theorem only_signers_lose:
  assumes "execute_intents env xs c = Inr c'" and "contract_ok env c" and "payloads_ok env" and "types_ok env"
    and "contract_is_account_locked c a \<or>
      (\<forall>x p. x \<in> set xs \<longrightarrow> ev_extract (h_engine env) x = Inr p \<longrightarrow> dp_signer_id p \<noteq> a)"
  shows "contract_balance_of c a t \<le> contract_balance_of c' a t \<and>
    contract_has_public_key env c' a k = contract_has_public_key env c a k \<and>
    contract_is_nonce_used c' a n = contract_is_nonce_used c a n \<and>
    contract_is_auth_enabled c' a = contract_is_auth_enabled c a \<and>
    contract_is_account_locked c' b = contract_is_account_locked c b"
proof -
  let ?A = "\<lambda>b. \<exists>x p. x \<in> set xs \<and> ev_extract (h_engine env) x = Inr p \<and> dp_signer_id p = b"
  have fr: "frame_rel env ?A c c'"
    using assms(1,3) by (rule contract_execute_frame) blast
  have "deposits_only (account_or_new env a c) (account_or_new env a c')"
    using fr assms(2,5) views_alt(2) [of c a env] unfolding frame_rel_def entry_rel_def by blast
  moreover have "contract_is_account_locked c' b = contract_is_account_locked c b"
    using fr assms(2) unfolding frame_rel_def entry_rel_def views_alt(2) [of _ _ env] by blast
  ultimately show ?thesis using deposits_only_views [OF assms(4)] by blast
qed

subsection \<open>Authorization and replay\<close>

abbreviation contract_deltas :: "'p host \<Rightarrow> 'p contract deltas_state state_ops" where
  "contract_deltas env \<equiv> deltas_ops (contract_ops env)"

lemma deltas_frame: "engine_frame (contract_deltas env) A (\<lambda>d d'. frame_rel env A (fst d) (fst d'))"
  by (rule engine_frame.intro [OF frame_laws_deltas [OF contract_frame_laws frame_rel_refl frame_rel_trans]
      frame_rel_refl frame_rel_trans])

text \<open>What the engine checked of a payload it executed in the state \<open>c\<close>.\<close>

definition authorized :: "'p host \<Rightarrow> 'p contract \<Rightarrow> 'p \<Rightarrow> bool" where
  "authorized env c x \<longleftrightarrow> (\<exists>pk p. ev_verify (h_engine env) x = Some pk \<and> ev_extract (h_engine env) x = Inr p \<and>
     dp_verifying_contract p = h_current env \<and> ev_now (h_engine env) \<le> dp_deadline p \<and>
     contract_has_public_key env c (dp_signer_id p) pk \<and>
     \<not> contract_is_account_locked c (dp_signer_id p) \<and>
     \<not> contract_is_nonce_used c (dp_signer_id p) (dp_nonce p) \<and>
     (\<forall>s. maybe_from (ev_from_nanos (h_engine env)) (dp_nonce p) = Some (V1 s) \<longrightarrow>
        salt_is_valid (c_salts c) (sn_salt s) \<and> dp_deadline p \<le> en_deadline (sn_nonce s) \<and>
        ev_now (h_engine env) \<le> en_deadline (sn_nonce s)))"

definition nonce_key :: "'p host \<Rightarrow> 'p \<Rightarrow> account_id \<times> nonce" where
  "nonce_key env x = (case ev_extract (h_engine env) x of
     Inl _ \<Rightarrow> ([], []) | Inr p \<Rightarrow> (dp_signer_id p, dp_nonce p))"

definition key_used :: "'p contract \<Rightarrow> account_id \<times> nonce \<Rightarrow> bool" where
  "key_used c k = contract_is_nonce_used c (fst k) (snd k)"

lemma commit_nonce_fresh:
  assumes "contract_ok env c" and "u256_ok n" and "contract_commit_nonce env a n c = Inr c'"
  shows "\<not> contract_is_nonce_used c a n \<and> contract_is_nonce_used c' a n \<and> \<not> contract_is_account_locked c a"
proof -
  let ?x = "lk_value (account_or_new env a c)"
  obtain y where y: "account_commit_nonce n ?x = Inr y" and c': "c' = put_inner a (account_or_new env a c) y c"
    and lock: "\<not> lk_locked (account_or_new env a c)"
    using assms(3) by (auto simp: commit_nonce_Inr Let_def)
  have ok: "ml_ok (ac_nonces ?x)" using account_or_new_ok [OF assms(1), of a] by (simp add: account_ok_def)
  have "\<not> account_is_nonce_used ?x n"
    using account_nonces.commit_used [OF ok assms(2)] y
    by (auto simp: account_commit_nonce_def account_is_nonce_used_def)
  moreover have "account_is_nonce_used y n"
    using commit_nonce_used [OF account_or_new_ok [OF assms(1)] assms(2,2) y] by simp
  ultimately show ?thesis
    using lock by (simp add: views_alt(1) [of _ _ _ env] views_alt(2) [of _ _ env] c')
qed

lemma execute_one:
  assumes run: "execute_signed_intent (h_engine env) (contract_deltas env) io x e = Inr e'"
    and ok: "contract_ok env (fst (fst e))" and po: "payloads_ok env"
  shows "contract_ok env (fst (fst e')) \<and> authorized env (fst (fst e)) x \<and>
    \<not> key_used (fst (fst e)) (nonce_key env x) \<and> key_used (fst (fst e')) (nonce_key env x) \<and>
    (\<forall>a n. u256_ok n \<longrightarrow> contract_is_nonce_used (fst (fst e)) a n \<longrightarrow> contract_is_nonce_used (fst (fst e')) a n)"
proof -
  let ?c = "fst (fst e)"
  obtain pk p d2 e3 where pk: "ev_verify (h_engine env) x = Some pk" and p: "ev_extract (h_engine env) x = Inr p"
    and vc: "dp_verifying_contract p = h_current env" and dl: "ev_now (h_engine env) \<le> dp_deadline p"
    and key: "contract_has_public_key env ?c (dp_signer_id p) pk"
    and vn: "verify_intent_nonce (h_engine env) (contract_deltas env) (fst e) (dp_nonce p) (dp_deadline p) = Inr ()"
    and commit: "contract_commit_nonce env (dp_signer_id p) (dp_nonce p) ?c = Inr (fst d2)" and d2: "snd d2 = snd (fst e)"
    and run: "execute_intents_of (ev_wide (h_engine env)) (contract_deltas env) io (dp_signer_id p) (ev_hash (h_engine env) x)
       (dp_message p) (d2, io_on_deadline io (dp_deadline p) (snd e)) = Inr e3"
    and e': "fst e' = fst e3"
    using run by (auto simp: execute_signed_intent_def Let_def result_simps on_state_def on_inner_def deltas_ops_def contract_ops_def)
  have n: "u256_ok (dp_nonce p)" using po p by (simp add: payloads_ok_def)
  note fresh = commit_nonce_fresh [OF ok n commit]
  have "frame_rel env (\<lambda>_. True) ?c (fst d2)"
    by (rule keepsD [OF commit_nonce_frame [OF _ n] commit]) simp
  moreover have "frame_rel env (\<lambda>_. True) (fst d2) (fst (fst e3))"
    using engine_frame.execute_intents_frame [OF deltas_frame [where A = "\<lambda>_. True"] run] by simp
  ultimately have ok': "contract_ok env (fst (fst e'))"
    and mono2: "\<And>a m. u256_ok m \<Longrightarrow> contract_is_nonce_used (fst d2) a m \<Longrightarrow> contract_is_nonce_used (fst (fst e')) a m"
    and mono: "\<And>a m. u256_ok m \<Longrightarrow> contract_is_nonce_used ?c a m \<Longrightarrow> contract_is_nonce_used (fst (fst e')) a m"
    using ok unfolding e' frame_rel_def entry_rel_def views_alt(1) [of _ _ _ env] by blast+
  have salt: "salt_is_valid (c_salts ?c) (sn_salt s) \<and> dp_deadline p \<le> en_deadline (sn_nonce s) \<and>
        ev_now (h_engine env) \<le> en_deadline (sn_nonce s)"
    if "maybe_from (ev_from_nanos (h_engine env)) (dp_nonce p) = Some (V1 s)" for s
    using vn that by (auto simp: verify_intent_nonce_def result_simps deltas_ops_def contract_ops_def)
  have "authorized env ?c x"
    unfolding authorized_def using pk p vc dl key fresh salt by blast
  with ok' mono fresh mono2 [OF n] p show ?thesis by (simp add: key_used_def nonce_key_def)
qed

lemma nonce_key_u256: "payloads_ok env \<Longrightarrow> authorized env c x \<Longrightarrow> u256_ok (snd (nonce_key env x))"
  by (auto simp: authorized_def nonce_key_def payloads_ok_def)

text \<open>A batch, payload by payload: each is authorized in the state its predecessors left.\<close>

lemma execute_batch:
  assumes "fold_r (execute_signed_intent (h_engine env) (contract_deltas env) io) xs e = Inr e'"
    and "contract_ok env (fst (fst e))" and "payloads_ok env"
  shows "contract_ok env (fst (fst e')) \<and> distinct (map (nonce_key env) xs) \<and>
    (\<forall>x \<in> set xs. \<not> key_used (fst (fst e)) (nonce_key env x) \<and> key_used (fst (fst e')) (nonce_key env x) \<and>
       (\<exists>c. authorized env c x)) \<and>
    (\<forall>a n. u256_ok n \<longrightarrow> contract_is_nonce_used (fst (fst e)) a n \<longrightarrow> contract_is_nonce_used (fst (fst e')) a n)"
  using assms(1,2)
proof (induction xs arbitrary: e)
  case Nil
  then show ?case by simp
next
  case (Cons x xs)
  obtain e1 where x: "execute_signed_intent (h_engine env) (contract_deltas env) io x e = Inr e1"
    and rest: "fold_r (execute_signed_intent (h_engine env) (contract_deltas env) io) xs e1 = Inr e'"
    using Cons.prems(1) by (auto simp: result_simps)
  note one = execute_one [OF x Cons.prems(2) assms(3)]
  note IH = Cons.IH [OF rest] one [THEN conjunct1]
  have u: "u256_ok (snd (nonce_key env x))" using one nonce_key_u256 [OF assms(3)] by blast
  have later: "key_used (fst (fst e')) (nonce_key env x)"
    using one IH u unfolding key_used_def by blast
  have "nonce_key env x \<notin> set (map (nonce_key env) xs)"
    using one IH by auto
  moreover have "\<not> key_used (fst (fst e)) (nonce_key env y)" if "y \<in> set xs" for y
  proof -
    have "u256_ok (snd (nonce_key env y))"
      using IH that nonce_key_u256 [OF assms(3)] by blast
    with one IH that show ?thesis unfolding key_used_def by blast
  qed
  ultimately show ?case using one IH later by auto
qed

lemma execute_intents_batch:
  assumes "execute_intents env xs c = Inr c'" and "contract_ok env c" and "payloads_ok env"
  shows "distinct (map (nonce_key env) xs) \<and> (\<forall>x \<in> set xs. \<not> key_used c (nonce_key env x) \<and>
     key_used c' (nonce_key env x) \<and> (\<exists>d. authorized env d x))"
proof -
  obtain T c1 i es where
    run: "execute_signed_intents (h_engine env) (contract_ops env) execute_inspector_ops xs (c, ei_new) = Inr (T, c1, i)"
    and c': "c' = add_logs es c1"
    using assms(1) by (rule execute_intents_Inr)
  then obtain e where e: "fold_r (execute_signed_intent (h_engine env) (contract_deltas env) execute_inspector_ops) xs
      ((c, []), ei_new) = Inr e" and c1: "c1 = fst (fst e)"
    by (auto simp: execute_signed_intents_def result_simps)
  show ?thesis
    using execute_batch [OF e] assms(2,3) by (simp add: c' c1 key_used_def contract_is_nonce_used_def)
qed

text \<open>C6: replay protection: a batch that succeeds uses each pair of signer and nonce once, none of
  them was used before, and any later batch from the resulting state that repeats one of them
  fails, even under another signature or with other intents.\<close>

theorem no_replay:
  assumes "execute_intents env xs c = Inr c'" and "contract_ok env c" and "payloads_ok env"
    and "contract_ok env' c'" and "payloads_ok env'"
    and "x \<in> set xs" and "y \<in> set ys" and "nonce_key env' y = nonce_key env x"
  shows "distinct (map (nonce_key env) xs) \<and> \<not> key_used c (nonce_key env x) \<and> \<not> is_ok (execute_intents env' ys c')"
proof -
  note first = execute_intents_batch [OF assms(1-3)]
  have "\<not> (\<exists>c2. execute_intents env' ys c' = Inr c2)"
    using first execute_intents_batch [OF _ assms(4,5)] assms(6-8) by metis
  then show ?thesis using first assms(6) by (auto simp: is_ok_Ex)
qed

lemma execute_intents_prefix:
  assumes "execute_intents env (xs @ x # ys) c = Inr c'" and "contract_ok env c" and "payloads_ok env"
  obtains d m i where "fold_r (execute_signed_intent (h_engine env) (contract_deltas env) execute_inspector_ops) xs
      ((c, []), ei_new) = Inr ((d, m), i)" and "authorized env d x"
proof -
  obtain e1 e2 where e1: "fold_r (execute_signed_intent (h_engine env) (contract_deltas env) execute_inspector_ops) xs
      ((c, []), ei_new) = Inr e1"
    and e2: "execute_signed_intent (h_engine env) (contract_deltas env) execute_inspector_ops x e1 = Inr e2"
    using assms(1)
    by (elim execute_intents_Inr) (auto simp: execute_signed_intents_def result_simps fold_r_append)
  have "contract_ok env (fst (fst e1))" using execute_batch [OF e1] assms(2,3) by simp
  then have "authorized env (fst (fst e1)) x" using execute_one [OF e2] assms(3) by blast
  with e1 that show ?thesis by (metis prod.collapse)
qed

text \<open>C5: authorization: when a batch succeeds, every payload in it carried a signature that
  verifies, under a key registered for its signer in the state its predecessors in the batch
  left; it names this contract, its deadline has not passed, its signer is not locked, its
  nonce is new, and a structured nonce has a valid salt and an unexpired deadline that covers
  the payload's.\<close>

theorem every_intent_authorized:
  assumes "execute_intents env (xs @ x # ys) c = Inr c'" and "contract_ok env c" and "payloads_ok env"
  shows "\<exists>d. authorized env d x \<and> (\<exists>i m. fold_r (execute_signed_intent (h_engine env) (contract_deltas env)
     execute_inspector_ops) xs ((c, []), ei_new) = Inr ((d, m), i))"
  by (rule execute_intents_prefix [OF assms]) (intro exI conjI, assumption+)

end
