(* ===== verification/NearUtils.thy ===== *)
theory NearUtils
  imports MtEvents
begin

text \<open>
  The bound on the length of a promise result that is parsed as JSON
  (\<open>crates/near/utils/src/promise.rs\<close>): \<open>MaxJsonLength\<close> for the shapes the contract reads,
  booleans, decimal \<open>u128\<close> strings and vectors, with \<open>usize\<close> of 32 bits.
\<close>

datatype json_shape = JBool | JU128 | JVec nat json_shape

definition MAX_JSON_LENGTH_RECURSION_LIMIT :: nat where
  "MAX_JSON_LENGTH_RECURSION_LIMIT = 32"

definition sat_mul :: "nat \<Rightarrow> nat \<Rightarrow> nat" where
  "sat_mul a b = min (a * b) usize_max"

fun max_json_length_at :: "nat \<Rightarrow> json_shape \<Rightarrow> nat" where
  "max_json_length_at depth JBool = 7"
| "max_json_length_at depth JU128 = 4 + 40"
| "max_json_length_at depth (JVec len item) =
     (if depth \<ge> MAX_JSON_LENGTH_RECURSION_LIMIT then usize_max
      else let ident = sat_mul 8 depth; item_indent = sat_add ident 8 in
        sat_add (sat_mul (sat_add (sat_add item_indent (max_json_length_at (depth + 1) item)) 2) len) (6 + ident))"

definition max_json_length_root :: "json_shape \<Rightarrow> nat" where
  "max_json_length_root s = max_json_length_at 0 s"

subsection \<open>The bound is large enough\<close>

text \<open>Decimal text, as \<open>serde\<close> writes it for \<open>U128\<close>, in the compact and the pretty layout of
  \<open>serde_json\<close>.\<close>

fun digits :: "nat \<Rightarrow> string" where
  "digits n = (if n < 10 then [char_of (48 + n)] else digits (n div 10) @ [char_of (48 + n mod 10)])"

declare digits.simps [simp del]

definition quoted :: "nat \<Rightarrow> string" where
  "quoted n = [CHR 0x22] @ digits n @ [CHR 0x22]"

fun sep_by :: "string \<Rightarrow> string list \<Rightarrow> string" where
  "sep_by s [] = []"
| "sep_by s [x] = x"
| "sep_by s (x # y # xs) = x @ s @ sep_by s (y # xs)"

definition json_compact :: "nat list \<Rightarrow> string" where
  "json_compact xs = ''['' @ sep_by '','' (map quoted xs) @ '']''"

definition json_pretty :: "nat list \<Rightarrow> string" where
  "json_pretty xs = (if xs = [] then ''[]''
     else ''['' @ [CHR 0x0A] @ sep_by ('','' @ [CHR 0x0A]) (map (\<lambda>n. ''  '' @ quoted n) xs) @ [CHR 0x0A] @ '']'')"

lemma length_digits: "n < 10 ^ Suc k \<Longrightarrow> length (digits n) \<le> Suc k"
proof (induction k arbitrary: n)
  case 0
  then show ?case by (simp add: digits.simps)
next
  case (Suc k)
  show ?case
  proof (cases "n < 10")
    case True
    then show ?thesis by (simp add: digits.simps)
  next
    case False
    have "n div 10 < 10 ^ Suc k" using Suc.prems by (simp add: less_mult_imp_div_less)
    from Suc.IH [OF this] False show ?thesis by (subst digits.simps) simp
  qed
qed

lemma length_quoted: "n \<le> u128_max \<Longrightarrow> length (quoted n) \<le> 41"
  using length_digits [of n 38] by (simp add: quoted_def u128_max_def)

lemma length_sep_by:
  assumes "\<And>x. x \<in> set xs \<Longrightarrow> length x \<le> m"
  shows "length (sep_by s xs) \<le> length xs * (m + length s)"
  using assms
proof (induction s xs rule: sep_by.induct)
  case (3 s x y xs)
  have "length x \<le> m" using 3(2) by simp
  moreover have "length (sep_by s (y # xs)) \<le> length (y # xs) * (m + length s)"
    by (rule 3(1)) (use 3(2) in auto)
  ultimately show ?case by (simp add: algebra_simps)
qed (auto simp: add_increasing2)

lemma sat_exact: "a + b \<le> usize_max \<Longrightarrow> sat_add a b = a + b" "a * b \<le> usize_max \<Longrightarrow> sat_mul a b = a * b"
  by (simp_all add: sat_add_def sat_mul_def)

lemma max_json_u128s:
  assumes "54 * n + 6 \<le> usize_max"
  shows "max_json_length_root (JVec n JU128) = 54 * n + 6"
proof -
  have big: "54 \<le> usize_max" by (simp add: usize_max_def u32_max_def)
  have m: "54 * n \<le> usize_max" using assms by simp
  have "max_json_length_root (JVec n JU128) =
      sat_add (sat_mul (sat_add (sat_add (sat_add (sat_mul 8 0) 8) 44) 2) n) (6 + sat_mul 8 0)"
    by (simp add: max_json_length_root_def Let_def MAX_JSON_LENGTH_RECURSION_LIMIT_def)
  also have "\<dots> = 54 * n + 6"
    using big by (simp only: sat_exact m assms mult_0_right add_0 numeral_plus_numeral) (simp add: sat_exact m assms)
  finally show ?thesis .
qed

text \<open>The bound never cuts off an honest answer: a list of \<open>n\<close> amounts in the range of \<open>u128\<close>,
  in the compact or the pretty layout, fits the length the contract is willing to read for
  \<open>n\<close> amounts, as long as the bound itself fits \<open>usize\<close>.\<close>

theorem max_json_length_enough:
  assumes "\<forall>x \<in> set xs. x \<le> u128_max" and "54 * length xs + 6 \<le> usize_max"
  shows "length (json_compact xs) \<le> max_json_length_root (JVec (length xs) JU128) \<and>
    length (json_pretty xs) \<le> max_json_length_root (JVec (length xs) JU128)"
proof -
  have "length (sep_by '','' (map quoted xs)) \<le> length (map quoted xs) * (41 + length '','')"
    by (rule length_sep_by) (use assms(1) length_quoted in auto)
  moreover have "length (sep_by ('','' @ [CHR 0x0A]) (map (\<lambda>n. ''  '' @ quoted n) xs)) \<le>
      length (map (\<lambda>n. ''  '' @ quoted n) xs) * (43 + length ('','' @ [CHR 0x0A]))"
    by (rule length_sep_by) (use assms(1) length_quoted in fastforce)
  ultimately show ?thesis
    unfolding max_json_u128s [OF assms(2)] by (simp add: json_compact_def json_pretty_def)
qed

theorem max_json_length_enough_witness:
  "length (json_compact [0, u128_max]) \<le> max_json_length_root (JVec (length [0, u128_max]) JU128)"
proof -
  have "54 * length [0, u128_max] + 6 \<le> usize_max" by (simp add: usize_max_def u32_max_def)
  from max_json_length_enough [OF _ this] show ?thesis by simp
qed

end
