(* ===== verification/TokenHandlers.thy ===== *)
theory TokenHandlers
  imports ExecuteIntents NearUtils
begin

text \<open>
  The methods of the contract that move tokens: transfers and their resolution
  (\<open>contract/tokens/nep245/core.rs\<close>, \<open>resolver.rs\<close>, \<open>force.rs\<close>), deposits and their resolution
  (\<open>contract/tokens/mod.rs\<close>, \<open>nep141/deposit.rs\<close>, \<open>nep171/deposit.rs\<close>, \<open>nep245/deposit.rs\<close>),
  withdrawals and their resolution (the files \<open>withdraw.rs\<close>), the burning of intents' own
  tokens (\<open>imt.rs\<close>) and the views. The methods return the new state with their result; the
  postponed burn events are flushed when the call ends, by \<open>call_contract\<close> of theory
  \<open>Calls\<close>.
\<close>

subsection \<open>Guards\<close>

definition assert_one_yocto :: "'p host \<Rightarrow> unit result" where
  "assert_one_yocto env = require_r (h_deposit env = 1) (Panicked ''Requires attached deposit of exactly 1 yoctoNEAR'')"

definition require_any_role :: "'p host \<Rightarrow> role list \<Rightarrow> unit result" where
  "require_any_role env rs = require_r (\<exists>r \<in> set rs. h_has_role env r) (Panicked ''Insufficient permissions'')"

definition private_call :: "'p host \<Rightarrow> unit result" where
  "private_call env = require_r (h_predecessor env = h_current env) (Panicked ''Method is private'')"

definition ensure_auth_predecessor_id :: "'p host \<Rightarrow> 'p contract \<Rightarrow> account_id result" where
  "ensure_auth_predecessor_id env c =
     (if \<not> contract_is_auth_enabled c (h_predecessor env) then Inl (AuthByPredecessorIdDisabled (h_predecessor env))
      else Inr (h_predecessor env))"

datatype (plugins only: code size) ('p, 'v) promise_or_value = PromiseOf "'p promise" | ValueOf 'v

subsection \<open>Transfers\<close>

definition transfer_step ::
  "'p host \<Rightarrow> account_id \<Rightarrow> account_id \<Rightarrow> bool \<Rightarrow> string \<times> nat \<Rightarrow> 'p contract \<Rightarrow> 'p contract result" where
  "transfer_step env sender receiver force p c = (case p of (token_id, amount) \<Rightarrow>
     bind_r (require_r (amount \<noteq> 0) InvalidIntent) (\<lambda>_.
     bind_r (case token_from_str (h_parse env) token_id of Inl e \<Rightarrow> Inl (ParseTokenId e) | Inr t \<Rightarrow> Inr t) (\<lambda>t.
     bind_r (ok_or (map_of (c_accounts c) sender) (AccountNotFound sender)) (\<lambda>l.
     bind_r (ok_or (get_mut_maybe_forced force l) (AccountLocked sender)) (\<lambda>_.
     bind_r (ok_or (amounts_sub t amount (balances_of env sender c)) BalanceOverflow) (\<lambda>(m, _).
     let c1 = set_balances env sender m c in
     bind_r (ok_or (amounts_add t amount (balances_of env receiver c1)) BalanceOverflow) (\<lambda>(m', _).
       Inr (set_balances env receiver m' c1))))))))"

definition internal_mt_batch_transfer ::
  "'p host \<Rightarrow> account_id \<Rightarrow> account_id \<Rightarrow> string list \<Rightarrow> nat list \<Rightarrow> string option \<Rightarrow> bool \<Rightarrow> 'p contract \<Rightarrow> 'p contract result" where
  "internal_mt_batch_transfer env sender receiver token_ids amounts memo force c =
     bind_r (require_r (sender \<noteq> receiver \<and> length token_ids = length amounts \<and> amounts \<noteq> []) InvalidIntent) (\<lambda>_.
     bind_r (fold_r (transfer_step env sender receiver force) (zip token_ids amounts) c) (\<lambda>c'.
       emit_checked env (MtTransfer [\<lparr> tr_authorized_id = None, old_owner_id = sender, new_owner_id = receiver,
         tr_token_ids = token_ids, tr_amounts = amounts, tr_memo = memo \<rparr>]) c'))"

definition notify_new :: "string \<Rightarrow> notify_on_transfer" where
  "notify_new msg = \<lparr> no_state_init = None, no_msg = msg, no_min_gas = None \<rparr>"

definition internal_mt_batch_transfer_call ::
  "'p host \<Rightarrow> account_id \<Rightarrow> account_id \<Rightarrow> string list \<Rightarrow> nat list \<Rightarrow> string option \<Rightarrow> string \<Rightarrow> bool \<Rightarrow> 'p contract \<Rightarrow>
   ('p contract \<times> 'p promise) result" where
  "internal_mt_batch_transfer_call env sender receiver token_ids amounts memo msg force c =
     bind_r (internal_mt_batch_transfer env sender receiver token_ids amounts memo force c) (\<lambda>c'.
     bind_r (notify_and_resolve_transfer env sender receiver token_ids amounts (notify_new msg)) (\<lambda>p. Inr (c', p)))"

text \<open>\<open>approvals\<close> says whether approvals were passed; none are supported.\<close>

definition no_approvals :: "bool \<Rightarrow> unit result" where
  "no_approvals approvals = require_r (\<not> approvals) (Panicked ''approvals are not supported'')"

definition mt_batch_transfer ::
  "'p host \<Rightarrow> account_id \<Rightarrow> string list \<Rightarrow> nat list \<Rightarrow> bool \<Rightarrow> string option \<Rightarrow> 'p contract \<Rightarrow> 'p contract result" where
  "mt_batch_transfer env receiver token_ids amounts approvals memo c =
     bind_r (not_paused env ''mt_transfer'') (\<lambda>_.
     bind_r (assert_one_yocto env) (\<lambda>_.
     bind_r (no_approvals approvals) (\<lambda>_.
     bind_r (ensure_auth_predecessor_id env c) (\<lambda>sender.
       internal_mt_batch_transfer env sender receiver token_ids amounts memo False c))))"

definition mt_transfer ::
  "'p host \<Rightarrow> account_id \<Rightarrow> string \<Rightarrow> nat \<Rightarrow> bool \<Rightarrow> string option \<Rightarrow> 'p contract \<Rightarrow> 'p contract result" where
  "mt_transfer env receiver token_id amount approval memo c =
     mt_batch_transfer env receiver [token_id] [amount] approval memo c"

definition mt_batch_transfer_call ::
  "'p host \<Rightarrow> account_id \<Rightarrow> string list \<Rightarrow> nat list \<Rightarrow> bool \<Rightarrow> string option \<Rightarrow> string \<Rightarrow> 'p contract \<Rightarrow>
   ('p contract \<times> 'p promise) result" where
  "mt_batch_transfer_call env receiver token_ids amounts approvals memo msg c =
     bind_r (not_paused env ''mt_transfer'') (\<lambda>_.
     bind_r (assert_one_yocto env) (\<lambda>_.
     bind_r (no_approvals approvals) (\<lambda>_.
     bind_r (ensure_auth_predecessor_id env c) (\<lambda>sender.
       internal_mt_batch_transfer_call env sender receiver token_ids amounts memo msg False c))))"

definition mt_transfer_call ::
  "'p host \<Rightarrow> account_id \<Rightarrow> string \<Rightarrow> nat \<Rightarrow> bool \<Rightarrow> string option \<Rightarrow> string \<Rightarrow> 'p contract \<Rightarrow>
   ('p contract \<times> 'p promise) result" where
  "mt_transfer_call env receiver token_id amount approval memo msg c =
     bind_r (not_paused env ''mt_transfer'') (\<lambda>_.
       mt_batch_transfer_call env receiver [token_id] [amount] approval memo msg c)"

abbreviation withdrawer_roles :: "role list" where
  "withdrawer_roles \<equiv> [DAO, UnrestrictedWithdrawer]"

definition mt_force_batch_transfer ::
  "'p host \<Rightarrow> account_id \<Rightarrow> account_id \<Rightarrow> string list \<Rightarrow> nat list \<Rightarrow> bool \<Rightarrow> string option \<Rightarrow> 'p contract \<Rightarrow> 'p contract result" where
  "mt_force_batch_transfer env owner receiver token_ids amounts approvals memo c =
     bind_r (require_any_role env withdrawer_roles) (\<lambda>_.
     bind_r (assert_one_yocto env) (\<lambda>_.
     bind_r (no_approvals approvals) (\<lambda>_.
       internal_mt_batch_transfer env owner receiver token_ids amounts memo True c)))"

definition mt_force_transfer ::
  "'p host \<Rightarrow> account_id \<Rightarrow> account_id \<Rightarrow> string \<Rightarrow> nat \<Rightarrow> bool \<Rightarrow> string option \<Rightarrow> 'p contract \<Rightarrow> 'p contract result" where
  "mt_force_transfer env owner receiver token_id amount approval memo c =
     bind_r (require_any_role env withdrawer_roles) (\<lambda>_.
       mt_force_batch_transfer env owner receiver [token_id] [amount] approval memo c)"

definition mt_force_batch_transfer_call ::
  "'p host \<Rightarrow> account_id \<Rightarrow> account_id \<Rightarrow> string list \<Rightarrow> nat list \<Rightarrow> bool \<Rightarrow> string option \<Rightarrow> string \<Rightarrow> 'p contract \<Rightarrow>
   ('p contract \<times> 'p promise) result" where
  "mt_force_batch_transfer_call env owner receiver token_ids amounts approvals memo msg c =
     bind_r (require_any_role env withdrawer_roles) (\<lambda>_.
     bind_r (assert_one_yocto env) (\<lambda>_.
     bind_r (no_approvals approvals) (\<lambda>_.
       internal_mt_batch_transfer_call env owner receiver token_ids amounts memo msg True c)))"

definition mt_force_transfer_call ::
  "'p host \<Rightarrow> account_id \<Rightarrow> account_id \<Rightarrow> string \<Rightarrow> nat \<Rightarrow> bool \<Rightarrow> string option \<Rightarrow> string \<Rightarrow> 'p contract \<Rightarrow>
   ('p contract \<times> 'p promise) result" where
  "mt_force_transfer_call env owner receiver token_id amount approval memo msg c =
     bind_r (require_any_role env withdrawer_roles) (\<lambda>_.
       mt_force_batch_transfer_call env owner receiver [token_id] [amount] approval memo msg c)"

subsection \<open>Views\<close>

definition parse_ok :: "'p host \<Rightarrow> string \<Rightarrow> token_id option" where
  "parse_ok env s = (case token_from_str (h_parse env) s of Inl _ \<Rightarrow> None | Inr t \<Rightarrow> Some t)"

definition internal_mt_balance_of :: "'p host \<Rightarrow> 'p contract \<Rightarrow> account_id \<Rightarrow> string \<Rightarrow> nat" where
  "internal_mt_balance_of env c a s = (case parse_ok env s of None \<Rightarrow> 0 | Some t \<Rightarrow> contract_balance_of c a t)"

definition mt_batch_balance_of :: "'p host \<Rightarrow> 'p contract \<Rightarrow> account_id \<Rightarrow> string list \<Rightarrow> nat list" where
  "mt_batch_balance_of env c a ids = map (internal_mt_balance_of env c a) ids"

definition mt_supply :: "'p host \<Rightarrow> 'p contract \<Rightarrow> string \<Rightarrow> nat option" where
  "mt_supply env c s = map_option (amount_for (c_total_supplies c)) (parse_ok env s)"

definition mt_batch_supply :: "'p host \<Rightarrow> 'p contract \<Rightarrow> string list \<Rightarrow> nat option list" where
  "mt_batch_supply env c ids = map (mt_supply env c) ids"

text \<open>A token as the enumeration shows it: its id and, for an NFT, its owner.\<close>

type_synonym mt_token_view = "string \<times> account_id option"

definition mt_token :: "'p host \<Rightarrow> 'p contract \<Rightarrow> string list \<Rightarrow> mt_token_view option list" where
  "mt_token env c ids = map (\<lambda>s. case parse_ok env s of
      None \<Rightarrow> None
    | Some t \<Rightarrow> if map_of (c_total_supplies c) t \<noteq> None then Some (s, None) else None) ids"

definition page :: "nat option \<Rightarrow> nat option \<Rightarrow> 'a list \<Rightarrow> 'a list result" where
  "page from_index limit xs =
     bind_r (require_r (unwrap_or from_index 0 \<le> usize_max) (Panicked ''from_index'')) (\<lambda>_.
       Inr (let ys = drop (unwrap_or from_index 0) xs in case limit of None \<Rightarrow> ys | Some l \<Rightarrow> take l ys))"

definition mt_tokens :: "nat option \<Rightarrow> nat option \<Rightarrow> 'p contract \<Rightarrow> mt_token_view list result" where
  "mt_tokens from_index limit c =
     page from_index limit (map (\<lambda>(t, _). (token_to_string t, None)) (c_total_supplies c))"

definition mt_tokens_for_owner ::
  "account_id \<Rightarrow> nat option \<Rightarrow> nat option \<Rightarrow> 'p contract \<Rightarrow> mt_token_view list result" where
  "mt_tokens_for_owner a from_index limit c =
     bind_r (require_r (unwrap_or from_index 0 \<le> usize_max) (Panicked ''from_index'')) (\<lambda>_.
       case map_of (c_accounts c) a of
         None \<Rightarrow> Inr []
       | Some l \<Rightarrow> page from_index limit (map (\<lambda>(t, _). (token_to_string t,
           if token_type t = TNep171 then Some a else None)) (ac_token_balances (as_inner_unchecked l))))"

subsection \<open>Resolving a transfer\<close>

text \<open>A vector of amounts from the awaited promise, if it succeeded, is short enough and parses to
  the expected number of amounts.\<close>

definition promise_amounts :: "'p host \<Rightarrow> nat \<Rightarrow> nat list option" where
  "promise_amounts env n = (case h_promise_result env (max_json_length_root (JVec n JU128)) of
      None \<Rightarrow> None
    | Some bs \<Rightarrow> (case h_json_u128s env bs of
        None \<Rightarrow> None
      | Some xs \<Rightarrow> if length xs = n then Some xs else None))"

text \<open>
  The loop of \<open>mt_resolve_transfer\<close> over token id, previous owner, amount and requested refund.
  It returns the amounts that stay with the receiver and the refunds made; when the receiver
  has no account it stops there, and the flag says so.
\<close>

fun resolve_loop ::
  "'p host \<Rightarrow> account_id \<Rightarrow> account_id \<Rightarrow> (string \<times> account_id \<times> nat \<times> nat) list \<Rightarrow> 'p contract \<Rightarrow>
   ('p contract \<times> nat list \<times> nat list \<times> bool) result" where
  "resolve_loop env sender receiver [] c = Inr (c, [], [], False)"
| "resolve_loop env sender receiver ((token_id, previous_owner, amount, requested) # rest) c =
     bind_r (ok_or (parse_ok env token_id) (Panicked ''token id'')) (\<lambda>t.
     bind_r (require_r (sender = previous_owner) (Panicked ''approvals are not supported'')) (\<lambda>_.
     case map_of (c_accounts c) receiver of
       None \<Rightarrow> Inr (c, amount # map (\<lambda>(_, _, a, _). a) rest, [], True)
     | Some l \<Rightarrow>
         let refund = min (min requested amount) (amount_for (balances_of env receiver c) t) in
         if refund = 0 then
           bind_r (resolve_loop env sender receiver rest c) (\<lambda>(c', used, refunds, b).
             Inr (c', amount # used, 0 # refunds, b))
         else
           bind_r (ok_or (amounts_sub t refund (balances_of env receiver c)) (Panicked ''unwrap'')) (\<lambda>(m, _).
           let c1 = set_balances env receiver m c in
           bind_r (ok_or (amounts_add t refund (balances_of env previous_owner c1)) (Panicked ''unwrap'')) (\<lambda>(m', _).
           bind_r (resolve_loop env sender receiver rest (set_balances env previous_owner m' c1)) (\<lambda>(c', used, refunds, b).
             Inr (c', (amount - refund) # used, refund # refunds, b))))))"

definition mt_resolve_transfer ::
  "'p host \<Rightarrow> account_id list \<Rightarrow> account_id \<Rightarrow> string list \<Rightarrow> nat list \<Rightarrow> bool \<Rightarrow> 'p contract \<Rightarrow>
   ('p contract \<times> nat list) result" where
  "mt_resolve_transfer env previous_owners receiver token_ids amounts approvals c =
     bind_r (private_call env) (\<lambda>_.
     bind_r (no_approvals approvals) (\<lambda>_.
     bind_r (require_r (token_ids \<noteq> [] \<and> length previous_owners = length token_ids \<and> length amounts = length token_ids)
       (Panicked ''invalid args'')) (\<lambda>_.
     let refunds = unwrap_or (promise_amounts env (length amounts)) amounts; sender = hd previous_owners in
     bind_r (resolve_loop env sender receiver (zip token_ids (zip previous_owners (zip amounts refunds))) c)
       (\<lambda>(c', used, refunded, stopped).
       let made = filter (\<lambda>(_, r). r > 0) (zip token_ids refunded) in
       Inr (if stopped \<or> made = [] then c'
            else add_log (LMt (MtTransfer [\<lparr> tr_authorized_id = None, old_owner_id = receiver, new_owner_id = sender,
              tr_token_ids = map fst made, tr_amounts = map snd made, tr_memo = Some REFUND_MEMO \<rparr>])) c', used)))))"

subsection \<open>Resolving a deposit\<close>

text \<open>The loop over token, deposited amount and requested refund: what is burnt of each deposit.\<close>

fun resolve_deposit_loop ::
  "'p host \<Rightarrow> account_id \<Rightarrow> (token_id \<times> nat \<times> nat option) list \<Rightarrow> 'p contract \<Rightarrow> ('p contract \<times> nat list) result" where
  "resolve_deposit_loop env receiver [] c = Inr (c, [])"
| "resolve_deposit_loop env receiver ((t, deposited, requested) # rest) c =
     (let refund = min (min (unwrap_or requested deposited) deposited) (amount_for (balances_of env receiver c) t) in
      if refund = 0 then
        bind_r (resolve_deposit_loop env receiver rest c) (\<lambda>(c', rs). Inr (c', 0 # rs))
      else
        bind_r (ok_or (amounts_sub t refund (balances_of env receiver c)) BalanceOverflow) (\<lambda>(m, _).
        bind_r (ok_or (amounts_sub t refund (c_total_supplies c)) BalanceOverflow) (\<lambda>(supplies, _).
        bind_r (resolve_deposit_loop env receiver rest (set_balances env receiver m (c\<lparr>c_total_supplies := supplies\<rparr>)))
          (\<lambda>(c', rs). Inr (c', refund # rs)))))"

definition resolve_deposit_internal ::
  "'p host \<Rightarrow> account_id \<Rightarrow> (token_id \<times> nat) list \<Rightarrow> 'p contract \<Rightarrow> ('p contract \<times> nat list) result" where
  "resolve_deposit_internal env receiver tokens c = (case map_of (c_accounts c) receiver of
      None \<Rightarrow> Inr (c, map (\<lambda>_. 0) tokens)
    | Some _ \<Rightarrow>
        let requested = (case promise_amounts env (length tokens) of
            None \<Rightarrow> replicate (length tokens) None | Some xs \<Rightarrow> map Some xs) in
        bind_r (resolve_deposit_loop env receiver (map2 (\<lambda>(t, n) r. (t, n, r)) tokens requested) c) (\<lambda>(c', rs).
        let burnt = filter (\<lambda>(_, r). r > 0) (zip (map fst tokens) rs) in
        Inr (if burnt = [] then c'
             else add_log (LMt (MtBurn [\<lparr> burn_owner_id = receiver, burn_authorized_id = None,
               burn_token_ids = map (token_to_string \<circ> fst) burnt, burn_amounts = map snd burnt,
               burn_memo = Some REFUND_MEMO \<rparr>])) c', rs)))"

definition ft_resolve_deposit ::
  "'p host \<Rightarrow> account_id \<Rightarrow> account_id \<Rightarrow> nat \<Rightarrow> 'p contract \<Rightarrow> ('p contract \<times> nat) result" where
  "ft_resolve_deposit env receiver contract_id amount c =
     bind_r (private_call env) (\<lambda>_.
     bind_r (resolve_deposit_internal env receiver [(Nep141 contract_id, amount)] c) (\<lambda>(c', rs). Inr (c', hd rs)))"

definition nft_resolve_deposit ::
  "'p host \<Rightarrow> account_id \<Rightarrow> account_id \<Rightarrow> string \<Rightarrow> 'p contract \<Rightarrow> ('p contract \<times> bool) result" where
  "nft_resolve_deposit env receiver contract_id nft c =
     bind_r (private_call env) (\<lambda>_.
     bind_r (resolve_deposit_internal env receiver [(Nep171 contract_id nft, 1)] c) (\<lambda>(c', rs). Inr (c', hd rs \<noteq> 0)))"

definition mt_resolve_deposit ::
  "'p host \<Rightarrow> account_id \<Rightarrow> account_id \<Rightarrow> string list \<Rightarrow> nat list \<Rightarrow> 'p contract \<Rightarrow> ('p contract \<times> nat list) result" where
  "mt_resolve_deposit env receiver contract_id tokens amounts c =
     bind_r (private_call env) (\<lambda>_.
     bind_r (resolve_deposit_internal env receiver (zip (map (Nep245 contract_id) tokens) amounts) c) (\<lambda>(c', rs).
       Inr (c', rs @ drop (length rs) amounts)))"

end
