(* ===== verification/TokenGateway.thy ===== *)
theory TokenGateway
  imports TokenHandlers
begin

text \<open>
  The methods through which tokens enter and leave the contract: the withdrawals and their
  resolution (the files \<open>withdraw.rs\<close> of \<open>contract/tokens/nep141\<close>, \<open>nep171\<close> and \<open>nep245\<close>), the
  deposits (\<open>deposit.rs\<close> there, with the message of a deposit from \<open>src/tokens/mod.rs\<close>) and the
  burning of the intents' own tokens (\<open>contract/tokens/imt.rs\<close>).
\<close>

subsection \<open>Withdrawals\<close>

definition plain_ft :: "account_id \<Rightarrow> account_id \<Rightarrow> nat \<Rightarrow> string option \<Rightarrow> string option \<Rightarrow> ft_withdraw" where
  "plain_ft token receiver amount memo msg = \<lparr> fw_token = token, fw_receiver_id = receiver, fw_amount = amount,
     fw_memo = memo, fw_msg = msg, fw_storage_deposit = None, fw_min_gas = None \<rparr>"

definition plain_nft :: "account_id \<Rightarrow> account_id \<Rightarrow> string \<Rightarrow> string option \<Rightarrow> string option \<Rightarrow> nft_withdraw" where
  "plain_nft token receiver token_id memo msg = \<lparr> nw_token = token, nw_receiver_id = receiver, nw_token_id = token_id,
     nw_memo = memo, nw_msg = msg, nw_storage_deposit = None, nw_min_gas = None \<rparr>"

definition plain_mt ::
  "account_id \<Rightarrow> account_id \<Rightarrow> string list \<Rightarrow> nat list \<Rightarrow> string option \<Rightarrow> string option \<Rightarrow> mt_withdraw" where
  "plain_mt token receiver token_ids amounts memo msg = \<lparr> mw_token = token, mw_receiver_id = receiver,
     mw_token_ids = token_ids, mw_amounts = amounts, mw_memo = memo, mw_msg = msg, mw_storage_deposit = None,
     mw_min_gas = None \<rparr>"

text \<open>The guards of a method called by the owner of the tokens, and of one called by an operator.\<close>

definition owner_call ::
  "'p host \<Rightarrow> string \<Rightarrow> (account_id \<Rightarrow> 'p contract \<Rightarrow> 'r result) \<Rightarrow> 'p contract \<Rightarrow> 'r result" where
  "owner_call env feature f c =
     bind_r (not_paused env feature) (\<lambda>_.
     bind_r (assert_one_yocto env) (\<lambda>_.
     bind_r (ensure_auth_predecessor_id env c) (\<lambda>owner. f owner c)))"

definition operator_call :: "'p host \<Rightarrow> role list \<Rightarrow> ('p contract \<Rightarrow> 'r result) \<Rightarrow> 'p contract \<Rightarrow> 'r result" where
  "operator_call env roles f c =
     bind_r (require_any_role env roles) (\<lambda>_. bind_r (assert_one_yocto env) (\<lambda>_. f c))"

definition ft_withdraw_call ::
  "'p host \<Rightarrow> account_id \<Rightarrow> account_id \<Rightarrow> nat \<Rightarrow> string option \<Rightarrow> string option \<Rightarrow> 'p contract \<Rightarrow>
   ('p contract \<times> 'p promise) result" where
  "ft_withdraw_call env token receiver amount memo msg =
     owner_call env ''ft_withdraw'' (\<lambda>owner. internal_ft_withdraw env owner (plain_ft token receiver amount memo msg) False)"

definition nft_withdraw_call ::
  "'p host \<Rightarrow> account_id \<Rightarrow> account_id \<Rightarrow> string \<Rightarrow> string option \<Rightarrow> string option \<Rightarrow> 'p contract \<Rightarrow>
   ('p contract \<times> 'p promise) result" where
  "nft_withdraw_call env token receiver token_id memo msg =
     owner_call env ''nft_withdraw'' (\<lambda>owner. internal_nft_withdraw env owner (plain_nft token receiver token_id memo msg) False)"

definition mt_withdraw_call ::
  "'p host \<Rightarrow> account_id \<Rightarrow> account_id \<Rightarrow> string list \<Rightarrow> nat list \<Rightarrow> string option \<Rightarrow> string option \<Rightarrow> 'p contract \<Rightarrow>
   ('p contract \<times> 'p promise) result" where
  "mt_withdraw_call env token receiver token_ids amounts memo msg =
     owner_call env ''mt_withdraw'' (\<lambda>owner. internal_mt_withdraw env owner (plain_mt token receiver token_ids amounts memo msg) False)"

definition ft_force_withdraw ::
  "'p host \<Rightarrow> account_id \<Rightarrow> account_id \<Rightarrow> account_id \<Rightarrow> nat \<Rightarrow> string option \<Rightarrow> string option \<Rightarrow> 'p contract \<Rightarrow>
   ('p contract \<times> 'p promise) result" where
  "ft_force_withdraw env owner token receiver amount memo msg =
     operator_call env withdrawer_roles (internal_ft_withdraw env owner (plain_ft token receiver amount memo msg) True)"

definition nft_force_withdraw ::
  "'p host \<Rightarrow> account_id \<Rightarrow> account_id \<Rightarrow> account_id \<Rightarrow> string \<Rightarrow> string option \<Rightarrow> string option \<Rightarrow> 'p contract \<Rightarrow>
   ('p contract \<times> 'p promise) result" where
  "nft_force_withdraw env owner token receiver token_id memo msg =
     operator_call env withdrawer_roles (internal_nft_withdraw env owner (plain_nft token receiver token_id memo msg) True)"

definition mt_force_withdraw ::
  "'p host \<Rightarrow> account_id \<Rightarrow> account_id \<Rightarrow> account_id \<Rightarrow> string list \<Rightarrow> nat list \<Rightarrow> string option \<Rightarrow> string option \<Rightarrow>
   'p contract \<Rightarrow> ('p contract \<times> 'p promise) result" where
  "mt_force_withdraw env owner token receiver token_ids amounts memo msg =
     operator_call env withdrawer_roles (internal_mt_withdraw env owner (plain_mt token receiver token_ids amounts memo msg) True)"

subsection \<open>Resolving a withdrawal\<close>

text \<open>
  What the awaited transfer used. A failed or too long result of a \<open>transfer_call\<close> counts as
  used in full, an unreadable one as unused; a plain transfer must succeed with an empty result.
\<close>

definition call_outcome :: "'p host \<Rightarrow> json_shape \<Rightarrow> (byte list \<Rightarrow> 'v option) \<Rightarrow> 'v \<Rightarrow> 'v \<Rightarrow> 'v" where
  "call_outcome env shape decode failed unreadable = (case h_promise_result env (max_json_length_root shape) of
      None \<Rightarrow> failed
    | Some bs \<Rightarrow> (case decode bs of None \<Rightarrow> unreadable | Some v \<Rightarrow> v))"

definition ft_used :: "'p host \<Rightarrow> nat \<Rightarrow> bool \<Rightarrow> nat" where
  "ft_used env amount is_call =
     (if is_call then call_outcome env JU128 (\<lambda>bs. map_option (\<lambda>u. min u amount) (h_json_u128 env bs)) amount 0
      else if promise_void_ok env then amount else 0)"

definition ft_resolve_withdraw ::
  "'p host \<Rightarrow> account_id \<Rightarrow> account_id \<Rightarrow> nat \<Rightarrow> bool \<Rightarrow> 'p contract \<Rightarrow> ('p contract \<times> nat) result" where
  "ft_resolve_withdraw env token sender amount is_call c =
     bind_r (private_call env) (\<lambda>_.
     let used = ft_used env amount is_call; refund = amount - used in
     if refund > 0
     then bind_r (deposit env sender [(Nep141 token, refund)] (Some REFUND_MEMO) c) (\<lambda>c'. Inr (c', used))
     else Inr (c, used))"

definition nft_used :: "'p host \<Rightarrow> bool \<Rightarrow> bool" where
  "nft_used env is_call =
     (if is_call then call_outcome env JBool (h_json_bool env) True False else promise_void_ok env)"

definition nft_resolve_withdraw ::
  "'p host \<Rightarrow> account_id \<Rightarrow> account_id \<Rightarrow> string \<Rightarrow> bool \<Rightarrow> 'p contract \<Rightarrow> ('p contract \<times> bool) result" where
  "nft_resolve_withdraw env token sender token_id is_call c =
     bind_r (private_call env) (\<lambda>_.
     let used = nft_used env is_call in
     if \<not> used
     then bind_r (deposit env sender [(Nep171 token token_id, 1)] (Some REFUND_MEMO) c) (\<lambda>c'. Inr (c', used))
     else Inr (c, used))"

definition mt_used :: "'p host \<Rightarrow> nat list \<Rightarrow> bool \<Rightarrow> nat list" where
  "mt_used env amounts is_call =
     (let zeros = replicate (length amounts) 0 in
      if is_call then call_outcome env (JVec (length amounts) JU128)
        (\<lambda>bs. case h_json_u128s env bs of
           None \<Rightarrow> None | Some used \<Rightarrow> if length used = length amounts then Some used else None) amounts zeros
      else if promise_void_ok env then amounts else zeros)"

definition mt_resolve_withdraw ::
  "'p host \<Rightarrow> account_id \<Rightarrow> account_id \<Rightarrow> string list \<Rightarrow> nat list \<Rightarrow> bool \<Rightarrow> 'p contract \<Rightarrow>
   ('p contract \<times> nat list) result" where
  "mt_resolve_withdraw env token sender token_ids amounts is_call c =
     bind_r (private_call env) (\<lambda>_.
     bind_r (require_r (length token_ids = length amounts \<and> amounts \<noteq> []) (Panicked ''invalid args'')) (\<lambda>_.
     let used = map2 min (mt_used env amounts is_call) amounts;
         refunds = filter (\<lambda>(_, r). r > 0) (zip (map (Nep245 token) token_ids) (map2 (-) amounts used)) in
     bind_r (deposit env sender refunds (Some REFUND_MEMO) c) (\<lambda>c'. Inr (c', used))))"

subsection \<open>Deposits\<close>

definition parse_deposit_message :: "'p host \<Rightarrow> string \<Rightarrow> 'p deposit_message result" where
  "parse_deposit_message env s =
     (if s \<noteq> [] \<and> hd s = CHR ''{'' then ok_or (h_json_deposit env s) (Panicked ''JSON'')
      else bind_r (ok_or (h_parse env s) (Panicked ''account id'')) (\<lambda>a.
        Inr \<lparr> dm_receiver_id = a, dm_action = None \<rparr>))"

definition deposit_message_to_string :: "('p deposit_message \<Rightarrow> string) \<Rightarrow> 'p deposit_message \<Rightarrow> string" where
  "deposit_message_to_string to_json m = (case dm_action m of
      None \<Rightarrow> dm_receiver_id m
    | Some (Execute [] _) \<Rightarrow> dm_receiver_id m
    | Some _ \<Rightarrow> to_json m)"

text \<open>An empty message means a deposit to the sender.\<close>

definition deposit_message_of :: "'p host \<Rightarrow> account_id \<Rightarrow> string \<Rightarrow> 'p deposit_message result" where
  "deposit_message_of env sender msg =
     (if msg = [] then Inr \<lparr> dm_receiver_id = sender, dm_action = None \<rparr> else parse_deposit_message env msg)"

text \<open>
  The rest of a deposit: the tokens are credited, then the action of the message runs. \<open>resolve\<close>
  is the call that settles the deposit after a notification and \<open>no_refund\<close> what the method returns
  otherwise: nothing to refund.
\<close>

definition deposit_and_act ::
  "'p host \<Rightarrow> account_id \<Rightarrow> account_id list \<Rightarrow> (token_id \<times> nat) list \<Rightarrow> (account_id \<Rightarrow> call) \<Rightarrow> 'v \<Rightarrow>
   'p deposit_message \<Rightarrow> 'p contract \<Rightarrow> ('p contract \<times> ('p, 'v) promise_or_value) result" where
  "deposit_and_act env sender previous_owners tokens resolve no_refund m c =
     bind_r (deposit env (dm_receiver_id m) tokens (Some ''deposit'') c) (\<lambda>c1.
     case dm_action m of
       None \<Rightarrow> Inr (c1, ValueOf no_refund)
     | Some (Notify n) \<Rightarrow>
         bind_r (mt_resolve_deposit_gas (length tokens)) (\<lambda>g.
           Inr (c1, PromiseOf (PThen (notify_on_transfer_promise sender previous_owners (dm_receiver_id m)
             (map (token_to_string \<circ> fst) tokens) (map snd tokens) n)
             (self_call env (resolve (dm_receiver_id m)) g 0))))
     | Some (Execute payloads refund_if_fails) \<Rightarrow>
         if payloads = [] then Inr (c1, ValueOf no_refund)
         else if refund_if_fails
         then bind_r (execute_intents env payloads c1) (\<lambda>c2. Inr (c2, ValueOf no_refund))
         else Inr (detach (PReceipt (h_current env) [AExecuteIntents payloads 0 0 1]) c1, ValueOf no_refund))"

definition ft_on_transfer ::
  "'p host \<Rightarrow> account_id \<Rightarrow> nat \<Rightarrow> string \<Rightarrow> 'p contract \<Rightarrow> ('p contract \<times> ('p, nat) promise_or_value) result" where
  "ft_on_transfer env sender amount msg c =
     bind_r (not_paused env ''ft_on_transfer'') (\<lambda>_.
     bind_r (require_r (amount > 0) (Panicked ''zero amount'')) (\<lambda>_.
     bind_r (deposit_message_of env sender msg) (\<lambda>m.
       deposit_and_act env sender [sender] [(Nep141 (h_predecessor env), amount)]
         (\<lambda>r. FtResolveDeposit r (h_predecessor env) amount) 0 m c)))"

definition nft_on_transfer ::
  "'p host \<Rightarrow> account_id \<Rightarrow> account_id \<Rightarrow> string \<Rightarrow> string \<Rightarrow> 'p contract \<Rightarrow>
   ('p contract \<times> ('p, bool) promise_or_value) result" where
  "nft_on_transfer env sender previous_owner token_id msg c =
     bind_r (not_paused env ''nft_on_transfer'') (\<lambda>_.
     bind_r (require_r (length token_id \<le> MAX_TOKEN_ID_LEN) (TokenIdTooLarge (length token_id))) (\<lambda>_.
     bind_r (deposit_message_of env sender msg) (\<lambda>m.
       deposit_and_act env sender [previous_owner] [(Nep171 (h_predecessor env) token_id, 1)]
         (\<lambda>r. NftResolveDeposit r (h_predecessor env) token_id) False m c)))"

text \<open>The source tests the length of each id when the loop of the deposit reaches it; a failure
  aborts the call either way, so only the message of the abort depends on that order.\<close>

definition mt_on_transfer ::
  "'p host \<Rightarrow> account_id \<Rightarrow> account_id list \<Rightarrow> string list \<Rightarrow> nat list \<Rightarrow> string \<Rightarrow> 'p contract \<Rightarrow>
   ('p contract \<times> ('p, nat list) promise_or_value) result" where
  "mt_on_transfer env sender previous_owners token_ids amounts msg c =
     bind_r (not_paused env ''mt_on_transfer'') (\<lambda>_.
     bind_r (require_r (amounts \<noteq> []) (Panicked ''invalid args'')) (\<lambda>_.
     bind_r (require_r (length token_ids = length amounts) (Panicked ''NEP-245: token_ids'')) (\<lambda>_.
     bind_r (require_r (length previous_owners = length token_ids) (Panicked ''NEP-245: previous_owner_ids'')) (\<lambda>_.
     bind_r (require_r (h_predecessor env \<noteq> h_current env) (Panicked ''self-wrapping is not allowed'')) (\<lambda>_.
     bind_r (deposit_message_of env sender msg) (\<lambda>m.
     bind_r (fold_r (\<lambda>t _. require_r (length t \<le> MAX_TOKEN_ID_LEN) (TokenIdTooLarge (length t))) token_ids ()) (\<lambda>_.
       deposit_and_act env sender previous_owners (zip (map (Nep245 (h_predecessor env)) token_ids) amounts)
         (\<lambda>r. MtResolveDeposit r (h_predecessor env) token_ids amounts) (replicate (length token_ids) 0) m c)))))))"

subsection \<open>Burning\<close>

definition imt_burn_call ::
  "'p host \<Rightarrow> account_id \<Rightarrow> string amounts \<Rightarrow> string option \<Rightarrow> 'p contract \<Rightarrow> 'p contract result" where
  "imt_burn_call env minter tokens memo =
     owner_call env ''imt_burn'' (\<lambda>owner c.
       bind_r (imt_burn (contract_ops env) owner minter tokens memo c) (\<lambda>c'.
         Inr (add_log (LDefuse (EImtBurn [fn_call_event owner
           \<lparr> ib_minter_id = minter, ib_tokens = tokens, ib_memo = memo \<rparr>])) c')))"

end
