(* ===== verification/AdminHandlers.thy ===== *)
theory AdminHandlers
  imports TokenGateway
begin

text \<open>
  The methods that manage accounts and the contract itself: keys and authorization of the caller
  (\<open>contract/accounts/mod.rs\<close>), the forced operations on accounts (\<open>accounts/force.rs\<close>), fees
  (\<open>fees.rs\<close>), salts (\<open>salts.rs\<close>), the garbage collection of nonces (\<open>garbage_collector.rs\<close>),
  relayer keys (\<open>intents/relayer.rs\<close>) and full access keys (\<open>admin.rs\<close>). Errors the code omits
  leave the state as it is.
\<close>

subsection \<open>Accounts of the caller\<close>

definition add_public_key_and_emit :: "'p host \<Rightarrow> account_id \<Rightarrow> public_key \<Rightarrow> 'p contract \<Rightarrow> 'p contract result" where
  "add_public_key_and_emit env a pk c =
     bind_r (contract_add_public_key env a pk c) (\<lambda>c'.
       Inr (add_log (LDefuse (EPublicKeyAdded (fn_call_event a pk))) c'))"

definition remove_public_key_and_emit :: "'p host \<Rightarrow> account_id \<Rightarrow> public_key \<Rightarrow> 'p contract \<Rightarrow> 'p contract result" where
  "remove_public_key_and_emit env a pk c =
     bind_r (contract_remove_public_key env a pk c) (\<lambda>c'.
       Inr (add_log (LDefuse (EPublicKeyRemoved (fn_call_event a pk))) c'))"

definition set_auth_and_emit ::
  "'p host \<Rightarrow> account_id \<Rightarrow> bool \<Rightarrow> bool \<Rightarrow> 'p contract \<Rightarrow> ('p contract \<times> bool) result" where
  "set_auth_and_emit env a enable force c =
     bind_r (internal_set_auth env a enable force c) (\<lambda>(c', toggled).
       Inr (if toggled then add_log (LDefuse (ESetAuthByPredecessorId (fn_call_event a enable))) c' else c', toggled))"

definition caller_call :: "'p host \<Rightarrow> (account_id \<Rightarrow> 'p contract \<Rightarrow> 'r result) \<Rightarrow> 'p contract \<Rightarrow> 'r result" where
  "caller_call env f c =
     bind_r (assert_one_yocto env) (\<lambda>_. bind_r (ensure_auth_predecessor_id env c) (\<lambda>a. f a c))"

definition add_public_key :: "'p host \<Rightarrow> public_key \<Rightarrow> 'p contract \<Rightarrow> 'p contract result" where
  "add_public_key env pk = caller_call env (\<lambda>a. add_public_key_and_emit env a pk)"

definition remove_public_key :: "'p host \<Rightarrow> public_key \<Rightarrow> 'p contract \<Rightarrow> 'p contract result" where
  "remove_public_key env pk = caller_call env (\<lambda>a. remove_public_key_and_emit env a pk)"

definition disable_auth_by_predecessor_id :: "'p host \<Rightarrow> 'p contract \<Rightarrow> 'p contract result" where
  "disable_auth_by_predecessor_id env =
     caller_call env (\<lambda>a c. bind_r (set_auth_and_emit env a False False c) (\<lambda>(c', _). Inr c'))"

subsection \<open>Forced operations on accounts\<close>

definition locker_roles :: "role list" where
  "locker_roles = [DAO, UnrestrictedAccountLocker, UnrestrictedAccountManager]"

definition unlocker_roles :: "role list" where
  "unlocker_roles = [DAO, UnrestrictedAccountUnlocker, UnrestrictedAccountManager]"

definition force_lock_account :: "'p host \<Rightarrow> account_id \<Rightarrow> 'p contract \<Rightarrow> ('p contract \<times> bool) result" where
  "force_lock_account env a = operator_call env locker_roles (\<lambda>c.
     case get_or_create env a c of (c1, l) \<Rightarrow> (case lock_lock l of
         None \<Rightarrow> Inr (c1, False)
       | Some l' \<Rightarrow> Inr (add_log (LDefuse (EAccountLocked a)) (put_account a l' c1), True)))"

definition force_unlock_account :: "'p host \<Rightarrow> account_id \<Rightarrow> 'p contract \<Rightarrow> ('p contract \<times> bool) result" where
  "force_unlock_account env a = operator_call env unlocker_roles (\<lambda>c.
     case Option.bind (map_of (c_accounts c) a) lock_unlock of
         None \<Rightarrow> Inr (c, False)
       | Some l' \<Rightarrow> Inr (add_log (LDefuse (EAccountUnlocked a)) (put_account a l' c), True))"

text \<open>A call whose error is ignored.\<close>

definition or_unchanged :: "('p contract \<times> 'r) result \<Rightarrow> 'p contract \<Rightarrow> 'p contract" where
  "or_unchanged r c = (case r of Inl _ \<Rightarrow> c | Inr (c', _) \<Rightarrow> c')"

definition force_disable_auth_by_predecessor_ids :: "'p host \<Rightarrow> account_id list \<Rightarrow> 'p contract \<Rightarrow> 'p contract result" where
  "force_disable_auth_by_predecessor_ids env as = operator_call env locker_roles (\<lambda>c.
     Inr (fold (\<lambda>a c. or_unchanged (set_auth_and_emit env a False True c) c) as c))"

definition force_enable_auth_by_predecessor_ids :: "'p host \<Rightarrow> account_id list \<Rightarrow> 'p contract \<Rightarrow> 'p contract result" where
  "force_enable_auth_by_predecessor_ids env as = operator_call env unlocker_roles (\<lambda>c.
     Inr (fold (\<lambda>a c. or_unchanged (set_auth_and_emit env a True True c) c) as c))"

definition force_add_public_keys :: "'p host \<Rightarrow> (account_id \<times> public_key list) list \<Rightarrow> 'p contract \<Rightarrow> 'p contract result" where
  "force_add_public_keys env public_keys = operator_call env [DAO, UnrestrictedAccountManager]
     (fold_r (\<lambda>(a, pks). fold_r (add_public_key_and_emit env a) pks) public_keys)"

definition force_remove_public_keys :: "'p host \<Rightarrow> (account_id \<times> public_key list) list \<Rightarrow> 'p contract \<Rightarrow> 'p contract result" where
  "force_remove_public_keys env public_keys = operator_call env [DAO, UnrestrictedAccountManager]
     (fold_r (\<lambda>(a, pks). fold_r (remove_public_key_and_emit env a) pks) public_keys)"

subsection \<open>Fees\<close>

definition set_fee :: "'p host \<Rightarrow> pips \<Rightarrow> 'p contract \<Rightarrow> 'p contract result" where
  "set_fee env new_fee c =
     bind_r (not_paused env ''intents'') (\<lambda>_.
     operator_call env [DAO, FeesManager] (\<lambda>c.
       bind_r (require_r (c_fee c \<noteq> new_fee) (Panicked ''same'')) (\<lambda>_.
         Inr (add_log (LDefuse (EFeeChanged (c_fee c) new_fee)) (c\<lparr>c_fee := new_fee\<rparr>)))) c)"

definition set_fee_collector :: "'p host \<Rightarrow> account_id \<Rightarrow> 'p contract \<Rightarrow> 'p contract result" where
  "set_fee_collector env new_collector c =
     bind_r (not_paused env ''intents'') (\<lambda>_.
     operator_call env [DAO, FeesManager] (\<lambda>c.
       bind_r (require_r (c_fee_collector c \<noteq> new_collector) (Panicked ''same'')) (\<lambda>_.
         Inr (add_log (LDefuse (EFeeCollectorChanged (c_fee_collector c) new_collector))
           (c\<lparr>c_fee_collector := new_collector\<rparr>)))) c)"

subsection \<open>Salts\<close>

definition update_current_salt :: "'p host \<Rightarrow> 'p contract \<Rightarrow> ('p contract \<times> salt) result" where
  "update_current_salt env = operator_call env [DAO, SaltManager] (\<lambda>c.
     bind_r (salt_set_new (h_codecs env) (h_seed env) (c_salts c)) (\<lambda>(r, _).
       Inr (add_log (LDefuse (ESaltRotation (sr_current r) [])) (c\<lparr>c_salts := r\<rparr>), sr_current r)))"

text \<open>The salts that could be invalidated are reported; the source sorts them.\<close>

definition invalidate_step :: "'p host \<Rightarrow> salt \<Rightarrow> salt_registry \<times> salt list \<Rightarrow> salt_registry \<times> salt list" where
  "invalidate_step env s p = (case salt_invalidate (h_codecs env) (h_seed env) s (fst p) of
      Inl _ \<Rightarrow> p | Inr r \<Rightarrow> (r, fst (set_insert s (snd p))))"

definition invalidate_salts :: "'p host \<Rightarrow> salt list \<Rightarrow> 'p contract \<Rightarrow> ('p contract \<times> salt) result" where
  "invalidate_salts env salts = operator_call env [DAO, SaltManager] (\<lambda>c.
     case fold (invalidate_step env) salts (c_salts c, []) of (r, invalidated) \<Rightarrow>
       Inr (add_log (LDefuse (ESaltRotation (sr_current r) invalidated)) (c\<lparr>c_salts := r\<rparr>), sr_current r))"

subsection \<open>Garbage collection\<close>

definition is_nonce_cleanable :: "'p host \<Rightarrow> 'p contract \<Rightarrow> nonce \<Rightarrow> bool" where
  "is_nonce_cleanable env c n = (case maybe_from (ev_from_nanos (h_engine env)) n of
      None \<Rightarrow> False
    | Some (V1 s) \<Rightarrow> en_deadline (sn_nonce s) < ev_now (h_engine env) \<or> \<not> salt_is_valid (c_salts c) (sn_salt s))"

definition cleanup_nonce :: "'p host \<Rightarrow> account_id \<Rightarrow> nonce \<Rightarrow> 'p contract \<Rightarrow> 'p contract" where
  "cleanup_nonce env a n c =
     (if is_nonce_cleanable env c n then or_unchanged (contract_cleanup_nonce_by_prefix a (butlast n) c) c else c)"

definition cleanup_nonces :: "'p host \<Rightarrow> (account_id \<times> nonce list) list \<Rightarrow> 'p contract \<Rightarrow> 'p contract result" where
  "cleanup_nonces env nonces = operator_call env [DAO, GarbageCollector] (\<lambda>c.
     Inr (fold (\<lambda>(a, ns). fold (cleanup_nonce env a) ns) nonces c))"

subsection \<open>Keys of the contract's own account\<close>

definition add_relayer_key :: "'p host \<Rightarrow> string \<Rightarrow> 'p contract \<Rightarrow> ('p contract \<times> 'p promise) result" where
  "add_relayer_key env pk c =
     bind_r (not_paused env ''intents'') (\<lambda>_.
     operator_call env [DAO, RelayerKeysManager] (\<lambda>c.
       Inr (c, PReceipt (h_current env)
         [ACall (DoAddRelayerKey pk) 0 0 1, AAddAccessKey pk (h_current env) ''execute_intents''])) c)"

definition do_add_relayer_key :: "'p host \<Rightarrow> string \<Rightarrow> 'p contract \<Rightarrow> 'p contract result" where
  "do_add_relayer_key env pk c =
     bind_r (private_call env) (\<lambda>_.
     case set_insert pk (c_relayer_keys c) of (ks, b) \<Rightarrow>
     bind_r (require_r b (Panicked ''key already exists'')) (\<lambda>_. Inr (c\<lparr>c_relayer_keys := ks\<rparr>)))"

definition delete_relayer_key :: "'p host \<Rightarrow> string \<Rightarrow> 'p contract \<Rightarrow> ('p contract \<times> 'p promise) result" where
  "delete_relayer_key env pk c =
     bind_r (not_paused env ''intents'') (\<lambda>_.
     operator_call env [DAO, RelayerKeysManager] (\<lambda>c.
       case set_remove pk (c_relayer_keys c) of (ks, b) \<Rightarrow>
       bind_r (require_r b (Panicked ''key not found'')) (\<lambda>_.
         Inr (c\<lparr>c_relayer_keys := ks\<rparr>, PReceipt (h_current env) [ADeleteKey pk]))) c)"

definition add_full_access_key :: "'p host \<Rightarrow> string \<Rightarrow> 'p contract \<Rightarrow> 'p promise result" where
  "add_full_access_key env pk = operator_call env [DAO] (\<lambda>c. Inr (PReceipt (h_current env) [AAddFullAccessKey pk]))"

definition delete_key :: "'p host \<Rightarrow> string \<Rightarrow> 'p contract \<Rightarrow> 'p promise result" where
  "delete_key env pk = operator_call env [DAO] (\<lambda>c. Inr (PReceipt (h_current env) [ADeleteKey pk]))"

end
