(* ===== verification/TokenLaws.thy ===== *)
theory TokenLaws
  imports AdminHandlers
begin

text \<open>
  What the methods that move tokens do to the state: exactly which balances change, that supply
  and holdings stay in step, and that nonces and configuration are left alone.
\<close>

subsection \<open>Nonces and configuration\<close>

definition config :: "'p contract \<Rightarrow> salt_registry \<times> pips \<times> account_id \<times> account_id \<times> string list" where
  "config c = (c_salts c, c_fee c, c_fee_collector c, c_wnear_id c, c_relayer_keys c)"

text \<open>The relation between the states before and after moving tokens.\<close>

definition token_rel :: "'p host \<Rightarrow> 'p contract \<Rightarrow> 'p contract \<Rightarrow> bool" where
  "token_rel env c c' \<longleftrightarrow> keeps_gap env c c' \<and> contract_is_nonce_used c' = contract_is_nonce_used c \<and> config c' = config c"

lemma token_rel_refl [simp]: "token_rel env c c"
  by (simp add: token_rel_def)

lemma token_rel_trans: "token_rel env c d \<Longrightarrow> token_rel env d e \<Longrightarrow> token_rel env c e"
  unfolding token_rel_def using keeps_gap_trans by metis

lemma config_simps [simp]:
  "config (put_account a l c) = config c" "config (put_inner a l x c) = config c"
  "config (set_balances env a m c) = config c" "config (c\<lparr>c_total_supplies := s\<rparr>) = config c"
  "config (add_log e c) = config c" "config (detach p c) = config c" "config (add_logs es c) = config c"
  "config (c\<lparr>c_postponed_burns := bs\<rparr>) = config c" "config (fst (get_or_create env a c)) = config c"
  by (simp_all add: config_def put_account_def put_inner_def set_balances_def Let_def add_log_def detach_def add_logs_def
      get_or_create_def)

lemma nonce_used_put_inner:
  "ac_nonces x = ac_nonces (lk_value (account_or_new env a c)) \<Longrightarrow>
     contract_is_nonce_used (put_inner a l x c) = contract_is_nonce_used c"
  by (auto simp: fun_eq_iff views_alt(1) [of _ _ _ env] account_is_nonce_used_def write_inner_def)

lemma nonce_used_simps [simp]:
  "contract_is_nonce_used (set_balances env a m c) = contract_is_nonce_used c"
  "contract_is_nonce_used (c\<lparr>c_total_supplies := s\<rparr>) = contract_is_nonce_used c"
  "contract_is_nonce_used (add_log e c) = contract_is_nonce_used c"
  "contract_is_nonce_used (add_logs es c) = contract_is_nonce_used c"
  "contract_is_nonce_used (detach p c) = contract_is_nonce_used c"
  "contract_is_nonce_used (c\<lparr>c_postponed_burns := bs\<rparr>) = contract_is_nonce_used c"
  "contract_is_nonce_used (fst (get_or_create env a c)) = contract_is_nonce_used c"
  by (simp_all add: fun_eq_iff views_alt(1) [of _ _ _ env] write_inner_def account_is_nonce_used_def)

lemma token_rel_simps [simp]:
  "token_rel env c (add_log e d) = token_rel env c d"
  "token_rel env c (detach p d) = token_rel env c d"
  "token_rel env c (d\<lparr>c_postponed_burns := bs\<rparr>) = token_rel env c d"
  by (auto simp: token_rel_def same_gap_def)

lemma token_rel_created: "token_rel env (fst (get_or_create env a c)) d \<Longrightarrow> token_rel env c d"
  using get_or_create_ok [of env c a] by (auto simp: token_rel_def same_gap_def)

subsection \<open>Deposits and withdrawals\<close>

lemma deposit_token_rel: "deposit env a ts memo c = Inr c' \<Longrightarrow> token_rel env c c'"
proof -
  assume d: "deposit env a ts memo c = Inr c'"
  then obtain c1 where f: "fold_r (deposit_step env a) ts (fst (get_or_create env a c)) = Inr c1"
    and c': "c' = c1 \<or> (\<exists>e. c' = add_log e c1)"
    by (auto simp: deposit_def result_simps emit_checked_Inr split: if_splits)
  have "contract_is_nonce_used c1 = contract_is_nonce_used (fst (get_or_create env a c)) \<and>
      config c1 = config (fst (get_or_create env a c))"
    by (rule fold_r_rel [OF f, where R = "\<lambda>c d. contract_is_nonce_used d = contract_is_nonce_used c \<and> config d = config c"])
      (auto simp: deposit_step_def result_simps)
  with c' keepsD [OF deposit_gap d] show ?thesis by (auto simp: token_rel_def)
qed

lemma withdraw_token_rel: "withdraw env a ts memo force c = Inr c' \<Longrightarrow> token_rel env c c'"
proof -
  assume w: "withdraw env a ts memo force c = Inr c'"
  then obtain c1 where f: "fold_r (withdraw_step env a) ts c = Inr c1"
    and c': "c' = c1 \<or> (\<exists>bs. c' = c1\<lparr>c_postponed_burns := bs\<rparr>)"
    by (auto simp: withdraw_def result_simps split: if_splits)
  have "contract_is_nonce_used c1 = contract_is_nonce_used c \<and> config c1 = config c"
    by (rule fold_r_rel [OF f, where R = "\<lambda>c d. contract_is_nonce_used d = contract_is_nonce_used c \<and> config d = config c"])
      (auto simp: withdraw_step_def result_simps)
  with c' keepsD [OF withdraw_gap w] show ?thesis by (auto simp: token_rel_def)
qed

lemma internal_withdraw_token_rel:
  "internal_ft_withdraw env a fw force c = Inr (c', p) \<Longrightarrow> token_rel env c c'"
  "internal_nft_withdraw env a nw force c = Inr (c', p) \<Longrightarrow> token_rel env c c'"
  "internal_mt_withdraw env a mw force c = Inr (c', p) \<Longrightarrow> token_rel env c c'"
  by (drule internal_withdraw_Inr, erule withdraw_token_rel)+

subsection \<open>Transfers\<close>

lemma amounts_sub_spec:
  "amounts_u128 m \<Longrightarrow> amounts_sub t n m = Some (m', x) \<Longrightarrow>
     amounts_u128 m' \<and> n \<le> amount_for m t \<and> amount_for m' u = (if u = t then amount_for m t - n else amount_for m u)"
  by (auto simp: amounts_u128_sub amounts_sub_Some)

lemma amounts_add_spec:
  "amounts_u128 m \<Longrightarrow> amounts_add t n m = Some (m', x) \<Longrightarrow>
     amounts_u128 m' \<and> amount_for m' u = (if u = t then amount_for m t + n else amount_for m u)"
  by (auto simp: amounts_u128_add amounts_add_Some)

text \<open>The balances after moving \<open>ts\<close> from one account to another.\<close>

definition moved :: "account_id \<Rightarrow> account_id \<Rightarrow> (token_id \<times> nat) list \<Rightarrow> 'p contract \<Rightarrow> 'p contract \<Rightarrow> bool" where
  "moved sender receiver ts c c' \<longleftrightarrow>
     (\<forall>a t. int (contract_balance_of c' a t) = int (contract_balance_of c a t) -
        (if a = sender then int (list_amount ts t) else 0) + (if a = receiver then int (list_amount ts t) else 0)) \<and>
     c_total_supplies c' = c_total_supplies c"

lemma moved_Nil [simp]: "moved s r [] c c"
  by (simp add: moved_def)

lemma moved_Cons: "moved s r [p] c d \<Longrightarrow> moved s r ts d e \<Longrightarrow> moved s r (p # ts) c e"
  by (cases p) (auto simp: moved_def)

lemma moved_logs [simp]: "moved s r ts c (add_log e d) = moved s r ts c d"
  by (simp add: moved_def contract_balance_of_def add_log_def)

lemma balance_set_balances [simp]:
  "contract_balance_of (set_balances env a m c) b t = (if b = a then amount_for m t else contract_balance_of c b t)"
  by (simp add: contract_balance_alt [of _ _ _ env] lock_balance_def write_inner_def)

text \<open>Subtracting from one account and adding to another, as transfers and their refunds do.\<close>

lemma move_spec:
  assumes ok: "contract_ok env c" and sub: "amounts_sub t n (balances_of env s c) = Some (m, x)"
    and c1: "c1 = set_balances env s m c" and add: "amounts_add t n (balances_of env r c1) = Some (m', y)"
    and c': "c' = set_balances env r m' c1"
  shows "contract_ok env c' \<and> token_rel env c c' \<and> moved s r [(t, n)] c c'"
proof -
  have m: "amounts_u128 m" "amount_for m u = (if u = t then amount_for (balances_of env s c) t - n else amount_for (balances_of env s c) u)"
    and n: "n \<le> amount_for (balances_of env s c) t" for u
    using amounts_sub_spec [OF balances_u128 [OF ok] sub] by auto
  have ok1: "contract_ok env c1" unfolding c1 using ok m(1) by (rule set_balances_ok)
  have m': "amounts_u128 m'" "amount_for m' u = (if u = t then amount_for (balances_of env r c1) t + n else amount_for (balances_of env r c1) u)" for u
    using amounts_add_spec [OF balances_u128 [OF ok1] add] by auto
  have ok': "contract_ok env c'" unfolding c' using ok1 m'(1) by (rule set_balances_ok)
  have mv: "moved s r [(t, n)] c c'"
    using n by (auto simp: moved_def c' c1 m(2) m'(2) balances_of_amount)
  have "int (held c' u) = int (held c u)" for u
    using n unfolding c' c1 set_balances_held by (auto simp: m(2) m'(2) [unfolded c1] balances_of_amount)
  then have "contract_gap c' = contract_gap c" by (simp add: contract_gap_def fun_eq_iff c' c1)
  with ok' mv show ?thesis by (simp add: token_rel_def same_gap_def c' c1)
qed

text \<open>The token ids of a batch, when all of them parse.\<close>

fun parse_all :: "'p host \<Rightarrow> string list \<Rightarrow> token_id list option" where
  "parse_all env [] = Some []"
| "parse_all env (s # ss) = (case parse_ok env s of
      None \<Rightarrow> None
    | Some t \<Rightarrow> map_option ((#) t) (parse_all env ss))"

lemma parse_ok_Some: "parse_ok env s = Some t \<longleftrightarrow> token_from_str (h_parse env) s = Inr t"
  by (auto simp: parse_ok_def split: sum.splits)

lemma locked_set_balances [simp]:
  "contract_is_account_locked (set_balances env a m c) = contract_is_account_locked c"
  by (auto simp: fun_eq_iff views_alt(2) [of _ _ env] write_inner_def)

lemma transfer_step_spec:
  assumes "transfer_step env s r force (token_id, n) c = Inr c'" and "contract_ok env c"
  shows "\<exists>t. parse_ok env token_id = Some t \<and> contract_ok env c' \<and> token_rel env c c' \<and> moved s r [(t, n)] c c' \<and>
    (force \<or> \<not> contract_is_account_locked c s) \<and> contract_is_account_locked c' = contract_is_account_locked c"
proof -
  obtain t where str: "token_from_str (h_parse env) token_id = Inr t"
    using assms(1) by (cases "token_from_str (h_parse env) token_id") (simp_all add: transfer_step_def bind_r_def require_r_def split: if_splits)
  then have t: "parse_ok env token_id = Some t" by (simp add: parse_ok_Some)
  have run: "bind_r (ok_or (map_of (c_accounts c) s) (AccountNotFound s)) (\<lambda>l.
     bind_r (ok_or (get_mut_maybe_forced force l) (AccountLocked s)) (\<lambda>_.
     bind_r (ok_or (amounts_sub t n (balances_of env s c)) BalanceOverflow) (\<lambda>(m, _).
     bind_r (ok_or (amounts_add t n (balances_of env r (set_balances env s m c))) BalanceOverflow) (\<lambda>(m', _).
       Inr (set_balances env r m' (set_balances env s m c)))))) = Inr c'"
    using assms(1) by (simp add: transfer_step_def str Let_def require_r_def split: if_splits)
  obtain l where l: "map_of (c_accounts c) s = Some l" and lock: "force \<or> \<not> is_locked l"
    using run by (auto simp: bind_r_Inr ok_or_Inr get_mut_maybe_forced_def lock_get_def split: if_splits)
  obtain m x where sub: "amounts_sub t n (balances_of env s c) = Some (m, x)"
    using run by (auto simp: bind_r_Inr ok_or_Inr)
  obtain m' y where add: "amounts_add t n (balances_of env r (set_balances env s m c)) = Some (m', y)"
    and c': "c' = set_balances env r m' (set_balances env s m c)"
    using run by (auto simp: bind_r_Inr ok_or_Inr sub)
  have "contract_is_account_locked c s = is_locked l" using l by (simp add: contract_is_account_locked_def)
  with t lock move_spec [OF assms(2) sub refl add c'] show ?thesis by (auto simp: c')
qed

lemma transfer_fold_spec:
  assumes "fold_r (transfer_step env s r force) (zip ids amounts) c = Inr c'" and "contract_ok env c"
    and "length ids = length amounts"
  shows "\<exists>ts. parse_all env ids = Some ts \<and> contract_ok env c' \<and> token_rel env c c' \<and>
    moved s r (zip ts amounts) c c' \<and> (force \<or> ids = [] \<or> \<not> contract_is_account_locked c s)"
  using assms(3,1,2)
proof (induction ids amounts arbitrary: c rule: list_induct2)
  case (Cons i ids n amounts)
  obtain d where d: "transfer_step env s r force (i, n) c = Inr d"
    and rest: "fold_r (transfer_step env s r force) (zip ids amounts) d = Inr c'"
    using Cons.prems(1) by (auto simp: result_simps)
  obtain t where t: "parse_ok env i = Some t" and ok: "contract_ok env d" and rel: "token_rel env c d"
    and mv: "moved s r [(t, n)] c d" and lock: "force \<or> \<not> contract_is_account_locked c s"
    using transfer_step_spec [OF d Cons.prems(2)] by blast
  obtain ts where "parse_all env ids = Some ts" "contract_ok env c'" "token_rel env d c'" "moved s r (zip ts amounts) d c'"
    using Cons.IH [OF rest ok] by blast
  with t rel mv lock show ?case
    using token_rel_trans moved_Cons by (intro exI [of _ "t # ts"]) (auto intro: token_rel_trans moved_Cons)
qed simp

lemma internal_transfer_spec:
  assumes "internal_mt_batch_transfer env s r ids amounts memo force c = Inr c'" and "contract_ok env c"
  shows "\<exists>ts. parse_all env ids = Some ts \<and> contract_ok env c' \<and> token_rel env c c' \<and> s \<noteq> r \<and>
    moved s r (zip ts amounts) c c' \<and> (force \<or> \<not> contract_is_account_locked c s)"
proof -
  obtain d e where d: "fold_r (transfer_step env s r force) (zip ids amounts) c = Inr d" and c': "c' = add_log e d"
    and args: "s \<noteq> r" "length ids = length amounts" "amounts \<noteq> []"
    using assms(1) by (auto simp: internal_mt_batch_transfer_def result_simps emit_checked_Inr)
  from transfer_fold_spec [OF d assms(2) args(2)] args show ?thesis by (auto simp: c')
qed

text \<open>C34: a transfer requested by a caller moves exactly the given amounts of the given tokens
  from the caller to the receiver, and changes no other balance, no supply, no nonce and no
  setting; the caller has authorization by predecessor enabled and is not locked.\<close>

theorem mt_batch_transfer_effect:
  assumes "mt_batch_transfer env receiver ids amounts approvals memo c = Inr c'" and "contract_ok env c"
  shows "\<exists>ts. parse_all env ids = Some ts \<and> moved (h_predecessor env) receiver (zip ts amounts) c c' \<and>
    contract_ok env c' \<and> contract_is_nonce_used c' = contract_is_nonce_used c \<and> config c' = config c \<and>
    h_predecessor env \<noteq> receiver \<and> contract_is_auth_enabled c (h_predecessor env) \<and>
    \<not> contract_is_account_locked c (h_predecessor env)"
proof -
  have t: "internal_mt_batch_transfer env (h_predecessor env) receiver ids amounts memo False c = Inr c'"
    and auth: "contract_is_auth_enabled c (h_predecessor env)"
    using assms(1) by (auto simp: mt_batch_transfer_def result_simps ensure_auth_predecessor_id_def split: if_splits)
  from internal_transfer_spec [OF t assms(2)] auth show ?thesis by (auto simp: token_rel_def)
qed

subsection \<open>Resolving transfers\<close>

lemma backed_supply: "contract_ok env c \<Longrightarrow> backed c \<Longrightarrow> held c t \<le> u_max 128"
  by (metis backed_def contract_ok_def supplies_ok_def amounts_u128_def)

lemma backed_rel: "contract_ok env c \<Longrightarrow> token_rel env c c' \<Longrightarrow> backed c \<Longrightarrow> backed c'"
  by (simp add: token_rel_def same_gap_def backed_gap)

text \<open>When all supply is held by accounts, what an account has can always be moved to another.\<close>

lemma move_possible:
  assumes "contract_ok env c" and "backed c" and n: "n \<le> contract_balance_of c s t"
  shows "\<exists>m x m' y. amounts_sub t n (balances_of env s c) = Some (m, x) \<and>
    amounts_add t n (balances_of env r (set_balances env s m c)) = Some (m', y)"
proof -
  have "amount_for (balances_of env s c) t \<le> u_max 128"
    using balances_u128 [OF assms(1)] by (simp add: amounts_u128_def)
  then obtain m x where sub: "amounts_sub t n (balances_of env s c) = Some (m, x)"
    using n amounts_sub_None [of "balances_of env s c" t n] by (auto simp: balances_of_amount)
  then have m: "amount_for m t = contract_balance_of c s t - n"
    using amounts_sub_spec [OF balances_u128 [OF assms(1)] sub, of t] by (simp add: balances_of_amount)
  let ?c1 = "set_balances env s m c"
  have "int (held ?c1 t) + int n = int (held c t)" using n by (simp add: set_balances_held m)
  moreover have "contract_balance_of ?c1 r t \<le> held ?c1 t" by (rule held_ge_balance)
  ultimately have "amount_for (balances_of env r ?c1) t + n \<le> u_max 128"
    using backed_supply [OF assms(1,2), of t] unfolding balances_of_amount by linarith
  with sub show ?thesis
    using amounts_add_None [of t n "balances_of env r ?c1"] by (cases "amounts_add t n (balances_of env r ?c1)") auto
qed

text \<open>
  What one refund does: it is what was requested, capped by the amount, unless the receiver has not
  that much left; then it is all that is left. A refund to the receiver itself moves nothing.
\<close>

definition refunded :: "'p contract \<Rightarrow> account_id \<Rightarrow> account_id \<Rightarrow> token_id \<times> string \<times> account_id \<times> nat \<times> nat \<Rightarrow> nat \<Rightarrow> bool" where
  "refunded c' sender receiver x used = (case x of (t, _, _, amount, requested) \<Rightarrow> used \<le> amount \<and>
     amount - used \<le> requested \<and> (amount - used = min requested amount \<or>
       contract_balance_of c' receiver t = (if sender = receiver then amount - used else 0)))"

lemma refunded_later:
  assumes "moved receiver sender ts c c'" and "refunded c sender receiver x u"
  shows "refunded c' sender receiver x u"
proof -
  have same: "sender = receiver \<Longrightarrow> contract_balance_of c' receiver t = contract_balance_of c receiver t" for t
    using assms(1) by (simp add: moved_def)
  have "contract_balance_of c' receiver t = 0" if "contract_balance_of c receiver t = 0" and ne: "sender \<noteq> receiver" for t
  proof -
    have "int (contract_balance_of c' receiver t) = int (contract_balance_of c receiver t) - int (list_amount ts t)"
      using assms(1) ne by (simp add: moved_def)
    with that show ?thesis by simp
  qed
  then show ?thesis using assms(2) same by (auto simp: refunded_def split: prod.splits if_splits)
qed

lemma parse_all_length: "parse_all env ss = Some ts \<Longrightarrow> length ts = length ss"
  by (induction ss arbitrary: ts) (auto split: option.splits)

text \<open>A receiver without an account has nothing to give back.\<close>

lemma no_refunds:
  assumes "length ts = length xs" and "\<And>t. contract_balance_of c receiver t = 0"
  shows "moved receiver sender (zip ts (map2 (\<lambda>(_, _, n, _) u. n - u) xs (map (\<lambda>(_, _, n, _). n) xs))) c c \<and>
    list_all2 (refunded c sender receiver) (zip ts xs) (map (\<lambda>(_, _, n, _). n) xs)"
  using assms(1)
proof (induction ts xs rule: list_induct2)
  case (Cons t ts x xs)
  have "moved receiver sender [(t, 0)] c c" by (simp add: moved_def)
  with Cons assms(2) show ?case by (cases x) (auto intro: moved_Cons simp: refunded_def)
qed simp

lemma resolve_loop_spec:
  assumes "contract_ok env c" and "backed c"
    and "\<forall>(i, p, n, q) \<in> set xs. p = sender" and "parse_all env (map fst xs) = Some ts"
  shows "\<exists>c' used refunds b. resolve_loop env sender receiver xs c = Inr (c', used, refunds, b) \<and>
    contract_ok env c' \<and> token_rel env c c' \<and>
    moved receiver sender (zip ts (map2 (\<lambda>(_, _, n, _) u. n - u) xs used)) c c' \<and>
    list_all2 (refunded c' sender receiver) (zip ts xs) used"
  using assms
proof (induction xs arbitrary: c ts)
  case (Cons x xs)
  obtain i p n q where x: "x = (i, p, n, q)" by (cases x)
  obtain t us where t: "parse_ok env i = Some t" and us: "parse_all env (map fst xs) = Some us" and ts: "ts = t # us"
    using Cons.prems(4) by (auto simp: x split: option.splits)
  have p: "p = sender" using Cons.prems(3) by (simp add: x)
  show ?case
  proof (cases "map_of (c_accounts c) receiver")
    case None
    have "contract_balance_of c receiver u = 0" for u using None by (simp add: contract_balance_of_def)
    from no_refunds [OF parse_all_length [OF Cons.prems(4), unfolded length_map] this] show ?thesis
      using None t p Cons.prems(1) by (simp add: x) blast
  next
    case (Some l)
    define k where "k = min (min q n) (contract_balance_of c receiver t)"
    obtain m y m' z where sub: "amounts_sub t k (balances_of env receiver c) = Some (m, y)"
      and add: "amounts_add t k (balances_of env sender (set_balances env receiver m c)) = Some (m', z)"
      using move_possible [OF Cons.prems(1,2), of k receiver t sender] by (auto simp: k_def)
    define d where "d = (if k = 0 then c else set_balances env sender m' (set_balances env receiver m c))"
    have d: "contract_ok env d \<and> token_rel env c d \<and> moved receiver sender [(t, k)] c d"
      using move_spec [OF Cons.prems(1) sub refl add refl] Cons.prems(1) by (auto simp: d_def moved_def)
    then have "backed d" using backed_rel Cons.prems(1,2) by blast
    with d Cons.IH [of d us] Cons.prems(3) us obtain c' used refunds b where
      run: "resolve_loop env sender receiver xs d = Inr (c', used, refunds, b)" and ok: "contract_ok env c'" and rel: "token_rel env d c'"
      and mv: "moved receiver sender (zip us (map2 (\<lambda>(_, _, n, _) u. n - u) xs used)) d c'"
      and all: "list_all2 (refunded c' sender receiver) (zip us xs) used" by auto
    have "int (contract_balance_of d receiver t) = int (contract_balance_of c receiver t) - (if sender = receiver then 0 else int k)"
      using d by (simp add: moved_def)
    then have "refunded d sender receiver (t, x) (n - k)" by (auto simp: refunded_def x k_def min_def split: if_splits)
    then have "refunded c' sender receiver (t, x) (n - k)" using refunded_later [OF mv] by blast
    moreover have "resolve_loop env sender receiver (x # xs) c = Inr (c', (n - k) # used, k # refunds, b)"
      using run sub add by (cases "k = 0") (simp_all add: x t p Some d_def Let_def balances_of_amount flip: k_def)
    moreover have "token_rel env c c'" using d rel token_rel_trans by blast
    moreover have "n - (n - k) = k" by (simp add: k_def)
    then have "moved receiver sender (zip ts (map2 (\<lambda>(_, _, n, _) u. n - u) (x # xs) ((n - k) # used))) c c'"
      using moved_Cons [OF _ mv, of "(t, k)" c] d by (simp add: x ts)
    ultimately show ?thesis using ok all ts by fastforce
  qed
qed auto

lemma map2_amounts:
  "length ids = length amounts \<Longrightarrow> length owners = length amounts \<Longrightarrow> length qs = length amounts \<Longrightarrow>
     map2 (\<lambda>(_, _, n, _) u. n - u) (zip ids (zip owners (zip amounts qs))) used = map2 (-) amounts (used :: nat list)"
  by (rule nth_equalityI) auto

lemma promise_amounts_length: "length (unwrap_or (promise_amounts env (length amounts)) amounts) = length amounts"
  by (auto simp: promise_amounts_def unwrap_or_def split: option.splits)

text \<open>C28: the resolution of a transfer never aborts on the calls the contract schedules: whatever
  the receiver answered, each refund is what the answer asks for, at most the amount
  transferred, or all the receiver has left; the refunds go back to the sender, the rest is
  reported as used, and nothing else changes. Sender and receiver may be the same account, as when
  a minter notifies itself; then balances stay as they are.\<close>

theorem mt_resolve_transfer_total:
  assumes "contract_ok env c" and "backed c" and "h_predecessor env = h_current env"
    and "ids \<noteq> []" and "length owners = length ids" and "length amounts = length ids" and "set owners \<subseteq> {sender}"
    and "parse_all env ids = Some ts"
    and "requested = unwrap_or (promise_amounts env (length amounts)) amounts"
  shows "\<exists>c' used. mt_resolve_transfer env owners receiver ids amounts False c = Inr (c', used) \<and>
    contract_ok env c' \<and> backed c' \<and> contract_is_nonce_used c' = contract_is_nonce_used c \<and> config c' = config c \<and>
    moved receiver sender (zip ts (map2 (-) amounts used)) c c' \<and> length used = length amounts \<and>
    (\<forall>i < length amounts. used ! i \<le> amounts ! i \<and> amounts ! i - used ! i \<le> requested ! i \<and>
       (amounts ! i - used ! i = min (requested ! i) (amounts ! i) \<or>
        contract_balance_of c' receiver (ts ! i) = (if sender = receiver then amounts ! i - used ! i else 0)))"
proof -
  let ?xs = "zip ids (zip owners (zip amounts requested))"
  have len: "length requested = length amounts" unfolding assms(9) by (rule promise_amounts_length)
  have "\<forall>(i, p, n, q) \<in> set ?xs. p = sender" using assms(7) by (auto dest: set_zip_rightD [THEN set_zip_leftD])
  moreover have "map fst ?xs = ids" using len assms(5,6) by (simp add: map_fst_zip)
  ultimately obtain c1 used refunds b where
    run: "resolve_loop env sender receiver ?xs c = Inr (c1, used, refunds, b)" and ok: "contract_ok env c1"
    and rel: "token_rel env c c1" and mv: "moved receiver sender (zip ts (map2 (\<lambda>(_, _, n, _) u. n - u) ?xs used)) c c1"
    and all: "list_all2 (refunded c1 sender receiver) (zip ts ?xs) used"
    using resolve_loop_spec [OF assms(1,2), of ?xs sender ts receiver] assms(8) by auto
  have hd: "hd owners = sender" using assms(4,5,7) by (cases owners) auto
  have "\<exists>c'. mt_resolve_transfer env owners receiver ids amounts False c = Inr (c', used) \<and> (c' = c1 \<or> (\<exists>e. c' = add_log e c1))"
    using assms(3-6)
    unfolding mt_resolve_transfer_def private_call_def no_approvals_def Let_def hd assms(9) [symmetric] by (simp add: run) blast
  then obtain c' where c': "mt_resolve_transfer env owners receiver ids amounts False c = Inr (c', used)"
    "c' = c1 \<or> (\<exists>e. c' = add_log e c1)" by blast
  have bal: "contract_balance_of c' = contract_balance_of c1"
    using c'(2) by (auto simp: contract_balance_of_def add_log_def fun_eq_iff)
  have "length used = length amounts"
    using list_all2_lengthD [OF all] parse_all_length [OF assms(8)] len assms(5,6) by simp
  moreover have "used ! i \<le> amounts ! i \<and> amounts ! i - used ! i \<le> requested ! i \<and>
       (amounts ! i - used ! i = min (requested ! i) (amounts ! i) \<or>
        contract_balance_of c' receiver (ts ! i) = (if sender = receiver then amounts ! i - used ! i else 0))"
    if "i < length amounts" for i
    using list_all2_nthD [OF all, of i] that len parse_all_length [OF assms(8)] assms(5,6) by (simp add: refunded_def bal)
  moreover have "token_rel env c c' \<and> contract_ok env c' \<and> moved receiver sender (zip ts (map2 (-) amounts used)) c c'"
    using c'(2) ok rel mv map2_amounts [of ids amounts owners requested used] len assms(5,6) by auto
  ultimately show ?thesis
    using c'(1) backed_rel [OF assms(1) _ assms(2)] by (auto simp: token_rel_def)
qed

subsection \<open>Resolving deposits\<close>

text \<open>The balances and supplies after burning \<open>ts\<close> from one account.\<close>

definition burnt :: "account_id \<Rightarrow> (token_id \<times> nat) list \<Rightarrow> 'p contract \<Rightarrow> 'p contract \<Rightarrow> bool" where
  "burnt owner ts c c' \<longleftrightarrow>
     (\<forall>a t. contract_balance_of c a t = contract_balance_of c' a t + (if a = owner then list_amount ts t else 0)) \<and>
     (\<forall>t. amount_for (c_total_supplies c) t = amount_for (c_total_supplies c') t + list_amount ts t)"

lemma burnt_Nil [simp]: "burnt a [] c c"
  by (simp add: burnt_def)

lemma burnt_Cons: "burnt a [p] c d \<Longrightarrow> burnt a ts d e \<Longrightarrow> burnt a (p # ts) c e"
  by (cases p) (auto simp: burnt_def)

lemma burnt_logs [simp]: "burnt a ts c (add_log e d) = burnt a ts c d"
  by (simp add: burnt_def contract_balance_of_def add_log_def)

lemma withdraw_step_burnt:
  assumes "contract_ok env c" and "withdraw_step env a (t, n) c = Inr c'"
  shows "contract_ok env c' \<and> token_rel env c c' \<and> burnt a [(t, n)] c c'"
proof -
  note spec = withdraw_step_spec [OF assms]
  have c': "c' = set_balances env a (entry_write 0 t (amount_for (balances_of env a c) t - n) (balances_of env a c))
      (c\<lparr>c_total_supplies := entry_write 0 t (amount_for (c_total_supplies c) t - n) (c_total_supplies c)\<rparr>)"
    and ok: "contract_ok env c'" and gap: "contract_gap c' = contract_gap c"
    and n: "contract_balance_of c a t \<ge> n" "amount_for (c_total_supplies c) t = n + amount_for (c_total_supplies c') t"
    using spec by blast+
  have "burnt a [(t, n)] c c'"
    using n by (auto simp: burnt_def c' balances_of_amount)
  with ok gap show ?thesis by (simp add: token_rel_def same_gap_def c')
qed

lemma withdraw_step_possible:
  assumes "contract_ok env c" and "backed c" and "0 < n" and "n \<le> contract_balance_of c a t"
  shows "\<exists>c'. withdraw_step env a (t, n) c = Inr c'"
proof -
  have "n \<le> amount_for (c_total_supplies c) t"
    using assms(2,4) held_ge_balance [of c a t] by (simp add: backed_def)
  moreover have "amount_for (c_total_supplies c) t \<le> u_max 128" "amount_for (balances_of env a c) t \<le> u_max 128"
    using assms(1) balances_u128 [OF assms(1), of a] by (simp_all add: contract_ok_def supplies_ok_def amounts_u128_def)
  ultimately show ?thesis
    using assms(3,4) amounts_sub_None [of "c_total_supplies c" t n] amounts_sub_None [of "balances_of env a c" t n]
    by (auto simp: withdraw_step_def balances_of_amount)
qed

text \<open>Subtracting the refund of a deposit is what withdrawing it does.\<close>

lemma resolve_deposit_Cons:
  assumes "k = min (min (unwrap_or q n) n) (contract_balance_of c receiver t)" and "k \<noteq> 0"
  shows "resolve_deposit_loop env receiver ((t, n, q) # rest) c =
    bind_r (withdraw_step env receiver (t, k) c) (\<lambda>d.
    bind_r (resolve_deposit_loop env receiver rest d) (\<lambda>(c', rs). Inr (c', k # rs)))"
  using assms(2)
  by (simp add: balances_of_amount Let_def withdraw_step_def bind_r_assoc split_def flip: assms(1))

definition deposit_refunded :: "'p contract \<Rightarrow> account_id \<Rightarrow> token_id \<times> nat \<times> nat option \<Rightarrow> nat \<Rightarrow> bool" where
  "deposit_refunded c' receiver x r = (case x of (t, deposited, requested) \<Rightarrow> r \<le> deposited \<and>
     r \<le> unwrap_or requested deposited \<and>
     (r = min (unwrap_or requested deposited) deposited \<or> contract_balance_of c' receiver t = 0))"

lemma deposit_refunded_later: "burnt a ts c c' \<Longrightarrow> deposit_refunded c a x r \<Longrightarrow> deposit_refunded c' a x r"
  unfolding deposit_refunded_def burnt_def by (auto split: prod.splits)

lemma resolve_deposit_loop_spec:
  assumes "contract_ok env c" and "backed c"
  shows "\<exists>c' rs. resolve_deposit_loop env receiver xs c = Inr (c', rs) \<and> contract_ok env c' \<and> token_rel env c c' \<and>
    burnt receiver (zip (map fst xs) rs) c c' \<and> list_all2 (deposit_refunded c' receiver) xs rs"
  using assms
proof (induction xs arbitrary: c)
  case (Cons x xs)
  obtain t n q where x: "x = (t, n, q)" by (cases x)
  define k where "k = min (min (unwrap_or q n) n) (contract_balance_of c receiver t)"
  obtain d where d: "contract_ok env d" "token_rel env c d" "burnt receiver [(t, k)] c d"
    and step: "k \<noteq> 0 \<Longrightarrow> withdraw_step env receiver (t, k) c = Inr d" "k = 0 \<Longrightarrow> d = c"
  proof (cases "k = 0")
    case True
    then show ?thesis using that [of c] Cons.prems(1) by (simp add: burnt_def)
  next
    case False
    then obtain d where "withdraw_step env receiver (t, k) c = Inr d"
      using withdraw_step_possible [OF Cons.prems, of k receiver t] by (auto simp: k_def)
    with withdraw_step_burnt [OF Cons.prems(1) this] False that [of d] show ?thesis by blast
  qed
  obtain c' rs where run: "resolve_deposit_loop env receiver xs d = Inr (c', rs)" and ok: "contract_ok env c'"
    and rel: "token_rel env d c'" and b: "burnt receiver (zip (map fst xs) rs) d c'"
    and all: "list_all2 (deposit_refunded c' receiver) xs rs"
    using Cons.IH [OF d(1) backed_rel [OF Cons.prems(1) d(2) Cons.prems(2)]] by blast
  have "contract_balance_of c receiver t = contract_balance_of d receiver t + k" using d(3) by (simp add: burnt_def)
  then have "deposit_refunded d receiver x k" by (auto simp: deposit_refunded_def x k_def)
  then have "list_all2 (deposit_refunded c' receiver) (x # xs) (k # rs)"
    using all deposit_refunded_later [OF b] by simp
  moreover have "resolve_deposit_loop env receiver (x # xs) c = Inr (c', k # rs)"
  proof (cases "k = 0")
    case True
    then show ?thesis using run step(2) by (simp add: x Let_def balances_of_amount flip: k_def)
  next
    case False
    then show ?thesis unfolding x resolve_deposit_Cons [OF k_def False] using run step(1) by simp
  qed
  moreover have "token_rel env c c'" using d(2) rel by (rule token_rel_trans)
  moreover have "burnt receiver (zip (map fst (x # xs)) (k # rs)) c c'" using burnt_Cons [OF d(3) b] by (simp add: x)
  ultimately show ?case using ok by blast
qed simp

text \<open>C29: settling a deposit after its notification never aborts: what is burnt of each deposit is
  what the notified receiver asks to be returned, at most the deposit, or all it has left; a
  failed or unreadable answer asks for everything. Supply and holdings decrease together.\<close>

theorem resolve_deposit_total:
  assumes "contract_ok env c" and "backed c"
    and "requested = (case promise_amounts env (length tokens) of None \<Rightarrow> map snd tokens | Some xs \<Rightarrow> xs)"
  shows "\<exists>c' rs. resolve_deposit_internal env receiver tokens c = Inr (c', rs) \<and>
    contract_ok env c' \<and> backed c' \<and> contract_is_nonce_used c' = contract_is_nonce_used c \<and> config c' = config c \<and>
    burnt receiver (zip (map fst tokens) rs) c c' \<and> length rs = length tokens \<and>
    (\<forall>i < length tokens. rs ! i \<le> snd (tokens ! i) \<and> rs ! i \<le> requested ! i \<and>
       (rs ! i = min (requested ! i) (snd (tokens ! i)) \<or> contract_balance_of c' receiver (fst (tokens ! i)) = 0))"
proof (cases "map_of (c_accounts c) receiver")
  case None
  have "list_amount (zip ks (map (\<lambda>_. 0 :: nat) ts)) t = 0" for ks :: "token_id list" and ts :: "(token_id \<times> nat) list" and t
    by (induction ks ts rule: list_induct2') auto
  then show ?thesis
    using None assms(1,2) by (simp add: resolve_deposit_internal_def contract_balance_of_def burnt_def)
next
  case (Some l)
  let ?q = "case promise_amounts env (length tokens) of None \<Rightarrow> replicate (length tokens) None | Some xs \<Rightarrow> map Some xs"
  let ?xs = "map2 (\<lambda>(t, n) r. (t, n, r)) tokens ?q"
  have lq: "length ?q = length tokens" by (auto simp: promise_amounts_def split: option.splits if_splits)
  obtain c1 rs where run: "resolve_deposit_loop env receiver ?xs c = Inr (c1, rs)" and ok: "contract_ok env c1"
    and rel: "token_rel env c c1" and b: "burnt receiver (zip (map fst ?xs) rs) c c1"
    and all: "list_all2 (deposit_refunded c1 receiver) ?xs rs"
    using resolve_deposit_loop_spec [OF assms(1,2)] by blast
  have fsts: "map fst ?xs = map fst tokens" using lq by (intro nth_equalityI) (auto simp: split_def)
  have "\<exists>c'. resolve_deposit_internal env receiver tokens c = Inr (c', rs) \<and> (c' = c1 \<or> (\<exists>e. c' = add_log e c1))"
    using Some run by (simp add: resolve_deposit_internal_def Let_def) blast
  then obtain c' where c': "resolve_deposit_internal env receiver tokens c = Inr (c', rs)"
    "c' = c1 \<or> (\<exists>e. c' = add_log e c1)" by blast
  have bal: "contract_balance_of c' = contract_balance_of c1"
    using c'(2) by (auto simp: contract_balance_of_def add_log_def fun_eq_iff)
  have "length rs = length tokens" using list_all2_lengthD [OF all] lq by simp
  moreover have "rs ! i \<le> snd (tokens ! i) \<and> rs ! i \<le> requested ! i \<and>
       (rs ! i = min (requested ! i) (snd (tokens ! i)) \<or> contract_balance_of c' receiver (fst (tokens ! i)) = 0)"
    if "i < length tokens" for i
  proof -
    have "unwrap_or (?q ! i) (snd (tokens ! i)) = requested ! i"
      using that lq by (auto simp: assms(3) unwrap_or_def split: option.splits)
    moreover have "?xs ! i = (fst (tokens ! i), snd (tokens ! i), ?q ! i)" using that lq by (simp add: split_def)
    ultimately show ?thesis
      using list_all2_nthD [OF all, of i] that lq by (simp add: deposit_refunded_def bal)
  qed
  moreover have "token_rel env c c' \<and> contract_ok env c' \<and> burnt receiver (zip (map fst tokens) rs) c c'"
    using c'(2) ok rel b fsts by auto
  ultimately show ?thesis
    using c'(1) backed_rel [OF assms(1) _ assms(2)] by (auto simp: token_rel_def)
qed

subsection \<open>Withdrawals and their refunds\<close>

lemma deposit_step_minted:
  assumes "contract_ok env c" and "deposit_step env a (t, n) c = Inr c'"
  shows "contract_ok env c' \<and> burnt a [(t, n)] c' c"
proof -
  note spec = deposit_step_spec [OF assms]
  have c': "c' = set_balances env a (entry_write 0 t (amount_for (balances_of env a c) t + n) (balances_of env a c))
      (c\<lparr>c_total_supplies := entry_write 0 t (amount_for (c_total_supplies c) t + n) (c_total_supplies c)\<rparr>)"
    and ok: "contract_ok env c'"
    using spec by blast+
  then show ?thesis by (auto simp: burnt_def c' balances_of_amount)
qed

lemma burnt_append_comm: "burnt a ts e d \<Longrightarrow> burnt a [p] d c \<Longrightarrow> burnt a (p # ts) e c"
  by (cases p) (auto simp: burnt_def)

lemma fold_deposit_minted:
  assumes "fold_r (deposit_step env a) ts c = Inr c'" and "contract_ok env c"
  shows "contract_ok env c' \<and> burnt a ts c' c"
  using assms
proof (induction ts arbitrary: c)
  case (Cons p ts)
  obtain d where d: "deposit_step env a p c = Inr d" and rest: "fold_r (deposit_step env a) ts d = Inr c'"
    using Cons.prems(1) by (auto simp: result_simps)
  obtain t n where p: "p = (t, n)" by (cases p)
  note one = deposit_step_minted [OF Cons.prems(2) d [unfolded p]]
  with Cons.IH [OF rest] show ?case unfolding p using burnt_append_comm by blast
qed simp

lemma balance_created [simp]: "contract_balance_of (fst (get_or_create env a c)) b t = contract_balance_of c b t"
  by (simp add: contract_balance_alt [of _ _ _ env])

lemma supplies_created [simp]: "c_total_supplies (fst (get_or_create env a c)) = c_total_supplies c"
  by (simp add: get_or_create_def Let_def)

lemma burnt_created [simp]: "burnt a ts d (fst (get_or_create env b c)) = burnt a ts d c"
  by (simp add: burnt_def)

lemma burnt_logs_left [simp]: "burnt a ts (add_log e c) d = burnt a ts c d"
  by (simp add: burnt_def contract_balance_of_def add_log_def)

lemma deposit_minted:
  assumes "deposit env a ts memo c = Inr c'" and "contract_ok env c"
  shows "contract_ok env c' \<and> burnt a ts c' c"
proof -
  obtain d where f: "fold_r (deposit_step env a) ts (fst (get_or_create env a c)) = Inr d"
    and c': "c' = d \<or> (\<exists>e. c' = add_log e d)"
    using assms(1) by (auto simp: deposit_def result_simps emit_checked_Inr split: if_splits)
  from fold_deposit_minted [OF f get_or_create_ok [OF assms(2)]] c' show ?thesis by auto
qed

text \<open>The resolution of a withdrawal of a fungible token refunds exactly what the token contract
  did not take: the used amount is at most the amount, the rest is credited to the sender and
  to the supply. A failed \<open>ft_transfer_call\<close> refunds nothing, a failed \<open>ft_transfer\<close>
  everything, and an unreadable answer counts as nothing used.\<close>

theorem ft_resolve_withdraw_effect:
  assumes "ft_resolve_withdraw env token sender amount is_call c = Inr (c', used)" and "contract_ok env c"
  shows "used \<le> amount \<and> contract_ok env c' \<and> contract_gap c' = contract_gap c \<and>
    burnt sender [(Nep141 token, amount - used)] c' c \<and>
    contract_is_nonce_used c' = contract_is_nonce_used c \<and> config c' = config c \<and>
    (is_call \<and> h_promise_result env 44 = None \<longrightarrow> used = amount) \<and>
    (is_call \<and> Option.bind (h_promise_result env 44) (h_json_u128 env) = None \<and> h_promise_result env 44 \<noteq> None \<longrightarrow> used = 0) \<and>
    (\<not> is_call \<longrightarrow> used = (if h_promise_result env 0 = None then 0 else amount))"
proof -
  have used: "used = ft_used env amount is_call"
    and run: "(if amount - used > 0 then deposit env sender [(Nep141 token, amount - used)] (Some REFUND_MEMO) c = Inr c' else c' = c)"
    using assms(1) by (auto simp: ft_resolve_withdraw_def result_simps Let_def split: if_splits)
  have le: "used \<le> amount"
    by (auto simp: used ft_used_def call_outcome_def split: option.splits)
  have len: "max_json_length_root JU128 = 44" by (simp add: max_json_length_root_def)
  have "token_rel env c c' \<and> contract_ok env c' \<and> burnt sender [(Nep141 token, amount - used)] c' c"
    using run deposit_token_rel deposit_minted assms(2) by (fastforce simp: burnt_def split: if_splits)
  with le assms(2) show ?thesis
    by (auto simp: token_rel_def same_gap_def used ft_used_def call_outcome_def promise_void_ok_def len
        split: option.splits)
qed

text \<open>A withdrawal of several tokens is refunded token by token: the used amounts are those the
  token contract reports, capped by the amounts withdrawn, and every remainder is credited back.\<close>

theorem mt_resolve_withdraw_effect:
  assumes "mt_resolve_withdraw env token sender ids amounts is_call c = Inr (c', used)" and "contract_ok env c"
  shows "length used = length amounts \<and> (\<forall>i < length amounts. used ! i = min (mt_used env amounts is_call ! i) (amounts ! i)) \<and>
    contract_ok env c' \<and> contract_gap c' = contract_gap c \<and>
    burnt sender (zip (map (Nep245 token) ids) (map2 (-) amounts used)) c' c"
proof -
  let ?rs = "zip (map (Nep245 token) ids) (map2 (-) amounts used)"
  have used: "used = map2 min (mt_used env amounts is_call) amounts"
    and run: "deposit env sender (filter (\<lambda>(_, r). r > 0) ?rs) (Some REFUND_MEMO) c = Inr c'"
    using assms(1) by (auto simp: mt_resolve_withdraw_def result_simps Let_def)
  have len: "length (mt_used env amounts is_call) = length amounts"
    by (auto simp: mt_used_def call_outcome_def Let_def split: option.splits if_splits)
  have "list_amount (filter (\<lambda>(_, r). r > 0) xs) t = list_amount xs t" for xs :: "(token_id \<times> nat) list" and t
    by (induction xs) auto
  then have "burnt sender ?rs c' c"
    using deposit_minted [OF run assms(2)] by (simp add: burnt_def)
  with deposit_minted [OF run assms(2)] deposit_token_rel [OF run] assms(2) len show ?thesis
    by (simp add: used token_rel_def same_gap_def)
qed

end
