(* ===== verification/Calls.thy ===== *)
theory Calls
  imports TokenLaws
begin

text \<open>
  The whole contract as a state machine. A \<open>contract_method\<close> is one public method with its
  arguments, \<open>run_method\<close> dispatches it, and \<open>call_contract\<close> adds what happens when the call ends:
  the postponed burn events are flushed. The theorems here hold for every sequence of calls by
  anybody.
\<close>

subsection \<open>Methods\<close>

datatype (plugins only: code size) transfer_method =
    MMtTransfer account_id string nat bool "string option"
  | MMtBatchTransfer account_id "string list" "nat list" bool "string option"
  | MMtTransferCall account_id string nat bool "string option" string
  | MMtBatchTransferCall account_id "string list" "nat list" bool "string option" string
  | MMtForceTransfer account_id account_id string nat bool "string option"
  | MMtForceBatchTransfer account_id account_id "string list" "nat list" bool "string option"
  | MMtForceTransferCall account_id account_id string nat bool "string option" string
  | MMtForceBatchTransferCall account_id account_id "string list" "nat list" bool "string option" string
  | MMtResolveTransfer "account_id list" account_id "string list" "nat list" bool

datatype (plugins only: code size) withdraw_method =
    MFtWithdraw account_id account_id nat "string option" "string option"
  | MNftWithdraw account_id account_id string "string option" "string option"
  | MMtWithdraw account_id account_id "string list" "nat list" "string option" "string option"
  | MFtForceWithdraw account_id account_id account_id nat "string option" "string option"
  | MNftForceWithdraw account_id account_id account_id string "string option" "string option"
  | MMtForceWithdraw account_id account_id account_id "string list" "nat list" "string option" "string option"
  | MFtResolveWithdraw account_id account_id nat bool
  | MNftResolveWithdraw account_id account_id string bool
  | MMtResolveWithdraw account_id account_id "string list" "nat list" bool
  | MImtBurn account_id "string amounts" "string option"

datatype (plugins only: code size) deposit_method =
    MFtOnTransfer account_id nat string
  | MNftOnTransfer account_id account_id string string
  | MMtOnTransfer account_id "account_id list" "string list" "nat list" string
  | MFtResolveDeposit account_id account_id nat
  | MNftResolveDeposit account_id account_id string
  | MMtResolveDeposit account_id account_id "string list" "nat list"

text \<open>The callbacks that only schedule promises.\<close>

datatype (plugins only: code size) do_method =
    MDoFtWithdraw ft_withdraw
  | MDoNftWithdraw nft_withdraw
  | MDoMtWithdraw mt_withdraw
  | MDoNativeWithdraw native_withdraw
  | MDoStorageDeposit storage_deposit
  | MDoAuthCall account_id auth_call

datatype (plugins only: code size) account_method =
    MAddPublicKey public_key
  | MRemovePublicKey public_key
  | MDisableAuth
  | MForceLock account_id
  | MForceUnlock account_id
  | MForceDisableAuth "account_id list"
  | MForceEnableAuth "account_id list"
  | MForceAddKeys "(account_id \<times> public_key list) list"
  | MForceRemoveKeys "(account_id \<times> public_key list) list"

datatype (plugins only: code size) admin_method =
    MSetFee pips
  | MSetFeeCollector account_id
  | MUpdateSalt
  | MInvalidateSalts "salt list"
  | MCleanupNonces "(account_id \<times> nonce list) list"
  | MAddRelayerKey string
  | MDoAddRelayerKey string
  | MDeleteRelayerKey string
  | MAddFullAccessKey string
  | MDeleteKey string

datatype (plugins only: code size) 'p contract_method =
    MExecuteIntents "'p list"
  | MTransfer transfer_method
  | MWithdraw withdraw_method
  | MDeposit deposit_method
  | MDo do_method
  | MAccount account_method
  | MAdmin admin_method

subsection \<open>Dispatch\<close>

text \<open>The state after a method, with the promise it returns scheduled.\<close>

definition state_of :: "('p contract \<times> 'r) result \<Rightarrow> 'p contract result" where
  "state_of r = bind_r r (\<lambda>(c, _). Inr c)"

definition settled :: "('p contract \<times> ('p, 'v) promise_or_value) result \<Rightarrow> 'p contract result" where
  "settled r = bind_r r (\<lambda>(c, x). Inr (case x of PromiseOf p \<Rightarrow> detach p c | ValueOf _ \<Rightarrow> c))"

definition scheduled :: "'p promise result \<Rightarrow> 'p contract \<Rightarrow> 'p contract result" where
  "scheduled r c = bind_r r (\<lambda>p. Inr (detach p c))"

fun run_transfer :: "'p host \<Rightarrow> transfer_method \<Rightarrow> 'p contract \<Rightarrow> 'p contract result" where
  "run_transfer env (MMtTransfer r t n ap memo) c = mt_transfer env r t n ap memo c"
| "run_transfer env (MMtBatchTransfer r ts ns ap memo) c = mt_batch_transfer env r ts ns ap memo c"
| "run_transfer env (MMtTransferCall r t n ap memo msg) c = detached (mt_transfer_call env r t n ap memo msg c)"
| "run_transfer env (MMtBatchTransferCall r ts ns ap memo msg) c = detached (mt_batch_transfer_call env r ts ns ap memo msg c)"
| "run_transfer env (MMtForceTransfer a r t n ap memo) c = mt_force_transfer env a r t n ap memo c"
| "run_transfer env (MMtForceBatchTransfer a r ts ns ap memo) c = mt_force_batch_transfer env a r ts ns ap memo c"
| "run_transfer env (MMtForceTransferCall a r t n ap memo msg) c = detached (mt_force_transfer_call env a r t n ap memo msg c)"
| "run_transfer env (MMtForceBatchTransferCall a r ts ns ap memo msg) c =
     detached (mt_force_batch_transfer_call env a r ts ns ap memo msg c)"
| "run_transfer env (MMtResolveTransfer owners r ts ns ap) c = state_of (mt_resolve_transfer env owners r ts ns ap c)"

fun run_withdraw :: "'p host \<Rightarrow> withdraw_method \<Rightarrow> 'p contract \<Rightarrow> 'p contract result" where
  "run_withdraw env (MFtWithdraw t r n memo msg) c = detached (ft_withdraw_call env t r n memo msg c)"
| "run_withdraw env (MNftWithdraw t r i memo msg) c = detached (nft_withdraw_call env t r i memo msg c)"
| "run_withdraw env (MMtWithdraw t r ts ns memo msg) c = detached (mt_withdraw_call env t r ts ns memo msg c)"
| "run_withdraw env (MFtForceWithdraw a t r n memo msg) c = detached (ft_force_withdraw env a t r n memo msg c)"
| "run_withdraw env (MNftForceWithdraw a t r i memo msg) c = detached (nft_force_withdraw env a t r i memo msg c)"
| "run_withdraw env (MMtForceWithdraw a t r ts ns memo msg) c = detached (mt_force_withdraw env a t r ts ns memo msg c)"
| "run_withdraw env (MFtResolveWithdraw t a n b) c = state_of (ft_resolve_withdraw env t a n b c)"
| "run_withdraw env (MNftResolveWithdraw t a i b) c = state_of (nft_resolve_withdraw env t a i b c)"
| "run_withdraw env (MMtResolveWithdraw t a ts ns b) c = state_of (mt_resolve_withdraw env t a ts ns b c)"
| "run_withdraw env (MImtBurn m ts memo) c = imt_burn_call env m ts memo c"

fun run_deposit :: "'p host \<Rightarrow> deposit_method \<Rightarrow> 'p contract \<Rightarrow> 'p contract result" where
  "run_deposit env (MFtOnTransfer a n msg) c = settled (ft_on_transfer env a n msg c)"
| "run_deposit env (MNftOnTransfer a p t msg) c = settled (nft_on_transfer env a p t msg c)"
| "run_deposit env (MMtOnTransfer a ps ts ns msg) c = settled (mt_on_transfer env a ps ts ns msg c)"
| "run_deposit env (MFtResolveDeposit r k n) c = state_of (ft_resolve_deposit env r k n c)"
| "run_deposit env (MNftResolveDeposit r k t) c = state_of (nft_resolve_deposit env r k t c)"
| "run_deposit env (MMtResolveDeposit r k ts ns) c = state_of (mt_resolve_deposit env r k ts ns c)"

fun do_promise :: "'p host \<Rightarrow> do_method \<Rightarrow> 'p promise result" where
  "do_promise env (MDoFtWithdraw w) = do_ft_withdraw env w"
| "do_promise env (MDoNftWithdraw w) = do_nft_withdraw env w"
| "do_promise env (MDoMtWithdraw w) = do_mt_withdraw env w"
| "do_promise env (MDoNativeWithdraw w) = do_native_withdraw env w"
| "do_promise env (MDoStorageDeposit w) = do_storage_deposit env w"
| "do_promise env (MDoAuthCall a w) = do_auth_call env a w"

fun run_account :: "'p host \<Rightarrow> account_method \<Rightarrow> 'p contract \<Rightarrow> 'p contract result" where
  "run_account env (MAddPublicKey k) c = add_public_key env k c"
| "run_account env (MRemovePublicKey k) c = remove_public_key env k c"
| "run_account env MDisableAuth c = disable_auth_by_predecessor_id env c"
| "run_account env (MForceLock a) c = state_of (force_lock_account env a c)"
| "run_account env (MForceUnlock a) c = state_of (force_unlock_account env a c)"
| "run_account env (MForceDisableAuth as) c = force_disable_auth_by_predecessor_ids env as c"
| "run_account env (MForceEnableAuth as) c = force_enable_auth_by_predecessor_ids env as c"
| "run_account env (MForceAddKeys ks) c = force_add_public_keys env ks c"
| "run_account env (MForceRemoveKeys ks) c = force_remove_public_keys env ks c"

fun run_admin :: "'p host \<Rightarrow> admin_method \<Rightarrow> 'p contract \<Rightarrow> 'p contract result" where
  "run_admin env (MSetFee f) c = set_fee env f c"
| "run_admin env (MSetFeeCollector a) c = set_fee_collector env a c"
| "run_admin env MUpdateSalt c = state_of (update_current_salt env c)"
| "run_admin env (MInvalidateSalts ss) c = state_of (invalidate_salts env ss c)"
| "run_admin env (MCleanupNonces ns) c = cleanup_nonces env ns c"
| "run_admin env (MAddRelayerKey k) c = detached (add_relayer_key env k c)"
| "run_admin env (MDoAddRelayerKey k) c = do_add_relayer_key env k c"
| "run_admin env (MDeleteRelayerKey k) c = detached (delete_relayer_key env k c)"
| "run_admin env (MAddFullAccessKey k) c = scheduled (add_full_access_key env k c) c"
| "run_admin env (MDeleteKey k) c = scheduled (delete_key env k c) c"

fun run_method :: "'p host \<Rightarrow> 'p contract_method \<Rightarrow> 'p contract \<Rightarrow> 'p contract result" where
  "run_method env (MExecuteIntents ps) c = execute_intents env ps c"
| "run_method env (MTransfer m) c = run_transfer env m c"
| "run_method env (MWithdraw m) c = run_withdraw env m c"
| "run_method env (MDeposit m) c = run_deposit env m c"
| "run_method env (MDo m) c = bind_r (private_call env) (\<lambda>_. scheduled (do_promise env m) c)"
| "run_method env (MAccount m) c = run_account env m c"
| "run_method env (MAdmin m) c = run_admin env m c"

definition call_contract :: "'p host \<Rightarrow> 'p contract_method \<Rightarrow> 'p contract \<Rightarrow> 'p contract result" where
  "call_contract env m c = bind_r (run_method env m c) (flush_burns env)"

end
