(* ===== verification/CallLaws.thy ===== *)
theory CallLaws
  imports Calls
begin

text \<open>
  What every sequence of calls keeps: the invariant of the state, the backing of every supply by
  holdings, and the memory of executed intents, so that no intent is ever executed twice, even
  though used nonces are garbage collected.
\<close>

subsection \<open>Executing intents keeps the configuration\<close>

abbreviation same_config :: "'p contract \<Rightarrow> 'p contract \<Rightarrow> bool" where
  "same_config c c' \<equiv> config c' = config c"

lemma balance_steps_config:
  "contract_add_balance env a ts c = Inr c' \<Longrightarrow> config c' = config c"
  "contract_sub_balance env a ts c = Inr c' \<Longrightarrow> config c' = config c"
proof -
  assume "contract_add_balance env a ts c = Inr c'"
  then have "same_config (fst (get_or_create env a c)) c'"
    unfolding contract_add_balance_def by (rule fold_r_rel) (auto simp: add_balance_step_def result_simps)
  then show "config c' = config c" by simp
next
  assume "contract_sub_balance env a ts c = Inr c'"
  then have "fold_r (sub_balance_step env a) ts c = Inr c'" by (auto simp: contract_sub_balance_def result_simps)
  then show "same_config c c'" by (rule fold_r_rel) (auto simp: sub_balance_step_def result_simps)
qed

lemma key_ops_config:
  "contract_add_public_key env a pk c = Inr c' \<Longrightarrow> config c' = config c"
  "contract_remove_public_key env a pk c = Inr c' \<Longrightarrow> config c' = config c"
  "contract_commit_nonce env a n c = Inr c' \<Longrightarrow> config c' = config c"
  by (auto simp: add_public_key_Inr remove_public_key_Inr commit_nonce_Inr Let_def)

lemma set_auth_config: "internal_set_auth env a enable force c = Inr (c', b) \<Longrightarrow> config c' = config c"
  by (erule internal_set_auth_Inr) auto

lemma withdraw_config: "withdraw env a ts memo force c = Inr c' \<Longrightarrow> config c' = config c"
  by (drule withdraw_token_rel) (simp add: token_rel_def)

lemma deposit_config: "deposit env a ts memo c = Inr c' \<Longrightarrow> config c' = config c"
  by (drule deposit_token_rel) (simp add: token_rel_def)

lemma wnear_withdraw_then_config: "wnear_withdraw_then env a n f c = Inr c' \<Longrightarrow> config c' = config c"
  by (auto dest!: wnear_withdraw_then_Inr withdraw_config)

lemma promise_ops_config:
  "detached (internal_ft_withdraw env a fw force c) = Inr c' \<Longrightarrow> config c' = config c"
  "detached (internal_nft_withdraw env a nw force c) = Inr c' \<Longrightarrow> config c' = config c"
  "detached (internal_mt_withdraw env a mw force c) = Inr c' \<Longrightarrow> config c' = config c"
  "contract_native_withdraw env a vw c = Inr c' \<Longrightarrow> config c' = config c"
  "contract_storage_deposit env a sd c = Inr c' \<Longrightarrow> config c' = config c"
  "contract_auth_call env a ac c = Inr c' \<Longrightarrow> config c' = config c"
  "contract_notify_on_transfer env a r ts nt c = Inr c' \<Longrightarrow> config c' = config c"
  unfolding contract_native_withdraw_def contract_storage_deposit_def
  by (auto simp: detached_Inr contract_auth_call_def contract_notify_on_transfer_def result_simps
      dest!: internal_withdraw_Inr withdraw_config dest: wnear_withdraw_then_config split: if_splits)

lemma config_laws: "frame_laws (contract_ops env) (\<lambda>_. True) same_config"
  unfolding frame_laws_def contract_ops_def
  by (auto simp: keeps_def keeps_b_def
      dest: balance_steps_config key_ops_config set_auth_config withdraw_config deposit_config promise_ops_config)

interpretation contract_config: engine_frame "contract_ops env" "\<lambda>_. True" same_config for env :: "'p host"
  by unfold_locales (simp_all add: config_laws)

subsection \<open>Relations between the states of a call\<close>

text \<open>Invariant, backing and configuration stay, and a used nonce stays used.\<close>

definition mono_rel :: "'p host \<Rightarrow> 'p contract \<Rightarrow> 'p contract \<Rightarrow> bool" where
  "mono_rel env c c' \<longleftrightarrow> keeps_gap env c c' \<and> config c' = config c \<and>
     (contract_ok env c \<longrightarrow> (\<forall>a n. u256_ok n \<longrightarrow> contract_is_nonce_used c a n \<longrightarrow> contract_is_nonce_used c' a n))"

lemma mono_rel_refl [simp]: "mono_rel env c c"
  by (simp add: mono_rel_def)

lemma mono_rel_trans: "mono_rel env c d \<Longrightarrow> mono_rel env d e \<Longrightarrow> mono_rel env c e"
  by (auto simp: mono_rel_def same_gap_def)

lemma token_mono: "token_rel env c c' \<Longrightarrow> mono_rel env c c'"
  by (simp add: token_rel_def mono_rel_def)

lemma mono_rel_logs [simp]:
  "mono_rel env c (add_log e d) = mono_rel env c d" "mono_rel env c (detach p d) = mono_rel env c d"
  "mono_rel env c (d\<lparr>c_postponed_burns := bs\<rparr>) = mono_rel env c d"
  by (auto simp: mono_rel_def same_gap_def)

lemma execute_intents_mono:
  assumes "execute_intents env xs c = Inr c'" and "payloads_ok env"
  shows "mono_rel env c c'"
proof -
  obtain T c1 i es where
    run: "execute_signed_intents (h_engine env) (contract_ops env) execute_inspector_ops xs (c, ei_new) = Inr (T, c1, i)"
    and c': "c' = add_logs es c1"
    using assms(1) by (rule execute_intents_Inr)
  have "same_config c c1"
    by (rule execute_signed_intents_frame [OF config_laws _ _ run]) (use assms(2) in \<open>auto simp: payloads_ok_def\<close>)
  moreover have fr: "frame_rel env (\<lambda>_. True) c c'"
    using assms by (rule contract_execute_frame) simp
  then have "contract_is_nonce_used c' a n" if "contract_ok env c" "u256_ok n" "contract_is_nonce_used c a n" for a n
    using that unfolding frame_rel_def entry_rel_def views_alt(1) [of _ _ _ env] by blast
  moreover have "keeps_gap env c c'"
    using execute_intents_gap [OF assms(1) _ assms(2)] by (simp add: same_gap_def)
  ultimately show ?thesis by (simp add: mono_rel_def c')
qed

subsection \<open>Methods that move tokens\<close>

lemma resolve_loop_rel:
  assumes "resolve_loop env s r xs c = Inr (c', used, refunds, b)" and "contract_ok env c"
  shows "contract_ok env c' \<and> token_rel env c c'"
  using assms
proof (induction xs arbitrary: c used refunds)
  case (Cons x xs)
  obtain i p n q where x: "x = (i, p, n, q)" by (cases x)
  show ?case
  proof (cases "map_of (c_accounts c) r")
    case None
    then show ?thesis using Cons.prems by (auto simp: x result_simps)
  next
    case (Some l)
    obtain t where t: "parse_ok env i = Some t" and p: "p = s"
      using Cons.prems(1) by (auto simp: x result_simps)
    define k where "k = min (min q n) (amount_for (balances_of env r c) t)"
    show ?thesis
    proof (cases "k = 0")
      case True
      then obtain used' refunds' where "resolve_loop env s r xs c = Inr (c', used', refunds', b)"
        using Cons.prems(1) by (auto simp: x t p Some Let_def result_simps simp flip: k_def)
      then show ?thesis using Cons.IH Cons.prems(2) by blast
    next
      case False
      then obtain m y m' z used' refunds' where sub: "amounts_sub t k (balances_of env r c) = Some (m, y)"
        and add: "amounts_add t k (balances_of env s (set_balances env r m c)) = Some (m', z)"
        and rest: "resolve_loop env s r xs (set_balances env s m' (set_balances env r m c)) = Inr (c', used', refunds', b)"
        using Cons.prems(1) by (auto simp: x t p Some Let_def result_simps simp flip: k_def)
      from move_spec [OF Cons.prems(2) sub refl add refl] Cons.IH [OF rest] show ?thesis
        using token_rel_trans by blast
    qed
  qed
qed simp

lemma resolve_deposit_loop_rel:
  assumes "resolve_deposit_loop env r xs c = Inr (c', rs)" and "contract_ok env c"
  shows "contract_ok env c' \<and> token_rel env c c'"
  using assms
proof (induction xs arbitrary: c rs)
  case (Cons x xs)
  obtain t n q where x: "x = (t, n, q)" by (cases x)
  define k where "k = min (min (unwrap_or q n) n) (contract_balance_of c r t)"
  show ?case
  proof (cases "k = 0")
    case True
    then show ?thesis
      using Cons by (auto simp: x Let_def result_simps balances_of_amount simp flip: k_def)
  next
    case False
    then obtain d rs' where d: "withdraw_step env r (t, k) c = Inr d" and rest: "resolve_deposit_loop env r xs d = Inr (c', rs')"
      using Cons.prems(1) unfolding x resolve_deposit_Cons [OF k_def False] by (auto simp: result_simps)
    from withdraw_step_burnt [OF Cons.prems(2) d] Cons.IH [OF rest] show ?thesis
      using token_rel_trans by blast
  qed
qed simp

lemma mt_resolve_transfer_rel:
  assumes "mt_resolve_transfer env owners r ids ns ap c = Inr (c', used)" and "contract_ok env c"
  shows "contract_ok env c' \<and> token_rel env c c'"
proof -
  obtain c1 u rf b B e where "resolve_loop env (hd owners) r
      (zip ids (zip owners (zip ns (unwrap_or (promise_amounts env (length ns)) ns)))) c = Inr (c1, u, rf, b)"
    and "c' = (if B then c1 else add_log e c1)"
    using assms(1) by (auto simp: mt_resolve_transfer_def Let_def result_simps)
  with resolve_loop_rel [OF this(1) assms(2)] show ?thesis by simp
qed

lemma resolve_deposit_internal_rel:
  assumes "resolve_deposit_internal env r ts c = Inr (c', rs)" and "contract_ok env c"
  shows "contract_ok env c' \<and> token_rel env c c'"
proof (cases "map_of (c_accounts c) r")
  case None
  then show ?thesis using assms by (simp add: resolve_deposit_internal_def)
next
  case (Some l)
  obtain c1 rs' xs B e where "resolve_deposit_loop env r xs c = Inr (c1, rs')" and "c' = (if B then c1 else add_log e c1)"
    using assms(1) Some by (auto simp: resolve_deposit_internal_def Let_def result_simps)
  with resolve_deposit_loop_rel [OF this(1) assms(2)] show ?thesis by simp
qed

text \<open>Guards do not change the state.\<close>

lemma owner_call_Inr:
  "owner_call env feature f c = Inr x \<longleftrightarrow> not_paused env feature = Inr () \<and> assert_one_yocto env = Inr () \<and>
     ensure_auth_predecessor_id env c = Inr (h_predecessor env) \<and> f (h_predecessor env) c = Inr x"
  by (auto simp: owner_call_def result_simps ensure_auth_predecessor_id_def)

lemma operator_call_Inr:
  "operator_call env rs f c = Inr x \<longleftrightarrow> require_any_role env rs = Inr () \<and> assert_one_yocto env = Inr () \<and> f c = Inr x"
  by (auto simp: operator_call_def result_simps)

lemma caller_call_Inr:
  "caller_call env f c = Inr x \<longleftrightarrow> assert_one_yocto env = Inr () \<and>
     ensure_auth_predecessor_id env c = Inr (h_predecessor env) \<and> f (h_predecessor env) c = Inr x"
  by (auto simp: caller_call_def result_simps ensure_auth_predecessor_id_def)

lemmas guard_simps = owner_call_Inr operator_call_Inr caller_call_Inr

lemma state_of_Inr: "state_of r = Inr c' \<longleftrightarrow> (\<exists>x. r = Inr (c', x))"
  by (auto simp: state_of_def result_simps)

lemma scheduled_Inr: "scheduled r c = Inr c' \<longleftrightarrow> (\<exists>p. r = Inr p \<and> c' = detach p c)"
  by (auto simp: scheduled_def result_simps)

lemma settled_Inr: "settled r = Inr c' \<Longrightarrow> \<exists>d x. r = Inr (d, x) \<and> (c' = d \<or> (\<exists>p. c' = detach p d))"
proof -
  assume "settled r = Inr c'"
  then obtain d x where "r = Inr (d, x)" and "c' = (case x of PromiseOf p \<Rightarrow> detach p d | ValueOf _ \<Rightarrow> d)"
    by (auto simp: settled_def bind_r_Inr)
  then show ?thesis by (cases x) auto
qed

lemma transfer_rel:
  assumes "internal_mt_batch_transfer env s r ids ns memo force c = Inr c'" and "contract_ok env c"
  shows "token_rel env c c'"
  using internal_transfer_spec [OF assms] by blast

lemma transfer_call_rel:
  assumes "internal_mt_batch_transfer_call env s r ids ns memo msg force c = Inr (c', p)" and "contract_ok env c"
  shows "token_rel env c c'"
  using assms by (auto simp: internal_mt_batch_transfer_call_def result_simps intro: transfer_rel)

lemma run_transfer_rel:
  assumes "run_transfer env m c = Inr c'" and "contract_ok env c"
  shows "token_rel env c c'"
  using assms
  by (cases m) (auto simp: result_simps detached_Inr state_of_Inr mt_transfer_def mt_batch_transfer_def mt_transfer_call_def
      mt_batch_transfer_call_def mt_force_transfer_def mt_force_batch_transfer_def mt_force_transfer_call_def
      mt_force_batch_transfer_call_def intro: transfer_rel transfer_call_rel dest: mt_resolve_transfer_rel)

lemma imt_burn_rel: "imt_burn (contract_ops env) a m ts memo c = Inr c' \<Longrightarrow> token_rel env c c'"
  by (auto simp: imt_burn_def result_simps contract_ops_def intro: withdraw_token_rel)

lemma run_withdraw_rel:
  assumes "run_withdraw env m c = Inr c'"
  shows "token_rel env c c'"
  using assms
  by (cases m) (auto simp: guard_simps result_simps detached_Inr state_of_Inr ft_withdraw_call_def nft_withdraw_call_def
      mt_withdraw_call_def ft_force_withdraw_def nft_force_withdraw_def mt_force_withdraw_def ft_resolve_withdraw_def
      nft_resolve_withdraw_def mt_resolve_withdraw_def imt_burn_call_def Let_def
      intro: internal_withdraw_token_rel deposit_token_rel imt_burn_rel split: if_splits)

lemma deposit_and_act_mono:
  assumes "deposit_and_act env s ps ts resolve nr m c = Inr (c', x)" and "payloads_ok env"
  shows "mono_rel env c c'"
proof -
  obtain c1 where d: "deposit env (dm_receiver_id m) ts (Some ''deposit'') c = Inr c1"
    using assms(1) by (auto simp: deposit_and_act_def result_simps)
  have "c' = c1 \<or> (\<exists>p. c' = detach p c1) \<or> (\<exists>ps. execute_intents env ps c1 = Inr c')"
    using assms(1) by (auto simp: deposit_and_act_def d result_simps split: option.splits deposit_action.splits if_splits)
  moreover have "mono_rel env c c1" using deposit_token_rel [OF d] by (rule token_mono)
  ultimately show ?thesis using execute_intents_mono [OF _ assms(2)] mono_rel_trans by fastforce
qed

lemma run_deposit_mono:
  assumes "run_deposit env m c = Inr c'" and "contract_ok env c" and "payloads_ok env"
  shows "mono_rel env c c'"
proof (cases m)
  case (MFtOnTransfer a n msg)
  then show ?thesis using assms deposit_and_act_mono
    by (fastforce simp: ft_on_transfer_def result_simps dest!: settled_Inr)
next
  case (MNftOnTransfer a p t msg)
  then show ?thesis using assms deposit_and_act_mono
    by (fastforce simp: nft_on_transfer_def result_simps dest!: settled_Inr)
next
  case (MMtOnTransfer a ps ts ns msg)
  then show ?thesis using assms deposit_and_act_mono
    by (fastforce simp: mt_on_transfer_def result_simps dest!: settled_Inr)
qed (use assms in \<open>auto simp: state_of_Inr ft_resolve_deposit_def nft_resolve_deposit_def mt_resolve_deposit_def result_simps
    intro!: token_mono dest: resolve_deposit_internal_rel\<close>)

subsection \<open>Methods that manage accounts\<close>

lemma nonce_used_put:
  "account_is_nonce_used (lk_value l) = account_is_nonce_used (lk_value (account_or_new env a c)) \<Longrightarrow>
     contract_is_nonce_used (put_account a l c) = contract_is_nonce_used c"
  by (auto simp: fun_eq_iff views_alt(1) [of _ _ _ env])

lemma key_ops_mono:
  "contract_add_public_key env a pk c = Inr c' \<Longrightarrow> mono_rel env c c'"
  "contract_remove_public_key env a pk c = Inr c' \<Longrightarrow> mono_rel env c c'"
proof -
  assume c': "contract_add_public_key env a pk c = Inr c'"
  then have "contract_is_nonce_used c' = contract_is_nonce_used c"
    by (auto simp: add_public_key_Inr Let_def put_inner_def write_inner_def fun_eq_iff intro!: nonce_used_put [THEN fun_cong, THEN fun_cong])
  with keepsD [OF key_ops_gap(1) c'] key_ops_config(1) [OF c'] show "mono_rel env c c'" by (simp add: mono_rel_def)
next
  assume c': "contract_remove_public_key env a pk c = Inr c'"
  then have "contract_is_nonce_used c' = contract_is_nonce_used c"
    by (auto simp: remove_public_key_Inr Let_def put_inner_def write_inner_def fun_eq_iff intro!: nonce_used_put [THEN fun_cong, THEN fun_cong])
  with keepsD [OF key_ops_gap(2) c'] key_ops_config(2) [OF c'] show "mono_rel env c c'" by (simp add: mono_rel_def)
qed

lemma set_auth_mono: "internal_set_auth env a enable force c = Inr (c', b) \<Longrightarrow> mono_rel env c c'"
proof -
  assume c': "internal_set_auth env a enable force c = Inr (c', b)"
  then have "contract_is_nonce_used c' = contract_is_nonce_used c"
    by (elim internal_set_auth_Inr)
      (auto simp: put_inner_def write_inner_def fun_eq_iff intro!: nonce_used_put [THEN fun_cong, THEN fun_cong])
  with keeps_bD [OF key_ops_gap(3) c'] set_auth_config [OF c'] show ?thesis by (simp add: mono_rel_def)
qed

lemma emit_ops_mono:
  "add_public_key_and_emit env a pk c = Inr c' \<Longrightarrow> mono_rel env c c'"
  "remove_public_key_and_emit env a pk c = Inr c' \<Longrightarrow> mono_rel env c c'"
  "set_auth_and_emit env a enable force c = Inr (c', b) \<Longrightarrow> mono_rel env c c'"
  by (auto simp: add_public_key_and_emit_def remove_public_key_and_emit_def set_auth_and_emit_def result_simps
      dest!: key_ops_mono set_auth_mono)

text \<open>Setting the lock of an entry.\<close>

lemma put_lock_mono:
  assumes "l = account_or_new env a c"
  shows "mono_rel env c (put_account a (l\<lparr>lk_locked := b\<rparr>) c)"
proof -
  have "contract_gap (put_account a (l\<lparr>lk_locked := b\<rparr>) c) = contract_gap c"
    by (simp add: contract_gap_def held_put [of _ _ _ _ env] fun_eq_iff lock_balance_def assms)
  moreover have "contract_ok env (put_account a (l\<lparr>lk_locked := b\<rparr>) c)" if "contract_ok env c"
    using that account_or_new_ok [OF that, of a] by (simp add: contract_ok_put assms)
  ultimately show ?thesis
    by (simp add: mono_rel_def same_gap_def nonce_used_put [of _ env] assms)
qed

lemma created_mono: "mono_rel env c (fst (get_or_create env a c))"
  by (auto simp: mono_rel_def same_gap_def get_or_create_ok)

lemma locks_mono:
  "force_lock_account env a c = Inr (c', b) \<Longrightarrow> mono_rel env c c'"
  "force_unlock_account env a c = Inr (c', b) \<Longrightarrow> mono_rel env c c'"
proof -
  assume "force_lock_account env a c = Inr (c', b)"
  then have "c' = fst (get_or_create env a c) \<or>
      (\<exists>e. c' = add_log e (put_account a ((account_or_new env a c)\<lparr>lk_locked := True\<rparr>) c))"
    by (auto simp: force_lock_account_def operator_call_Inr lock_lock_def get_or_create_def put_account_def Let_def split: if_splits)
  then show "mono_rel env c c'" using created_mono by (auto simp: put_lock_mono)
next
  assume "force_unlock_account env a c = Inr (c', b)"
  then have "c' = c \<or> (\<exists>e. c' = add_log e (put_account a ((account_or_new env a c)\<lparr>lk_locked := False\<rparr>) c))"
    by (cases "map_of (c_accounts c) a")
      (auto simp: force_unlock_account_def operator_call_Inr lock_unlock_def split: if_splits)
  then show "mono_rel env c c'" by (auto simp: put_lock_mono)
qed

lemma fold_rel:
  assumes step: "\<And>x c. R c (f x c)" and "\<And>c. R c c" and trans: "\<And>c d e. R c d \<Longrightarrow> R d e \<Longrightarrow> R c e"
  shows "R c (fold f xs c)"
proof (induction xs arbitrary: c)
  case (Cons x xs)
  show ?case using trans [OF step Cons.IH] by simp
qed (simp add: assms(2))

lemmas fold_mono = fold_rel [where R = "mono_rel env" for env, OF _ mono_rel_refl mono_rel_trans]

lemma or_unchanged_mono: "(\<And>c' b. r = Inr (c', b) \<Longrightarrow> mono_rel env c c') \<Longrightarrow> mono_rel env c (or_unchanged r c)"
  by (cases r) (auto simp: or_unchanged_def)

lemma run_account_mono:
  assumes "run_account env m c = Inr c'"
  shows "mono_rel env c c'"
proof (cases m)
  case (MForceAddKeys ks)
  then have "fold_r (\<lambda>(a, pks). fold_r (add_public_key_and_emit env a) pks) ks c = Inr c'"
    using assms by (simp add: force_add_public_keys_def operator_call_Inr)
  then show ?thesis
    by (rule fold_r_rel) (auto intro: mono_rel_trans emit_ops_mono elim!: fold_r_rel [of _ _ _ _ "mono_rel env"])
next
  case (MForceRemoveKeys ks)
  then have "fold_r (\<lambda>(a, pks). fold_r (remove_public_key_and_emit env a) pks) ks c = Inr c'"
    using assms by (simp add: force_remove_public_keys_def operator_call_Inr)
  then show ?thesis
    by (rule fold_r_rel) (auto intro: mono_rel_trans emit_ops_mono elim!: fold_r_rel [of _ _ _ _ "mono_rel env"])
qed (use assms in \<open>auto simp: guard_simps result_simps state_of_Inr add_public_key_def remove_public_key_def
    disable_auth_by_predecessor_id_def force_disable_auth_by_predecessor_ids_def force_enable_auth_by_predecessor_ids_def
    intro!: fold_mono or_unchanged_mono intro: emit_ops_mono locks_mono\<close>)

subsection \<open>Garbage collection\<close>

text \<open>The salt and the deadline of a structured nonce are part of the prefix under which used nonces
  are stored, so all nonces cleaned together share them.\<close>

lemma maybe_from_prefix:
  assumes "maybe_from f n0 = Some (V1 s)" and "butlast n0 = butlast n" and "u256_ok n"
  shows "\<exists>s'. maybe_from f n = Some (V1 s') \<and> sn_salt s' = sn_salt s \<and>
    en_deadline (sn_nonce s') = en_deadline (sn_nonce s)"
proof -
  have l: "length n0 \<ge> 32" using assms(1) by (auto simp: maybe_from_def deserialize_versioned_def split: if_splits)
  obtain xs x y where n0: "n0 = xs @ [x]" and n: "n = xs @ [y]" and len: "length xs = 31"
  proof -
    have "n0 = butlast n0 @ [last n0]" "n = butlast n @ [last n]"
      using l assms(3) by (auto simp: u256_ok_def intro!: append_butlast_last_id [symmetric])
    with assms(2,3) that [of "butlast n" "last n0" "last n"] show ?thesis by (simp add: u256_ok_def)
  qed
  have "hd (drop 4 n0) = hd (drop 4 n)" unfolding n0 n using len by (cases "drop 4 xs") auto
  with assms(1) show ?thesis
    by (auto simp: maybe_from_def deserialize_versioned_def n0 n len split: if_splits option.splits)
qed

lemma cleanable_prefix:
  assumes "is_nonce_cleanable env c n0" and "butlast n0 = butlast n" and "u256_ok n"
  shows "is_nonce_cleanable env c n"
proof -
  obtain s where s: "maybe_from (ev_from_nanos (h_engine env)) n0 = Some (V1 s)"
    using assms(1) by (auto simp: is_nonce_cleanable_def split: option.splits versioned_nonce.splits)
  obtain s' where "maybe_from (ev_from_nanos (h_engine env)) n = Some (V1 s')"
    "sn_salt s' = sn_salt s" "en_deadline (sn_nonce s') = en_deadline (sn_nonce s)"
    using maybe_from_prefix [OF s assms(2,3)] by blast
  with s assms(1) show ?thesis by (simp add: is_nonce_cleanable_def)
qed

definition cleanup_rel :: "'p host \<Rightarrow> 'p contract \<Rightarrow> 'p contract \<Rightarrow> bool" where
  "cleanup_rel env c c' \<longleftrightarrow> config c' = config c \<and> keeps_gap env c c' \<and>
     (\<forall>a n. u256_ok n \<longrightarrow> contract_is_nonce_used c a n \<longrightarrow> contract_is_nonce_used c' a n \<or> is_nonce_cleanable env c n)"

lemma cleanup_rel_refl [simp]: "cleanup_rel env c c"
  by (simp add: cleanup_rel_def)

lemma cleanup_rel_trans: "cleanup_rel env c d \<Longrightarrow> cleanup_rel env d e \<Longrightarrow> cleanup_rel env c e"
proof -
  assume c: "cleanup_rel env c d" and d: "cleanup_rel env d e"
  have salts: "c_salts d = c_salts c" using c by (simp add: cleanup_rel_def config_def)
  have "is_nonce_cleanable env d = is_nonce_cleanable env c"
    by (intro ext) (simp only: is_nonce_cleanable_def salts)
  with c d show ?thesis unfolding cleanup_rel_def using keeps_gap_trans by metis
qed

lemma cleanup_by_prefix_rel:
  assumes "contract_cleanup_nonce_by_prefix a (butlast n0) c = Inr (c', b)" and "is_nonce_cleanable env c n0"
  shows "cleanup_rel env c c'"
proof -
  obtain l where l: "map_of (c_accounts c) a = Some l"
    and c': "c' = put_inner a l (fst (account_cleanup_nonce_by_prefix (butlast n0) (lk_value l))) c"
    using assms(1) by (auto simp: contract_cleanup_nonce_by_prefix_def bind_r_Inr ok_or_Inr as_inner_unchecked_def split_def)
  let ?x = "fst (account_cleanup_nonce_by_prefix (butlast n0) (lk_value l))"
  have acc: "account_or_new env a c = l" using l by simp
  have bal: "ac_token_balances ?x = ac_token_balances (lk_value l)"
    by (simp add: account_cleanup_nonce_by_prefix_def split_def)
  have "keeps_gap env c (put_inner a (account_or_new env a c) ?x c)"
  proof (rule put_inner_keeps_gap)
    show "ac_token_balances ?x = ac_token_balances (lk_value (account_or_new env a c))" by (simp only: acc bal)
    show "account_ok (h_codecs env) a ?x" if "contract_ok env c"
      by (rule cleanup_nonce_ok [OF contract_okD [OF that l]])
  qed
  moreover have "contract_is_nonce_used c' b n \<or> is_nonce_cleanable env c n" if "u256_ok n" "contract_is_nonce_used c b n" for b n
  proof (cases "butlast n0 = butlast n")
    case True
    then show ?thesis using cleanable_prefix [OF assms(2)] that by blast
  next
    case False
    then show ?thesis
      using that ml_cleanup_used [of "ac_nonces (lk_value l)" "butlast n0" n]
      by (auto simp: views_alt(1) [of _ _ _ env] c' acc write_inner_def account_is_nonce_used_def
          account_cleanup_nonce_by_prefix_def split_def ml_is_used_def)
  qed
  ultimately show ?thesis by (simp add: cleanup_rel_def c' acc)
qed

lemma cleanup_nonce_rel: "cleanup_rel env c (cleanup_nonce env a n c)"
  by (auto simp: cleanup_nonce_def or_unchanged_def intro: cleanup_by_prefix_rel split: sum.splits)

lemmas fold_cleanup = fold_rel [where R = "cleanup_rel env" for env, OF _ cleanup_rel_refl cleanup_rel_trans]

lemma cleanup_nonces_rel: "cleanup_nonces env ns c = Inr c' \<Longrightarrow> cleanup_rel env c c'"
  by (auto simp: cleanup_nonces_def operator_call_Inr intro!: fold_cleanup cleanup_nonce_rel split: prod.splits)

subsection \<open>Every call\<close>

text \<open>What any call keeps: the invariant, the gap between supply and holdings, the life of the salts,
  and every used nonce that could still be accepted.\<close>

definition call_rel :: "'p host \<Rightarrow> 'p contract \<Rightarrow> 'p contract \<Rightarrow> bool" where
  "call_rel env c c' \<longleftrightarrow> contract_ok env c' \<and> contract_gap c' = contract_gap c \<and>
     (salt_step (h_codecs env))\<^sup>*\<^sup>* (c_salts c) (c_salts c') \<and>
     (\<forall>a n. u256_ok n \<longrightarrow> contract_is_nonce_used c a n \<longrightarrow> contract_is_nonce_used c' a n \<or> is_nonce_cleanable env c n)"

lemma mono_call: "mono_rel env c c' \<Longrightarrow> contract_ok env c \<Longrightarrow> call_rel env c c'"
  by (auto simp: mono_rel_def call_rel_def same_gap_def config_def)

lemma cleanup_call: "cleanup_rel env c c' \<Longrightarrow> contract_ok env c \<Longrightarrow> call_rel env c c'"
  by (auto simp: cleanup_rel_def call_rel_def same_gap_def config_def)

lemma salts_call:
  assumes "contract_ok env c" and "(salt_step (h_codecs env))\<^sup>*\<^sup>* (c_salts c) r" and "salts_ok r"
  shows "call_rel env c (c\<lparr>c_salts := r\<rparr>)"
  using assms by (auto simp: call_rel_def contract_ok_def contract_gap_def held_def contract_is_nonce_used_def fun_eq_iff)

lemma salt_step_ok: "salt_step C r r' \<Longrightarrow> salts_ok r \<Longrightarrow> salts_ok r'"
  by (erule salt_stepE) (auto dest: set_new_ok invalidate_step)

lemma invalidate_fold:
  assumes "salts_ok (fst p)"
  shows "(salt_step (h_codecs env))\<^sup>*\<^sup>* (fst p) (fst (fold (invalidate_step env) ss p)) \<and>
    salts_ok (fst (fold (invalidate_step env) ss p))"
  using assms
proof (induction ss arbitrary: p)
  case (Cons s ss)
  let ?q = "invalidate_step env s p"
  have "?q = p \<or> salt_step (h_codecs env) (fst p) (fst ?q)"
    by (auto simp: invalidate_step_def split: sum.splits intro: salt_step.retire)
  with Cons.IH [of ?q] salt_step_ok Cons.prems show ?case by (auto intro: converse_rtranclp_into_rtranclp)
qed simp

lemma call_rel_logs [simp]:
  "call_rel env c (add_log e d) = call_rel env c d" "call_rel env c (detach p d) = call_rel env c d"
  by (auto simp: call_rel_def add_log_def detach_def contract_ok_def contract_gap_def held_def contract_is_nonce_used_def fun_eq_iff)

lemma setting_call:
  assumes "contract_ok env c" and "c_accounts c' = c_accounts c" and "c_total_supplies c' = c_total_supplies c"
    and "c_salts c' = c_salts c"
  shows "call_rel env c c'"
  using assms by (simp add: call_rel_def contract_ok_def contract_gap_def held_def contract_is_nonce_used_def fun_eq_iff)

lemma run_admin_rel:
  assumes "run_admin env m c = Inr c'" and ok: "contract_ok env c"
  shows "call_rel env c c'"
proof (cases m)
  case MUpdateSalt
  then obtain r s where r: "salt_set_new (h_codecs env) (h_seed env) (c_salts c) = Inr (r, s)"
    and c': "\<exists>e. c' = add_log e (c\<lparr>c_salts := r\<rparr>)"
    using assms(1) by (auto simp: update_current_salt_def operator_call_Inr state_of_Inr result_simps)
  have "salt_step (h_codecs env) (c_salts c) r" using r by (rule salt_step.rotate)
  with c' ok show ?thesis by (auto intro!: salts_call dest: salt_step_ok simp: contract_ok_def)
next
  case (MInvalidateSalts ss)
  then have "\<exists>e. c' = add_log e (c\<lparr>c_salts := fst (fold (invalidate_step env) ss (c_salts c, []))\<rparr>)"
    using assms(1) by (auto simp: invalidate_salts_def operator_call_Inr state_of_Inr split_def)
  with invalidate_fold [of "(c_salts c, [])" env ss] ok show ?thesis
    by (auto intro!: salts_call simp: contract_ok_def)
next
  case (MCleanupNonces ns)
  then show ?thesis using assms by (auto intro: cleanup_call cleanup_nonces_rel)
qed (use assms in \<open>auto simp: guard_simps result_simps detached_Inr scheduled_Inr set_fee_def set_fee_collector_def
    add_relayer_key_def do_add_relayer_key_def delete_relayer_key_def add_full_access_key_def delete_key_def
    add_log_def detach_def intro!: setting_call split: prod.splits\<close>)

lemma flush_burns_Inr: "flush_burns env c = Inr c' \<Longrightarrow> c' = c \<or> (\<exists>e. c' = add_log e (c\<lparr>c_postponed_burns := []\<rparr>))"
  by (auto simp: flush_burns_def emit_checked_Inr split: if_splits)

lemma run_method_rel:
  assumes "run_method env m c = Inr c'" and "contract_ok env c" and "payloads_ok env"
  shows "call_rel env c c'"
proof (cases m)
  case (MDo m')
  then show ?thesis using assms by (auto simp: result_simps scheduled_Inr intro: setting_call)
qed (use assms in \<open>auto intro: mono_call token_mono execute_intents_mono run_transfer_rel run_withdraw_rel run_deposit_mono
    run_account_mono run_admin_rel\<close>)

lemma call_contract_rel:
  assumes "call_contract env m c = Inr c'" and "contract_ok env c" and "payloads_ok env"
  shows "call_rel env c c'"
proof -
  obtain d where d: "run_method env m c = Inr d" and f: "flush_burns env d = Inr c'"
    using assms(1) by (auto simp: call_contract_def result_simps)
  have "call_rel env c (d\<lparr>c_postponed_burns := []\<rparr>) = call_rel env c d"
    by (simp add: call_rel_def contract_is_nonce_used_def)
  with run_method_rel [OF d assms(2,3)] flush_burns_Inr [OF f] show ?thesis by auto
qed

end
