(* ===== verification/Reachability.thy ===== *)
theory Reachability
  imports CallLaws
begin

text \<open>
  All states the contract can reach from its initialization by calls of anybody, with the clock
  and the intents executed so far, and what holds in all of them: the invariant, the backing of
  every token and the execution of each signed intent at most once.
\<close>

subsection \<open>The intents a call executes\<close>

definition deposit_payloads :: "'p host \<Rightarrow> account_id \<Rightarrow> string \<Rightarrow> 'p list" where
  "deposit_payloads env sender msg = (case deposit_message_of env sender msg of
      Inl _ \<Rightarrow> []
    | Inr m \<Rightarrow> (case dm_action m of Some (Execute ps True) \<Rightarrow> ps | _ \<Rightarrow> []))"

fun executed :: "'p host \<Rightarrow> 'p contract_method \<Rightarrow> 'p list" where
  "executed env (MExecuteIntents ps) = ps"
| "executed env (MDeposit (MFtOnTransfer a n msg)) = deposit_payloads env a msg"
| "executed env (MDeposit (MNftOnTransfer a p t msg)) = deposit_payloads env a msg"
| "executed env (MDeposit (MMtOnTransfer a ps ts ns msg)) = deposit_payloads env a msg"
| "executed env _ = []"

lemma deposit_and_act_executes:
  assumes "deposit_and_act env s ps ts resolve nr m c = Inr (c', x)" and "dm_action m = Some (Execute xs True)" and "xs \<noteq> []"
  shows "\<exists>d. token_rel env c d \<and> execute_intents env xs d = Inr c'"
  using assms by (auto simp: deposit_and_act_def result_simps intro: deposit_token_rel)

lemma deposit_executes:
  assumes "bind_r (deposit_message_of env a msg) (\<lambda>m. deposit_and_act env s ps ts resolve nr m c) = Inr (c', x)"
    and "deposit_payloads env a msg \<noteq> []"
  shows "\<exists>d. token_rel env c d \<and> execute_intents env (deposit_payloads env a msg) d = Inr c'"
proof -
  obtain m where m: "deposit_message_of env a msg = Inr m" and run: "deposit_and_act env s ps ts resolve nr m c = Inr (c', x)"
    using assms(1) by (auto simp: result_simps)
  obtain xs where "dm_action m = Some (Execute xs True)" and xs: "deposit_payloads env a msg = xs"
    using assms(2) by (auto simp: deposit_payloads_def m split: option.splits deposit_action.splits bool.splits)
  with deposit_and_act_executes [OF run] assms(2) show ?thesis by auto
qed

lemma mt_deposit_executes:
  assumes "mt_on_transfer env a ps ts ns msg c = Inr (c', x)" and "deposit_payloads env a msg \<noteq> []"
  shows "\<exists>d. token_rel env c d \<and> execute_intents env (deposit_payloads env a msg) d = Inr c'"
proof -
  obtain us r nr where "bind_r (deposit_message_of env a msg) (\<lambda>m. deposit_and_act env a ps us r nr m c) = Inr (c', x)"
    using assms(1) unfolding mt_on_transfer_def by (auto simp: bind_r_Inr)
  from deposit_executes [OF this assms(2)] show ?thesis .
qed

lemma run_method_executes:
  assumes "run_method env m c = Inr c'" and "executed env m \<noteq> []"
  shows "\<exists>d d'. token_rel env c d \<and> execute_intents env (executed env m) d = Inr d' \<and> (c' = d' \<or> (\<exists>p. c' = detach p d'))"
proof -
  consider (execute) ps where "m = MExecuteIntents ps"
    | (ft) a n msg where "m = MDeposit (MFtOnTransfer a n msg)"
    | (nft) a p t msg where "m = MDeposit (MNftOnTransfer a p t msg)"
    | (mt) a ps ts ns msg where "m = MDeposit (MMtOnTransfer a ps ts ns msg)"
    using assms(2) by (cases "(env, m)" rule: executed.cases) auto
  then show ?thesis
  proof cases
    case execute
    then show ?thesis using assms(1) by (intro exI [of _ c] exI [of _ c']) simp
  next
    case ft
    then have x: "deposit_payloads env a msg \<noteq> []" "settled (ft_on_transfer env a n msg c) = Inr c'" using assms by simp_all
    then obtain d y where "ft_on_transfer env a n msg c = Inr (d, y)" and c': "c' = d \<or> (\<exists>p. c' = detach p d)"
      using settled_Inr by blast
    then have "\<exists>e. token_rel env c e \<and> execute_intents env (deposit_payloads env a msg) e = Inr d"
      using deposit_executes [OF _ x(1)] by (auto simp: ft_on_transfer_def bind_r_Inr)
    then show ?thesis using c' unfolding ft by auto
  next
    case nft
    then have x: "deposit_payloads env a msg \<noteq> []" "settled (nft_on_transfer env a p t msg c) = Inr c'" using assms by simp_all
    then obtain d y where "nft_on_transfer env a p t msg c = Inr (d, y)" and c': "c' = d \<or> (\<exists>p. c' = detach p d)"
      using settled_Inr by blast
    then have "\<exists>e. token_rel env c e \<and> execute_intents env (deposit_payloads env a msg) e = Inr d"
      using deposit_executes [OF _ x(1)] by (auto simp: nft_on_transfer_def bind_r_Inr)
    then show ?thesis using c' unfolding nft by auto
  next
    case mt
    then have x: "deposit_payloads env a msg \<noteq> []" "settled (mt_on_transfer env a ps ts ns msg c) = Inr c'" using assms by simp_all
    then obtain d y where d: "mt_on_transfer env a ps ts ns msg c = Inr (d, y)" and c': "c' = d \<or> (\<exists>p. c' = detach p d)"
      using settled_Inr by blast
    show ?thesis using mt_deposit_executes [OF d x(1)] c' unfolding mt by auto
  qed
qed

lemma call_executes:
  assumes "call_contract env m c = Inr c'" and "executed env m \<noteq> []"
  shows "\<exists>d d'. token_rel env c d \<and> execute_intents env (executed env m) d = Inr d' \<and>
    contract_is_nonce_used c' = contract_is_nonce_used d' \<and> c_salts c' = c_salts d'"
proof -
  obtain e where run: "run_method env m c = Inr e" and f: "flush_burns env e = Inr c'"
    using assms(1) by (auto simp: call_contract_def result_simps)
  obtain d d' where d: "token_rel env c d" "execute_intents env (executed env m) d = Inr d'" and e: "e = d' \<or> (\<exists>p. e = detach p d')"
    using run_method_executes [OF run assms(2)] by blast
  have "contract_is_nonce_used c' = contract_is_nonce_used d' \<and> c_salts c' = c_salts d'"
    using e flush_burns_Inr [OF f] by (auto simp: detach_def add_log_def contract_is_nonce_used_def fun_eq_iff)
  with d show ?thesis by blast
qed

subsection \<open>Reachable states\<close>

text \<open>The hosts of the calls of one deployment share the codecs and the date constructor.\<close>

definition same_chain :: "'p host \<Rightarrow> 'p host \<Rightarrow> bool" where
  "same_chain env0 env \<longleftrightarrow> h_codecs env = h_codecs env0 \<and>
     ev_from_nanos (h_engine env) = ev_from_nanos (h_engine env0) \<and> payloads_ok env"

text \<open>Time does not go back. A call that fails is reverted by the host and has no rule. The last
  argument lists signer and nonce of every intent executed so far.\<close>

inductive reachable :: "'p host \<Rightarrow> timestamp \<Rightarrow> 'p contract \<Rightarrow> (account_id \<times> nonce) list \<Rightarrow> bool" for env0 where
  init: "same_chain env0 env \<Longrightarrow> reachable env0 (ev_now (h_engine env)) (contract_new env wnear protocol_fee collector) []"
| call: "reachable env0 now c ks \<Longrightarrow> same_chain env0 env \<Longrightarrow> now \<le> ev_now (h_engine env) \<Longrightarrow>
     call_contract env m c = Inr c' \<Longrightarrow>
     reachable env0 (ev_now (h_engine env)) c' (ks @ map (nonce_key env) (executed env m))"

text \<open>A given sequence of calls, each of which succeeds.\<close>

definition run_calls :: "('p host \<times> 'p contract_method) list \<Rightarrow> 'p contract \<Rightarrow> 'p contract result" where
  "run_calls = fold_r (\<lambda>(env, m). call_contract env m)"

lemma reachable_run:
  assumes "run_calls xs c = Inr c'" and "reachable env0 now c ks"
    and "\<forall>(env, m) \<in> set xs. same_chain env0 env \<and> ev_now (h_engine env) = now"
  shows "reachable env0 now c' (ks @ concat (map (\<lambda>(env, m). map (nonce_key env) (executed env m)) xs))"
  using assms unfolding run_calls_def
proof (induction xs arbitrary: c ks)
  case (Cons x xs)
  obtain env m where x: "x = (env, m)" by (cases x)
  obtain d where d: "call_contract env m c = Inr d" and rest: "fold_r (\<lambda>(env, m). call_contract env m) xs d = Inr c'"
    using Cons.prems(1) by (auto simp: x result_simps)
  have "reachable env0 now d (ks @ map (nonce_key env) (executed env m))"
    using reachable.call [OF Cons.prems(2) _ _ d] Cons.prems(3) by (auto simp: x)
  from Cons.IH [OF rest this] Cons.prems(3) show ?case by (simp add: x)
qed simp

lemma contract_ok_cong: "h_codecs env = h_codecs env0 \<Longrightarrow> contract_ok env c = contract_ok env0 c"
  by (simp add: contract_ok_def)

lemma call_step_rel:
  assumes "call_contract env m c = Inr c'" and "same_chain env0 env" and "contract_ok env0 c"
  shows "call_rel env c c' \<and> contract_ok env c \<and> contract_ok env0 c'"
proof -
  have "contract_ok env c" using assms(2,3) contract_ok_cong by (auto simp: same_chain_def)
  with call_contract_rel [OF assms(1)] assms(2) show ?thesis
    using contract_ok_cong by (auto simp: same_chain_def call_rel_def)
qed

lemma reachable_invariant:
  assumes "reachable env0 now c ks"
  shows "contract_ok env0 c \<and> backed c"
  using assms
proof induction
  case (init env wnear protocol_fee collector)
  then show ?case
    using contract_new_ok [of env] contract_ok_cong [of env env0] by (simp add: same_chain_def backed_gap contract_new_gap)
next
  case (call now c ks env m c')
  then show ?case using call_step_rel [OF call.hyps(4,2)] by (simp add: call_rel_def backed_gap)
qed

lemma sum_map_ge_two:
  "map_of m k = Some v \<Longrightarrow> map_of m j = Some w \<Longrightarrow> j \<noteq> k \<Longrightarrow> f v + f w \<le> (sum_map f m :: nat)"
  by (induction m) (auto split: if_splits dest: sum_map_ge [of _ _ _ f] simp: add.commute add_le_mono1)

lemma held_ge_two: "b \<noteq> a \<Longrightarrow> contract_balance_of c a t + contract_balance_of c b t \<le> held c t"
  using held_ge_balance [of c a t] held_ge_balance [of c b t] sum_map_ge_two [of "c_accounts c" a _ b _ "lock_balance t"]
  by (fastforce simp: contract_balance_of_def held_def lock_balance_def [abs_def] as_inner_unchecked_def split: option.splits)

text \<open>C4: in every state that calls of anybody can reach, the invariant of the contract holds and
  every token is fully backed: the recorded supply is the sum of the balances.\<close>

theorem reachable_backed:
  assumes "reachable env0 now c ks"
  shows "contract_ok env0 c \<and> amount_for (c_total_supplies c) t = held c t"
  using reachable_invariant [OF assms] by (simp add: backed_def)

text \<open>C33: in every reachable state a non-fungible token has at most one owner, who holds one.\<close>

theorem nft_unique_owner:
  assumes "reachable env0 now c ks" and "contract_balance_of c a (Nep171 k nft) > 0"
  shows "contract_balance_of c a (Nep171 k nft) = 1 \<and>
    (\<forall>b. b \<noteq> a \<longrightarrow> contract_balance_of c b (Nep171 k nft) = 0)"
proof -
  let ?t = "Nep171 k nft"
  have "amount_for (c_total_supplies c) ?t \<le> 1" "amount_for (c_total_supplies c) ?t = held c ?t"
    using reachable_invariant [OF assms(1)] unfolding backed_def contract_ok_def supplies_ok_def by blast+
  moreover have "contract_balance_of c a ?t \<le> held c ?t" by (rule held_ge_balance)
  moreover have "contract_balance_of c a ?t + contract_balance_of c b ?t \<le> held c ?t" if "b \<noteq> a" for b
    using that by (rule held_ge_two)
  ultimately show ?thesis using assms(2) by fastforce
qed

subsection \<open>At most once\<close>

text \<open>A nonce that can never be accepted again: expired, or with a salt that was retired.\<close>

definition dead_nonce :: "(int \<Rightarrow> timestamp option) \<Rightarrow> timestamp \<Rightarrow> salt_registry \<Rightarrow> nonce \<Rightarrow> bool" where
  "dead_nonce from_nanos now r n \<longleftrightarrow> (\<exists>s. maybe_from from_nanos n = Some (V1 s) \<and>
     (en_deadline (sn_nonce s) < now \<or> \<not> salt_is_valid r (sn_salt s)))"

text \<open>What the contract remembers of an executed intent: its nonce is marked used or is dead, and
  the salt of a structured nonce was drawn before.\<close>

definition remembered :: "(int \<Rightarrow> timestamp option) \<Rightarrow> timestamp \<Rightarrow> 'p contract \<Rightarrow> account_id \<times> nonce \<Rightarrow> bool" where
  "remembered from_nanos now c k \<longleftrightarrow> u256_ok (snd k) \<and>
     (\<forall>s. maybe_from from_nanos (snd k) = Some (V1 s) \<longrightarrow> salt_is_used (c_salts c) (sn_salt s)) \<and>
     (key_used c k \<or> dead_nonce from_nanos now (c_salts c) (snd k))"

lemma salt_used_step: "salt_step C r r' \<Longrightarrow> salts_ok r \<Longrightarrow> salt_is_used r s \<Longrightarrow> salt_is_used r' s"
proof (erule salt_stepE)
  fix seed old assume "salt_set_new C seed r = Inr (r', old)" "salt_is_used r s"
  then show "salt_is_used r' s" using salt_set_new_Inr by (auto simp: salt_is_used_def)
next
  fix seed t assume ok: "salts_ok r" and i: "salt_invalidate C seed t r = Inr r'" and u: "salt_is_used r s"
  show "salt_is_used r' s" using invalidate_step [OF ok i] u by blast
qed

lemma salts_later:
  assumes "(salt_step C)\<^sup>*\<^sup>* r r'" and "salts_ok r" and "salt_is_used r s"
  shows "salts_ok r' \<and> salt_is_used r' s \<and> (\<not> salt_is_valid r s \<longrightarrow> \<not> salt_is_valid r' s)"
  using assms(1)
proof induction
  case base
  then show ?case using assms(2,3) by simp
next
  case (step y z)
  then show ?case using salt_step_ok salt_used_step salt_step_dead by blast
qed

lemma remembered_step:
  assumes "remembered f now c k" and rel: "call_rel env c c'" and ok: "contract_ok env c"
    and time: "now \<le> ev_now (h_engine env)" and f: "ev_from_nanos (h_engine env) = f"
  shows "remembered f (ev_now (h_engine env)) c' k"
proof -
  let ?now = "ev_now (h_engine env)"
  have u: "u256_ok (snd k)" and drawn: "\<And>s. maybe_from f (snd k) = Some (V1 s) \<Longrightarrow> salt_is_used (c_salts c) (sn_salt s)"
    and mem: "key_used c k \<or> dead_nonce f now (c_salts c) (snd k)"
    using assms(1) unfolding remembered_def by blast+
  have steps: "(salt_step (h_codecs env))\<^sup>*\<^sup>* (c_salts c) (c_salts c')" and sok: "salts_ok (c_salts c)"
    using rel ok by (simp_all add: call_rel_def contract_ok_def)
  have later: "dead_nonce f ?now (c_salts c') (snd k)" if "dead_nonce f t (c_salts c) (snd k)" "t \<le> ?now" for t
    using that drawn salts_later [OF steps sok] unfolding dead_nonce_def by fastforce
  have "key_used c' k \<or> dead_nonce f ?now (c_salts c') (snd k)"
  proof (cases "key_used c k")
    case True
    then have "key_used c' k \<or> is_nonce_cleanable env c (snd k)"
      using rel u unfolding call_rel_def key_used_def by blast
    moreover have "dead_nonce f ?now (c_salts c) (snd k)" if "is_nonce_cleanable env c (snd k)"
      using that f by (auto simp: is_nonce_cleanable_def dead_nonce_def split: option.splits versioned_nonce.splits)
    ultimately show ?thesis using later by blast
  next
    case False
    then show ?thesis using mem later time by blast
  qed
  then show ?thesis using u drawn salts_later [OF steps sok] unfolding remembered_def by blast
qed

text \<open>What executing a batch shows of each of its intents.\<close>

lemma batch_salts:
  assumes "execute_intents env xs c = Inr c'" and "contract_ok env c" and "payloads_ok env" and "x \<in> set xs"
  shows "\<exists>d. authorized env d x \<and> c_salts d = c_salts c"
proof -
  obtain ys zs where xs: "xs = ys @ x # zs" using split_list [OF assms(4)] by blast
  obtain d m i where run: "fold_r (execute_signed_intent (h_engine env) (contract_deltas env) execute_inspector_ops) ys
      ((c, []), ei_new) = Inr ((d, m), i)" and auth: "authorized env d x"
    using execute_intents_prefix [OF assms(1) [unfolded xs] assms(2,3)] by blast
  have frame: "engine_frame (contract_deltas env) (\<lambda>_. True) (\<lambda>p q. same_config (fst p) (fst q))"
    by (rule engine_frame.intro [OF frame_laws_deltas [OF config_laws]]) simp_all
  have "same_config c d"
    using engine_frame.execute_batch_frame [OF frame run] assms(3) by (simp add: payloads_ok_def)
  with auth show ?thesis by (auto simp: config_def)
qed

lemma batch_alive:
  assumes "execute_intents env xs c = Inr c'" and "contract_ok env c" and "payloads_ok env" and "x \<in> set xs"
  shows "u256_ok (snd (nonce_key env x)) \<and>
    \<not> dead_nonce (ev_from_nanos (h_engine env)) (ev_now (h_engine env)) (c_salts c) (snd (nonce_key env x)) \<and>
    (\<forall>s. maybe_from (ev_from_nanos (h_engine env)) (snd (nonce_key env x)) = Some (V1 s) \<longrightarrow> salt_is_used (c_salts c) (sn_salt s))"
proof -
  obtain d where auth: "authorized env d x" and salts: "c_salts d = c_salts c"
    using batch_salts [OF assms] by blast
  then obtain p where p: "ev_extract (h_engine env) x = Inr p"
    and v: "\<And>s. maybe_from (ev_from_nanos (h_engine env)) (dp_nonce p) = Some (V1 s) \<Longrightarrow>
        salt_is_valid (c_salts c) (sn_salt s) \<and> ev_now (h_engine env) \<le> en_deadline (sn_nonce s)"
    unfolding authorized_def by auto
  have "salt_is_used (c_salts c) s" if "salt_is_valid (c_salts c) s" for s
    using that by (auto simp: salt_is_valid_def salt_is_used_def)
  with v p nonce_key_u256 [OF assms(3) auth] show ?thesis
    by (fastforce simp: nonce_key_def dead_nonce_def)
qed

text \<open>One call: its intents were not executed before, and are remembered afterwards.\<close>

lemma call_executes_new:
  assumes run: "call_contract env m c = Inr c'" and ok: "contract_ok env c" and po: "payloads_ok env"
    and mem: "\<forall>k \<in> set ks. remembered (ev_from_nanos (h_engine env)) now c k" and time: "now \<le> ev_now (h_engine env)"
  defines "new \<equiv> map (nonce_key env) (executed env m)"
  shows "distinct new \<and> set new \<inter> set ks = {} \<and>
    (\<forall>k \<in> set new. remembered (ev_from_nanos (h_engine env)) (ev_now (h_engine env)) c' k)"
proof (cases "executed env m = []")
  case True
  then show ?thesis by (simp add: new_def)
next
  case False
  let ?f = "ev_from_nanos (h_engine env)"
  obtain d d' where d: "token_rel env c d" and e: "execute_intents env (executed env m) d = Inr d'"
    and c': "contract_is_nonce_used c' = contract_is_nonce_used d'" "c_salts c' = c_salts d'"
    using call_executes [OF run False] by blast
  have ok_d: "contract_ok env d" and used_d: "key_used d = key_used c" and salts: "c_salts d = c_salts c"
    using d ok by (auto simp: token_rel_def same_gap_def key_used_def fun_eq_iff config_def)
  have salts': "c_salts d' = c_salts d" using execute_intents_mono [OF e po] by (simp add: mono_rel_def config_def)
  note batch = execute_intents_batch [OF e ok_d po] and alive = batch_alive [OF e ok_d po]
  have "remembered ?f (ev_now (h_engine env)) c' k" if "k \<in> set new" for k
    using that batch alive unfolding remembered_def new_def key_used_def c' salts' by auto
  moreover have "k \<notin> set ks" if "k \<in> set new" for k
  proof
    assume "k \<in> set ks"
    then have "key_used c k \<or> dead_nonce ?f now (c_salts c) (snd k)" using mem unfolding remembered_def by blast
    moreover have "\<not> key_used c k" using that batch unfolding new_def used_d by auto
    moreover have "\<not> dead_nonce ?f (ev_now (h_engine env)) (c_salts c) (snd k)"
      using that alive unfolding new_def salts by auto
    ultimately show False using time unfolding dead_nonce_def by (meson less_le_trans)
  qed
  moreover have "distinct new" using batch unfolding new_def by blast
  ultimately show ?thesis by blast
qed

lemma reachable_remembered:
  assumes "reachable env0 now c ks"
  shows "distinct ks \<and> (\<forall>k \<in> set ks. remembered (ev_from_nanos (h_engine env0)) now c k)"
  using assms
proof induction
  case (call now c ks env m c')
  have chain: "ev_from_nanos (h_engine env) = ev_from_nanos (h_engine env0)" and po: "payloads_ok env"
    using call.hyps(2) by (simp_all add: same_chain_def)
  note rel = call_step_rel [OF call.hyps(4,2)] reachable_invariant [OF call.hyps(1)]
  have "remembered (ev_from_nanos (h_engine env0)) (ev_now (h_engine env)) c' k" if "k \<in> set ks" for k
    using remembered_step [OF _ _ _ call.hyps(3) chain] call.IH rel that by blast
  with call_executes_new [OF call.hyps(4) _ po _ call.hyps(3), of ks] call.IH rel chain show ?case by auto
qed simp

text \<open>C2: over any sequence of calls, each signed intent is executed at most once: no pair of signer
  and nonce occurs twice among the executed intents, although the garbage collector forgets
  used nonces, because what it forgets has expired or carries a retired salt.\<close>

theorem at_most_once:
  assumes "reachable env0 now c ks"
  shows "distinct ks"
  using reachable_remembered [OF assms] by blast

text \<open>The garbage collector removes the record of a used nonce only if no intent with this nonce
  can be accepted any more: in every later state, its execution fails.\<close>

theorem gc_safe:
  assumes "reachable env0 now c ks" and "(a, n) \<in> set ks" and "same_chain env0 env" and "now \<le> ev_now (h_engine env)"
    and "y \<in> set ys" and "nonce_key env y = (a, n)"
  shows "\<not> is_ok (execute_intents env ys c)"
proof
  assume "is_ok (execute_intents env ys c)"
  then obtain c' where run: "execute_intents env ys c = Inr c'" by (auto simp: is_ok_Ex)
  have po: "payloads_ok env" and f: "ev_from_nanos (h_engine env) = ev_from_nanos (h_engine env0)"
    and ok: "contract_ok env c"
    using assms(3) reachable_invariant [OF assms(1)] contract_ok_cong by (auto simp: same_chain_def)
  have "\<not> key_used c (a, n)" using execute_intents_batch [OF run ok po] assms(5,6) by auto
  moreover have "\<not> dead_nonce (ev_from_nanos (h_engine env0)) (ev_now (h_engine env)) (c_salts c) n"
    using batch_alive [OF run ok po assms(5)] assms(6) f by simp
  moreover have "key_used c (a, n) \<or> dead_nonce (ev_from_nanos (h_engine env0)) now (c_salts c) n"
    using reachable_remembered [OF assms(1)] assms(2) unfolding remembered_def by fastforce
  ultimately show False using assms(4) unfolding dead_nonce_def by (meson less_le_trans)
qed

end
