(* ===== verification/Evaluation.thy ===== *)
theory Evaluation
  imports NumUtils "HOL-Library.Code_Target_Nat"
begin

text \<open>
  Equations by which the examples evaluate faster: the bounds of the widths that occur as numerals,
  and the checked operations on natural numbers without the detour over the integers.
\<close>

lemma u_max_code [code]: "u_max w = (if w = 128 then 340282366920938463463374607431768211455
    else if w = 32 then 4294967295 else 2 ^ w - 1)"
  by (simp add: u_max_def)

lemma fit_u_code [code]: "fit_u w x = (if 0 \<le> x \<and> nat x \<le> u_max w then Some (nat x) else None)"
  by (auto simp: fit_u_def)

lemma checked_add_u_code [code]: "checked_add_u w a b = (if a + b \<le> u_max w then Some (a + b) else None)"
  by (auto simp: checked_add_u_def fit_u_def nat_plus_as_int)

lemma checked_sub_u_code [code]: "checked_sub_u w a b = (if b \<le> a \<and> a - b \<le> u_max w then Some (a - b) else None)"
  by (auto simp: checked_sub_u_def fit_u_def nat_minus_as_int)

lemma checked_mul_u_code [code]: "checked_mul_u w a b = (if a * b \<le> u_max w then Some (a * b) else None)"
  by (auto simp: checked_mul_u_def fit_u_def nat_mult_distrib simp flip: of_nat_mult)

definition ok_value :: "'e + 'a \<Rightarrow> 'a \<Rightarrow> 'a" where
  "ok_value r d = (case r of Inl _ \<Rightarrow> d | Inr x \<Rightarrow> x)"

lemma ok_value: "is_ok r \<Longrightarrow> r = Inr (ok_value r d)"
  by (cases r) (simp_all add: ok_value_def)

end
