(* ===== verification/Samples.thy ===== *)
theory Samples
  imports Reachability Evaluation
begin

text \<open>
  A small deployment on which the theorems about whole calls are applied: deposits of a fungible
  and a non-fungible token, a key and one signed transfer. The signature check and the codecs
  are simple functions that satisfy what the theorems require of them.
\<close>

definition sample_engine :: "defuse_payload engine_env" where
  "sample_engine = \<lparr> ev_wide = exact_wide, ev_now = 100, ev_from_nanos = (\<lambda>_. None), ev_verify = (\<lambda>_. Some sample_key),
     ev_hash = (\<lambda>_. []), ev_extract = (\<lambda>p. if length (dp_nonce p) = 32 then Inr p else Inl JSONError) \<rparr>"

definition sample_host :: "defuse_payload host" where
  "sample_host = \<lparr> h_current = ''intents'', h_predecessor = ''relay'', h_deposit = 1, h_seed = [],
     h_has_role = (\<lambda>_. False), h_paused = (\<lambda>_. False), h_codecs = sample_codecs,
     h_account_type = (\<lambda>_. NearImplicitAccount), h_parse = Some, h_log_len = (\<lambda>_. 100),
     h_promise_result = (\<lambda>_. None), h_json_u128 = (\<lambda>_. None), h_json_u128s = (\<lambda>_. None), h_json_bool = (\<lambda>_. None),
     h_json_deposit = (\<lambda>_. None), h_engine = sample_engine \<rparr>"

abbreviation usdc :: token_id where "usdc \<equiv> Nep141 ''usdc''"

definition called_by :: "account_id \<Rightarrow> defuse_payload host" where
  "called_by a = sample_host\<lparr>h_predecessor := a\<rparr>"

definition sample_payload :: defuse_payload where
  "sample_payload = \<lparr> dp_signer_id = ''alice'', dp_verifying_contract = ''intents'', dp_deadline = 200,
     dp_nonce = replicate 32 1, dp_message = [Transfer \<lparr> ti_receiver_id = ''bob'', ti_tokens = [(usdc, 30)],
       ti_memo = None, ti_notification = None \<rparr>] \<rparr>"

definition sample_calls :: "(defuse_payload host \<times> defuse_payload contract_method) list" where
  "sample_calls =
     [(called_by ''usdc'', MDeposit (MFtOnTransfer ''alice'' 100 [])),
      (called_by ''nft'', MDeposit (MNftOnTransfer ''alice'' ''alice'' ''1'' [])),
      (called_by ''alice'', MAccount (MAddPublicKey sample_key))]"

definition sample_new :: "defuse_payload contract" where
  "sample_new = contract_new sample_host ''wnear'' pips_zero ''fees''"

definition sample_setup :: "defuse_payload contract result" where
  "sample_setup = run_calls sample_calls sample_new"

definition sample_state :: "defuse_payload contract" where
  "sample_state = ok_value sample_setup sample_new"

definition sample_run :: "defuse_payload contract result" where
  "sample_run = execute_intents sample_host [sample_payload] sample_state"

definition sample_after :: "defuse_payload contract" where
  "sample_after = ok_value sample_run sample_state"

lemma sample_setup_ok: "is_ok sample_setup"
  by code_simp

lemma sample_run_ok: "is_ok sample_run \<and> c_postponed_burns sample_after = []"
  by code_simp

lemma sample_payloads_ok: "payloads_ok sample_host" "payloads_ok (called_by a)"
  by (simp_all add: payloads_ok_def sample_host_def sample_engine_def called_by_def u256_ok_def)

lemma sample_types_ok: "types_ok sample_host"
  by (simp add: types_ok_def sample_host_def)

lemma called_predecessor: "h_predecessor (called_by a) = a"
  by (simp add: called_by_def)

lemma sample_chain: "same_chain sample_host sample_host" "same_chain sample_host (called_by a)"
  using sample_payloads_ok by (simp_all add: same_chain_def called_by_def)

lemma sample_now: "ev_now (h_engine sample_host) = 100" "ev_now (h_engine (called_by a)) = 100"
  by (simp_all add: sample_host_def sample_engine_def called_by_def)

lemma sample_deposits: "deposit_payloads env a [] = []"
  by (simp add: deposit_payloads_def deposit_message_of_def)

lemma sample_reachable: "reachable sample_host 100 sample_state []"
proof -
  have "reachable sample_host 100 sample_new []"
    using reachable.init [OF sample_chain(1)] by (simp add: sample_new_def sample_now)
  moreover have "run_calls sample_calls sample_new = Inr sample_state"
    using ok_value [OF sample_setup_ok] unfolding sample_state_def sample_setup_def .
  moreover have "\<forall>(env, m) \<in> set sample_calls. same_chain sample_host env \<and> ev_now (h_engine env) = 100"
    by (simp add: sample_calls_def sample_chain sample_now)
  ultimately have "reachable sample_host 100 sample_state ([] @ concat (map (\<lambda>(env, m). map (nonce_key env) (executed env m)) sample_calls))"
    using reachable_run by blast
  moreover have "concat (map (\<lambda>(env, m). map (nonce_key env) (executed env m)) sample_calls) = []"
    by (simp add: sample_calls_def sample_deposits)
  ultimately show ?thesis by simp
qed

lemma sample_state_ok: "contract_ok sample_host sample_state" and sample_state_backed: "backed sample_state"
  using reachable_invariant [OF sample_reachable] by simp_all

lemma called_state_ok: "contract_ok (called_by a) sample_state"
  using sample_state_ok contract_ok_cong [of "called_by a" sample_host] by (simp add: called_by_def)

lemma sample_execute: "execute_intents sample_host [sample_payload] sample_state = Inr sample_after"
  using ok_value [OF sample_run_ok [THEN conjunct1]] unfolding sample_after_def sample_run_def .

lemma sample_reachable_after: "reachable sample_host 100 sample_after [(''alice'', replicate 32 1)]"
proof -
  have "call_contract sample_host (MExecuteIntents [sample_payload]) sample_state = Inr sample_after"
    using sample_run_ok by (simp add: call_contract_def sample_execute flush_burns_def)
  moreover have "nonce_key sample_host sample_payload = (''alice'', replicate 32 1)"
    by (simp add: nonce_key_def sample_host_def sample_engine_def sample_payload_def)
  ultimately show ?thesis
    using reachable.call [OF sample_reachable sample_chain(1), of "MExecuteIntents [sample_payload]" sample_after]
    by (simp add: sample_now)
qed

subsection \<open>Executing intents\<close>

theorem execute_intents_conserves_witness:
  "contract_ok sample_host sample_after \<and> backed sample_after"
  by (rule execute_intents_conserves [OF sample_execute sample_state_ok sample_payloads_ok(1) sample_state_backed])

theorem only_signers_lose_witness:
  "contract_balance_of sample_state ''bob'' usdc \<le> contract_balance_of sample_after ''bob'' usdc \<and>
   \<not> contract_is_account_locked sample_after ''alice''"
proof -
  have "\<not> contract_is_account_locked sample_state ''alice''" by code_simp
  moreover have "dp_signer_id p \<noteq> ''bob''"
    if "x \<in> set [sample_payload]" "ev_extract (h_engine sample_host) x = Inr p" for x p
    using that by (auto simp: sample_payload_def sample_host_def sample_engine_def)
  ultimately show ?thesis
    using only_signers_lose [OF sample_execute sample_state_ok sample_payloads_ok(1) sample_types_ok,
        where a = "''bob''" and b = "''alice''" and t = usdc] by blast
qed

theorem no_replay_witness:
  "\<not> is_ok (execute_intents sample_host [sample_payload] sample_after)"
proof -
  have "contract_ok sample_host sample_after"
    using execute_intents_gap [OF sample_execute sample_state_ok sample_payloads_ok(1)] by simp
  with no_replay [OF sample_execute sample_state_ok sample_payloads_ok(1) _ sample_payloads_ok(1),
      of sample_payload sample_payload "[sample_payload]"] show ?thesis by simp
qed

theorem every_intent_authorized_witness: "\<exists>d. authorized sample_host d sample_payload"
  using every_intent_authorized [of sample_host "[]" sample_payload "[]"] sample_execute sample_state_ok sample_payloads_ok(1)
  by auto

subsection \<open>Sequences of calls\<close>

theorem reachable_backed_witness: "amount_for (c_total_supplies sample_after) usdc = held sample_after usdc"
  using reachable_backed [OF sample_reachable_after] by blast

theorem nft_unique_owner_witness: "contract_balance_of sample_state ''bob'' (Nep171 ''nft'' ''1'') = 0"
proof -
  have "contract_balance_of sample_state ''alice'' (Nep171 ''nft'' ''1'') > 0" by code_simp
  with nft_unique_owner [OF sample_reachable] show ?thesis by simp
qed

theorem at_most_once_witness: "distinct [(''alice'', replicate 32 (1 :: byte))]"
  by (rule at_most_once [OF sample_reachable_after])

theorem gc_safe_witness: "\<not> is_ok (execute_intents sample_host [sample_payload, sample_payload] sample_after)"
  by (rule gc_safe [OF sample_reachable_after _ sample_chain(1), of "''alice''" "replicate 32 1" sample_payload])
    (simp_all add: sample_now nonce_key_def sample_host_def sample_engine_def sample_payload_def)

subsection \<open>Moving tokens\<close>

definition sample_transfer :: "defuse_payload contract result" where
  "sample_transfer = mt_batch_transfer (called_by ''alice'') ''bob'' [''nep141:usdc''] [5] False None sample_state"

lemma sample_transfer_ok: "is_ok sample_transfer"
  by code_simp

theorem mt_batch_transfer_effect_witness:
  "\<exists>ts. parse_all (called_by ''alice'') [''nep141:usdc''] = Some ts \<and>
     moved ''alice'' ''bob'' (zip ts [5]) sample_state (ok_value sample_transfer sample_state)"
proof -
  have "mt_batch_transfer (called_by ''alice'') ''bob'' [''nep141:usdc''] [5] False None sample_state =
      Inr (ok_value sample_transfer sample_state)"
    using ok_value [OF sample_transfer_ok] unfolding sample_transfer_def .
  from mt_batch_transfer_effect [OF this called_state_ok, unfolded called_predecessor] show ?thesis by blast
qed

lemma sample_parse: "parse_all (called_by a) [''nep141:usdc''] = Some [usdc]"
proof -
  have "parse_ok sample_host ''nep141:usdc'' = Some usdc" by code_simp
  then show ?thesis by (simp add: parse_ok_def called_by_def)
qed

theorem mt_resolve_transfer_total_witness:
  "\<exists>c' used. mt_resolve_transfer (called_by ''intents'') [''alice''] ''bob'' [''nep141:usdc''] [5] False sample_state = Inr (c', used) \<and>
     backed c' \<and> used ! 0 \<le> 5"
  using mt_resolve_transfer_total [OF called_state_ok sample_state_backed, of "''intents''" "[''nep141:usdc'']" "[''alice'']" "[5]"
      "''alice''" "[usdc]" _ "''bob''"] sample_parse [of "''intents''"]
  by (fastforce simp: called_by_def sample_host_def)

theorem resolve_deposit_total_witness:
  "\<exists>c' rs. resolve_deposit_internal sample_host ''alice'' [(usdc, 5)] sample_state = Inr (c', rs) \<and> backed c' \<and> rs ! 0 \<le> 5"
  using resolve_deposit_total [OF sample_state_ok sample_state_backed refl, of "''alice''" "[(usdc, 5)]"] by fastforce

definition sample_refund :: "(defuse_payload contract \<times> nat) result" where
  "sample_refund = ft_resolve_withdraw (called_by ''intents'') ''usdc'' ''alice'' 5 False sample_state"

lemma sample_refund_ok: "is_ok sample_refund"
  by code_simp

theorem ft_resolve_withdraw_effect_witness:
  "\<exists>c'. sample_refund = Inr (c', 0) \<and> burnt ''alice'' [(usdc, 5)] c' sample_state"
proof -
  obtain c' used where r: "ft_resolve_withdraw (called_by ''intents'') ''usdc'' ''alice'' 5 False sample_state = Inr (c', used)"
    using sample_refund_ok unfolding sample_refund_def is_ok_Ex by fastforce
  have "h_promise_result (called_by ''intents'') 0 = None" by (simp add: called_by_def sample_host_def)
  with ft_resolve_withdraw_effect [OF r called_state_ok] r show ?thesis by (auto simp: sample_refund_def)
qed

definition sample_mt_refund :: "(defuse_payload contract \<times> nat list) result" where
  "sample_mt_refund = mt_resolve_withdraw (called_by ''intents'') ''mt'' ''alice'' [''1''] [5] False sample_state"

lemma sample_mt_refund_ok: "is_ok sample_mt_refund"
  by code_simp

theorem mt_resolve_withdraw_effect_witness:
  "\<exists>c' used. sample_mt_refund = Inr (c', used) \<and> length used = 1 \<and> contract_gap c' = contract_gap sample_state"
proof -
  obtain c' used where r: "mt_resolve_withdraw (called_by ''intents'') ''mt'' ''alice'' [''1''] [5] False sample_state = Inr (c', used)"
    using sample_mt_refund_ok unfolding sample_mt_refund_def is_ok_Ex by fastforce
  from mt_resolve_withdraw_effect [OF r called_state_ok] r show ?thesis by (simp add: sample_mt_refund_def)
qed

end
