(* ===== verification/Cached.thy ===== *)
theory Cached
  imports Engine Lock
begin

text \<open>
  The cached state (\<open>core/src/engine/state/cached.rs\<close>), on which intents are simulated: a view that
  never changes, and per account the keys added and removed, the nonces committed, whether the
  authorization by predecessor was toggled, and the balances that were touched. It is the record of
  operations \<open>cached_ops\<close> over the operations of any view; simulating creates no promises.
\<close>

subsection \<open>Cached accounts\<close>

record cached_account =
  ca_nonces :: bitmap256
  ca_auth_by_predecessor_id_toggled :: bool
  ca_public_keys_added :: "public_key list"
  ca_public_keys_removed :: "public_key list"
  ca_token_amounts :: "token_id amounts"

type_synonym cached_accounts = "(account_id \<times> cached_account lock) list"

type_synonym 'v cached_state = "'v \<times> cached_accounts"

definition cached_account_default :: cached_account where
  "cached_account_default = \<lparr> ca_nonces = [], ca_auth_by_predecessor_id_toggled = False, ca_public_keys_added = [],
     ca_public_keys_removed = [], ca_token_amounts = [] \<rparr>"

definition ca_is_nonce_used :: "cached_account \<Rightarrow> nonce \<Rightarrow> bool" where
  "ca_is_nonce_used x n = nonces_is_used (ca_nonces x) n"

definition ca_commit_nonce :: "nonce \<Rightarrow> cached_account \<Rightarrow> cached_account result" where
  "ca_commit_nonce n x = bind_r (nonces_commit (ca_nonces x) n) (\<lambda>m. Inr (x\<lparr>ca_nonces := m\<rparr>))"

definition ca_cleanup_nonce_by_prefix :: "nonce_prefix \<Rightarrow> cached_account \<Rightarrow> cached_account \<times> bool" where
  "ca_cleanup_nonce_by_prefix p x = (case nonces_cleanup_by_prefix (ca_nonces x) p of (m, b) \<Rightarrow> (x\<lparr>ca_nonces := m\<rparr>, b))"

text \<open>The entry of an account, created with the lock the view reports.\<close>

definition ca_get_or_create :: "'v state_ops \<Rightarrow> account_id \<Rightarrow> 'v cached_state \<Rightarrow> cached_account lock" where
  "ca_get_or_create vo a s = (case map_of (snd s) a of
      None \<Rightarrow> lock_new (so_is_account_locked vo (fst s) a) cached_account_default
    | Some l \<Rightarrow> l)"

definition ca_put :: "account_id \<Rightarrow> cached_account lock \<Rightarrow> cached_account \<Rightarrow> 'v cached_state \<Rightarrow> 'v cached_state" where
  "ca_put a l x s = (fst s, AList.update a (write_inner x l) (snd s))"

definition ca_unlocked :: "account_id \<Rightarrow> cached_account lock \<Rightarrow> cached_account result" where
  "ca_unlocked a l = ok_or (lock_get l) (AccountLocked a)"

text \<open>Insertion into and removal from a hash set, with whether it changed.\<close>

definition hs_insert :: "'k \<Rightarrow> 'k list \<Rightarrow> 'k list \<times> bool" where
  "hs_insert k ks = (List.insert k ks, k \<notin> set ks)"

definition hs_remove :: "'k \<Rightarrow> 'k list \<Rightarrow> 'k list \<times> bool" where
  "hs_remove k ks = (removeAll k ks, k \<in> set ks)"

subsection \<open>The view\<close>

definition cached_has_public_key :: "'v state_ops \<Rightarrow> 'v cached_state \<Rightarrow> account_id \<Rightarrow> public_key \<Rightarrow> bool" where
  "cached_has_public_key vo s a k = (case map_of (snd s) a of
      None \<Rightarrow> so_has_public_key vo (fst s) a k
    | Some l \<Rightarrow>
        if k \<in> set (ca_public_keys_added (as_inner_unchecked l)) then True
        else if k \<in> set (ca_public_keys_removed (as_inner_unchecked l)) then False
        else so_has_public_key vo (fst s) a k)"

definition cached_iter_public_keys :: "'v state_ops \<Rightarrow> 'v cached_state \<Rightarrow> account_id \<Rightarrow> public_key list" where
  "cached_iter_public_keys vo s a = (case map_of (snd s) a of
      None \<Rightarrow> so_iter_public_keys vo (fst s) a
    | Some l \<Rightarrow> filter (\<lambda>k. k \<notin> set (ca_public_keys_removed (as_inner_unchecked l))) (so_iter_public_keys vo (fst s) a)
        @ ca_public_keys_added (as_inner_unchecked l))"

definition cached_is_nonce_used :: "'v state_ops \<Rightarrow> 'v cached_state \<Rightarrow> account_id \<Rightarrow> nonce \<Rightarrow> bool" where
  "cached_is_nonce_used vo s a n =
     ((case map_of (snd s) a of None \<Rightarrow> False | Some l \<Rightarrow> ca_is_nonce_used (as_inner_unchecked l) n) \<or>
      so_is_nonce_used vo (fst s) a n)"

definition cached_balance_of :: "'v state_ops \<Rightarrow> 'v cached_state \<Rightarrow> account_id \<Rightarrow> token_id \<Rightarrow> nat" where
  "cached_balance_of vo s a t =
     (case Option.bind (map_of (snd s) a) (\<lambda>l. map_of (ca_token_amounts (as_inner_unchecked l)) t) of
        None \<Rightarrow> so_balance_of vo (fst s) a t
      | Some n \<Rightarrow> n)"

definition cached_is_account_locked :: "'v state_ops \<Rightarrow> 'v cached_state \<Rightarrow> account_id \<Rightarrow> bool" where
  "cached_is_account_locked vo s a = (case map_of (snd s) a of
      None \<Rightarrow> so_is_account_locked vo (fst s) a | Some l \<Rightarrow> is_locked l)"

definition cached_is_auth_enabled :: "'v state_ops \<Rightarrow> 'v cached_state \<Rightarrow> account_id \<Rightarrow> bool" where
  "cached_is_auth_enabled vo s a =
     (so_is_auth_by_predecessor_id_enabled vo (fst s) a \<noteq>
      (case map_of (snd s) a of None \<Rightarrow> False | Some l \<Rightarrow> ca_auth_by_predecessor_id_toggled (as_inner_unchecked l)))"

subsection \<open>The operations\<close>

definition cached_add_public_key :: "'v state_ops \<Rightarrow> account_id \<Rightarrow> public_key \<Rightarrow> 'v cached_state \<Rightarrow> 'v cached_state result" where
  "cached_add_public_key vo a k s =
     (let had = so_has_public_key vo (fst s) a k; l = ca_get_or_create vo a s in
      bind_r (ca_unlocked a l) (\<lambda>x.
      let (x', added) = (if had then (case hs_remove k (ca_public_keys_removed x) of (ks, b) \<Rightarrow> (x\<lparr>ca_public_keys_removed := ks\<rparr>, b))
        else (case hs_insert k (ca_public_keys_added x) of (ks, b) \<Rightarrow> (x\<lparr>ca_public_keys_added := ks\<rparr>, b))) in
      bind_r (require_r added (PublicKeyExists a k)) (\<lambda>_. Inr (ca_put a l x' s))))"

definition cached_remove_public_key :: "'v state_ops \<Rightarrow> account_id \<Rightarrow> public_key \<Rightarrow> 'v cached_state \<Rightarrow> 'v cached_state result" where
  "cached_remove_public_key vo a k s =
     (let had = so_has_public_key vo (fst s) a k; l = ca_get_or_create vo a s in
      bind_r (ca_unlocked a l) (\<lambda>x.
      let (x', removed) = (if had then (case hs_insert k (ca_public_keys_removed x) of (ks, b) \<Rightarrow> (x\<lparr>ca_public_keys_removed := ks\<rparr>, b))
        else (case hs_remove k (ca_public_keys_added x) of (ks, b) \<Rightarrow> (x\<lparr>ca_public_keys_added := ks\<rparr>, b))) in
      bind_r (require_r removed (PublicKeyNotExist a k)) (\<lambda>_. Inr (ca_put a l x' s))))"

definition cached_commit_nonce :: "'v state_ops \<Rightarrow> account_id \<Rightarrow> nonce \<Rightarrow> 'v cached_state \<Rightarrow> 'v cached_state result" where
  "cached_commit_nonce vo a n s =
     bind_r (require_r (\<not> so_is_nonce_used vo (fst s) a n) NonceUsed) (\<lambda>_.
     let l = ca_get_or_create vo a s in
     bind_r (ca_unlocked a l) (\<lambda>x.
     bind_r (ca_commit_nonce n x) (\<lambda>x'. Inr (ca_put a l x' s))))"

definition cached_cleanup_nonce_by_prefix ::
  "account_id \<Rightarrow> nonce_prefix \<Rightarrow> 'v cached_state \<Rightarrow> ('v cached_state \<times> bool) result" where
  "cached_cleanup_nonce_by_prefix a p s =
     bind_r (ok_or (map_of (snd s) a) (AccountNotFound a)) (\<lambda>l.
       case ca_cleanup_nonce_by_prefix p (as_inner_unchecked l) of (x, b) \<Rightarrow> Inr (ca_put a l x s, b))"

text \<open>The first touch of a token loads its balance from the view.\<close>

definition ca_load :: "'v state_ops \<Rightarrow> account_id \<Rightarrow> token_id \<Rightarrow> 'v \<Rightarrow> token_id amounts \<Rightarrow> token_id amounts result" where
  "ca_load vo a t v m = (if map_of m t = None
     then bind_r (ok_or (amounts_add t (so_balance_of vo v a t) m) BalanceOverflow) (\<lambda>(m', _). Inr m')
     else Inr m)"

definition ca_add_step :: "'v state_ops \<Rightarrow> 'v \<Rightarrow> account_id \<Rightarrow> token_id \<times> nat \<Rightarrow> token_id amounts \<Rightarrow> token_id amounts result" where
  "ca_add_step vo v a p m = (case p of (t, amount) \<Rightarrow>
     bind_r (ca_load vo a t v m) (\<lambda>m1.
     bind_r (ok_or (amounts_add t amount m1) BalanceOverflow) (\<lambda>(m2, _). Inr m2)))"

definition ca_sub_step :: "'v state_ops \<Rightarrow> 'v \<Rightarrow> account_id \<Rightarrow> token_id \<times> nat \<Rightarrow> token_id amounts \<Rightarrow> token_id amounts result" where
  "ca_sub_step vo v a p m = (case p of (t, amount) \<Rightarrow>
     bind_r (require_r (amount \<noteq> 0) InvalidIntent) (\<lambda>_.
     bind_r (ca_load vo a t v m) (\<lambda>m1.
     bind_r (ok_or (amounts_sub t amount m1) BalanceOverflow) (\<lambda>(m2, _). Inr m2))))"

definition cached_add_balance :: "'v state_ops \<Rightarrow> account_id \<Rightarrow> (token_id \<times> nat) list \<Rightarrow> 'v cached_state \<Rightarrow> 'v cached_state result" where
  "cached_add_balance vo a tokens s =
     (let l = ca_get_or_create vo a s; x = as_inner_unchecked l in
      bind_r (fold_r (ca_add_step vo (fst s) a) tokens (ca_token_amounts x)) (\<lambda>m.
        Inr (ca_put a l (x\<lparr>ca_token_amounts := m\<rparr>) s)))"

definition cached_sub_balance :: "'v state_ops \<Rightarrow> account_id \<Rightarrow> (token_id \<times> nat) list \<Rightarrow> 'v cached_state \<Rightarrow> 'v cached_state result" where
  "cached_sub_balance vo a tokens s =
     (let l = ca_get_or_create vo a s in
      bind_r (ca_unlocked a l) (\<lambda>x.
      bind_r (fold_r (ca_sub_step vo (fst s) a) tokens (ca_token_amounts x)) (\<lambda>m.
        Inr (ca_put a l (x\<lparr>ca_token_amounts := m\<rparr>) s))))"

definition cached_wnear :: "'v state_ops \<Rightarrow> 'v cached_state \<Rightarrow> token_id" where
  "cached_wnear vo s = Nep141 (so_wnear_id vo (fst s))"

definition cached_deposit_of :: "'v state_ops \<Rightarrow> 'v cached_state \<Rightarrow> near_token option \<Rightarrow> (token_id \<times> nat) list" where
  "cached_deposit_of vo s sd = (case sd of None \<Rightarrow> [] | Some amount \<Rightarrow> [(cached_wnear vo s, amount)])"

definition cached_ft_withdraw :: "'v state_ops \<Rightarrow> account_id \<Rightarrow> ft_withdraw \<Rightarrow> 'v cached_state \<Rightarrow> 'v cached_state result" where
  "cached_ft_withdraw vo a w s = cached_sub_balance vo a
     ((Nep141 (fw_token w), fw_amount w) # cached_deposit_of vo s (fw_storage_deposit w)) s"

definition cached_nft_withdraw :: "'v state_ops \<Rightarrow> account_id \<Rightarrow> nft_withdraw \<Rightarrow> 'v cached_state \<Rightarrow> 'v cached_state result" where
  "cached_nft_withdraw vo a w s = cached_sub_balance vo a
     ((Nep171 (nw_token w) (nw_token_id w), 1) # cached_deposit_of vo s (nw_storage_deposit w)) s"

definition cached_mt_withdraw :: "'v state_ops \<Rightarrow> account_id \<Rightarrow> mt_withdraw \<Rightarrow> 'v cached_state \<Rightarrow> 'v cached_state result" where
  "cached_mt_withdraw vo a w s =
     bind_r (require_r (length (mw_token_ids w) = length (mw_amounts w) \<and> mw_token_ids w \<noteq> []) InvalidIntent) (\<lambda>_.
       cached_sub_balance vo a
         (zip (map (Nep245 (mw_token w)) (mw_token_ids w)) (mw_amounts w) @ cached_deposit_of vo s (mw_storage_deposit w)) s)"

definition cached_native_withdraw :: "'v state_ops \<Rightarrow> account_id \<Rightarrow> native_withdraw \<Rightarrow> 'v cached_state \<Rightarrow> 'v cached_state result" where
  "cached_native_withdraw vo a w s = cached_sub_balance vo a [(cached_wnear vo s, nat_amount w)] s"

definition cached_notify_on_transfer ::
  "account_id \<Rightarrow> account_id \<Rightarrow> token_id amounts \<Rightarrow> notify_on_transfer \<Rightarrow> 'v cached_state \<Rightarrow> 'v cached_state result" where
  "cached_notify_on_transfer sender receiver tokens n s = Inr s"

definition cached_storage_deposit :: "'v state_ops \<Rightarrow> account_id \<Rightarrow> storage_deposit \<Rightarrow> 'v cached_state \<Rightarrow> 'v cached_state result" where
  "cached_storage_deposit vo a w s = cached_sub_balance vo a [(cached_wnear vo s, sd_amount w)] s"

definition cached_set_auth :: "'v state_ops \<Rightarrow> account_id \<Rightarrow> bool \<Rightarrow> 'v cached_state \<Rightarrow> ('v cached_state \<times> bool) result" where
  "cached_set_auth vo a enable s =
     (let was_enabled = cached_is_auth_enabled vo s a in
      if was_enabled \<noteq> enable then
        let l = ca_get_or_create vo a s in
        bind_r (ca_unlocked a l) (\<lambda>x.
          Inr (ca_put a l (x\<lparr>ca_auth_by_predecessor_id_toggled := \<not> ca_auth_by_predecessor_id_toggled x\<rparr>) s, was_enabled))
      else Inr (s, was_enabled))"

definition cached_auth_call :: "'v state_ops \<Rightarrow> account_id \<Rightarrow> auth_call \<Rightarrow> 'v cached_state \<Rightarrow> 'v cached_state result" where
  "cached_auth_call vo a ac s =
     (if ac_attached_deposit ac \<noteq> 0 then cached_sub_balance vo a [(cached_wnear vo s, ac_attached_deposit ac)] s
      else Inr s)"

definition cached_mint :: "'v state_ops \<Rightarrow> account_id \<Rightarrow> token_id amounts \<Rightarrow> string option \<Rightarrow> 'v cached_state \<Rightarrow> 'v cached_state result" where
  "cached_mint vo a tokens memo = cached_add_balance vo a tokens"

definition cached_burn :: "'v state_ops \<Rightarrow> account_id \<Rightarrow> token_id amounts \<Rightarrow> string option \<Rightarrow> 'v cached_state \<Rightarrow> 'v cached_state result" where
  "cached_burn vo a tokens memo = cached_sub_balance vo a tokens"

definition cached_ops :: "'v state_ops \<Rightarrow> 'v cached_state state_ops" where
  "cached_ops vo = \<lparr>
     so_verifying_contract = (\<lambda>s. so_verifying_contract vo (fst s)),
     so_wnear_id = (\<lambda>s. so_wnear_id vo (fst s)),
     so_fee = (\<lambda>s. so_fee vo (fst s)),
     so_fee_collector = (\<lambda>s. so_fee_collector vo (fst s)),
     so_has_public_key = cached_has_public_key vo,
     so_iter_public_keys = cached_iter_public_keys vo,
     so_is_nonce_used = cached_is_nonce_used vo,
     so_balance_of = cached_balance_of vo,
     so_is_account_locked = cached_is_account_locked vo,
     so_is_auth_by_predecessor_id_enabled = cached_is_auth_enabled vo,
     so_is_valid_salt = (\<lambda>s. so_is_valid_salt vo (fst s)),
     so_add_public_key = cached_add_public_key vo,
     so_remove_public_key = cached_remove_public_key vo,
     so_commit_nonce = cached_commit_nonce vo,
     so_cleanup_nonce_by_prefix = cached_cleanup_nonce_by_prefix,
     so_internal_add_balance = cached_add_balance vo,
     so_internal_sub_balance = cached_sub_balance vo,
     so_ft_withdraw = cached_ft_withdraw vo,
     so_nft_withdraw = cached_nft_withdraw vo,
     so_mt_withdraw = cached_mt_withdraw vo,
     so_native_withdraw = cached_native_withdraw vo,
     so_notify_on_transfer = cached_notify_on_transfer,
     so_storage_deposit = cached_storage_deposit vo,
     so_set_auth_by_predecessor_id = cached_set_auth vo,
     so_auth_call = cached_auth_call vo,
     so_mint = cached_mint vo,
     so_burn = cached_burn vo \<rparr>"

definition cached_new :: "'v \<Rightarrow> 'v cached_state" where
  "cached_new v = (v, [])"

end
