(* ===== verification/EngineSimulation.thy ===== *)
theory EngineSimulation
  imports EngineLaws
begin

text \<open>
  One run of the engine that follows another: two states related by \<open>R\<close>, over two records of
  operations. When every operation of the second follows the first, that is, succeeds where it does and
  ends in a related state, so does a whole batch of signed intents. The inspectors may
  differ as long as the relation between them does not depend on the events they see. The two states
  have to agree on the keys of a set \<open>K\<close> only, which contains the keys the batch uses.
\<close>

definition follows :: "('a \<Rightarrow> 'b \<Rightarrow> bool) \<Rightarrow> 'a \<Rightarrow> 'b result \<Rightarrow> bool" where
  "follows R x r \<longleftrightarrow> (case r of Inl e \<Rightarrow> False | Inr y \<Rightarrow> R x y)"

lemma follows_simps [simp]: "follows R x (Inr y) \<longleftrightarrow> R x y" "\<not> follows R x (Inl e)"
  by (simp_all add: follows_def)

lemma follows_bind:
  "follows R x r \<Longrightarrow> (\<And>y. R x y \<Longrightarrow> follows Q z (f y)) \<Longrightarrow> follows Q z (bind_r r f)"
  by (cases r) simp_all

lemma follows_mono: "follows R x r \<Longrightarrow> (\<And>y. R x y \<Longrightarrow> Q x y) \<Longrightarrow> follows Q x r"
  by (cases r) simp_all

lemma follows_fold:
  assumes "fold_r f xs s = Inr s'" and "R s t"
    and "\<And>x u u' v. x \<in> set xs \<Longrightarrow> f x u = Inr u' \<Longrightarrow> R u v \<Longrightarrow> follows R u' (g x v)"
  shows "follows R s' (fold_r g xs t)"
  using assms
proof (induction xs arbitrary: s t)
  case (Cons x xs)
  obtain u where u: "f x s = Inr u" and rest: "fold_r f xs u = Inr s'"
    using Cons.prems(1) by (auto simp: result_simps)
  have "follows R u (g x t)" using Cons.prems(3) u Cons.prems(2) by simp
  then show ?case
    by (simp, rule follows_bind) (rule Cons.IH [OF rest], use Cons.prems(3) in simp_all)
qed simp

subsection \<open>Operations that follow\<close>

definition op_follows :: "('s \<Rightarrow> 't \<Rightarrow> bool) \<Rightarrow> ('s \<Rightarrow> 's result) \<Rightarrow> ('t \<Rightarrow> 't result) \<Rightarrow> bool" where
  "op_follows R f g \<longleftrightarrow> (\<forall>s s' t. R s t \<longrightarrow> f s = Inr s' \<longrightarrow> follows R s' (g t))"

text \<open>The keys a batch uses: those that signed it and those its intents add or remove.\<close>

fun intent_keys :: "intent \<Rightarrow> public_key set" where
  "intent_keys (AddPublicKey k) = {k}"
| "intent_keys (RemovePublicKey k) = {k}"
| "intent_keys _ = {}"

definition batch_keys :: "'p engine_env \<Rightarrow> 'p list \<Rightarrow> public_key set" where
  "batch_keys env xs = (\<Union>x\<in>set xs. set_option (ev_verify env x) \<union>
     (case ev_extract env x of Inl _ \<Rightarrow> {} | Inr p \<Rightarrow> \<Union>i\<in>set (dp_message p). intent_keys i))"

definition sim_laws :: "'s state_ops \<Rightarrow> 't state_ops \<Rightarrow> public_key set \<Rightarrow> ('s \<Rightarrow> 't \<Rightarrow> bool) \<Rightarrow> bool" where
  "sim_laws o1 o2 K R \<longleftrightarrow>
     (\<forall>s t. R s t \<longrightarrow> so_verifying_contract o2 t = so_verifying_contract o1 s \<and> so_fee o2 t = so_fee o1 s \<and>
        so_fee_collector o2 t = so_fee_collector o1 s \<and>
        (\<forall>a. \<forall>k \<in> K. so_has_public_key o2 t a k = so_has_public_key o1 s a k) \<and>
        so_is_valid_salt o2 t = so_is_valid_salt o1 s) \<and>
     (\<forall>a. \<forall>k \<in> K. op_follows R (so_add_public_key o1 a k) (so_add_public_key o2 a k)) \<and>
     (\<forall>a. \<forall>k \<in> K. op_follows R (so_remove_public_key o1 a k) (so_remove_public_key o2 a k)) \<and>
     (\<forall>a n. u256_ok n \<longrightarrow> op_follows R (so_commit_nonce o1 a n) (so_commit_nonce o2 a n)) \<and>
     (\<forall>a ts. op_follows R (so_internal_add_balance o1 a ts) (so_internal_add_balance o2 a ts)) \<and>
     (\<forall>a ts. op_follows R (so_internal_sub_balance o1 a ts) (so_internal_sub_balance o2 a ts)) \<and>
     (\<forall>a w. op_follows R (so_ft_withdraw o1 a w) (so_ft_withdraw o2 a w)) \<and>
     (\<forall>a w. op_follows R (so_nft_withdraw o1 a w) (so_nft_withdraw o2 a w)) \<and>
     (\<forall>a w. op_follows R (so_mt_withdraw o1 a w) (so_mt_withdraw o2 a w)) \<and>
     (\<forall>a w. op_follows R (so_native_withdraw o1 a w) (so_native_withdraw o2 a w)) \<and>
     (\<forall>a r ts n. op_follows R (so_notify_on_transfer o1 a r ts n) (so_notify_on_transfer o2 a r ts n)) \<and>
     (\<forall>a w. op_follows R (so_storage_deposit o1 a w) (so_storage_deposit o2 a w)) \<and>
     (\<forall>a b s s' x t. R s t \<longrightarrow> so_set_auth_by_predecessor_id o1 a b s = Inr (s', x) \<longrightarrow>
        follows (\<lambda>u (v, _). R u v) s' (so_set_auth_by_predecessor_id o2 a b t)) \<and>
     (\<forall>a c. op_follows R (so_auth_call o1 a c) (so_auth_call o2 a c)) \<and>
     (\<forall>a ts m. op_follows R (so_mint o1 a ts m) (so_mint o2 a ts m)) \<and>
     (\<forall>a ts m. op_follows R (so_burn o1 a ts m) (so_burn o2 a ts m))"

definition inspector_laws :: "'i inspector_ops \<Rightarrow> 'j inspector_ops \<Rightarrow> ('i \<Rightarrow> 'j \<Rightarrow> bool) \<Rightarrow> bool" where
  "inspector_laws i1 i2 Q \<longleftrightarrow> (\<forall>i j. Q i j \<longrightarrow>
     (\<forall>x. Q (io_on_deadline i1 x i) (io_on_deadline i2 x j)) \<and>
     (\<forall>e. Q (io_on_event i1 e i) j) \<and> (\<forall>e. Q i (io_on_event i2 e j)) \<and>
     (\<forall>a h n. Q (io_on_intent_executed i1 a h n i) (io_on_intent_executed i2 a h n j)))"

locale engine_simulation =
  fixes o1 :: "'s state_ops" and o2 :: "'t state_ops" and K :: "public_key set" and R :: "'s \<Rightarrow> 't \<Rightarrow> bool"
    and i1 :: "'i inspector_ops" and i2 :: "'j inspector_ops" and Q :: "'i \<Rightarrow> 'j \<Rightarrow> bool"
  assumes laws: "sim_laws o1 o2 K R" and io_laws: "inspector_laws i1 i2 Q"
begin

abbreviation RE :: "('s, 'i) engine \<Rightarrow> ('t, 'j) engine \<Rightarrow> bool" where
  "RE e f \<equiv> R (fst e) (fst f) \<and> Q (snd e) (snd f)"

lemma views:
  assumes "R s t"
  shows "so_verifying_contract o2 t = so_verifying_contract o1 s" "so_fee o2 t = so_fee o1 s"
    "so_fee_collector o2 t = so_fee_collector o1 s" "k \<in> K \<Longrightarrow> so_has_public_key o2 t a k = so_has_public_key o1 s a k"
    "so_is_valid_salt o2 t = so_is_valid_salt o1 s"
  using laws assms by (simp_all add: sim_laws_def)

lemma op_laws:
  "k \<in> K \<Longrightarrow> op_follows R (so_add_public_key o1 a k) (so_add_public_key o2 a k)"
  "k \<in> K \<Longrightarrow> op_follows R (so_remove_public_key o1 a k) (so_remove_public_key o2 a k)"
  "op_follows R (so_internal_add_balance o1 a ts) (so_internal_add_balance o2 a ts)"
  "op_follows R (so_internal_sub_balance o1 a ts) (so_internal_sub_balance o2 a ts)"
  "op_follows R (so_ft_withdraw o1 a fw) (so_ft_withdraw o2 a fw)"
  "op_follows R (so_nft_withdraw o1 a nw) (so_nft_withdraw o2 a nw)"
  "op_follows R (so_mt_withdraw o1 a mw) (so_mt_withdraw o2 a mw)"
  "op_follows R (so_native_withdraw o1 a vw) (so_native_withdraw o2 a vw)"
  "op_follows R (so_notify_on_transfer o1 a r ts nt) (so_notify_on_transfer o2 a r ts nt)"
  "op_follows R (so_storage_deposit o1 a sd) (so_storage_deposit o2 a sd)"
  "op_follows R (so_auth_call o1 a c) (so_auth_call o2 a c)"
  "op_follows R (so_mint o1 a ts m) (so_mint o2 a ts m)"
  "op_follows R (so_burn o1 a ts m) (so_burn o2 a ts m)"
  using laws by (simp_all add: sim_laws_def)

lemma commit_law: "u256_ok n \<Longrightarrow> op_follows R (so_commit_nonce o1 a n) (so_commit_nonce o2 a n)"
  using laws by (simp add: sim_laws_def)

lemma set_auth_law:
  "R s t \<Longrightarrow> so_set_auth_by_predecessor_id o1 a b s = Inr (s', x) \<Longrightarrow>
     follows (\<lambda>u (v, _). R u v) s' (so_set_auth_by_predecessor_id o2 a b t)"
  using laws [unfolded sim_laws_def, THEN conjunct2, THEN conjunct2, THEN conjunct2, THEN conjunct2, THEN conjunct2, THEN conjunct2,
      THEN conjunct2, THEN conjunct2, THEN conjunct2, THEN conjunct2, THEN conjunct2, THEN conjunct2, THEN conjunct1] by blast

lemma op_followsD: "op_follows R f g \<Longrightarrow> R s t \<Longrightarrow> f s = Inr s' \<Longrightarrow> follows R s' (g t)"
  unfolding op_follows_def by blast

lemma io:
  assumes "Q i j"
  shows "Q (io_on_deadline i1 x i) (io_on_deadline i2 x j)" "Q (io_on_event i1 e i) j" "Q i (io_on_event i2 e j)"
    "Q (io_on_intent_executed i1 a h n i) (io_on_intent_executed i2 a h n j)"
  using io_laws assms by (simp_all add: inspector_laws_def)

lemma RE_emit: "RE e f \<Longrightarrow> RE (emit i1 x e) (emit i2 y f)"
  by (simp add: emit_def io)

lemma on_state_follows:
  assumes "on_state f e = Inr e'" and "RE e g" and "\<And>s'. f (fst e) = Inr s' \<Longrightarrow> follows R s' (h (fst g))"
  shows "follows RE e' (on_state h g)"
proof -
  obtain s' where s': "f (fst e) = Inr s'" "e' = (s', snd e)" using assms(1) by (auto simp: on_state_def result_simps)
  show ?thesis unfolding on_state_def
    by (rule follows_bind [OF assms(3) [OF s'(1)]]) (use assms(2) s'(2) in simp)
qed

lemma on_state_op:
  "on_state f e = Inr e' \<Longrightarrow> RE e g \<Longrightarrow> op_follows R f h \<Longrightarrow> follows RE e' (on_state h g)"
  by (rule on_state_follows) (auto intro: op_followsD)

lemma apply_deltas_follows: "op_follows R (internal_apply_deltas o1 a ts) (internal_apply_deltas o2 a ts)"
  unfolding op_follows_def internal_apply_deltas_def
  by (intro allI impI, erule follows_fold)
    (auto split: if_splits intro: op_followsD [OF op_laws(3)] op_followsD [OF op_laws(4)])

lemma diff_step_follows:
  assumes "diff_step W o1 fe a p (s, fees) = Inr (s', fees')" and "R s t"
  shows "follows (\<lambda>x y. R (fst x) (fst y) \<and> snd y = snd x) (s', fees') (diff_step W o2 fe a p (t, fees))"
proof -
  obtain tk d where p: "p = (tk, d)" by (cases p)
  have nz: "d \<noteq> 0" and ap: "internal_apply_deltas o1 a [(tk, d)] s = Inr s'"
    using assms(1) by (auto simp: p diff_step_def Let_def result_simps split: if_splits)
  have "follows R s' (internal_apply_deltas o2 a [(tk, d)] t)" using op_followsD [OF apply_deltas_follows assms(2) ap] .
  then show ?thesis
    unfolding diff_step_def p prod.case using nz
    by (simp, elim follows_bind) (use assms(1) in \<open>auto simp: p diff_step_def Let_def result_simps split: if_splits\<close>)
qed

lemma token_diff_follows:
  assumes "exec_token_diff W o1 i1 td a h e = Inr e'" and g: "RE e g"
  shows "follows RE e' (exec_token_diff W o2 i2 td a h g)"
proof -
  obtain d fees where ne: "td_diff td \<noteq> []" and fold: "fold_r (diff_step W o1 (so_fee o1 (fst e)) a) (td_diff td) (fst e, []) = Inr (d, fees)"
    and rest: "(let e' = emit i1 (ETokenDiff [intent_event h a \<lparr> tde_diff = td, tde_fees_collected = fees \<rparr>]) (d, snd e) in
       if fees \<noteq> [] then on_state (so_internal_add_balance o1 (so_fee_collector o1 d) fees) e' else Inr e') = Inr e'"
    using assms(1) by (auto simp: exec_token_diff_def result_simps)
  have fee: "so_fee o2 (fst g) = so_fee o1 (fst e)" using views(2) g by blast
  have fl: "follows (\<lambda>x y. R (fst x) (fst y) \<and> snd y = snd x) (d, fees)
      (fold_r (diff_step W o2 (so_fee o1 (fst e)) a) (td_diff td) (fst g, []))"
  proof (rule follows_fold [OF fold])
    show "R (fst (fst e, [] :: token_id amounts)) (fst (fst g, [] :: token_id amounts)) \<and> snd (fst g, []) = snd (fst e, [])" using g by simp
    fix p u u' v assume st: "diff_step W o1 (so_fee o1 (fst e)) a p u = Inr u'" and r: "R (fst u) (fst v) \<and> snd v = snd u"
    show "follows (\<lambda>x y. R (fst x) (fst y) \<and> snd y = snd x) u' (diff_step W o2 (so_fee o1 (fst e)) a p v)"
      using diff_step_follows [of W "so_fee o1 (fst e)" a p "fst u" "snd u" "fst u'" "snd u'" "fst v"] st r
      by (cases u; cases u'; cases v) simp
  qed
  show ?thesis
    unfolding exec_token_diff_def fee using ne
  proof (simp, intro follows_bind [OF fl])
    fix y assume y: "R (fst (d, fees)) (fst y) \<and> snd y = snd (d, fees)"
    let ?ev = "ETokenDiff [intent_event h a \<lparr> tde_diff = td, tde_fees_collected = fees \<rparr>]"
    have re: "RE (emit i1 ?ev (d, snd e)) (emit i2 ?ev (fst y, snd g))" using y g by (intro RE_emit) simp
    have col: "so_fee_collector o2 (fst y) = so_fee_collector o1 d" using y views(3) by simp
    show "follows RE e' (case y of (d, fees) \<Rightarrow>
        let e' = emit i2 (ETokenDiff [intent_event h a \<lparr> tde_diff = td, tde_fees_collected = fees \<rparr>]) (d, snd g) in
        if fees \<noteq> [] then on_state (so_internal_add_balance o2 (so_fee_collector o2 d) fees) e' else Inr e')"
    proof (cases "fees = []")
      case True
      then show ?thesis using rest re y by (simp add: split_def Let_def)
    next
      case False
      have "follows RE e' (on_state (so_internal_add_balance o2 (so_fee_collector o1 d) fees) (emit i2 ?ev (fst y, snd g)))"
        using on_state_op [OF _ re op_laws(3)] rest False by (simp add: Let_def)
      then show ?thesis using False y col by (simp add: split_def Let_def)
    qed
  qed
qed

lemma imt_mint_follows: "op_follows R (imt_mint o1 a r ts m n) (imt_mint o2 a r ts m n)"
  unfolding op_follows_def
proof (intro allI impI)
  fix s s' t assume R: "R s t" and run: "imt_mint o1 a r ts m n s = Inr s'"
  obtain us s1 where ts: "ts \<noteq> []" "into_generic_tokens a ts = Inr us" and mint: "so_mint o1 r us m s = Inr s1"
    and rest: "(case n of None \<Rightarrow> Inr s1 | Some x \<Rightarrow> so_notify_on_transfer o1 a r us (adjust_min_gas x) s1) = Inr s'"
    using run by (auto simp: imt_mint_def result_simps)
  have "follows R s1 (so_mint o2 r us m t)" using op_followsD [OF op_laws(12) R mint] .
  then have "follows R s' (bind_r (so_mint o2 r us m t) (\<lambda>s'. case n of None \<Rightarrow> Inr s'
      | Some x \<Rightarrow> so_notify_on_transfer o2 a r us (adjust_min_gas x) s'))"
  proof (rule follows_bind)
    fix y assume y: "R s1 y"
    show "follows R s' (case n of None \<Rightarrow> Inr y | Some x \<Rightarrow> so_notify_on_transfer o2 a r us (adjust_min_gas x) y)"
      using rest y op_followsD [OF op_laws(9) y] by (cases n) simp_all
  qed
  then show "follows R s' (imt_mint o2 a r ts m n t)" using ts by (simp add: imt_mint_def)
qed

lemma imt_burn_follows: "op_follows R (imt_burn o1 a r ts m) (imt_burn o2 a r ts m)"
  unfolding op_follows_def
  by (auto simp: imt_burn_def result_simps intro: op_followsD [OF op_laws(13)])

lemma transfer_follows:
  assumes run: "exec_transfer o1 i1 i a h e = Inr e'" and g: "RE e g"
  shows "follows RE e' (exec_transfer o2 i2 i a h g)"
proof -
  let ?ev = "ETransfer [intent_event h a (transfer_event_from i)]"
  let ?last = "\<lambda>ops e. case ti_notification i of None \<Rightarrow> Inr e
     | Some n \<Rightarrow> on_state (so_notify_on_transfer ops a (ti_receiver_id i) (ti_tokens i) (adjust_min_gas n)) e"
  obtain e1 e2 where ok: "a \<noteq> ti_receiver_id i" "ti_tokens i \<noteq> []"
    and e1: "on_state (so_internal_sub_balance o1 a (ti_tokens i)) (emit i1 ?ev e) = Inr e1"
    and e2: "on_state (so_internal_add_balance o1 (ti_receiver_id i) (ti_tokens i)) e1 = Inr e2"
    and last: "?last o1 e2 = Inr e'"
    using run by (auto simp: exec_transfer_def Let_def result_simps)
  have f1: "follows RE e1 (on_state (so_internal_sub_balance o2 a (ti_tokens i)) (emit i2 ?ev g))"
    using e1 RE_emit [OF g] op_laws(4) by (rule on_state_op)
  have f2: "follows RE e2 (on_state (so_internal_add_balance o2 (ti_receiver_id i) (ti_tokens i)) g1)" if "RE e1 g1" for g1
    using e2 that op_laws(3) by (rule on_state_op)
  have f3: "follows RE e' (?last o2 g2)" if "RE e2 g2" for g2
    using last that on_state_op [OF _ that op_laws(9)] by (cases "ti_notification i") simp_all
  have "follows RE e' (bind_r (on_state (so_internal_sub_balance o2 a (ti_tokens i)) (emit i2 ?ev g)) (\<lambda>e1.
      bind_r (on_state (so_internal_add_balance o2 (ti_receiver_id i) (ti_tokens i)) e1) (?last o2)))"
    by (rule follows_bind [OF f1], rule follows_bind [OF f2], assumption, rule f3)
  then show ?thesis using ok by (simp add: exec_transfer_def Let_def)
qed

lemma set_auth_follows:
  assumes run: "exec_set_auth o1 i1 b a h e = Inr e'" and g: "RE e g"
  shows "follows RE e' (exec_set_auth o2 i2 b a h g)"
proof -
  let ?ev = "ESetAuthByPredecessorId (intent_event h a b)"
  obtain s' x where s': "so_set_auth_by_predecessor_id o1 a b (fst e) = Inr (s', x)"
    and e': "e' = (if x then emit i1 ?ev (s', snd e) else (s', snd e))"
    using run by (auto simp: exec_set_auth_def result_simps Let_def)
  have "follows (\<lambda>u (v, _). R u v) s' (so_set_auth_by_predecessor_id o2 a b (fst g))"
    using set_auth_law g s' by blast
  then show ?thesis unfolding exec_set_auth_def
    by (rule follows_bind) (use g in \<open>auto simp: e' Let_def emit_def io\<close>)
qed

lemma add_key_follows:
  assumes run: "exec_add_public_key o1 i1 k a h e = Inr e'" and g: "RE e g" and k: "k \<in> K"
  shows "follows RE e' (exec_add_public_key o2 i2 k a h g)"
proof -
  obtain e1 where e1: "on_state (so_add_public_key o1 a k) e = Inr e1" and e': "e' = emit i1 (EPublicKeyAdded (intent_event h a k)) e1"
    using run by (auto simp: exec_add_public_key_def result_simps)
  show ?thesis unfolding exec_add_public_key_def e'
    by (rule follows_bind [OF on_state_op [OF e1 g op_laws(1) [OF k]]]) (simp add: emit_def io)
qed

lemma remove_key_follows:
  assumes run: "exec_remove_public_key o1 i1 k a h e = Inr e'" and g: "RE e g" and k: "k \<in> K"
  shows "follows RE e' (exec_remove_public_key o2 i2 k a h g)"
proof -
  obtain e1 where e1: "on_state (so_remove_public_key o1 a k) e = Inr e1" and e': "e' = emit i1 (EPublicKeyRemoved (intent_event h a k)) e1"
    using run by (auto simp: exec_remove_public_key_def result_simps)
  show ?thesis unfolding exec_remove_public_key_def e'
    by (rule follows_bind [OF on_state_op [OF e1 g op_laws(2) [OF k]]]) (simp add: emit_def io)
qed

lemma execute_intent_follows:
  assumes run: "execute_intent W o1 i1 a h i e = Inr e'" and g: "RE e g" and keys: "intent_keys i \<subseteq> K"
  shows "follows RE e' (execute_intent W o2 i2 a h i g)"
proof (cases i)
  case (Transfer x)
  then show ?thesis using run transfer_follows [OF _ g] by simp
next
  case (TokenDiff x)
  then show ?thesis using run token_diff_follows [OF _ g] by simp
next
  case (SetAuthByPredecessorId x)
  then show ?thesis using run set_auth_follows [OF _ g] by simp
next
  case (AddPublicKey x)
  then show ?thesis using run keys add_key_follows [OF _ g] by simp
next
  case (RemovePublicKey x)
  then show ?thesis using run keys remove_key_follows [OF _ g] by simp
next
  case (AuthCall x)
  then show ?thesis using run on_state_op [OF _ g op_laws(11)] by (simp add: exec_auth_call_def)
next
  case (FtWithdraw x)
  then show ?thesis using run on_state_op [OF _ RE_emit [OF g] op_laws(5)] by (simp add: exec_ft_withdraw_def)
next
  case (NftWithdraw x)
  then show ?thesis using run on_state_op [OF _ RE_emit [OF g] op_laws(6)] by (simp add: exec_nft_withdraw_def)
next
  case (MtWithdraw x)
  then show ?thesis using run on_state_op [OF _ RE_emit [OF g] op_laws(7)] by (simp add: exec_mt_withdraw_def)
next
  case (NativeWithdraw x)
  then show ?thesis using run on_state_op [OF _ RE_emit [OF g] op_laws(8)] by (simp add: exec_native_withdraw_def)
next
  case (StorageDeposit x)
  then show ?thesis using run on_state_op [OF _ RE_emit [OF g] op_laws(10)] by (simp add: exec_storage_deposit_def)
next
  case (ImtMint x)
  then show ?thesis using run on_state_op [OF _ RE_emit [OF g] imt_mint_follows] by (simp add: exec_imt_mint_def)
next
  case (ImtBurn x)
  then show ?thesis using run on_state_op [OF _ RE_emit [OF g] imt_burn_follows] by (simp add: exec_imt_burn_def)
qed

lemma execute_signed_intent_follows:
  assumes run: "execute_signed_intent env o1 i1 x e = Inr e'" and g: "RE e g"
    and nonces: "\<And>p. ev_extract env x = Inr p \<Longrightarrow> u256_ok (dp_nonce p)" and keys: "batch_keys env [x] \<subseteq> K"
  shows "follows RE e' (execute_signed_intent env o2 i2 x g)"
proof -
  obtain pk p e2 e3 where pk: "ev_verify env x = Some pk" and p: "ev_extract env x = Inr p"
    and vc: "dp_verifying_contract p = so_verifying_contract o1 (fst e)" and dl: "ev_now env \<le> dp_deadline p"
    and key: "so_has_public_key o1 (fst e) (dp_signer_id p) pk"
    and vn: "verify_intent_nonce env o1 (fst e) (dp_nonce p) (dp_deadline p) = Inr ()"
    and e2: "on_state (so_commit_nonce o1 (dp_signer_id p) (dp_nonce p)) (fst e, io_on_deadline i1 (dp_deadline p) (snd e)) = Inr e2"
    and e3: "execute_intents_of (ev_wide env) o1 i1 (dp_signer_id p) (ev_hash env x) (dp_message p) e2 = Inr e3"
    and e': "e' = (fst e3, io_on_intent_executed i1 (dp_signer_id p) (ev_hash env x) (dp_nonce p) (snd e3))"
    using run by (auto simp: execute_signed_intent_def Let_def result_simps)
  have R: "R (fst e) (fst g)" using g ..
  have pkK: "pk \<in> K" and ks: "\<And>i. i \<in> set (dp_message p) \<Longrightarrow> intent_keys i \<subseteq> K"
    using keys pk p by (auto simp: batch_keys_def)
  have vn2: "verify_intent_nonce env o2 (fst g) (dp_nonce p) (dp_deadline p) = Inr ()"
    using vn unfolding verify_intent_nonce_def views(5) [OF R] .
  have f2: "follows RE e2 (on_state (so_commit_nonce o2 (dp_signer_id p) (dp_nonce p)) (fst g, io_on_deadline i2 (dp_deadline p) (snd g)))"
    using e2 by (rule on_state_op) (use g in \<open>simp_all add: io commit_law [OF nonces [OF p]]\<close>)
  have f3: "follows RE e3 (execute_intents_of (ev_wide env) o2 i2 (dp_signer_id p) (ev_hash env x) (dp_message p) g2)" if "RE e2 g2" for g2
    unfolding execute_intents_of_def
    by (rule follows_fold [OF e3 [unfolded execute_intents_of_def]]) (use that execute_intent_follows ks in auto)
  have "follows RE e' (bind_r (on_state (so_commit_nonce o2 (dp_signer_id p) (dp_nonce p)) (fst g, io_on_deadline i2 (dp_deadline p) (snd g))) (\<lambda>e2.
     bind_r (execute_intents_of (ev_wide env) o2 i2 (dp_signer_id p) (ev_hash env x) (dp_message p) e2) (\<lambda>e3.
       Inr (fst e3, io_on_intent_executed i2 (dp_signer_id p) (ev_hash env x) (dp_nonce p) (snd e3)))))"
    by (rule follows_bind [OF f2], rule follows_bind [OF f3], assumption) (simp add: e' io)
  then show ?thesis
    using pk p vc dl key vn2 by (simp add: execute_signed_intent_def Let_def views(1-3,5) [OF R] views(4) [OF R pkK])
qed

lemma execute_batch_follows:
  assumes "fold_r (execute_signed_intent env o1 i1) xs e = Inr e'" and "RE e g"
    and "\<And>x p. ev_extract env x = Inr p \<Longrightarrow> u256_ok (dp_nonce p)" and keys: "batch_keys env xs \<subseteq> K"
  shows "follows RE e' (fold_r (execute_signed_intent env o2 i2) xs g)"
  using assms(1,2) by (rule follows_fold) (rule execute_signed_intent_follows, assumption, assumption, rule assms(3), use keys in \<open>auto simp: batch_keys_def\<close>)

end

subsection \<open>The wrapper \<open>Deltas\<close>\<close>

definition deltas_rel :: "('s \<Rightarrow> 't \<Rightarrow> bool) \<Rightarrow> 's deltas_state \<Rightarrow> 't deltas_state \<Rightarrow> bool" where
  "deltas_rel R d e \<longleftrightarrow> R (fst d) (fst e) \<and> snd e = snd d"

lemma deltas_rel_pair: "deltas_rel R (s, x) (t, y) \<longleftrightarrow> R s t \<and> y = x"
  by (simp add: deltas_rel_def)

lemma on_inner_follows: "op_follows R f g \<Longrightarrow> op_follows (deltas_rel R) (on_inner f) (on_inner g)"
  unfolding op_follows_def deltas_rel_def on_inner_def
  by (clarsimp simp: result_simps) (rule follows_bind, blast, simp)

lemma record_delta_follows:
  "record_delta m s = Inr d \<Longrightarrow> R s t \<Longrightarrow> follows (deltas_rel R) d (record_delta m t)"
  by (auto simp: record_delta_def deltas_rel_def split: option.splits if_splits)

lemma deltas_balance_follows:
  assumes "\<And>a ts. op_follows R (so_internal_add_balance o1 a ts) (so_internal_add_balance o2 a ts)"
    and "\<And>a ts. op_follows R (so_internal_sub_balance o1 a ts) (so_internal_sub_balance o2 a ts)"
  shows "op_follows (deltas_rel R) (deltas_add_balance o1 a ts) (deltas_add_balance o2 a ts)"
    and "op_follows (deltas_rel R) (deltas_sub_balance o1 a ts) (deltas_sub_balance o2 a ts)"
proof -
  have step: "follows (deltas_rel R) u' (bind_r (g t) (\<lambda>s'. record_delta m s'))"
    if "op_follows R f g" and "bind_r (f s) (\<lambda>s'. record_delta m s') = Inr u'" and "R s t" for f g s t m u'
    using that unfolding op_follows_def bind_r_Inr
    by (elim exE conjE) (rule follows_bind, blast, rule record_delta_follows)
  show "op_follows (deltas_rel R) (deltas_add_balance o1 a ts) (deltas_add_balance o2 a ts)"
    unfolding op_follows_def deltas_add_balance_def
    by (intro allI impI, erule follows_fold) (auto simp: deltas_rel_pair intro: step [OF assms(1)])
  show "op_follows (deltas_rel R) (deltas_sub_balance o1 a ts) (deltas_sub_balance o2 a ts)"
    unfolding op_follows_def deltas_sub_balance_def
    by (intro allI impI, erule follows_fold) (auto simp: deltas_rel_pair intro: step [OF assms(2)])
qed

lemma sim_laws_deltas:
  assumes "sim_laws o1 o2 K R"
  shows "sim_laws (deltas_ops o1) (deltas_ops o2) K (deltas_rel R)"
proof -
  have auth: "follows (\<lambda>u (v, _). deltas_rel R u v) d' (on_inner_b (so_set_auth_by_predecessor_id o2 a b) e)"
    if rel: "deltas_rel R d e" and run: "on_inner_b (so_set_auth_by_predecessor_id o1 a b) d = Inr (d', x)" for a b d d' x e
  proof -
    obtain s' where s': "so_set_auth_by_predecessor_id o1 a b (fst d) = Inr (s', x)" "d' = (s', snd d)"
      using run by (auto simp: on_inner_b_def result_simps)
    have "follows (\<lambda>u (v, _). R u v) s' (so_set_auth_by_predecessor_id o2 a b (fst e))"
      using assms [unfolded sim_laws_def, THEN conjunct2, THEN conjunct2, THEN conjunct2, THEN conjunct2, THEN conjunct2, THEN conjunct2,
        THEN conjunct2, THEN conjunct2, THEN conjunct2, THEN conjunct2, THEN conjunct2, THEN conjunct2, THEN conjunct1]
        s'(1) rel unfolding deltas_rel_def by blast
    then show ?thesis unfolding on_inner_b_def
      by (rule follows_bind) (use rel in \<open>auto simp: deltas_rel_def s'(2)\<close>)
  qed
  have views: "deltas_rel R d e \<Longrightarrow> R (fst d) (fst e)" for d e by (simp add: deltas_rel_def)
  show ?thesis
    unfolding sim_laws_def deltas_ops_def state_ops.select_convs
    by (intro conjI; (use assms auth in \<open>auto simp: sim_laws_def intro!: on_inner_follows deltas_balance_follows dest!: views; fail\<close>)?)
qed

end
