(* ===== verification/CachedSimulation.thy ===== *)
theory CachedSimulation
  imports ContractLaws Cached EngineSimulation
begin

text \<open>
  The cached state over the contract follows the contract: the relation between a state of the
  contract and the cache over an earlier state of it, and the proof that every operation of
  \<open>cached_ops\<close> follows the operation of \<open>contract_ops\<close>. Balances may differ in one direction: a
  cached balance that drops to zero is forgotten and read from the view again, so the cache holds what
  the contract holds or, from then on, as much more as the view held. The contract's operations are
  therefore taken with a guard on what they credit, \<open>bounded_ops\<close>.
\<close>

subsection \<open>The relation\<close>

definition cached_amount :: "(token_id \<Rightarrow> nat) \<Rightarrow> token_id amounts \<Rightarrow> token_id \<Rightarrow> nat" where
  "cached_amount view m t = (case map_of m t of None \<Rightarrow> view t | Some n \<Rightarrow> n)"

text \<open>The balance of the view, of the contract and of the cache: the last two agree, until the balance has been zero.\<close>

definition balance_sim :: "nat \<Rightarrow> nat \<Rightarrow> nat \<Rightarrow> bool" where
  "balance_sim v b x \<longleftrightarrow> v \<le> u_max 128 \<and> (x = b \<or> x = b + v \<and> x \<le> u_max 128)"

lemma balance_sim_sub:
  "balance_sim v b x \<Longrightarrow> n \<le> b \<Longrightarrow> balance_sim v (b - n) (if x - n = 0 then v else x - n) \<and> n \<le> x"
  by (auto simp: balance_sim_def)

lemma balance_sim_add:
  "balance_sim v b x \<Longrightarrow> b + n + v \<le> u_max 128 \<Longrightarrow> balance_sim v (b + n) (if x + n = 0 then v else x + n) \<and> x + n \<le> u_max 128"
  by (auto simp: balance_sim_def)

text \<open>The entry \<open>l\<close> of the contract, the entry \<open>v\<close> of the view and the entry \<open>x\<close> of the cache.\<close>

definition entry_sim :: "'p host \<Rightarrow> public_key set \<Rightarrow> account_id \<Rightarrow> account lock \<Rightarrow> account lock \<Rightarrow> cached_account lock \<Rightarrow> bool" where
  "entry_sim env K a l v x \<longleftrightarrow> lk_locked x = lk_locked l \<and>
     (\<forall>k \<in> K. account_has_public_key (h_codecs env) a k (lk_value l) \<longleftrightarrow> k \<in> set (ca_public_keys_added (lk_value x)) \<or>
        k \<notin> set (ca_public_keys_removed (lk_value x)) \<and> account_has_public_key (h_codecs env) a k (lk_value v)) \<and>
     (\<forall>k \<in> set (ca_public_keys_added (lk_value x)). \<not> account_has_public_key (h_codecs env) a k (lk_value v)) \<and>
     (\<forall>n. u256_ok n \<longrightarrow> (account_is_nonce_used (lk_value l) n \<longleftrightarrow>
        ca_is_nonce_used (lk_value x) n \<or> account_is_nonce_used (lk_value v) n)) \<and>
     b256_ok (ca_nonces (lk_value x)) \<and>
     (account_auth_enabled (lk_value l) \<longleftrightarrow> account_auth_enabled (lk_value v) \<noteq> ca_auth_by_predecessor_id_toggled (lk_value x)) \<and>
     amounts_ok (ca_token_amounts (lk_value x)) \<and>
     (\<forall>t. balance_sim (lock_balance t v) (lock_balance t l) (cached_amount (\<lambda>t. lock_balance t v) (ca_token_amounts (lk_value x)) t))"

definition same_globals :: "'p contract \<Rightarrow> 'p contract \<Rightarrow> bool" where
  "same_globals c d \<longleftrightarrow> c_wnear_id d = c_wnear_id c \<and> c_fee d = c_fee c \<and> c_fee_collector d = c_fee_collector c \<and> c_salts d = c_salts c"

definition cache_sim :: "'p host \<Rightarrow> 'p contract \<Rightarrow> public_key set \<Rightarrow> 'p contract \<Rightarrow> 'p contract cached_state \<Rightarrow> bool" where
  "cache_sim env V K c s \<longleftrightarrow> fst s = V \<and> contract_ok env c \<and> same_globals (fst s) c \<and>
     (\<forall>a. entry_sim env K a (account_or_new env a c) (account_or_new env a (fst s)) (ca_get_or_create (contract_ops env) a s))"

lemmas contract_views = views_alt(1) [of _ _ _ env] views_alt(2,3) [of _ _ env] for env

lemma same_globals_refl [simp]: "same_globals c c"
  by (simp add: same_globals_def)

lemma same_globals_trans: "same_globals c d \<Longrightarrow> same_globals d e \<Longrightarrow> same_globals c e"
  by (simp add: same_globals_def)

lemma same_globals_ops [simp]:
  "same_globals c (put_inner a l x d) = same_globals c d" "same_globals c (set_balances env a m d) = same_globals c d"
  "same_globals c (d\<lparr>c_total_supplies := s\<rparr>) = same_globals c d" "same_globals c (d\<lparr>c_postponed_burns := bs\<rparr>) = same_globals c d"
  "same_globals c (add_log e d) = same_globals c d" "same_globals c (detach p d) = same_globals c d"
  "same_globals c (fst (get_or_create env a d)) = same_globals c d"
  by (simp_all add: same_globals_def put_inner_def put_account_def set_balances_def Let_def add_log_def detach_def get_or_create_def)

lemma ca_put_fst [simp]: "fst (ca_put a l x s) = fst s"
  by (simp add: ca_put_def)

lemma ca_get_put [simp]:
  "ca_get_or_create vo b (ca_put a l x s) = (if b = a then write_inner x l else ca_get_or_create vo b s)"
  by (simp add: ca_get_or_create_def ca_put_def split: option.splits)

lemma ca_unlocked_Inr: "\<not> lk_locked l \<Longrightarrow> ca_unlocked a l = Inr (lk_value l)"
  by (simp add: ca_unlocked_def lock_defs ok_or_def)

text \<open>An operation on one account keeps the relation when it keeps it for that account.\<close>

lemma cache_sim_put:
  assumes "cache_sim env V K c s" and "contract_ok env c'" and "same_globals c c'"
    and "\<And>b. b \<noteq> a \<Longrightarrow> account_or_new env b c' = account_or_new env b c"
    and "entry_sim env K a (account_or_new env a c') (account_or_new env a (fst s))
      (write_inner x (ca_get_or_create (contract_ops env) a s))"
  shows "cache_sim env V K c' (ca_put a (ca_get_or_create (contract_ops env) a s) x s)"
  using assms same_globals_trans [of "fst s" c c'] by (auto simp: cache_sim_def)

lemma cache_simD:
  assumes "cache_sim env V K c s"
  shows "contract_ok env c"
    "entry_sim env K a (account_or_new env a c) (account_or_new env a (fst s)) (ca_get_or_create (contract_ops env) a s)"
    "same_globals (fst s) c" "fst s = V"
  using assms by (auto simp: cache_sim_def)

text \<open>What the contract does to the parts a cached operation does not see.\<close>

lemma cache_sim_silent:
  assumes "cache_sim env V K c s" and "contract_ok env c'" and "same_globals c c'" and "\<And>b. account_or_new env b c' = account_or_new env b c"
  shows "cache_sim env V K c' s"
  using assms same_globals_trans [of "fst s" c c'] by (auto simp: cache_sim_def)

subsection \<open>The view\<close>

lemma cached_has_public_key_alt:
  assumes "types_ok env"
  shows "cached_has_public_key (contract_ops env) s a k \<longleftrightarrow>
    (let x = lk_value (ca_get_or_create (contract_ops env) a s) in k \<in> set (ca_public_keys_added x) \<or>
      k \<notin> set (ca_public_keys_removed x) \<and> account_has_public_key (h_codecs env) a k (lk_value (account_or_new env a (fst s))))"
  by (auto simp: cached_has_public_key_def ca_get_or_create_def cached_account_default_def Let_def lock_defs contract_ops_def
      has_public_key_alt [OF assms] split: option.splits)

lemma cached_is_auth_enabled_alt:
  "cached_is_auth_enabled (contract_ops env) s a \<longleftrightarrow> account_auth_enabled (lk_value (account_or_new env a (fst s))) \<noteq>
     ca_auth_by_predecessor_id_toggled (lk_value (ca_get_or_create (contract_ops env) a s))"
  by (auto simp: cached_is_auth_enabled_def ca_get_or_create_def cached_account_default_def lock_defs contract_ops_def
      views_alt(3) [of _ _ env] split: option.splits)

lemma cache_views:
  assumes "types_ok env" and "cache_sim env V K c s"
  shows "k \<in> K \<Longrightarrow> cached_has_public_key (contract_ops env) s a k = contract_has_public_key env c a k"
    and "cached_is_auth_enabled (contract_ops env) s a = contract_is_auth_enabled c a"
  using cache_simD(2) [OF assms(2), of a]
  by (simp_all add: cached_has_public_key_alt [OF assms(1)] has_public_key_alt [OF assms(1)] cached_is_auth_enabled_alt
      views_alt(3) [of _ _ env] entry_sim_def Let_def)

subsection \<open>Keys, nonces and flags\<close>

definition keys_apart :: "codecs \<Rightarrow> public_key set \<Rightarrow> bool" where
  "keys_apart C K \<longleftrightarrow> inj_on (to_implicit_account_id C) K"

lemma key_effects:
  assumes "account_ok C me x" and "keys_apart C K" and "k \<in> K" and "pk \<in> K"
  shows "account_has_public_key C me k (fst (account_add_public_key C me pk x)) \<longleftrightarrow> k = pk \<or> account_has_public_key C me k x"
    "account_has_public_key C me k (fst (account_remove_public_key C me pk x)) \<longleftrightarrow> k \<noteq> pk \<and> account_has_public_key C me k x"
  using public_keys_effect [OF assms(1), of k pk] assms(2-4) by (auto simp: keys_apart_def inj_on_def)

lemma account_key_frame [simp]:
  "account_is_nonce_used (fst (account_add_public_key C me pk x)) = account_is_nonce_used x"
  "account_is_nonce_used (fst (account_remove_public_key C me pk x)) = account_is_nonce_used x"
  "account_auth_enabled (fst (account_add_public_key C me pk x)) = account_auth_enabled x"
  "account_auth_enabled (fst (account_remove_public_key C me pk x)) = account_auth_enabled x"
  "account_is_nonce_used (fst (account_set_auth b x)) = account_is_nonce_used x"
  by (simp_all add: account_is_nonce_used_def account_auth_enabled_def account_add_public_key_def account_remove_public_key_def
      account_set_auth_def Let_def set_implicit_public_key_removed_def fun_eq_iff split: prod.splits)

lemma lock_balance_write [simp]: "lock_balance t (write_inner x l) = amount_for (ac_token_balances x) t"
  by (simp add: lock_balance_def)

lemma view_has_key: "types_ok env \<Longrightarrow> so_has_public_key (contract_ops env) c a k = account_has_public_key (h_codecs env) a k (lk_value (account_or_new env a c))"
  by (simp add: contract_ops_def has_public_key_alt)

lemma add_key_sim:
  assumes "types_ok env" and "keys_apart (h_codecs env) K" and pk: "pk \<in> K" and sim: "cache_sim env V K c s"
    and run: "contract_add_public_key env a pk c = Inr c'"
  shows "follows (cache_sim env V K) c' (cached_add_public_key (contract_ops env) a pk s)"
proof -
  define l where "l = account_or_new env a c"
  define x where "x = ca_get_or_create (contract_ops env) a s"
  have unl: "\<not> lk_locked l" and new: "snd (account_add_public_key (h_codecs env) a pk (lk_value l))"
    and c': "c' = put_inner a l (fst (account_add_public_key (h_codecs env) a pk (lk_value l))) c"
    using run by (simp_all add: add_public_key_Inr Let_def l_def)
  have ok: "account_ok (h_codecs env) a (lk_value l)" unfolding l_def by (rule account_or_new_ok [OF cache_simD(1) [OF sim]])
  have es: "entry_sim env K a l (account_or_new env a (fst s)) x" unfolding l_def x_def by (rule cache_simD(2) [OF sim])
  have no: "\<not> account_has_public_key (h_codecs env) a pk (lk_value l)" using new public_keys_effect [OF ok, of pk pk] by blast
  have c'_ok: "contract_ok env c'" unfolding c' by (rule put_inner_ok [OF cache_simD(1) [OF sim] add_public_key_ok [OF ok]])
  note put = cache_sim_put [OF sim c'_ok, of a, folded x_def]
  have lx: "\<not> lk_locked x" using es unl by (simp add: entry_sim_def)
  note eff = key_effects(1) [OF ok assms(2) _ pk]
  show ?thesis
  proof (cases "account_has_public_key (h_codecs env) a pk (lk_value (account_or_new env a (fst s)))")
    case True
    have m: "pk \<in> set (ca_public_keys_removed (lk_value x))" using es no pk True by (auto simp: entry_sim_def)
    have "cache_sim env V K c' (ca_put a x ((lk_value x)\<lparr>ca_public_keys_removed := removeAll pk (ca_public_keys_removed (lk_value x))\<rparr>) s)"
      by (rule put) (use es eff pk True m in \<open>auto simp: c' entry_sim_def ca_is_nonce_used_def lock_balance_def\<close>)
    then show ?thesis using True m
      by (simp add: cached_add_public_key_def Let_def view_has_key [OF assms(1)] x_def [symmetric] ca_unlocked_Inr [OF lx] hs_remove_def)
  next
    case False
    have m: "pk \<notin> set (ca_public_keys_added (lk_value x))" using es no pk False by (auto simp: entry_sim_def)
    have "cache_sim env V K c' (ca_put a x ((lk_value x)\<lparr>ca_public_keys_added := List.insert pk (ca_public_keys_added (lk_value x))\<rparr>) s)"
      by (rule put) (use es eff pk False m in \<open>auto simp: c' entry_sim_def ca_is_nonce_used_def lock_balance_def\<close>)
    then show ?thesis using False m
      by (simp add: cached_add_public_key_def Let_def view_has_key [OF assms(1)] x_def [symmetric] ca_unlocked_Inr [OF lx] hs_insert_def)
  qed
qed

lemma remove_key_sim:
  assumes "types_ok env" and "keys_apart (h_codecs env) K" and pk: "pk \<in> K" and sim: "cache_sim env V K c s"
    and run: "contract_remove_public_key env a pk c = Inr c'"
  shows "follows (cache_sim env V K) c' (cached_remove_public_key (contract_ops env) a pk s)"
proof -
  define l where "l = account_or_new env a c"
  define x where "x = ca_get_or_create (contract_ops env) a s"
  have unl: "\<not> lk_locked l" and new: "snd (account_remove_public_key (h_codecs env) a pk (lk_value l))"
    and c': "c' = put_inner a l (fst (account_remove_public_key (h_codecs env) a pk (lk_value l))) c"
    using run by (simp_all add: remove_public_key_Inr Let_def l_def)
  have ok: "account_ok (h_codecs env) a (lk_value l)" unfolding l_def by (rule account_or_new_ok [OF cache_simD(1) [OF sim]])
  have es: "entry_sim env K a l (account_or_new env a (fst s)) x" unfolding l_def x_def by (rule cache_simD(2) [OF sim])
  have no: "account_has_public_key (h_codecs env) a pk (lk_value l)" using new public_keys_effect [OF ok, of pk pk] by blast
  have c'_ok: "contract_ok env c'" unfolding c' by (rule put_inner_ok [OF cache_simD(1) [OF sim] remove_public_key_ok [OF ok]])
  note put = cache_sim_put [OF sim c'_ok, of a, folded x_def]
  have lx: "\<not> lk_locked x" using es unl by (simp add: entry_sim_def)
  note eff = key_effects(2) [OF ok assms(2) _ pk]
  show ?thesis
  proof (cases "account_has_public_key (h_codecs env) a pk (lk_value (account_or_new env a (fst s)))")
    case True
    have m: "pk \<notin> set (ca_public_keys_removed (lk_value x))" using es no pk True by (auto simp: entry_sim_def)
    have "cache_sim env V K c' (ca_put a x ((lk_value x)\<lparr>ca_public_keys_removed := List.insert pk (ca_public_keys_removed (lk_value x))\<rparr>) s)"
      by (rule put) (use es eff pk True m in \<open>auto simp: c' entry_sim_def ca_is_nonce_used_def lock_balance_def\<close>)
    then show ?thesis using True m
      by (simp add: cached_remove_public_key_def Let_def view_has_key [OF assms(1)] x_def [symmetric] ca_unlocked_Inr [OF lx] hs_insert_def)
  next
    case False
    have m: "pk \<in> set (ca_public_keys_added (lk_value x))" using es no pk False by (auto simp: entry_sim_def)
    have "cache_sim env V K c' (ca_put a x ((lk_value x)\<lparr>ca_public_keys_added := removeAll pk (ca_public_keys_added (lk_value x))\<rparr>) s)"
      by (rule put) (use es eff pk False m in \<open>auto simp: c' entry_sim_def ca_is_nonce_used_def lock_balance_def\<close>)
    then show ?thesis using False m
      by (simp add: cached_remove_public_key_def Let_def view_has_key [OF assms(1)] x_def [symmetric] ca_unlocked_Inr [OF lx] hs_remove_def)
  qed
qed

lemma commit_nonce_sim:
  assumes n: "u256_ok n" and sim: "cache_sim env V K c s" and run: "contract_commit_nonce env a n c = Inr c'"
  shows "follows (cache_sim env V K) c' (cached_commit_nonce (contract_ops env) a n s)"
proof -
  define l where "l = account_or_new env a c"
  define x where "x = ca_get_or_create (contract_ops env) a s"
  obtain m where unl: "\<not> lk_locked l" and m: "ml_commit (ac_nonces (lk_value l)) n = Inr m"
    and c': "c' = put_inner a l ((lk_value l)\<lparr>ac_nonces := m\<rparr>) c"
    using run by (auto simp: commit_nonce_Inr Let_def l_def account_commit_nonce_def result_simps)
  have ok: "account_ok (h_codecs env) a (lk_value l)" unfolding l_def by (rule account_or_new_ok [OF cache_simD(1) [OF sim]])
  have es: "entry_sim env K a l (account_or_new env a (fst s)) x" unfolding l_def x_def by (rule cache_simD(2) [OF sim])
  have mlok: "ml_ok (ac_nonces (lk_value l))" using ok by (simp add: account_ok_def)
  have c'_ok: "contract_ok env c'" unfolding c'
    by (rule put_inner_ok [OF cache_simD(1) [OF sim]], rule commit_nonce_ok [OF ok n]) (simp add: account_commit_nonce_def m)
  have "\<not> ml_is_used (ac_nonces (lk_value l)) n" using account_nonces.commit_used [OF mlok n] m by auto
  then have fresh: "\<not> nonces_is_used (ca_nonces (lk_value x)) n" "\<not> account_is_nonce_used (lk_value (account_or_new env a (fst s))) n"
    using es n by (auto simp: entry_sim_def ca_is_nonce_used_def account_is_nonce_used_def)
  have bok: "b256_ok (ca_nonces (lk_value x))" using es by (simp add: entry_sim_def)
  obtain q where q: "nonces_commit (ca_nonces (lk_value x)) n = Inr q" using core_nonces.commit_ok [OF bok n fresh(1)] by blast
  note used = account_nonces.used_commit [OF mlok n _ m] core_nonces.used_commit [OF bok n _ q]
  have "cache_sim env V K c' (ca_put a x ((lk_value x)\<lparr>ca_nonces := q\<rparr>) s)"
    unfolding x_def
    by (rule cache_sim_put [OF sim c'_ok], unfold x_def [symmetric])
      (use es used core_nonces.inv_commit [OF bok n q] in \<open>auto simp: c' entry_sim_def ca_is_nonce_used_def
        account_is_nonce_used_def account_has_public_key_def is_implicit_public_key_removed_def account_auth_enabled_def lock_balance_def\<close>)
  moreover have "\<not> lk_locked x" using es unl by (simp add: entry_sim_def)
  moreover have "\<not> so_is_nonce_used (contract_ops env) (fst s) a n" using fresh(2) by (simp add: contract_ops_def views_alt(1) [of _ _ _ env])
  ultimately show ?thesis
    by (simp add: cached_commit_nonce_def Let_def x_def [symmetric] ca_unlocked_Inr ca_commit_nonce_def q)
qed

lemma account_set_auth_effect:
  "account_auth_enabled (fst (account_set_auth b x)) = b"
  "account_has_public_key C me k (fst (account_set_auth b x)) = account_has_public_key C me k x"
  by (simp_all add: account_set_auth_def Let_def account_auth_enabled_def account_has_public_key_def is_implicit_public_key_removed_def)

lemma set_auth_sim:
  assumes "types_ok env" and sim: "cache_sim env V K c s" and run: "internal_set_auth env a b False c = Inr (c', y)"
  shows "follows (\<lambda>u (v, _). cache_sim env V K u v) c' (cached_set_auth (contract_ops env) a b s)"
proof -
  define l where "l = account_or_new env a c"
  define x where "x = ca_get_or_create (contract_ops env) a s"
  have es: "entry_sim env K a l (account_or_new env a (fst s)) x" unfolding l_def x_def by (rule cache_simD(2) [OF sim])
  have was: "cached_is_auth_enabled (contract_ops env) s a = account_auth_enabled (lk_value l)"
    by (simp add: cache_views(2) [OF assms(1) sim] views_alt(3) [of _ _ env] l_def)
  show ?thesis
    using run
  proof (cases rule: internal_set_auth_Inr)
    case absent
    then have "account_auth_enabled (lk_value l) = b"
      using views_alt(3) [of c a env] by (simp add: l_def contract_is_auth_enabled_def)
    then show ?thesis using sim absent(3) by (simp add: cached_set_auth_def was)
  next
    case stored
    have c'_ok: "contract_ok env c'" unfolding stored(2) l_def [symmetric]
      by (rule put_inner_ok [OF cache_simD(1) [OF sim] set_auth_ok]) (unfold l_def, rule account_or_new_ok [OF cache_simD(1) [OF sim]])
    show ?thesis
    proof (cases "account_auth_enabled (lk_value l) = b")
      case True
      then have "fst (account_set_auth b (lk_value l)) = lk_value l" by (simp add: account_set_auth_def)
      then have "cache_sim env V K c' s"
        by (intro cache_sim_silent [OF sim c'_ok]) (auto simp: stored(2) l_def [symmetric] write_inner_def)
      then show ?thesis using True by (simp add: cached_set_auth_def was)
    next
      case False
      have "cache_sim env V K c' (ca_put a x ((lk_value x)\<lparr>ca_auth_by_predecessor_id_toggled :=
          \<not> ca_auth_by_predecessor_id_toggled (lk_value x)\<rparr>) s)"
        unfolding x_def
        by (rule cache_sim_put [OF sim c'_ok], unfold x_def [symmetric])
          (use es False in \<open>auto simp: stored(2) l_def [symmetric] entry_sim_def ca_is_nonce_used_def account_set_auth_effect lock_balance_def\<close>)
      moreover have "\<not> lk_locked x" using es stored(1) by (simp add: entry_sim_def l_def)
      ultimately show ?thesis using False by (simp add: cached_set_auth_def was x_def [symmetric] ca_unlocked_Inr)
    qed
  qed
qed

subsection \<open>Balances\<close>

text \<open>A state \<open>d\<close> the loops over tokens reach from \<open>c\<close>, with the amounts the cached loop reached.\<close>

definition loop_sim :: "'p host \<Rightarrow> (token_id \<Rightarrow> nat) \<Rightarrow> account_id \<Rightarrow> 'p contract \<Rightarrow> 'p contract \<Rightarrow> token_id amounts \<Rightarrow> bool" where
  "loop_sim env view a c d m \<longleftrightarrow> contract_ok env d \<and> same_globals c d \<and>
     (\<forall>b. b \<noteq> a \<longrightarrow> account_or_new env b d = account_or_new env b c) \<and>
     (\<exists>B. account_or_new env a d = write_inner ((lk_value (account_or_new env a c))\<lparr>ac_token_balances := B\<rparr>) (account_or_new env a c)) \<and>
     amounts_ok m \<and> (\<forall>t. balance_sim (view t) (contract_balance_of d a t) (cached_amount view m t))"

lemma balance_u128: "contract_ok env c \<Longrightarrow> contract_balance_of c a t \<le> u_max 128"
  unfolding balances_of_amount [symmetric, of _ _ _ env] by (drule balances_u128 [of _ _ a]) (simp add: amounts_u128_def)

lemma cached_amount_write:
  "amounts_ok m \<Longrightarrow> cached_amount view (entry_write 0 t n m) u = (if u = t then if n = 0 then view t else n else cached_amount view m u)"
  by (auto simp: cached_amount_def entry_write_def split: option.splits)

lemma loop_sim_set:
  assumes "loop_sim env view a c d m" and "contract_ok env d'" and "d' = set_balances env a (entry_write 0 t n (balances_of env a d)) (d\<lparr>c_total_supplies := sp\<rparr>)"
    and "balance_sim (view t) n (if k = 0 then view t else k)"
  shows "loop_sim env view a c d' (entry_write 0 t k m)"
  using assms by (auto simp: loop_sim_def cached_amount_write contract_balance_alt [of _ _ _ env] lock_balance_def balances_of_def amount_for_def)

lemma ca_load_follows:
  fixes view vo a v
  defines "view \<equiv> so_balance_of vo v a"
  assumes "amounts_ok m" and "view t \<le> u_max 128"
  shows "follows (\<lambda>_ m1. amounts_ok m1 \<and> amount_for m1 t = cached_amount view m t \<and> cached_amount view m1 = cached_amount view m) () (ca_load vo a t v m)"
proof (cases "map_of m t")
  case None
  have z: "amount_for m t = 0" using None by (simp add: amount_for_def entry_read_def)
  then have "amounts_add t (view t) m = Some (entry_write 0 t (view t) m, view t)" using assms(3) by (simp add: amounts_add_Some)
  then show ?thesis
    using None assms(2)
    by (simp add: ca_load_def view_def [symmetric] ok_or_def cached_amount_write amount_for_def fun_eq_iff)
      (simp add: cached_amount_def)
next
  case (Some n)
  then show ?thesis using assms(2) by (simp add: ca_load_def cached_amount_def amount_for_def entry_read_def)
qed

text \<open>
  One token of a loop: the contract writes the balance, the cache writes its amount. After an addition
  the balance of the contract has to leave room for the balance of the view.
\<close>

lemma add_step_sim:
  assumes "loop_sim env (so_balance_of vo v a) a c d m"
    and "contract_ok env d' \<and> d' = set_balances env a (entry_write 0 t (amount_for (balances_of env a d) t + n) (balances_of env a d)) (d\<lparr>c_total_supplies := sp\<rparr>)"
    and "contract_balance_of d' a t + so_balance_of vo v a t \<le> u_max 128"
  shows "follows (loop_sim env (so_balance_of vo v a) a c) d' (ca_add_step vo v a (t, n) m)"
proof -
  have ok: "amounts_ok m" and sim: "balance_sim (so_balance_of vo v a t) (amount_for (balances_of env a d) t) (cached_amount (so_balance_of vo v a) m t)"
    using assms(1) by (simp_all add: loop_sim_def balances_of_amount)
  then have v: "so_balance_of vo v a t \<le> u_max 128" by (simp add: balance_sim_def)
  have fits: "amount_for (balances_of env a d) t + n + so_balance_of vo v a t \<le> u_max 128"
    using assms(2,3) by (auto simp: contract_balance_alt [of _ _ _ env] lock_balance_def amount_for_def)
  show ?thesis
    unfolding ca_add_step_def prod.case
  proof (rule follows_bind [OF ca_load_follows [OF ok v]])
    fix m1 assume m1: "amounts_ok m1 \<and> amount_for m1 t = cached_amount (so_balance_of vo v a) m t \<and>
      cached_amount (so_balance_of vo v a) m1 = cached_amount (so_balance_of vo v a) m"
    then have "loop_sim env (so_balance_of vo v a) a c d m1" using assms(1) by (simp add: loop_sim_def)
    note set = loop_sim_set [OF this, of d' t "amount_for (balances_of env a d) t + n" sp "amount_for m1 t + n"]
    have "balance_sim (so_balance_of vo v a t) (amount_for (balances_of env a d) t) (amount_for m1 t)" using m1 sim by (simp add: balances_of_amount)
    note next_sim = balance_sim_add [OF this, of n]
    have "loop_sim env (so_balance_of vo v a) a c d' (entry_write 0 t (amount_for m1 t + n) m1)"
      by (rule set) (use assms(2) next_sim fits in \<open>auto simp: balances_of_amount\<close>)
    moreover have "amount_for m1 t + n \<le> u_max 128" using next_sim fits by simp
    then have "amounts_add t n m1 = Some (entry_write 0 t (amount_for m1 t + n) m1, amount_for m1 t + n)" by (simp add: amounts_add_Some)
    ultimately show "follows (loop_sim env (so_balance_of vo v a) a c) d' (bind_r (ok_or (amounts_add t n m1) BalanceOverflow) (\<lambda>(m2, _). Inr m2))"
      by (simp add: ok_or_def)
  qed
qed

lemma sub_step_sim:
  assumes "loop_sim env (so_balance_of vo v a) a c d m" and "n \<noteq> 0" and "n \<le> contract_balance_of d a t"
    and "contract_ok env d' \<and> d' = set_balances env a (entry_write 0 t (amount_for (balances_of env a d) t - n) (balances_of env a d)) (d\<lparr>c_total_supplies := sp\<rparr>)"
  shows "follows (loop_sim env (so_balance_of vo v a) a c) d' (ca_sub_step vo v a (t, n) m)"
proof -
  have ok: "amounts_ok m" and sim: "balance_sim (so_balance_of vo v a t) (contract_balance_of d a t) (cached_amount (so_balance_of vo v a) m t)"
    and d: "contract_ok env d"
    using assms(1) by (simp_all add: loop_sim_def)
  then have v: "so_balance_of vo v a t \<le> u_max 128" by (simp add: balance_sim_def)
  have "contract_balance_of d a t \<le> u_max 128" by (rule balance_u128 [OF d])
  with sim have small: "cached_amount (so_balance_of vo v a) m t \<le> u_max 128" by (auto simp: balance_sim_def)
  have "follows (loop_sim env (so_balance_of vo v a) a c) d'
      (bind_r (ca_load vo a t v m) (\<lambda>m1. bind_r (ok_or (amounts_sub t n m1) BalanceOverflow) (\<lambda>(m2, _). Inr m2)))"
  proof (rule follows_bind [OF ca_load_follows [OF ok v]])
    fix m1 assume m1: "amounts_ok m1 \<and> amount_for m1 t = cached_amount (so_balance_of vo v a) m t \<and>
      cached_amount (so_balance_of vo v a) m1 = cached_amount (so_balance_of vo v a) m"
    then have "loop_sim env (so_balance_of vo v a) a c d m1" using assms(1) by (simp add: loop_sim_def)
    note set = loop_sim_set [OF this, of d' t "amount_for (balances_of env a d) t - n" sp "amount_for m1 t - n"]
    have "balance_sim (so_balance_of vo v a t) (amount_for (balances_of env a d) t) (amount_for m1 t)" using m1 sim by (simp add: balances_of_amount)
    note next_sim = balance_sim_sub [OF this, of n]
    have "loop_sim env (so_balance_of vo v a) a c d' (entry_write 0 t (amount_for m1 t - n) m1)"
      by (rule set) (use assms(4) next_sim assms(3) in \<open>auto simp: balances_of_amount\<close>)
    moreover have "n \<le> amount_for m1 t" "amount_for m1 t - n \<le> u_max 128" using m1 small next_sim assms(3) by (simp_all add: balances_of_amount)
    then have "amounts_sub t n m1 = Some (entry_write 0 t (amount_for m1 t - n) m1, amount_for m1 t - n)" by (simp add: amounts_sub_Some)
    ultimately show "follows (loop_sim env (so_balance_of vo v a) a c) d' (bind_r (ok_or (amounts_sub t n m1) BalanceOverflow) (\<lambda>(m2, _). Inr m2))"
      by (simp add: ok_or_def)
  qed
  then show ?thesis using assms(2) by (simp add: ca_sub_step_def)
qed

text \<open>The loops of the contract that add and those that subtract.\<close>

lemma add_step_spec:
  assumes "contract_ok env d" and "f (t, n) d = Inr d'" and "f = add_balance_step env a \<or> f = deposit_step env a"
  obtains sp where "contract_ok env d' \<and>
    d' = set_balances env a (entry_write 0 t (amount_for (balances_of env a d) t + n) (balances_of env a d)) (d\<lparr>c_total_supplies := sp\<rparr>)"
proof -
  have same: "d = d\<lparr>c_total_supplies := c_total_supplies d\<rparr>" by simp
  show thesis
    using assms(2,3) that
    by (elim disjE) (use add_balance_step_spec [OF assms(1), of a t n d'] deposit_step_spec [OF assms(1), of a t n d'] same in metis)+
qed

lemma add_step_balance:
  assumes "contract_ok env d" and "f p d = Inr d'" and "f = add_balance_step env a \<or> f = deposit_step env a"
  shows "contract_ok env d' \<and> contract_balance_of d a t \<le> contract_balance_of d' a t"
proof -
  obtain u n where p: "p = (u, n)" by (cases p)
  from assms(1) assms(2) [unfolded p] assms(3) show ?thesis
    by (rule add_step_spec) (auto simp: contract_balance_alt [of _ _ _ env] lock_balance_def amount_for_def balances_of_def)
qed

lemma fold_add_balance:
  assumes "f = add_balance_step env a \<or> f = deposit_step env a"
  shows "fold_r f ts d = Inr d' \<Longrightarrow> contract_ok env d \<Longrightarrow> contract_balance_of d a t \<le> contract_balance_of d' a t"
proof (induction ts arbitrary: d)
  case (Cons p ts)
  then obtain d1 where "f p d = Inr d1" "fold_r f ts d1 = Inr d'" by (auto simp: result_simps)
  with Cons add_step_balance [OF Cons.prems(2) this(1) assms, of t] show ?case by force
qed simp

lemma fold_add_sim:
  assumes "f = add_balance_step env a \<or> f = deposit_step env a"
  shows "fold_r f ts c1 = Inr c2 \<Longrightarrow> loop_sim env (so_balance_of vo v a) a c c1 m \<Longrightarrow>
    list_all (\<lambda>(t, _). contract_balance_of c2 a t + so_balance_of vo v a t \<le> u_max 128) ts \<Longrightarrow>
    follows (loop_sim env (so_balance_of vo v a) a c) c2 (fold_r (ca_add_step vo v a) ts m)"
proof (induction ts arbitrary: c1 m)
  case (Cons p ts)
  obtain t n where p: "p = (t, n)" by (cases p)
  obtain d where d: "f (t, n) c1 = Inr d" and rest: "fold_r f ts d = Inr c2"
    using Cons.prems(1) by (auto simp: p result_simps)
  have ok: "contract_ok env c1" using Cons.prems(2) by (simp add: loop_sim_def)
  from ok d assms obtain sp where sp: "contract_ok env d \<and>
      d = set_balances env a (entry_write 0 t (amount_for (balances_of env a c1) t + n) (balances_of env a c1)) (c1\<lparr>c_total_supplies := sp\<rparr>)"
    by (rule add_step_spec)
  then have "contract_balance_of d a t \<le> contract_balance_of c2 a t" using fold_add_balance [OF assms rest, of t] by blast
  moreover have "contract_balance_of c2 a t + so_balance_of vo v a t \<le> u_max 128" using Cons.prems(3) by (simp add: p)
  ultimately have "contract_balance_of d a t + so_balance_of vo v a t \<le> u_max 128" by linarith
  from add_step_sim [OF Cons.prems(2) sp this] show ?case unfolding p fold_r.simps
    by (rule follows_bind) (use Cons.IH [OF rest] Cons.prems(3) in simp)
qed simp

lemma fold_sub_sim:
  assumes "fold_r f ts c1 = Inr c2" and "loop_sim env (so_balance_of vo v a) a c c1 m"
    and "f = sub_balance_step env a \<or> f = withdraw_step env a"
  shows "follows (loop_sim env (so_balance_of vo v a) a c) c2 (fold_r (ca_sub_step vo v a) ts m)"
  using assms(1,2)
proof (rule follows_fold)
  fix p d d' m assume run: "f p d = Inr d'" and sim: "loop_sim env (so_balance_of vo v a) a c d m"
  obtain t n where p: "p = (t, n)" by (cases p)
  have ok: "contract_ok env d" using sim by (simp add: loop_sim_def)
  have same: "d = d\<lparr>c_total_supplies := c_total_supplies d\<rparr>" by simp
  have "n \<noteq> 0" using run assms(3) by (auto simp: p sub_balance_step_def withdraw_step_def result_simps)
  then show "follows (loop_sim env (so_balance_of vo v a) a c) d' (ca_sub_step vo v a p m)"
    using assms(3) run unfolding p
    by (elim disjE) (use sub_balance_step_spec [OF ok, of a t n d'] withdraw_step_spec [OF ok, of a t n d'] sub_step_sim [OF sim] same in metis)+
qed

lemma view_balance: "so_balance_of (contract_ops env) c a = (\<lambda>t. lock_balance t (account_or_new env a c))"
  by (simp add: contract_ops_def fun_eq_iff contract_balance_alt [of _ _ _ env])

lemma loop_start:
  assumes "cache_sim env V K c s"
  shows "loop_sim env (so_balance_of (contract_ops env) (fst s) a) a c c
    (ca_token_amounts (lk_value (ca_get_or_create (contract_ops env) a s)))"
  using cache_simD(1) [OF assms] cache_simD(2) [OF assms, of a]
  by (auto simp: loop_sim_def entry_sim_def view_balance contract_balance_alt [of _ _ _ env] lock_balance_def
      intro!: exI [of _ "ac_token_balances (lk_value (account_or_new env a c))"] simp: write_inner_def)

lemma loop_end:
  assumes sim: "cache_sim env V K c s" and loop: "loop_sim env (so_balance_of (contract_ops env) (fst s) a) a c d m"
  shows "cache_sim env V K d (ca_put a (ca_get_or_create (contract_ops env) a s)
    ((lk_value (ca_get_or_create (contract_ops env) a s))\<lparr>ca_token_amounts := m\<rparr>) s)"
proof -
  obtain B where B: "account_or_new env a d = write_inner ((lk_value (account_or_new env a c))\<lparr>ac_token_balances := B\<rparr>) (account_or_new env a c)"
    using loop by (auto simp: loop_sim_def)
  show ?thesis
  proof (rule cache_sim_put [OF sim])
    show "contract_ok env d" "same_globals c d" using loop by (simp_all add: loop_sim_def)
    show "account_or_new env b d = account_or_new env b c" if "b \<noteq> a" for b using loop that by (simp add: loop_sim_def)
    show "entry_sim env K a (account_or_new env a d) (account_or_new env a (fst s))
        (write_inner ((lk_value (ca_get_or_create (contract_ops env) a s))\<lparr>ca_token_amounts := m\<rparr>) (ca_get_or_create (contract_ops env) a s))"
      using cache_simD(2) [OF sim, of a] loop
      by (auto simp: B entry_sim_def loop_sim_def view_balance contract_balance_alt [of _ _ _ env] ca_is_nonce_used_def
          account_is_nonce_used_def account_has_public_key_def is_implicit_public_key_removed_def account_auth_enabled_def)
  qed
qed

definition leaves_room :: "'p contract \<Rightarrow> account_id \<Rightarrow> (token_id \<times> nat) list \<Rightarrow> 'p contract \<Rightarrow> bool" where
  "leaves_room V a ts d \<longleftrightarrow> list_all (\<lambda>(t, _). contract_balance_of d a t + contract_balance_of V a t \<le> u_max 128) ts"

lemma leaves_room_trail [simp]: "leaves_room V a ts (add_log e d) = leaves_room V a ts d"
  by (simp add: leaves_room_def contract_balance_of_def add_log_def)

lemma cached_add_follows:
  assumes "cache_sim env V K c s" and "fold_r f ts (fst (get_or_create env a c)) = Inr c'" and "leaves_room V a ts c'"
    and "f = add_balance_step env a \<or> f = deposit_step env a"
  shows "follows (cache_sim env V K) c' (cached_add_balance (contract_ops env) a ts s)"
proof -
  have "loop_sim env (so_balance_of (contract_ops env) (fst s) a) a c (fst (get_or_create env a c))
      (ca_token_amounts (lk_value (ca_get_or_create (contract_ops env) a s)))"
    using loop_start [OF assms(1), of a] cache_simD(1) [OF assms(1)]
    by (simp add: loop_sim_def get_or_create_ok contract_balance_alt [of _ _ _ env])
  moreover have "list_all (\<lambda>(t, _). contract_balance_of c' a t + so_balance_of (contract_ops env) (fst s) a t \<le> u_max 128) ts"
    using assms(3) cache_simD(4) [OF assms(1)] by (simp add: leaves_room_def contract_ops_def)
  ultimately show ?thesis using fold_add_sim [OF assms(4,2)]
    unfolding cached_add_balance_def Let_def as_inner_unchecked_def
    by (intro follows_bind) (assumption | simp add: loop_end [OF assms(1)])+
qed

lemma cached_sub_follows:
  assumes "cache_sim env V K c s" and "\<not> lk_locked (account_or_new env a c)" and "fold_r f ts c = Inr c'"
    and "f = sub_balance_step env a \<or> f = withdraw_step env a"
  shows "follows (cache_sim env V K) c' (cached_sub_balance (contract_ops env) a ts s)"
proof -
  have "\<not> lk_locked (ca_get_or_create (contract_ops env) a s)"
    using cache_simD(2) [OF assms(1), of a] assms(2) by (simp add: entry_sim_def)
  from ca_unlocked_Inr [OF this] fold_sub_sim [OF assms(3) loop_start [OF assms(1)] assms(4)] show ?thesis
    unfolding cached_sub_balance_def Let_def
    by (simp, elim follows_bind) (simp add: loop_end [OF assms(1)])
qed

lemma add_balance_sim:
  "cache_sim env V K c s \<Longrightarrow> contract_add_balance env a ts c = Inr c' \<Longrightarrow> leaves_room V a ts c' \<Longrightarrow>
     follows (cache_sim env V K) c' (cached_add_balance (contract_ops env) a ts s)"
  unfolding contract_add_balance_def by (rule cached_add_follows) auto

lemma sub_balance_sim:
  "cache_sim env V K c s \<Longrightarrow> contract_sub_balance env a ts c = Inr c' \<Longrightarrow>
     follows (cache_sim env V K) c' (cached_sub_balance (contract_ops env) a ts s)"
  by (rule cached_sub_follows) (auto simp: contract_sub_balance_def result_simps unlocked_account_Inr)

lemma cache_sim_trail [simp]:
  "cache_sim env V K (add_log e c) s = cache_sim env V K c s" "cache_sim env V K (detach p c) s = cache_sim env V K c s"
  "cache_sim env V K (c\<lparr>c_postponed_burns := bs\<rparr>) s = cache_sim env V K c s"
  by (simp_all add: cache_sim_def)

lemma deposit_sim:
  assumes "cache_sim env V K c s" and "deposit env a ts memo c = Inr c'" and "leaves_room V a ts c'"
  shows "follows (cache_sim env V K) c' (cached_mint (contract_ops env) a ts memo s)"
proof -
  obtain c1 where f: "fold_r (deposit_step env a) ts (fst (get_or_create env a c)) = Inr c1" and c': "c' = c1 \<or> (\<exists>e. c' = add_log e c1)"
    using assms(2) by (auto simp: deposit_def result_simps emit_checked_Inr split: if_splits)
  have "leaves_room V a ts c1" using c' assms(3) by auto
  from cached_add_follows [OF assms(1) f this] have "follows (cache_sim env V K) c1 (cached_add_balance (contract_ops env) a ts s)" by simp
  then show ?thesis unfolding cached_mint_def follows_def using c' by (auto split: sum.splits)
qed

lemma withdraw_sim:
  assumes "cache_sim env V K c s" and "withdraw env a ts memo False c = Inr c'"
  shows "follows (cache_sim env V K) c' (cached_sub_balance (contract_ops env) a ts s)"
proof -
  obtain c1 where l: "\<not> lk_locked (account_or_new env a c)" and f: "fold_r (withdraw_step env a) ts c = Inr c1"
    and c': "c' = c1 \<or> (\<exists>bs. c' = c1\<lparr>c_postponed_burns := bs\<rparr>)"
    using assms(2) by (auto simp: withdraw_def result_simps get_mut_maybe_forced_Some split: if_splits)
  have "follows (cache_sim env V K) c1 (cached_sub_balance (contract_ops env) a ts s)" using assms(1) l f by (rule cached_sub_follows) simp
  then show ?thesis unfolding follows_def using c' by (auto split: sum.splits)
qed

subsection \<open>Withdrawals\<close>

lemma cached_wnear_alt: "cache_sim env V K c s \<Longrightarrow> cached_wnear (contract_ops env) s = Nep141 (c_wnear_id c)"
  by (simp add: cache_sim_def same_globals_def cached_wnear_def contract_ops_def)

lemma cached_deposit_alt: "cache_sim env V K c s \<Longrightarrow> cached_deposit_of (contract_ops env) s sd = wnear_deposit c sd"
  by (simp add: cached_deposit_of_def wnear_deposit_def cached_wnear_alt split: option.splits)

lemma follows_detach: "follows (cache_sim env V K) c r \<Longrightarrow> follows (cache_sim env V K) (detach p c) r"
  by (cases r) simp_all

lemma wnear_then_sim:
  assumes "cache_sim env V K c s" and "wnear_withdraw_then env a n f c = Inr c'"
  shows "follows (cache_sim env V K) c' (cached_sub_balance (contract_ops env) a [(cached_wnear (contract_ops env) s, n)] s)"
  using wnear_withdraw_then_Inr [OF assms(2)] assms(1)
  by (auto simp: cached_wnear_alt intro!: follows_detach withdraw_sim)

text \<open>The withdrawals of the contract, each a withdrawal of its tokens with a promise attached.\<close>

lemma withdrawals_sim:
  assumes "cache_sim env V K c s"
  shows "detached (internal_ft_withdraw env a fw False c) = Inr c' \<Longrightarrow> follows (cache_sim env V K) c' (cached_ft_withdraw (contract_ops env) a fw s)"
    "detached (internal_nft_withdraw env a nw False c) = Inr c' \<Longrightarrow> follows (cache_sim env V K) c' (cached_nft_withdraw (contract_ops env) a nw s)"
    "contract_native_withdraw env a vw c = Inr c' \<Longrightarrow> follows (cache_sim env V K) c' (cached_native_withdraw (contract_ops env) a vw s)"
    "contract_storage_deposit env a sd c = Inr c' \<Longrightarrow> follows (cache_sim env V K) c' (cached_storage_deposit (contract_ops env) a sd s)"
    "contract_auth_call env a ac c = Inr c' \<Longrightarrow> follows (cache_sim env V K) c' (cached_auth_call (contract_ops env) a ac s)"
  using assms
  by (auto simp: detached_Inr cached_ft_withdraw_def cached_nft_withdraw_def cached_native_withdraw_def cached_storage_deposit_def
      cached_deposit_alt contract_native_withdraw_def contract_storage_deposit_def cached_auth_call_def contract_auth_call_def result_simps
      intro!: follows_detach dest!: internal_withdraw_Inr intro: withdraw_sim wnear_then_sim split: if_splits)

lemma mt_withdraw_sim:
  assumes "cache_sim env V K c s" and "detached (internal_mt_withdraw env a w False c) = Inr c'"
  shows "follows (cache_sim env V K) c' (cached_mt_withdraw (contract_ops env) a w s)"
proof -
  obtain c1 p where run: "internal_mt_withdraw env a w False c = Inr (c1, p)" and c': "c' = detach p c1"
    using assms(2) by (auto simp: detached_Inr)
  have "length (mw_token_ids w) = length (mw_amounts w) \<and> mw_token_ids w \<noteq> []"
    using run by (auto simp: internal_mt_withdraw_def result_simps)
  then show ?thesis
    using withdraw_sim [OF assms(1) internal_mt_withdraw_Inr [OF run]]
    by (simp add: cached_mt_withdraw_def cached_deposit_alt [OF assms(1)] c' follows_detach)
qed

lemma notify_sim:
  "cache_sim env V K c s \<Longrightarrow> contract_notify_on_transfer env a r ts nt c = Inr c' \<Longrightarrow>
     follows (cache_sim env V K) c' (cached_notify_on_transfer a r ts nt s)"
  by (auto simp: contract_notify_on_transfer_def cached_notify_on_transfer_def result_simps)

lemma contract_ops_sel:
  "so_verifying_contract (contract_ops env) = (\<lambda>c. h_current env)"
  "so_fee (contract_ops env) = c_fee"
  "so_fee_collector (contract_ops env) = c_fee_collector"
  "so_has_public_key (contract_ops env) = contract_has_public_key env"
  "so_is_valid_salt (contract_ops env) = (\<lambda>c. salt_is_valid (c_salts c))"
  "so_add_public_key (contract_ops env) = contract_add_public_key env"
  "so_remove_public_key (contract_ops env) = contract_remove_public_key env"
  "so_commit_nonce (contract_ops env) = contract_commit_nonce env"
  "so_internal_add_balance (contract_ops env) = contract_add_balance env"
  "so_internal_sub_balance (contract_ops env) = contract_sub_balance env"
  "so_ft_withdraw (contract_ops env) = (\<lambda>a w c. detached (internal_ft_withdraw env a w False c))"
  "so_nft_withdraw (contract_ops env) = (\<lambda>a w c. detached (internal_nft_withdraw env a w False c))"
  "so_mt_withdraw (contract_ops env) = (\<lambda>a w c. detached (internal_mt_withdraw env a w False c))"
  "so_native_withdraw (contract_ops env) = contract_native_withdraw env"
  "so_notify_on_transfer (contract_ops env) = contract_notify_on_transfer env"
  "so_storage_deposit (contract_ops env) = contract_storage_deposit env"
  "so_set_auth_by_predecessor_id (contract_ops env) = (\<lambda>a enable. internal_set_auth env a enable False)"
  "so_auth_call (contract_ops env) = contract_auth_call env"
  "so_mint (contract_ops env) = deposit env"
  "so_burn (contract_ops env) = (\<lambda>a ts memo. withdraw env a ts memo False)"
  by (simp_all add: contract_ops_def)

lemma cached_ops_sel:
  "so_verifying_contract (cached_ops vo) = (\<lambda>s. so_verifying_contract vo (fst s))"
  "so_fee (cached_ops vo) = (\<lambda>s. so_fee vo (fst s))"
  "so_fee_collector (cached_ops vo) = (\<lambda>s. so_fee_collector vo (fst s))"
  "so_has_public_key (cached_ops vo) = cached_has_public_key vo"
  "so_is_valid_salt (cached_ops vo) = (\<lambda>s. so_is_valid_salt vo (fst s))"
  "so_add_public_key (cached_ops vo) = cached_add_public_key vo"
  "so_remove_public_key (cached_ops vo) = cached_remove_public_key vo"
  "so_commit_nonce (cached_ops vo) = cached_commit_nonce vo"
  "so_internal_add_balance (cached_ops vo) = cached_add_balance vo"
  "so_internal_sub_balance (cached_ops vo) = cached_sub_balance vo"
  "so_ft_withdraw (cached_ops vo) = cached_ft_withdraw vo"
  "so_nft_withdraw (cached_ops vo) = cached_nft_withdraw vo"
  "so_mt_withdraw (cached_ops vo) = cached_mt_withdraw vo"
  "so_native_withdraw (cached_ops vo) = cached_native_withdraw vo"
  "so_notify_on_transfer (cached_ops vo) = cached_notify_on_transfer"
  "so_storage_deposit (cached_ops vo) = cached_storage_deposit vo"
  "so_set_auth_by_predecessor_id (cached_ops vo) = cached_set_auth vo"
  "so_auth_call (cached_ops vo) = cached_auth_call vo"
  "so_mint (cached_ops vo) = cached_mint vo"
  "so_burn (cached_ops vo) = cached_burn vo"
  by (simp_all add: cached_ops_def)

text \<open>
  The contract's operations, stopped as soon as a credit leaves an account with so much of a token that
  the balance it has in \<open>V\<close> cannot be added to it. Where no credit does, they are the contract's.
\<close>

definition bounded_ops :: "'p host \<Rightarrow> 'p contract \<Rightarrow> 'p contract state_ops" where
  "bounded_ops env V = (contract_ops env)\<lparr>
     so_internal_add_balance := (\<lambda>a ts c. bind_r (contract_add_balance env a ts c) (\<lambda>c'.
       bind_r (require_r (leaves_room V a ts c') BalanceOverflow) (\<lambda>_. Inr c'))),
     so_mint := (\<lambda>a ts memo c. bind_r (deposit env a ts memo c) (\<lambda>c'.
       bind_r (require_r (leaves_room V a ts c') BalanceOverflow) (\<lambda>_. Inr c')))\<rparr>"

lemma bounded_ops_sel:
  "so_verifying_contract (bounded_ops env V) = so_verifying_contract (contract_ops env)"
  "so_fee (bounded_ops env V) = so_fee (contract_ops env)"
  "so_fee_collector (bounded_ops env V) = so_fee_collector (contract_ops env)"
  "so_has_public_key (bounded_ops env V) = so_has_public_key (contract_ops env)"
  "so_is_valid_salt (bounded_ops env V) = so_is_valid_salt (contract_ops env)"
  "so_add_public_key (bounded_ops env V) = so_add_public_key (contract_ops env)"
  "so_remove_public_key (bounded_ops env V) = so_remove_public_key (contract_ops env)"
  "so_commit_nonce (bounded_ops env V) = so_commit_nonce (contract_ops env)"
  "so_internal_sub_balance (bounded_ops env V) = so_internal_sub_balance (contract_ops env)"
  "so_ft_withdraw (bounded_ops env V) = so_ft_withdraw (contract_ops env)"
  "so_nft_withdraw (bounded_ops env V) = so_nft_withdraw (contract_ops env)"
  "so_mt_withdraw (bounded_ops env V) = so_mt_withdraw (contract_ops env)"
  "so_native_withdraw (bounded_ops env V) = so_native_withdraw (contract_ops env)"
  "so_notify_on_transfer (bounded_ops env V) = so_notify_on_transfer (contract_ops env)"
  "so_storage_deposit (bounded_ops env V) = so_storage_deposit (contract_ops env)"
  "so_set_auth_by_predecessor_id (bounded_ops env V) = so_set_auth_by_predecessor_id (contract_ops env)"
  "so_auth_call (bounded_ops env V) = so_auth_call (contract_ops env)"
  "so_burn (bounded_ops env V) = so_burn (contract_ops env)"
  "so_internal_add_balance (bounded_ops env V) a ts c = Inr c' \<longleftrightarrow> contract_add_balance env a ts c = Inr c' \<and> leaves_room V a ts c'"
  "so_mint (bounded_ops env V) a ts memo c = Inr c' \<longleftrightarrow> deposit env a ts memo c = Inr c' \<and> leaves_room V a ts c'"
  by (auto simp: bounded_ops_def result_simps)

lemma cached_contract_laws:
  assumes "types_ok env" and "keys_apart (h_codecs env) K"
  shows "sim_laws (bounded_ops env V) (cached_ops (contract_ops env)) K (cache_sim env V K)"
proof -
  note sims = add_key_sim [OF assms] remove_key_sim [OF assms] commit_nonce_sim sub_balance_sim
    withdrawals_sim mt_withdraw_sim notify_sim
  have views: "cache_sim env V K c s \<Longrightarrow> c_fee (fst s) = c_fee c \<and> c_fee_collector (fst s) = c_fee_collector c \<and> c_salts (fst s) = c_salts c" for c s
    by (simp add: cache_sim_def same_globals_def)
  show ?thesis
    unfolding sim_laws_def op_follows_def bounded_ops_sel contract_ops_sel cached_ops_sel
    by (intro conjI allI ballI impI; (simp add: cache_views(1) [OF assms(1)] views; fail)?;
        (rule sims; assumption)?; (rule set_auth_sim [OF assms(1)]; assumption)?;
        (elim conjE; rule add_balance_sim deposit_sim; assumption)?;
        (unfold cached_burn_def, rule withdraw_sim; assumption))
qed

text \<open>The guard only stops a run.\<close>

lemma bounded_laws: "sim_laws (bounded_ops env V) (contract_ops env) K (=)"
  by (auto simp: sim_laws_def op_follows_def bounded_ops_sel contract_ops_sel)

end
