(* ===== verification/SimulateIntents.thy ===== *)
theory SimulateIntents
  imports ExecuteIntents CachedSimulation
begin

text \<open>
  The entry point \<open>simulate_intents\<close> (\<open>contract/intents/mod.rs\<close>, \<open>simulate.rs\<close>,
  \<open>simulation_output.rs\<close>) and what its report says of an execution: a batch the contract executes
  is simulated without a violation, with the same list of executed intents, if no credit comes close to
  the range of balances; the converse fails, since the cache forgets a balance that drops to zero.
\<close>

subsection \<open>The inspector and its report\<close>

text \<open>The greatest time stamp of the crate \<open>time\<close>, and the JSON text of an event.\<close>

record sim_env =
  se_timestamp_max :: timestamp
  se_json :: "defuse_event \<Rightarrow> string"

record simulate_inspector =
  si_intents_executed :: "nonce account_event list"
  si_recorded_events :: "string list"
  si_min_deadline :: timestamp

definition si_new :: "sim_env \<Rightarrow> simulate_inspector" where
  "si_new se = \<lparr> si_intents_executed = [], si_recorded_events = [], si_min_deadline = se_timestamp_max se \<rparr>"

definition simulate_inspector_ops :: "sim_env \<Rightarrow> simulate_inspector inspector_ops" where
  "simulate_inspector_ops se = \<lparr>
     io_on_deadline = (\<lambda>d i. i\<lparr>si_min_deadline := min (si_min_deadline i) d\<rparr>),
     io_on_event = (\<lambda>e i. i\<lparr>si_recorded_events := si_recorded_events i @ [se_json se e]\<rparr>),
     io_on_intent_executed = (\<lambda>signer h n i.
       i\<lparr>si_intents_executed := si_intents_executed i @ [intent_event h signer n]\<rparr>) \<rparr>"

record simulation_report =
  sr_intents_executed :: "nonce account_event list"
  sr_logs :: "string list"
  sr_min_deadline :: timestamp

definition into_report :: "sim_env \<Rightarrow> simulate_inspector \<Rightarrow> simulation_report" where
  "into_report se i = \<lparr> sr_intents_executed = si_intents_executed i,
     sr_logs = map ((@) ''EVENT_JSON:'') (si_recorded_events i @ [se_json se (EIntentsExecuted (si_intents_executed i))]),
     sr_min_deadline = si_min_deadline i \<rparr>"

record state_output =
  sto_fee :: pips
  sto_current_salt :: salt

record simulation_output =
  sim_report :: simulation_report
  sim_invariant_violated :: "invariant_violated option"
  sim_state :: state_output

definition into_result :: "simulation_output \<Rightarrow> invariant_violated + unit" where
  "into_result r = (case sim_invariant_violated r of None \<Rightarrow> Inr () | Some v \<Rightarrow> Inl v)"

subsection \<open>The entry point\<close>

text \<open>Only \<open>finalize\<close> reports a violated invariant; an error of a payload panics.\<close>

definition simulate_intents :: "sim_env \<Rightarrow> 'p host \<Rightarrow> 'p list \<Rightarrow> 'p contract \<Rightarrow> simulation_output result" where
  "simulate_intents se env payloads c =
     bind_r (not_paused env ''intents'') (\<lambda>_.
     bind_r (fold_r (execute_signed_intent (h_engine env) (deltas_ops (cached_ops (contract_ops env))) (simulate_inspector_ops se))
       payloads ((cached_new c, []), si_new se)) (\<lambda>e.
     bind_r (case engine_finalize (fst e) of
         Inr _ \<Rightarrow> Inr None
       | Inl (InvariantViolated v) \<Rightarrow> Inr (Some v)
       | Inl err \<Rightarrow> Inl err) (\<lambda>invariant_violated.
       Inr \<lparr> sim_report = into_report se (snd e), sim_invariant_violated = invariant_violated,
         sim_state = \<lparr> sto_fee = c_fee c, sto_current_salt = sr_current (c_salts c) \<rparr> \<rparr>)))"

subsection \<open>What the report lists\<close>

text \<open>An intent shows the inspector events only.\<close>

lemma on_state_result: "on_state f e = Inr e' \<longleftrightarrow> f (fst e) = Inr (fst e') \<and> snd e' = snd e"
  by (cases e') (auto simp: on_state_def result_simps)

lemma emits_refl: "\<exists>evs. i = fold (io_on_event io) evs i"
  by (rule exI [of _ "[]"]) simp

lemma emits_one: "\<exists>evs. io_on_event io x i = fold (io_on_event io) evs i"
  by (rule exI [of _ "[x]"]) simp

lemma execute_intent_emits:
  assumes "execute_intent W ops io a h i e = Inr e'"
  shows "\<exists>evs. snd e' = fold (io_on_event io) evs (snd e)"
proof (cases i)
  case (TokenDiff td)
  then obtain d fees where "(let e1 = emit io (ETokenDiff [intent_event h a \<lparr> tde_diff = td, tde_fees_collected = fees \<rparr>]) (d, snd e) in
       if fees \<noteq> [] then on_state (so_internal_add_balance ops (so_fee_collector ops d) fees) e1 else Inr e1) = Inr e'"
    using assms by (auto simp: exec_token_diff_def result_simps)
  then show ?thesis by (auto simp: Let_def on_state_result emit_def emits_one split: if_splits)
next
  case (Transfer t)
  then show ?thesis using assms
    by (auto simp: exec_transfer_def Let_def result_simps on_state_result emit_def emits_one split: option.splits)
next
  case (SetAuthByPredecessorId b)
  then show ?thesis using assms
    by (auto simp: exec_set_auth_def Let_def result_simps emit_def emits_one emits_refl split: if_splits)
qed (use assms in \<open>auto simp: exec_add_public_key_def exec_remove_public_key_def exec_ft_withdraw_def exec_nft_withdraw_def
    exec_mt_withdraw_def exec_native_withdraw_def exec_storage_deposit_def exec_auth_call_def exec_imt_mint_def exec_imt_burn_def
    result_simps on_state_result emit_def emits_one emits_refl\<close>)

lemma execute_intents_of_emits:
  assumes "execute_intents_of W ops io a h is e = Inr e'"
  shows "\<exists>evs. snd e' = fold (io_on_event io) evs (snd e)"
  using assms unfolding execute_intents_of_def
proof (rule fold_r_rel [where R = "\<lambda>e e'. \<exists>evs. snd e' = fold (io_on_event io) evs (snd e)"])
  show "\<exists>evs. snd c = fold (io_on_event io) evs (snd a)"
    if "\<exists>evs. snd b = fold (io_on_event io) evs (snd a)" "\<exists>evs. snd c = fold (io_on_event io) evs (snd b)" for a b c
    using that by (metis fold_append comp_apply)
qed (auto simp: emits_refl intro: execute_intent_emits)

text \<open>Events change neither the list of executed intents nor the deadline.\<close>

lemma si_events [simp]:
  "si_intents_executed (fold (io_on_event (simulate_inspector_ops se)) evs i) = si_intents_executed i"
  "si_min_deadline (fold (io_on_event (simulate_inspector_ops se)) evs i) = si_min_deadline i"
  by (induction evs arbitrary: i) (simp_all add: simulate_inspector_ops_def)

lemma si_deadline [simp]:
  "io_on_deadline (simulate_inspector_ops se) d i = i\<lparr>si_min_deadline := min (si_min_deadline i) d\<rparr>"
  by (simp add: simulate_inspector_ops_def)

lemma simulated_payload:
  assumes "execute_signed_intent env ops (simulate_inspector_ops se) x e = Inr e'"
  obtains p where "ev_extract env x = Inr p" "si_min_deadline (snd e') = min (si_min_deadline (snd e)) (dp_deadline p)"
    "si_intents_executed (snd e') = si_intents_executed (snd e) @ [intent_event (ev_hash env x) (dp_signer_id p) (dp_nonce p)]"
proof -
  let ?io = "simulate_inspector_ops se"
  obtain p e2 e3 where p: "ev_extract env x = Inr p"
    and e2: "on_state (so_commit_nonce ops (dp_signer_id p) (dp_nonce p)) (fst e, io_on_deadline ?io (dp_deadline p) (snd e)) = Inr e2"
    and e3: "execute_intents_of (ev_wide env) ops ?io (dp_signer_id p) (ev_hash env x) (dp_message p) e2 = Inr e3"
    and e': "e' = (fst e3, io_on_intent_executed ?io (dp_signer_id p) (ev_hash env x) (dp_nonce p) (snd e3))"
    using assms by (auto simp: execute_signed_intent_def Let_def result_simps)
  obtain evs where "snd e3 = fold (io_on_event ?io) evs (snd e2)" using execute_intents_of_emits [OF e3] by blast
  with e2 have "si_intents_executed (snd e3) = si_intents_executed (snd e)"
    and "si_min_deadline (snd e3) = min (si_min_deadline (snd e)) (dp_deadline p)"
    by (simp_all add: on_state_result)
  with p show ?thesis by (intro that) (simp_all add: e' simulate_inspector_ops_def)
qed

text \<open>The report of a batch, whatever was simulated before it.\<close>

lemma simulated_batch:
  assumes "fold_r (execute_signed_intent env ops (simulate_inspector_ops se)) xs e = Inr e'"
  shows "(\<exists>evs. si_intents_executed (snd e') = si_intents_executed (snd e) @ evs \<and>
      list_all2 (\<lambda>x ev. \<exists>p. ev_extract env x = Inr p \<and> ev = intent_event (ev_hash env x) (dp_signer_id p) (dp_nonce p)) xs evs) \<and>
    si_min_deadline (snd e') = fold (\<lambda>x m. case ev_extract env x of Inl _ \<Rightarrow> m | Inr p \<Rightarrow> min m (dp_deadline p)) xs (si_min_deadline (snd e))"
  using assms
proof (induction xs arbitrary: e)
  case (Cons x xs)
  obtain e1 where e1: "execute_signed_intent env ops (simulate_inspector_ops se) x e = Inr e1"
    and rest: "fold_r (execute_signed_intent env ops (simulate_inspector_ops se)) xs e1 = Inr e'"
    using Cons.prems by (auto simp: result_simps)
  from e1 show ?case
    by (rule simulated_payload) (use Cons.IH [OF rest] in \<open>fastforce simp: list_all2_Cons1\<close>)
qed simp

lemma fold_min_spec:
  fixes d :: "'a \<Rightarrow> 'b::linorder"
  shows "fold (\<lambda>x m. min m (d x)) xs m \<le> m \<and> (\<forall>x \<in> set xs. fold (\<lambda>x m. min m (d x)) xs m \<le> d x) \<and>
    (fold (\<lambda>x m. min m (d x)) xs m = m \<or> fold (\<lambda>x m. min m (d x)) xs m \<in> d ` set xs)"
proof (induction xs arbitrary: m)
  case (Cons x xs)
  from Cons [of "min m (d x)"] show ?case by (auto simp: min_def split: if_splits)
qed simp

lemma simulate_intents_Inr:
  assumes "simulate_intents se env xs c = Inr r"
  obtains e where "fold_r (execute_signed_intent (h_engine env) (deltas_ops (cached_ops (contract_ops env))) (simulate_inspector_ops se))
      xs ((cached_new c, []), si_new se) = Inr e" "sim_report r = into_report se (snd e)"
  using assms by (auto simp: simulate_intents_def result_simps)

text \<open>The report of a simulation lists exactly the intents of the batch, in its order, and its
  deadline is the earliest deadline of the batch.\<close>

theorem simulation_report_exact:
  assumes "simulate_intents se env xs c = Inr r"
  shows "list_all2 (\<lambda>x ev. \<exists>p. ev_extract (h_engine env) x = Inr p \<and>
        ev = intent_event (ev_hash (h_engine env) x) (dp_signer_id p) (dp_nonce p)) xs (sr_intents_executed (sim_report r)) \<and>
    (\<forall>x \<in> set xs. \<forall>p. ev_extract (h_engine env) x = Inr p \<longrightarrow> sr_min_deadline (sim_report r) \<le> dp_deadline p) \<and>
    (sr_min_deadline (sim_report r) = se_timestamp_max se \<or>
     (\<exists>x \<in> set xs. \<exists>p. ev_extract (h_engine env) x = Inr p \<and> sr_min_deadline (sim_report r) = dp_deadline p))"
proof -
  let ?E = "h_engine env"
  let ?d = "\<lambda>x. dp_deadline (projr (ev_extract ?E x))"
  obtain e where e: "fold_r (execute_signed_intent ?E (deltas_ops (cached_ops (contract_ops env))) (simulate_inspector_ops se))
      xs ((cached_new c, []), si_new se) = Inr e" and r: "sim_report r = into_report se (snd e)"
    using assms by (rule simulate_intents_Inr)
  obtain evs where evs: "sr_intents_executed (sim_report r) = evs"
      "list_all2 (\<lambda>x ev. \<exists>p. ev_extract ?E x = Inr p \<and> ev = intent_event (ev_hash ?E x) (dp_signer_id p) (dp_nonce p)) xs evs"
    and dl: "sr_min_deadline (sim_report r) =
      fold (\<lambda>x m. case ev_extract ?E x of Inl _ \<Rightarrow> m | Inr p \<Rightarrow> min m (dp_deadline p)) xs (se_timestamp_max se)"
    using simulated_batch [OF e] by (auto simp: r into_report_def si_new_def)
  have ok: "\<exists>p. ev_extract ?E x = Inr p" if "x \<in> set xs" for x
    using evs(2) that by (auto simp: list_all2_conv_all_nth in_set_conv_nth)
  have "sr_min_deadline (sim_report r) = fold (\<lambda>x m. min m (?d x)) xs (se_timestamp_max se)"
    unfolding dl by (rule fold_cong) (use ok in force)+
  with fold_min_spec [of ?d xs "se_timestamp_max se"] ok show ?thesis
    unfolding evs(1) using evs(2) by force
qed

subsection \<open>The simulation follows the execution\<close>

definition same_executed :: "execute_inspector \<Rightarrow> simulate_inspector \<Rightarrow> bool" where
  "same_executed i j \<longleftrightarrow> si_intents_executed j = ei_intents_executed i"

text \<open>The relation of the two runs, under the conditions on account ids.\<close>

definition cache_rel :: "'p host \<Rightarrow> 'p contract \<Rightarrow> public_key set \<Rightarrow> 'p contract \<Rightarrow> 'p contract cached_state \<Rightarrow> bool" where
  "cache_rel env V K c s \<longleftrightarrow> types_ok env \<and> keys_apart (h_codecs env) K \<and> cache_sim env V K c s"

lemma cache_rel_laws: "sim_laws (bounded_ops env V) (cached_ops (contract_ops env)) K (cache_rel env V K)"
proof (cases "types_ok env \<and> keys_apart (h_codecs env) K")
  case True
  then have "cache_rel env V K = cache_sim env V K" by (simp add: cache_rel_def fun_eq_iff)
  with cached_contract_laws True show ?thesis by metis
next
  case False
  then have "cache_rel env V K = (\<lambda>_ _. False)" by (auto simp: cache_rel_def fun_eq_iff)
  then show ?thesis by (simp add: sim_laws_def op_follows_def)
qed

interpretation cached_run: engine_simulation "deltas_ops (bounded_ops env V)" "deltas_ops (cached_ops (contract_ops env))" K
    "deltas_rel (cache_rel env V K)" execute_inspector_ops "simulate_inspector_ops se" same_executed
  for env :: "'p host" and V K se
proof
  show "sim_laws (deltas_ops (bounded_ops env V)) (deltas_ops (cached_ops (contract_ops env))) K (deltas_rel (cache_rel env V K))"
    by (rule sim_laws_deltas [OF cache_rel_laws])
  show "inspector_laws execute_inspector_ops (simulate_inspector_ops se) same_executed"
    by (simp add: inspector_laws_def same_executed_def execute_inspector_ops_def simulate_inspector_ops_def)
qed

interpretation bounded_run: engine_simulation "deltas_ops (bounded_ops env V)" "deltas_ops (contract_ops env)" K "deltas_rel (=)"
    execute_inspector_ops execute_inspector_ops "\<lambda>i j. ei_intents_executed j = ei_intents_executed i"
  for env :: "'p host" and V K
proof
  show "sim_laws (deltas_ops (bounded_ops env V)) (deltas_ops (contract_ops env)) K (deltas_rel (=))"
    by (rule sim_laws_deltas [OF bounded_laws])
  show "inspector_laws execute_inspector_ops execute_inspector_ops (\<lambda>i j. ei_intents_executed j = ei_intents_executed i)"
    by (simp add: inspector_laws_def execute_inspector_ops_def)
qed

text \<open>
  The run of a batch on the contract with the guard on credits: the balance of every account that is
  credited, together with what the account held of the token before the batch, stays within \<open>u128\<close>.
\<close>

definition run_within :: "'p host \<Rightarrow> 'p list \<Rightarrow> 'p contract \<Rightarrow> ('p contract deltas_state, execute_inspector) engine result" where
  "run_within env xs c =
     fold_r (execute_signed_intent (h_engine env) (deltas_ops (bounded_ops env c)) execute_inspector_ops) xs ((c, []), ei_new)"

lemma run_within_same:
  assumes "run_within env xs c = Inr e" and "payloads_ok env"
    and "fold_r (execute_signed_intent (h_engine env) (deltas_ops (contract_ops env)) execute_inspector_ops) xs ((c, []), ei_new) = Inr f"
  shows "fst e = fst f \<and> ei_intents_executed (snd e) = ei_intents_executed (snd f)"
  using bounded_run.execute_batch_follows [OF assms(1) [unfolded run_within_def], where K = UNIV and g = "((c, []), ei_new)"] assms(2,3)
  by (auto simp: deltas_rel_def payloads_ok_def prod_eq_iff)

text \<open>A fresh cache is related to its view.\<close>

lemma cache_sim_new: "contract_ok env c \<Longrightarrow> cache_sim env c K c (cached_new c)"
  by (auto simp: cache_sim_def cached_new_def entry_sim_def ca_get_or_create_def cached_account_default_def lock_defs contract_ops_def
      views_alt(2) [of _ _ env] ca_is_nonce_used_def nonces_is_used_def b256_get_def b256_ok_def cached_amount_def balance_sim_def
      contract_balance_alt [of _ _ _ env, symmetric] balance_u128)

lemma execute_intents_run:
  assumes "execute_intents env xs c = Inr c'"
  obtains e T where
    "fold_r (execute_signed_intent (h_engine env) (deltas_ops (contract_ops env)) execute_inspector_ops) xs ((c, []), ei_new) = Inr e"
    "engine_finalize (fst e) = Inr T" "\<not> h_paused env ''intents''" "set (map LDefuse (ei_drop (snd e))) \<subseteq> set (c_logs c')"
proof -
  obtain T e where run: "fold_r (execute_signed_intent (h_engine env) (deltas_ops (contract_ops env)) execute_inspector_ops) xs ((c, []), ei_new) = Inr e"
    and fin: "engine_finalize (fst e) = Inr T" and np: "\<not> h_paused env ''intents''"
    and rest: "(let c2 = add_logs (map LDefuse (ei_drop (snd e))) (fst (fst e)) in case as_mt_event T of None \<Rightarrow> Inr c2
       | Some e \<Rightarrow> emit_checked env e c2) = Inr c'"
    using assms by (auto simp: execute_intents_def execute_signed_intents_def not_paused_def result_simps)
  have "set (map LDefuse (ei_drop (snd e))) \<subseteq> set (c_logs c')"
    using rest by (auto simp: Let_def emit_checked_Inr add_log_def add_logs_def split: option.splits)
  with run fin np that show ?thesis by blast
qed

text \<open>C13: a batch that the contract executes is simulated with success: the simulation reports no
  violation and lists the intents the execution logs, for every payload one. The conditions: no
  two keys of the batch have the same implicit account, and every credit of the batch leaves the
  account with a balance that fits \<open>u128\<close> together with what the account held of the token before the
  batch, since a cached balance can exceed the contract's by that much.\<close>

theorem simulation_follows_execution:
  assumes "execute_intents env xs c = Inr c'" and "contract_ok env c" and "payloads_ok env" and "types_ok env"
    and "keys_apart (h_codecs env) (batch_keys (h_engine env) xs)" and "is_ok (run_within env xs c)"
  shows "\<exists>r. simulate_intents se env xs c = Inr r \<and> into_result r = Inr () \<and>
     length (sr_intents_executed (sim_report r)) = length xs \<and>
     (xs \<noteq> [] \<longrightarrow> LDefuse (EIntentsExecuted (sr_intents_executed (sim_report r))) \<in> set (c_logs c'))"
proof -
  let ?K = "batch_keys (h_engine env) xs"
  let ?sim = "fold_r (execute_signed_intent (h_engine env) (deltas_ops (cached_ops (contract_ops env))) (simulate_inspector_ops se))
      xs ((cached_new c, []), si_new se)"
  obtain e T where run: "fold_r (execute_signed_intent (h_engine env) (deltas_ops (contract_ops env)) execute_inspector_ops) xs ((c, []), ei_new) = Inr e"
    and fin: "engine_finalize (fst e) = Inr T" and np: "\<not> h_paused env ''intents''"
    and logs: "set (map LDefuse (ei_drop (snd e))) \<subseteq> set (c_logs c')"
    using assms(1) by (rule execute_intents_run)
  obtain d where within: "run_within env xs c = Inr d" using assms(6) by (cases "run_within env xs c") auto
  note same_run = run_within_same [OF within assms(3) run]
  have "deltas_rel (cache_rel env c ?K) (c, []) (cached_new c, [])"
    using assms(2,4,5) by (simp add: deltas_rel_def cache_rel_def cache_sim_new)
  then have "follows (\<lambda>e f. deltas_rel (cache_rel env c ?K) (fst e) (fst f) \<and> same_executed (snd e) (snd f)) d ?sim"
    by (intro cached_run.execute_batch_follows [OF within [unfolded run_within_def]])
      (use assms(3) in \<open>auto simp: payloads_ok_def same_executed_def ei_new_def si_new_def\<close>)
  then obtain f where f: "?sim = Inr f" "deltas_rel (cache_rel env c ?K) (fst d) (fst f)" "same_executed (snd d) (snd f)"
    by (cases ?sim) auto
  then have same: "snd (fst f) = snd (fst e)" "si_intents_executed (snd f) = ei_intents_executed (snd e)"
    using same_run by (simp_all add: deltas_rel_def same_executed_def)
  then have "engine_finalize (fst f) = Inr T" using fin by (simp add: engine_finalize_def)
  then have sim: "simulate_intents se env xs c = Inr \<lparr> sim_report = into_report se (snd f), sim_invariant_violated = None,
       sim_state = \<lparr> sto_fee = c_fee c, sto_current_salt = sr_current (c_salts c) \<rparr> \<rparr>"
    using f(1) np by (simp add: simulate_intents_def not_paused_def)
  have len: "length (si_intents_executed (snd f)) = length xs"
    using simulated_batch [OF f(1)] by (auto simp: si_new_def dest: list_all2_lengthD)
  moreover have "LDefuse (EIntentsExecuted (si_intents_executed (snd f))) \<in> set (c_logs c')" if "xs \<noteq> []"
  proof -
    have "EIntentsExecuted (si_intents_executed (snd f)) \<in> set (ei_drop (snd e))"
      using that len by (auto simp: ei_drop_def same(2))
    then show ?thesis by (intro subsetD [OF logs]) simp
  qed
  ultimately show ?thesis using sim by (simp add: into_report_def into_result_def)
qed

subsection \<open>Spending a balance twice\<close>

text \<open>The whole balance of a token, loaded from the view and spent: the cache is as it was before.\<close>

lemma cached_spend_all:
  assumes "map_of (ca_token_amounts (lk_value l)) t = None" and "ca_get_or_create vo a s = l" and "\<not> lk_locked l"
    and "so_balance_of vo (fst s) a t = n" and "0 < n" and "n \<le> u_max 128"
  shows "cached_sub_balance vo a [(t, n)] s = Inr (ca_put a l ((lk_value l)\<lparr>ca_token_amounts :=
      AList.delete t (AList.update t n (ca_token_amounts (lk_value l)))\<rparr>) s)"
proof -
  have add: "amounts_add t n (ca_token_amounts (lk_value l)) = Some (AList.update t n (ca_token_amounts (lk_value l)), n)"
    using assms(1,5,6) by (simp add: amounts_add_Some amount_for_def entry_read_def entry_write_def)
  have sub: "amounts_sub t n (AList.update t n (ca_token_amounts (lk_value l))) =
      Some (AList.delete t (AList.update t n (ca_token_amounts (lk_value l))), 0)"
    by (simp add: amounts_sub_Some amount_for_def entry_read_def entry_write_def)
  show ?thesis
    using assms(2-5)
    by (simp add: cached_sub_balance_def ca_unlocked_Inr ca_sub_step_def ca_load_def assms(1) add sub ok_or_def)
qed

text \<open>C14: the same balance can be spent any number of times in a simulation: whatever an unlocked
  account holds of a token, the cached state lets it spend all of it, and then all of it again,
  while the contract rejects the second time.\<close>

theorem simulated_double_spend:
  assumes "contract_ok env c" and "\<not> contract_is_account_locked c a" and "contract_balance_of c a t = n" and "0 < n"
  shows "(\<exists>s1 s2. cached_sub_balance (contract_ops env) a [(t, n)] (cached_new c) = Inr s1 \<and>
      cached_sub_balance (contract_ops env) a [(t, n)] s1 = Inr s2 \<and> cached_balance_of (contract_ops env) s2 a t = n) \<and>
    (\<exists>c1. contract_sub_balance env a [(t, n)] c = Inr c1 \<and> contract_sub_balance env a [(t, n)] c1 = Inl BalanceOverflow)"
proof
  let ?vo = "contract_ops env"
  have view: "so_balance_of ?vo c a t = n" using assms(3) by (simp add: contract_ops_def)
  have n128: "n \<le> u_max 128" using balance_u128 [OF assms(1)] assms(3) by metis
  define x where "x = ca_get_or_create ?vo a (cached_new c)"
  have x: "lk_value x = cached_account_default" "\<not> lk_locked x"
    using assms(2) by (simp_all add: x_def ca_get_or_create_def cached_new_def lock_defs contract_ops_def)
  define s1 where "s1 = ca_put a x cached_account_default (cached_new c)"
  have s1: "cached_sub_balance ?vo a [(t, n)] (cached_new c) = Inr s1"
    by (subst cached_spend_all [OF _ x_def [symmetric]]) (use x view assms(4) n128 in
      \<open>simp_all add: s1_def cached_account_default_def cached_new_def\<close>)
  have e1: "ca_get_or_create ?vo a s1 = write_inner cached_account_default x" by (simp add: s1_def)
  define s2 where "s2 = ca_put a (write_inner cached_account_default x) cached_account_default s1"
  have s2: "cached_sub_balance ?vo a [(t, n)] s1 = Inr s2"
    by (subst cached_spend_all [OF _ e1]) (use x view assms(4) n128 in
      \<open>simp_all add: s1_def s2_def cached_account_default_def cached_new_def\<close>)
  have "cached_balance_of ?vo s2 a t = n"
    using view by (simp add: cached_balance_of_def s2_def s1_def ca_put_def cached_new_def as_inner_unchecked_def cached_account_default_def)
  with s1 s2 show "\<exists>s1 s2. cached_sub_balance ?vo a [(t, n)] (cached_new c) = Inr s1 \<and>
      cached_sub_balance ?vo a [(t, n)] s1 = Inr s2 \<and> cached_balance_of ?vo s2 a t = n" by blast
next
  obtain l where l: "map_of (c_accounts c) a = Some l" using assms(3,4) by (auto simp: contract_balance_of_def split: option.splits)
  have unl: "\<not> lk_locked l" using assms(2) l by (simp add: contract_is_account_locked_def lock_defs)
  have am: "amount_for (balances_of env a c) t = n" using assms(3) by (simp add: balances_of_amount)
  let ?m = "entry_write 0 t 0 (balances_of env a c)"
  let ?c1 = "set_balances env a ?m c"
  have "amounts_sub t n (balances_of env a c) = Some (?m, 0)" using am by (simp add: amounts_sub_Some)
  then have "contract_sub_balance env a [(t, n)] c = Inr ?c1"
    using l unl assms(4) by (simp add: contract_sub_balance_def unlocked_account_def lock_defs ok_or_def sub_balance_step_def)
  moreover have "balances_of env a ?c1 = ?m" by (simp add: balances_of_def)
  moreover have "amounts_sub t n ?m = None" using assms(4) by (subst amounts_sub_None) (simp_all add: amount_for_def)
  moreover have "map_of (c_accounts ?c1) a = Some (write_inner ((lk_value l)\<lparr>ac_token_balances := ?m\<rparr>) l)"
    using l by (simp add: set_balances_def put_inner_def Let_def)
  ultimately show "\<exists>c1. contract_sub_balance env a [(t, n)] c = Inr c1 \<and> contract_sub_balance env a [(t, n)] c1 = Inl BalanceOverflow"
    using unl assms(4) by (intro exI [of _ ?c1]) (simp add: contract_sub_balance_def unlocked_account_def lock_defs ok_or_def sub_balance_step_def)
qed

end
