(* ===== verification/SimulationSamples.thy ===== *)
theory SimulationSamples
  imports Samples SimulateIntents
begin

text \<open>The theorems on simulation, applied to the sample deployment.\<close>

definition sample_sim_env :: sim_env where
  "sample_sim_env = \<lparr> se_timestamp_max = 1000, se_json = (\<lambda>_. ''{}'') \<rparr>"

text \<open>The sample transfer raised to the whole balance, and the same once more under another nonce.\<close>

definition spend_all :: "byte \<Rightarrow> defuse_payload" where
  "spend_all b = sample_payload\<lparr>dp_nonce := replicate 32 b, dp_message := [Transfer \<lparr> ti_receiver_id = ''bob'',
     ti_tokens = [(usdc, 100)], ti_memo = None, ti_notification = None \<rparr>]\<rparr>"

definition double_spend_outcome :: "defuse_payload contract \<Rightarrow> bool" where
  "double_spend_outcome c \<longleftrightarrow>
     (case simulate_intents sample_sim_env sample_host [spend_all 1, spend_all 2] c of Inl _ \<Rightarrow> False | Inr r \<Rightarrow> into_result r = Inr ()) \<and>
     (case execute_intents sample_host [spend_all 1, spend_all 2] c of Inl e \<Rightarrow> e = BalanceOverflow | Inr _ \<Rightarrow> False) \<and>
     contract_balance_of c ''alice'' usdc = 100 \<and> \<not> contract_is_account_locked c ''alice''"

lemma double_spend_evaluated: "double_spend_outcome sample_state"
  by code_simp

lemma double_spend_simulated:
  obtains r where "simulate_intents sample_sim_env sample_host [spend_all 1, spend_all 2] sample_state = Inr r" "into_result r = Inr ()"
  using double_spend_evaluated by (auto simp: double_spend_outcome_def split: sum.splits)

theorem simulation_report_exact_witness:
  "\<exists>r. simulate_intents sample_sim_env sample_host [spend_all 1, spend_all 2] sample_state = Inr r \<and>
     length (sr_intents_executed (sim_report r)) = 2 \<and> sr_min_deadline (sim_report r) \<le> 200"
proof -
  obtain r where r: "simulate_intents sample_sim_env sample_host [spend_all 1, spend_all 2] sample_state = Inr r"
    by (rule double_spend_simulated)
  have x: "ev_extract (h_engine sample_host) (spend_all 1) = Inr (spend_all 1)" "dp_deadline (spend_all 1) = 200"
    by (simp_all add: sample_host_def sample_engine_def sample_payload_def spend_all_def)
  from simulation_report_exact [OF r] x show ?thesis
    by (intro exI [of _ r]) (auto simp: r dest: list_all2_lengthD)
qed

lemma sample_within: "is_ok (run_within sample_host [sample_payload] sample_state)"
  by code_simp

theorem simulation_follows_execution_witness:
  "\<exists>r. simulate_intents sample_sim_env sample_host [sample_payload] sample_state = Inr r \<and> into_result r = Inr () \<and>
     length (sr_intents_executed (sim_report r)) = 1"
proof -
  have "batch_keys (h_engine sample_host) [sample_payload] = {sample_key}"
    by (simp add: batch_keys_def sample_host_def sample_engine_def sample_payload_def)
  then have "keys_apart (h_codecs sample_host) (batch_keys (h_engine sample_host) [sample_payload])"
    by (simp add: keys_apart_def)
  from simulation_follows_execution [OF sample_execute sample_state_ok sample_payloads_ok(1) sample_types_ok this sample_within, of sample_sim_env]
  show ?thesis by auto
qed

text \<open>A whole batch that spends a balance twice: simulated without a violation, rejected by the contract.\<close>

theorem simulated_double_spend_witness:
  "(\<exists>c1. contract_sub_balance sample_host ''alice'' [(usdc, 100)] sample_state = Inr c1 \<and>
      contract_sub_balance sample_host ''alice'' [(usdc, 100)] c1 = Inl BalanceOverflow) \<and>
   (\<exists>r. simulate_intents sample_sim_env sample_host [spend_all 1, spend_all 2] sample_state = Inr r \<and> into_result r = Inr ()) \<and>
   execute_intents sample_host [spend_all 1, spend_all 2] sample_state = Inl BalanceOverflow"
proof -
  obtain r where r: "simulate_intents sample_sim_env sample_host [spend_all 1, spend_all 2] sample_state = Inr r" "into_result r = Inr ()"
    by (rule double_spend_simulated)
  have ex: "execute_intents sample_host [spend_all 1, spend_all 2] sample_state = Inl BalanceOverflow"
    using double_spend_evaluated unfolding double_spend_outcome_def by (cases "execute_intents sample_host [spend_all 1, spend_all 2] sample_state") simp_all
  have "contract_balance_of sample_state ''alice'' usdc = 100" "\<not> contract_is_account_locked sample_state ''alice''"
    using double_spend_evaluated unfolding double_spend_outcome_def by simp_all
  from simulated_double_spend [OF sample_state_ok this(2,1)] r ex show ?thesis by simp
qed

end
