(* ===== verification/Decimal.thy ===== *)
theory Decimal
  imports NearUtils NumUtils TokenId
begin

text \<open>
  The crate \<open>decimal\<close>: \<open>UD128\<close>, an unsigned decimal of \<open>u128\<close> digits with up to 38
  decimals that is kept in lowest terms (\<open>lib.rs\<close>), its order and the products and quotients of
  an amount with it (\<open>ops.rs\<close>), and its text form (\<open>str.rs\<close>). The lemmas show that every value
  is in normal form, so that the derived equality is equality of values, that the order is the
  order of the values, and that parsing the text of a decimal gives it back.
\<close>

subsection \<open>The type and its constructor\<close>

datatype ud128 = UD128 (decimals: nat) (ud_digits: nat)

definition MAX_DECIMALS :: nat where "MAX_DECIMALS = 38"

definition ud_min :: ud128 where "ud_min = UD128 MAX_DECIMALS 1"
definition ud_max :: ud128 where "ud_max = UD128 0 (u_max 128)"
definition ud_zero :: ud128 where "ud_zero = UD128 0 0"
definition ud_one :: ud128 where "ud_one = UD128 0 1"

text \<open>The loop of the macro \<open>strip!\<close>; the shifts it is used with are positive.\<close>

function strip :: "nat \<Rightarrow> nat \<times> nat \<Rightarrow> nat \<times> nat" where
  "strip shift (dec, dig) =
     (if 0 < shift \<and> shift \<le> dec \<and> dig mod 10 ^ shift = 0
      then strip shift (dec - shift, dig div 10 ^ shift)
      else (dec, dig))"
  by pat_completeness auto
termination by (relation "measure (\<lambda>(shift, dec, dig). dec)") auto

declare strip.simps [simp del]

definition ud_new :: "nat \<Rightarrow> nat \<Rightarrow> ud128 option" where
  "ud_new dec dig = (if dig = 0 then Some ud_zero
     else case strip 1 (strip 2 (strip 4 (strip 8 (strip 16 (dec, dig))))) of (dec', dig') \<Rightarrow>
       if dec' > MAX_DECIMALS then None else Some (UD128 dec' dig'))"

definition denominator :: "ud128 \<Rightarrow> nat" where
  "denominator u = 10 ^ decimals u"

definition ud_is_zero :: "ud128 \<Rightarrow> bool" where
  "ud_is_zero u \<longleftrightarrow> ud_digits u = 0"

definition ud_from_u128 :: "nat \<Rightarrow> ud128" where
  "ud_from_u128 n = UD128 0 n"

text \<open>Reading a stored decimal, after \<open>borsh\<close> has read the two numbers.\<close>

definition ud_deserialize :: "nat \<times> nat \<Rightarrow> ud128 option" where
  "ud_deserialize p = ud_new (fst p) (snd p)"

subsection \<open>Order, products and quotients\<close>

datatype ordering = Less | Equal | Greater

definition cmp_nat :: "nat \<Rightarrow> nat \<Rightarrow> ordering" where
  "cmp_nat a b = (if a < b then Less else if a = b then Equal else Greater)"

definition ud_cmp :: "ud128 \<Rightarrow> ud128 \<Rightarrow> ordering" where
  "ud_cmp a b = (case cmp_nat (decimals a) (decimals b) of
      Equal \<Rightarrow> cmp_nat (ud_digits a) (ud_digits b)
    | Less \<Rightarrow> (case checked_mul_u 128 (ud_digits a) (10 ^ (decimals b - decimals a)) of
        None \<Rightarrow> Greater | Some r \<Rightarrow> cmp_nat r (ud_digits b))
    | Greater \<Rightarrow> (case checked_mul_u 128 (ud_digits b) (10 ^ (decimals a - decimals b)) of
        None \<Rightarrow> Less | Some r \<Rightarrow> cmp_nat (ud_digits a) r))"

definition ud_checked_mul :: "wide \<Rightarrow> nat \<Rightarrow> ud128 \<Rightarrow> nat option" where
  "ud_checked_mul W x u = checked_mul_div_u128 W x (ud_digits u) (denominator u)"

definition ud_checked_mul_ceil :: "wide \<Rightarrow> nat \<Rightarrow> ud128 \<Rightarrow> nat option" where
  "ud_checked_mul_ceil W x u = checked_mul_div_ceil_u128 W x (ud_digits u) (denominator u)"

definition ud_checked_div :: "wide \<Rightarrow> nat \<Rightarrow> ud128 \<Rightarrow> nat option" where
  "ud_checked_div W x u = checked_mul_div_u128 W x (denominator u) (ud_digits u)"

definition ud_checked_div_ceil :: "wide \<Rightarrow> nat \<Rightarrow> ud128 \<Rightarrow> nat option" where
  "ud_checked_div_ceil W x u = checked_mul_div_ceil_u128 W x (denominator u) (ud_digits u)"

subsection \<open>Text\<close>

text \<open>Decimal text of Rust's integers: a number is printed without leading zeros, with a width it
  is padded on the left; parsing accepts one leading plus sign.\<close>

definition padded :: "nat \<Rightarrow> nat \<Rightarrow> string" where
  "padded width n = replicate (width - length (digits n)) CHR ''0'' @ digits n"

definition ud_to_string :: "ud128 \<Rightarrow> string" where
  "ud_to_string u =
     (let integer = ud_digits u div denominator u; fract = ud_digits u mod denominator u in
      digits integer @ (if fract \<noteq> 0 then ''.'' @ padded (decimals u) fract else []))"

datatype parse_int_error = Empty | InvalidDigit | PosOverflow

datatype parse_decimal_error = ParseIntError parse_int_error | InvalidFormat | DecimalOverflow

definition to_digit :: "char \<Rightarrow> nat option" where
  "to_digit c = (let n = of_char c in if 48 \<le> n \<and> n \<le> 57 then Some (n - 48) else None)"

fun parse_loop :: "nat \<Rightarrow> string \<Rightarrow> parse_int_error + nat" where
  "parse_loop r [] = Inr r"
| "parse_loop r (c # cs) =
     bind_r (ok_or (to_digit c) InvalidDigit) (\<lambda>x.
     bind_r (ok_or (checked_mul_u 128 r 10) PosOverflow) (\<lambda>m.
     bind_r (ok_or (checked_add_u 128 m x) PosOverflow) (\<lambda>r'. parse_loop r' cs)))"

definition parse_u128 :: "string \<Rightarrow> parse_int_error + nat" where
  "parse_u128 s =
     (if s = [] then Inl Empty
      else if s = ''+'' \<or> s = ''-'' then Inl InvalidDigit
      else parse_loop 0 (if hd s = CHR ''+'' then tl s else s))"

definition map_err :: "('e \<Rightarrow> 'f) \<Rightarrow> 'e + 'a \<Rightarrow> 'f + 'a" where
  "map_err f r = (case r of Inl e \<Rightarrow> Inl (f e) | Inr x \<Rightarrow> Inr x)"

definition trim_end_zeros :: "string \<Rightarrow> string" where
  "trim_end_zeros s = rev (dropWhile (\<lambda>c. c = CHR ''0'') (rev s))"

definition starts_with :: "char \<Rightarrow> string \<Rightarrow> bool" where
  "starts_with c s \<longleftrightarrow> s \<noteq> [] \<and> hd s = c"

definition parse_integer_part :: "string \<Rightarrow> string option \<Rightarrow> parse_decimal_error + nat" where
  "parse_integer_part integer fract =
     (if integer = [] then
        if (case fract of None \<Rightarrow> True | Some f \<Rightarrow> f = []) then Inl InvalidFormat else Inr 0
      else map_err ParseIntError (parse_u128 integer))"

definition parse_fract_part :: "nat \<Rightarrow> string option \<Rightarrow> parse_decimal_error + nat \<times> nat" where
  "parse_fract_part dig fract = (case map_option trim_end_zeros fract of
      None \<Rightarrow> Inr (0, dig)
    | Some f \<Rightarrow>
        if f = [] then Inr (0, dig)
        else if starts_with CHR ''+'' f then Inl InvalidFormat
        else if length f > MAX_DECIMALS then Inl DecimalOverflow
        else bind_r (map_err ParseIntError (parse_u128 f)) (\<lambda>fr.
          bind_r (ok_or (checked_mul_u 128 dig (10 ^ length f)) DecimalOverflow) (\<lambda>d.
          bind_r (ok_or (checked_add_u 128 d fr) DecimalOverflow) (\<lambda>d'. Inr (length f, d')))))"

definition ud_from_str :: "string \<Rightarrow> parse_decimal_error + ud128" where
  "ud_from_str s =
     (let (integer, fract) = (case split_once CHR ''.'' s of None \<Rightarrow> (s, None) | Some (i, f) \<Rightarrow> (i, Some f)) in
      if starts_with CHR ''+'' integer then Inl InvalidFormat
      else bind_r (parse_integer_part integer fract) (\<lambda>dig.
        bind_r (parse_fract_part dig fract) (\<lambda>(dec, dig'). ok_or (ud_new dec dig') DecimalOverflow)))"

subsection \<open>Normal form\<close>

definition ud_normal :: "nat \<Rightarrow> nat \<Rightarrow> bool" where
  "ud_normal dec dig \<longleftrightarrow> dec = 0 \<or> \<not> 10 dvd dig"

definition ud_ok :: "ud128 \<Rightarrow> bool" where
  "ud_ok u \<longleftrightarrow> decimals u \<le> MAX_DECIMALS \<and> ud_digits u \<le> u_max 128 \<and> ud_normal (decimals u) (ud_digits u)"

lemma ud_ok_constants: "ud_ok ud_min" "ud_ok ud_max" "ud_ok ud_zero" "ud_ok ud_one" "n \<le> u_max 128 \<Longrightarrow> ud_ok (ud_from_u128 n)"
  by (simp_all add: ud_ok_def ud_normal_def ud_min_def ud_max_def ud_zero_def ud_one_def ud_from_u128_def u_max_def MAX_DECIMALS_def)

lemma strip_value:
  "strip k (d, m) = (d', m') \<Longrightarrow> d' \<le> d \<and> m' \<le> m \<and> m = m' * 10 ^ (d - d') \<and> (0 < m \<longrightarrow> 0 < m')"
proof (induction k "(d, m)" arbitrary: d m rule: strip.induct)
  case (1 k d m)
  show ?case
  proof (cases "0 < k \<and> k \<le> d \<and> m mod 10 ^ k = 0")
    case True
    then have "strip k (d - k, m div 10 ^ k) = (d', m')" using 1(2) by (simp add: strip.simps)
    from 1(1) [OF True this] have IH: "d' \<le> d - k" "m' \<le> m div 10 ^ k" "m div 10 ^ k = m' * 10 ^ (d - k - d')"
      "0 < m div 10 ^ k \<longrightarrow> 0 < m'" by auto
    have m: "m = m div 10 ^ k * 10 ^ k" using True by (metis mod_0_imp_dvd dvd_div_mult_self)
    have "m = m' * 10 ^ (d - k - d' + k)" using m IH(3) by (metis mult.assoc power_add)
    moreover have "d - k - d' + k = d - d'" using IH(1) True by linarith
    moreover have "0 < m \<longrightarrow> 0 < m'" using IH(4) m by (metis mult_0 neq0_conv)
    moreover have "m' \<le> m" using IH(2) div_le_dividend le_trans by blast
    ultimately show ?thesis using IH(1) by simp
  next
    case False
    then have "(d, m) = (d', m')" using 1(2) by (subst (asm) strip.simps) (simp split: if_splits)
    then show ?thesis by simp
  qed
qed

lemma strip_one_normal: "strip 1 (d, m) = (d', m') \<Longrightarrow> ud_normal d' m'"
proof (induction "1::nat" "(d, m)" arbitrary: d m rule: strip.induct)
  case (1 d m)
  show ?case
  proof (cases "1 \<le> d \<and> m mod 10 = 0")
    case True
    then have "strip 1 (d - 1, m div 10) = (d', m')" using 1(2) by (simp add: strip.simps [of "Suc 0" d m])
    then show ?thesis using 1(1) True by simp
  next
    case False
    then have "d' = d \<and> m' = m" using 1(2) by (auto simp add: strip.simps [of "Suc 0" d m] split: if_splits)
    then show ?thesis using False by (auto simp: ud_normal_def dvd_eq_mod_eq_0)
  qed
qed

lemma normal_unique:
  assumes "ud_normal d m" and "ud_normal d' m'" and "m * 10 ^ d' = m' * 10 ^ d"
  shows "d = d' \<and> m = m'"
proof -
  have aux: "d = d' \<and> m = m'"
    if "ud_normal d' m'" and eq: "m * 10 ^ d' = m' * 10 ^ d" and "d \<le> d'" for d m d' and m' :: nat
  proof -
    have "m * 10 ^ (d' - d) * 10 ^ d = m' * 10 ^ d"
      using eq \<open>d \<le> d'\<close> by (simp add: mult.assoc flip: power_add)
    then have m': "m' = m * 10 ^ (d' - d)" by simp
    have "d' \<le> d"
    proof (rule ccontr)
      assume less: "\<not> d' \<le> d"
      then obtain k where "d' - d = Suc k" by (cases "d' - d") auto
      then have "10 dvd m'" using m' by simp
      then show False using that(1) less by (simp add: ud_normal_def)
    qed
    then show ?thesis using m' \<open>d \<le> d'\<close> by simp
  qed
  show ?thesis
  proof (cases "d \<le> d'")
    case True
    then show ?thesis using aux [OF assms(2,3)] by simp
  next
    case False
    then show ?thesis using aux [OF assms(1) assms(3) [symmetric]] by simp
  qed
qed

lemma scaled_trans:
  assumes "(a::nat) \<le> b \<and> (x::nat) \<le> y \<and> y = x * 10 ^ (b - a) \<and> (0 < y \<longrightarrow> 0 < x)"
    and "b \<le> c \<and> y \<le> z \<and> z = y * 10 ^ (c - b) \<and> (0 < z \<longrightarrow> 0 < y)"
  shows "a \<le> c \<and> x \<le> z \<and> z = x * 10 ^ (c - a) \<and> (0 < z \<longrightarrow> 0 < x)"
proof -
  have "z = x * 10 ^ (b - a) * 10 ^ (c - b)" using assms by (elim conjE) (rule trans, assumption, rule arg_cong2 [where f = times], simp_all)
  then have "z = x * 10 ^ ((b - a) + (c - b))" by (simp only: power_add mult.assoc)
  moreover have "(b - a) + (c - b) = c - a" using assms by linarith
  ultimately have "z = x * 10 ^ (c - a)" by (simp only:)
  then show ?thesis using assms by (meson le_trans)
qed

lemma strips_normal:
  assumes "strip 1 (strip 2 (strip 4 (strip 8 (strip 16 (d, m))))) = (d', m')"
  shows "d' \<le> d \<and> m' \<le> m \<and> m = m' * 10 ^ (d - d') \<and> (0 < m \<longrightarrow> 0 < m') \<and> ud_normal d' m'"
proof -
  obtain d1 m1 where 1: "strip 16 (d, m) = (d1, m1)" by fastforce
  obtain d2 m2 where 2: "strip 8 (d1, m1) = (d2, m2)" by fastforce
  obtain d3 m3 where 3: "strip 4 (d2, m2) = (d3, m3)" by fastforce
  obtain d4 m4 where 4: "strip 2 (d3, m3) = (d4, m4)" by fastforce
  have 5: "strip 1 (d4, m4) = (d', m')" using assms by (simp add: 1 2 3 4)
  show ?thesis
    using scaled_trans [OF strip_value [OF 5] scaled_trans [OF strip_value [OF 4]
        scaled_trans [OF strip_value [OF 3] scaled_trans [OF strip_value [OF 2] strip_value [OF 1]]]]]
      strip_one_normal [OF 5] by blast
qed

lemma ud_new_iff:
  assumes "dig \<le> u_max 128"
  shows "ud_new dec dig = Some u \<longleftrightarrow> ud_ok u \<and> ud_digits u * 10 ^ dec = dig * 10 ^ decimals u"
proof (cases "dig = 0")
  case True
  have "u = ud_zero" if "ud_ok u" and "ud_digits u = 0"
    using that by (cases u) (simp add: ud_zero_def ud_ok_def ud_normal_def)
  then show ?thesis using True ud_ok_constants(3) by (auto simp: ud_new_def ud_zero_def)
next
  case False
  obtain d m where s: "strip 1 (strip 2 (strip 4 (strip 8 (strip 16 (dec, dig))))) = (d, m)" by fastforce
  note n = strips_normal [OF s]
  have val: "m * 10 ^ dec = dig * 10 ^ d"
  proof -
    have "m * 10 ^ dec = m * 10 ^ (dec - d) * 10 ^ d" using n by (simp add: mult.assoc flip: power_add)
    then show ?thesis using n by simp
  qed
  have new: "ud_new dec dig = (if d > MAX_DECIMALS then None else Some (UD128 d m))"
    using False s by (simp add: ud_new_def)
  have only: "u = UD128 d m" if ok: "ud_ok u" and eq: "ud_digits u * 10 ^ dec = dig * 10 ^ decimals u"
  proof -
    have "ud_digits u * 10 ^ d * 10 ^ dec = dig * 10 ^ d * 10 ^ decimals u" using eq by (simp add: ac_simps)
    also have "\<dots> = m * 10 ^ decimals u * 10 ^ dec" using val by (metis mult.assoc mult.commute)
    finally have "ud_digits u * 10 ^ d = m * 10 ^ decimals u" by simp
    then have "decimals u = d \<and> ud_digits u = m" using ok n by (intro normal_unique) (auto simp: ud_ok_def)
    then show ?thesis by (cases u) simp
  qed
  have "ud_ok (UD128 d m)" if "d \<le> MAX_DECIMALS" using n assms that by (simp add: ud_ok_def)
  then show ?thesis using new only val by (auto simp: ud_ok_def)
qed

text \<open>C37: The constructor of a decimal succeeds exactly when the quotient of the given digits by
  the given power of ten is a decimal of at most 38 decimals in lowest terms, and returns that
  decimal, which is unique: whatever digits and decimals a caller gives, the result is in normal
  form, and equality of two decimals as the pair of their fields is equality of their values.\<close>

theorem ud_new_correct:
  assumes "dig \<le> u_max 128"
  shows "ud_new dec dig = Some u \<longleftrightarrow> ud_ok u \<and> ud_digits u * 10 ^ dec = dig * 10 ^ decimals u"
  using assms by (rule ud_new_iff)

theorem ud_new_correct_witness:
  "ud_new 3 1500 = Some (UD128 1 15) \<and> ud_new 39 1 = None"
proof -
  have "ud_new 3 1500 = Some (UD128 1 15)"
    by (subst ud_new_correct) (simp_all add: ud_ok_def ud_normal_def u_max_def MAX_DECIMALS_def)
  moreover have "ud_new 39 1 = None"
    by (simp add: ud_new_def strip.simps MAX_DECIMALS_def)
  ultimately show ?thesis ..
qed

subsection \<open>Order\<close>

lemma cmp_nat_mult: "0 < k \<Longrightarrow> cmp_nat (a * k) (b * k) = cmp_nat a b"
  by (simp add: cmp_nat_def)

lemma ud_cmp_scaled:
  assumes "ud_digits a \<le> u_max 128" and "ud_digits b \<le> u_max 128"
  shows "ud_cmp a b = cmp_nat (ud_digits a * 10 ^ decimals b) (ud_digits b * 10 ^ decimals a)"
proof -
  consider (eq) "decimals a = decimals b" | (less) "decimals a < decimals b" | (gr) "decimals b < decimals a"
    by linarith
  then show ?thesis
  proof cases
    case eq
    then show ?thesis by (simp add: ud_cmp_def cmp_nat_def)
  next
    case less
    define k :: nat where "k = 10 ^ (decimals b - decimals a)"
    have b: "(10::nat) ^ decimals b = k * 10 ^ decimals a" using less by (simp add: k_def flip: power_add)
    have "ud_cmp a b = cmp_nat (ud_digits a * k) (ud_digits b)"
      using less assms by (simp add: ud_cmp_def cmp_nat_def [of "decimals a"] checked_mul_u_def fit_u_def flip: k_def of_nat_mult)
        (auto simp: cmp_nat_def)
    then show ?thesis unfolding b by (simp add: cmp_nat_mult flip: mult.assoc)
  next
    case gr
    define k :: nat where "k = 10 ^ (decimals a - decimals b)"
    have a: "(10::nat) ^ decimals a = k * 10 ^ decimals b" using gr by (simp add: k_def flip: power_add)
    have "ud_cmp a b = cmp_nat (ud_digits a) (ud_digits b * k)"
      using gr assms by (simp add: ud_cmp_def cmp_nat_def [of "decimals a"] checked_mul_u_def fit_u_def flip: k_def of_nat_mult)
        (auto simp: cmp_nat_def)
    then show ?thesis unfolding a by (simp add: cmp_nat_mult flip: mult.assoc)
  qed
qed

text \<open>Comparing two decimals compares their values exactly, also where scaling one of them
  would exceed \<open>u128\<close>, and they compare equal exactly when they are equal.\<close>

theorem ud_cmp_exact:
  assumes "ud_ok a" and "ud_ok b"
  shows "(ud_cmp a b = Less \<longleftrightarrow> ud_digits a * denominator b < ud_digits b * denominator a) \<and>
    (ud_cmp a b = Equal \<longleftrightarrow> a = b) \<and>
    (ud_cmp a b = Greater \<longleftrightarrow> ud_cmp b a = Less)"
proof -
  have "a = b" if "ud_digits a * 10 ^ decimals b = ud_digits b * 10 ^ decimals a"
    using normal_unique [OF _ _ that] assms by (cases a; cases b) (auto simp: ud_ok_def)
  then show ?thesis
    using assms by (auto simp: ud_cmp_scaled ud_ok_def cmp_nat_def denominator_def)
qed

theorem ud_cmp_exact_witness:
  "ud_cmp (UD128 1 15) (UD128 0 2) = Less \<and> ud_cmp (UD128 0 (2 ^ 128 - 1)) (UD128 38 1) = Greater"
  using ud_cmp_exact [of "UD128 1 15" "UD128 0 2"] ud_cmp_exact [of "UD128 0 (2 ^ 128 - 1)" "UD128 38 1"]
    ud_cmp_exact [of "UD128 38 1" "UD128 0 (2 ^ 128 - 1)"]
  by (simp add: ud_ok_def ud_normal_def u_max_def MAX_DECIMALS_def denominator_def)

subsection \<open>Parsing what was printed\<close>

abbreviation is_digit_char :: "char \<Rightarrow> bool" where
  "is_digit_char c \<equiv> 48 \<le> (of_char c :: nat) \<and> (of_char c :: nat) \<le> 57"

lemma to_digit_char [simp]: "n < 10 \<Longrightarrow> to_digit (char_of (48 + n)) = Some n"
  by (simp add: to_digit_def)

lemma digits_chars: "c \<in> set (digits n) \<Longrightarrow> is_digit_char c"
proof (induction n rule: digits.induct)
  case (1 n)
  then show ?case by (cases "n < 10") (auto simp: digits.simps [of n])
qed

lemma digits_not_Nil [simp]: "digits n \<noteq> []"
  by (simp add: digits.simps [of n])

lemma last_digits: "last (digits n) = char_of (48 + n mod 10)"
  by (simp add: digits.simps [of n])

lemma parse_loop_append: "parse_loop r (s @ t) = bind_r (parse_loop r s) (\<lambda>r'. parse_loop r' t)"
  by (induction s arbitrary: r) (simp_all add: bind_r_assoc)

lemma parse_loop_digit:
  "x < 10 \<Longrightarrow> r * 10 + x \<le> u_max 128 \<Longrightarrow> parse_loop r [char_of (48 + x)] = Inr (r * 10 + x)"
  by (simp add: checked_mul_u_def checked_add_u_def fit_u_def flip: of_nat_mult)

lemma parse_loop_digits: "n \<le> u_max 128 \<Longrightarrow> parse_loop 0 (digits n) = Inr n"
proof (induction n rule: digits.induct)
  case (1 n)
  have le: "n div 10 \<le> u_max 128" using 1(2) by (meson div_le_dividend le_trans)
  show ?case
  proof (cases "n < 10")
    case True
    then show ?thesis using parse_loop_digit [of n 0] 1(2) by (simp add: digits.simps [of n])
  next
    case False
    have "parse_loop (n div 10) [char_of (48 + n mod 10)] = Inr (n div 10 * 10 + n mod 10)"
      by (rule parse_loop_digit) (use 1(2) in simp_all)
    then show ?thesis
      using 1(1) [OF False le] False by (simp add: digits.simps [of n] parse_loop_append del: parse_loop.simps)
  qed
qed

lemma parse_loop_zeros: "parse_loop 0 (replicate k CHR ''0'' @ s) = parse_loop 0 s"
proof (induction k)
  case (Suc k)
  have "parse_loop 0 (CHR ''0'' # t) = parse_loop 0 t" for t
    by (simp add: to_digit_def checked_mul_u_def checked_add_u_def fit_u_def)
  then show ?case using Suc by simp
qed simp

lemma parse_u128_no_sign: "s \<noteq> [] \<Longrightarrow> is_digit_char (hd s) \<Longrightarrow> parse_u128 s = parse_loop 0 s"
  by (cases s) (auto simp: parse_u128_def)

lemma padded_chars: "c \<in> set (padded w n) \<Longrightarrow> is_digit_char c"
  by (auto simp: padded_def dest: digits_chars)

lemma parse_u128_padded: "n \<le> u_max 128 \<Longrightarrow> parse_u128 (padded w n) = Inr n"
proof -
  assume n: "n \<le> u_max 128"
  have "padded w n \<noteq> []" by (simp add: padded_def)
  then have "parse_u128 (padded w n) = parse_loop 0 (padded w n)"
    using padded_chars [OF hd_in_set] by (intro parse_u128_no_sign) blast+
  then show ?thesis using n by (simp add: padded_def parse_loop_zeros parse_loop_digits)
qed

lemma parse_u128_digits: "n \<le> u_max 128 \<Longrightarrow> parse_u128 (digits n) = Inr n"
  using parse_u128_padded [of n 0] by (simp add: padded_def)

lemma length_padded: "n < 10 ^ w \<Longrightarrow> 0 < w \<Longrightarrow> length (padded w n) = w"
  using length_digits [of n "w - 1"] by (simp add: padded_def)

lemma trim_padded: "n mod 10 \<noteq> 0 \<Longrightarrow> trim_end_zeros (padded w n) = padded w n"
proof -
  assume n: "n mod 10 \<noteq> 0"
  have "to_digit (char_of (48 + n mod 10)) = Some (n mod 10)" and "to_digit CHR ''0'' = Some 0"
    by (simp_all add: to_digit_def)
  then have "char_of (48 + n mod 10) \<noteq> CHR ''0''" using n by (metis option.inject)
  then have "last (padded w n) \<noteq> CHR ''0''" by (simp add: padded_def last_digits)
  moreover have "padded w n \<noteq> []" by (simp add: padded_def)
  ultimately show ?thesis
    by (cases "padded w n" rule: rev_cases) (simp_all add: trim_end_zeros_def)
qed

lemma not_starts_plus: "(\<And>c. c \<in> set s \<Longrightarrow> is_digit_char c) \<Longrightarrow> \<not> starts_with CHR ''+'' s"
proof
  assume chars: "\<And>c. c \<in> set s \<Longrightarrow> is_digit_char c" and "starts_with CHR ''+'' s"
  then have "CHR ''+'' \<in> set s" by (metis hd_in_set starts_with_def)
  from chars [OF this] show False by simp
qed

lemma digits_no_dot: "CHR ''.'' \<notin> set (digits n)"
  using digits_chars [of "CHR ''.''" n] by auto

text \<open>Parsing the text of a decimal in normal form gives the decimal back.\<close>

theorem ud_round_trip:
  assumes "ud_ok u"
  shows "ud_from_str (ud_to_string u) = Inr u"
proof -
  obtain d m where u: "u = UD128 d m" by (cases u)
  have d: "d \<le> MAX_DECIMALS" and m: "m \<le> u_max 128" and norm: "d = 0 \<or> m mod 10 \<noteq> 0"
    using assms by (auto simp: u ud_ok_def ud_normal_def dvd_eq_mod_eq_0)
  have new: "ud_new d m = Some u" using assms ud_new_iff [OF m, of d u] by (simp add: u)
  have i: "m div 10 ^ d \<le> u_max 128" using m by (meson div_le_dividend le_trans)
  have plus: "\<not> starts_with CHR ''+'' (digits (m div 10 ^ d))" by (rule not_starts_plus) (rule digits_chars)
  show ?thesis
  proof (cases "d = 0")
    case True
    then show ?thesis
      using plus new i by (simp add: u ud_to_string_def denominator_def ud_from_str_def split_once_None digits_no_dot
          parse_integer_part_def parse_fract_part_def map_err_def parse_u128_digits)
  next
    case False
    let ?f = "m mod 10 ^ d"
    have f10: "?f mod 10 = m mod 10" using False by (simp add: mod_mod_cancel)
    then have f0: "?f \<noteq> 0" using norm False by (metis mod_0)
    have f: "?f \<le> u_max 128" using m by (meson mod_less_eq_dividend le_trans)
    have len: "length (padded d ?f) = d" using False by (intro length_padded) simp_all
    have trim: "trim_end_zeros (padded d ?f) = padded d ?f" using f10 norm False by (intro trim_padded) simp
    have plus': "\<not> starts_with CHR ''+'' (padded d ?f)" by (rule not_starts_plus) (rule padded_chars)
    have mul: "checked_mul_u 128 (m div 10 ^ d) (10 ^ d) = Some (m div 10 ^ d * 10 ^ d)"
      using m le_trans [OF div_times_less_eq_dividend [of m "10 ^ d"] m] by (simp add: checked_mul_u_def)
    have add: "checked_add_u 128 (m div 10 ^ d * 10 ^ d) ?f = Some m"
      using m by (simp only: checked_add_u_Some div_mult_mod_eq)
    have "padded d ?f \<noteq> []" by (simp add: padded_def)
    then have "parse_fract_part (m div 10 ^ d) (Some (padded d ?f)) = Inr (d, m)"
      using d by (simp add: parse_fract_part_def trim plus' len parse_u128_padded [OF f] map_err_def mul add)
    moreover have "split_once CHR ''.'' (ud_to_string u) = Some (digits (m div 10 ^ d), padded d ?f)"
      using f0 by (simp add: u ud_to_string_def denominator_def Let_def split_once_append digits_no_dot)
    ultimately show ?thesis
      using plus new by (simp add: ud_from_str_def parse_integer_part_def parse_u128_digits [OF i] map_err_def)
  qed
qed

theorem ud_round_trip_witness: "ud_from_str (ud_to_string (UD128 4 50123)) = Inr (UD128 4 50123)"
  by (rule ud_round_trip) (simp add: ud_ok_def ud_normal_def u_max_def MAX_DECIMALS_def)

end
