(* ===== verification/Escrow.thy ===== *)
theory Escrow
  imports Decimal Fees
begin

text \<open>
  The contract \<open>escrow-swap\<close>: a maker locks an amount of one token and sells it for another at a
  price, takers fill the order in full or in part, and whatever a failed transfer returns is kept
  for the maker until it is claimed. This theory has the data of the contract and every method
  (\<open>state.rs\<close>, \<open>action.rs\<close>, \<open>event.rs\<close>, \<open>error.rs\<close> and the files of \<open>contract/\<close>).

  A method returns the new state of the contract with its result; an error or a panic is \<open>Inl\<close>,
  which leaves the state as it was. The state carries the events emitted and the promises that
  are scheduled without being returned. The clock, the caller, the results of promises, the hash
  of the parameters and the decoding of JSON texts are fields of \<open>escrow_host\<close>.
\<close>

subsection \<open>Errors, parameters and state\<close>

datatype (plugins only: code size) escrow_error =
    EBorsh | CleanupInProgress | Closed | EDeadlineExpired | ExcessiveFees | ExcessiveGas | IntegerOverflow
  | InsufficientAmount | InvalidData | EJSON | PartialFillsNotAllowed | PriceTooLow | SameTokens | Unauthorized
  | WrongToken | EPanic string

type_synonym 'a eresult = "escrow_error + 'a"

record override_send =
  os_receiver_id :: "account_id option"
  os_memo :: "string option"
  os_msg :: "string option"
  os_min_gas :: "nat option"

record protocol_fees =
  pf_fee :: pips
  pf_surplus :: pips
  pf_collector :: account_id

text \<open>The set of takers and the map of fees are listed in the order of their keys.\<close>

record params =
  maker :: account_id
  src_token :: token_id
  dst_token :: token_id
  price :: ud128
  p_deadline :: int
  partial_fills_allowed :: bool
  refund_src_to :: override_send
  receive_dst_to :: override_send
  taker_whitelist :: "account_id list"
  p_protocol_fees :: "protocol_fees option"
  integrator_fees :: "(account_id \<times> pips) list"
  auth_caller :: "account_id option"
  p_salt :: "nat list"

record escrow_state =
  maker_src_remaining :: nat
  maker_dst_lost :: nat
  s_deadline :: int
  closed :: bool
  in_flight :: nat

record storage =
  params_hash :: "nat list"
  st_state :: escrow_state

datatype close_reason = DeadlineReached | ByMaker | BySingleTaker

record fill_action =
  fa_price :: ud128
  fa_deadline :: int
  fa_receive_src_to :: override_send

datatype transfer_action = Fund | Fill fill_action

record transfer_message =
  tm_params :: params
  tm_action :: transfer_action

datatype auth_action = AuthClose

record auth_message =
  am_params :: params
  am_action :: auth_action

subsection \<open>Events and promises\<close>

record protocol_fees_collected =
  pc_fee :: nat
  pc_surplus :: nat
  pc_collector :: account_id

record maker_sent =
  ms_src :: nat
  ms_dst :: nat

record fill_event =
  fe_maker :: account_id
  fe_taker :: account_id
  fe_src_token :: token_id
  fe_dst_token :: token_id
  fe_taker_price :: ud128
  fe_maker_price :: ud128
  fe_taker_dst_in :: nat
  fe_taker_dst_used :: nat
  fe_taker_src_out :: nat
  fe_maker_dst_out :: nat
  fe_maker_src_remaining :: nat
  fe_taker_receive_src_to :: "account_id option"
  fe_maker_receive_dst_to :: "account_id option"
  fe_protocol_dst_fees :: "protocol_fees_collected option"
  fe_integrator_dst_fees :: "(account_id \<times> nat) list"

datatype (plugins only: code size) escrow_event =
    EvFunded params nat nat
  | EvFill fill_event
  | EvClosed close_reason
  | EvMakerRefunded maker_sent
  | EvMakerLost maker_sent
  | EvCleanup

record sent =
  sn_token_type :: token_id_type
  sn_amount :: nat
  sn_is_call :: bool

text \<open>A call of a token contract: its receiver, the amount, and the message of a
  \<open>_transfer_call\<close>; the token id is that of a multi-token.\<close>

record token_send =
  ts_contract :: account_id
  ts_token_id :: "string option"
  ts_receiver :: account_id
  ts_amount :: nat
  ts_memo :: "string option"
  ts_msg :: "string option"
  ts_deposit :: nat
  ts_gas :: nat
  ts_unused_gas :: nat

datatype (plugins only: code size) escrow_promise =
    PSend token_send
  | PAnd escrow_promise escrow_promise
  | PResolve "sent option" "sent option" nat
  | PResolveReturn "sent option" "sent option" nat string nat
  | PThen escrow_promise escrow_promise
  | PDeleteAccount account_id account_id

datatype (plugins only: code size) 'v outcome = OValue 'v | OPromise escrow_promise

record escrow =
  es_storage :: "storage option"
  es_events :: "escrow_event list"
  es_detached :: "escrow_promise list"

record escrow_host =
  eh_current :: account_id
  eh_predecessor :: account_id
  eh_signer :: account_id
  eh_now :: int
  eh_hash :: "params \<Rightarrow> nat list"
  eh_wide :: wide
  eh_parse_transfer :: "string \<Rightarrow> transfer_message option"
  eh_parse_auth :: "string \<Rightarrow> auth_message option"
  eh_result :: "nat \<Rightarrow> nat list option"
  eh_json_u128 :: "nat list \<Rightarrow> nat option"
  eh_json_u128s1 :: "nat list \<Rightarrow> nat option"

definition emit :: "escrow_event \<Rightarrow> escrow \<Rightarrow> escrow" where
  "emit ev c = c\<lparr>es_events := es_events c @ [ev]\<rparr>"

subsection \<open>Validation of the parameters\<close>

definition MAX_FEE :: pips where
  "MAX_FEE = Pips 250000"

definition total_fee :: "params \<Rightarrow> pips option" where
  "total_fee p = try_fold pips_checked_add
     (case p_protocol_fees p of None \<Rightarrow> pips_zero | Some pf \<Rightarrow> pf_fee pf) (map snd (integrator_fees p))"

definition validate_tokens :: "params \<Rightarrow> unit eresult" where
  "validate_tokens p = require_r (src_token p \<noteq> dst_token p) SameTokens"

definition validate_price :: "params \<Rightarrow> unit eresult" where
  "validate_price p = require_r (\<not> ud_is_zero (price p)) PriceTooLow"

definition validate_fees :: "params \<Rightarrow> unit eresult" where
  "validate_fees p = require_r
     (case total_fee p of None \<Rightarrow> False | Some t \<Rightarrow> as_pips t \<le> as_pips MAX_FEE) ExcessiveFees"

definition validate :: "params \<Rightarrow> unit eresult" where
  "validate p = bind_r (validate_tokens p) (\<lambda>_. bind_r (validate_price p) (\<lambda>_. validate_fees p))"

definition storage_new :: "escrow_host \<Rightarrow> params \<Rightarrow> storage eresult" where
  "storage_new env p = bind_r (validate p) (\<lambda>_. Inr \<lparr> params_hash = eh_hash env p,
     st_state = \<lparr> maker_src_remaining = 0, maker_dst_lost = 0, s_deadline = p_deadline p, closed = False, in_flight = 0 \<rparr> \<rparr>)"

definition escrow_init :: "escrow_host \<Rightarrow> params \<Rightarrow> escrow eresult" where
  "escrow_init env p = bind_r (storage_new env p) (\<lambda>s.
     Inr \<lparr> es_storage = Some s, es_events = [], es_detached = [] \<rparr>)"

definition init_state :: "escrow_host \<Rightarrow> (storage option \<Rightarrow> nat list option) \<Rightarrow> params \<Rightarrow> (nat list \<times> nat list) list eresult" where
  "init_state env to_vec p = bind_r (escrow_init env p) (\<lambda>c.
     bind_r (ok_or (to_vec (es_storage c)) EBorsh) (\<lambda>bs. Inr [([], bs)]))"

definition try_as_alive :: "escrow \<Rightarrow> storage eresult" where
  "try_as_alive c = ok_or (es_storage c) CleanupInProgress"

definition verify :: "escrow_host \<Rightarrow> params \<Rightarrow> storage \<Rightarrow> escrow_state eresult" where
  "verify env p s = bind_r (require_r (params_hash s = eh_hash env p) InvalidData) (\<lambda>_. Inr (st_state s))"

definition es_view :: "escrow \<Rightarrow> storage eresult" where
  "es_view = try_as_alive"

text \<open>Writing the state behind the storage.\<close>

definition put_state :: "escrow_state \<Rightarrow> escrow \<Rightarrow> escrow" where
  "put_state s c = c\<lparr>es_storage := map_option (\<lambda>st. st\<lparr>st_state := s\<rparr>) (es_storage c)\<rparr>"

definition alive_state :: "escrow_host \<Rightarrow> params \<Rightarrow> escrow \<Rightarrow> escrow_state eresult" where
  "alive_state env p c = bind_r (try_as_alive c) (verify env p)"

end
