(* ===== verification/EscrowMethods.thy ===== *)
theory EscrowMethods
  imports Escrow
begin

text \<open>
  The methods of the contract \<open>escrow-swap\<close>: sending tokens and reading the results of transfers
  (\<open>contract/tokens\<close>), funding and filling the order, closing it, returning what is left to
  the maker, resolving transfers, and the deletion of the account when nothing is left
  (\<open>cleanup.rs\<close>).
\<close>

text \<open>A method of \<open>State\<close> works on the state and the events emitted so far.\<close>

type_synonym es_mut = "escrow_state \<times> escrow_event list"

subsection \<open>Sending tokens\<close>

definition from_tgas :: "nat \<Rightarrow> nat" where "from_tgas n = n * 10 ^ 12"
definition from_ggas :: "nat \<Rightarrow> nat" where "from_ggas n = n * 10 ^ 9"

definition FT_TRANSFER_GAS_MIN :: nat where "FT_TRANSFER_GAS_MIN = from_tgas 15"
definition FT_TRANSFER_GAS_DEFAULT :: nat where "FT_TRANSFER_GAS_DEFAULT = from_tgas 15"
definition FT_TRANSFER_CALL_GAS_MIN :: nat where "FT_TRANSFER_CALL_GAS_MIN = from_tgas 30"
definition FT_TRANSFER_CALL_GAS_DEFAULT :: nat where "FT_TRANSFER_CALL_GAS_DEFAULT = from_tgas 50"
definition MT_TRANSFER_GAS_MIN :: nat where "MT_TRANSFER_GAS_MIN = from_tgas 15"
definition MT_TRANSFER_GAS_DEFAULT :: nat where "MT_TRANSFER_GAS_DEFAULT = from_tgas 15"
definition MT_TRANSFER_CALL_GAS_MIN :: nat where "MT_TRANSFER_CALL_GAS_MIN = from_tgas 30"
definition MT_TRANSFER_CALL_GAS_DEFAULT :: nat where "MT_TRANSFER_CALL_GAS_DEFAULT = from_tgas 50"
definition ESCROW_RESOLVE_TRANSFERS_GAS :: nat where "ESCROW_RESOLVE_TRANSFERS_GAS = from_tgas 10"
definition RETURN_VALUE_GAS :: nat where "RETURN_VALUE_GAS = from_ggas 500"

definition send_gas :: "nat option \<Rightarrow> nat \<times> nat \<Rightarrow> nat \<times> nat \<Rightarrow> 'm option \<Rightarrow> nat" where
  "send_gas min_gas call plain msg =
     (let (mn, dflt) = (if msg \<noteq> None then call else plain) in
      max (case min_gas of None \<Rightarrow> dflt | Some g \<Rightarrow> g) mn)"

definition nep141_send ::
  "account_id \<Rightarrow> account_id \<Rightarrow> nat \<Rightarrow> string option \<Rightarrow> string option \<Rightarrow> nat option \<Rightarrow> bool \<Rightarrow> escrow_promise" where
  "nep141_send contract_id receiver amount memo msg min_gas unused_gas = PSend
     \<lparr> ts_contract = contract_id, ts_token_id = None, ts_receiver = receiver, ts_amount = amount, ts_memo = memo,
       ts_msg = msg, ts_deposit = 1,
       ts_gas = send_gas min_gas (FT_TRANSFER_CALL_GAS_MIN, FT_TRANSFER_CALL_GAS_DEFAULT)
         (FT_TRANSFER_GAS_MIN, FT_TRANSFER_GAS_DEFAULT) msg,
       ts_unused_gas = of_bool unused_gas \<rparr>"

definition nep245_send ::
  "account_id \<Rightarrow> string \<Rightarrow> account_id \<Rightarrow> nat \<Rightarrow> string option \<Rightarrow> string option \<Rightarrow> nat option \<Rightarrow> bool \<Rightarrow> escrow_promise" where
  "nep245_send contract_id mt_token_id receiver amount memo msg min_gas unused_gas = PSend
     \<lparr> ts_contract = contract_id, ts_token_id = Some mt_token_id, ts_receiver = receiver, ts_amount = amount, ts_memo = memo,
       ts_msg = msg, ts_deposit = 1,
       ts_gas = send_gas min_gas (MT_TRANSFER_CALL_GAS_MIN, MT_TRANSFER_CALL_GAS_DEFAULT)
         (MT_TRANSFER_GAS_MIN, MT_TRANSFER_GAS_DEFAULT) msg,
       ts_unused_gas = of_bool unused_gas \<rparr>"

definition send_token ::
  "token_id \<Rightarrow> account_id \<Rightarrow> nat \<Rightarrow> string option \<Rightarrow> string option \<Rightarrow> nat option \<Rightarrow> bool \<Rightarrow> escrow_promise eresult" where
  "send_token t receiver amount memo msg min_gas unused_gas = (case t of
      Nep141 c \<Rightarrow> Inr (nep141_send c receiver amount memo msg min_gas unused_gas)
    | Nep245 c i \<Rightarrow> Inr (nep245_send c i receiver amount memo msg min_gas unused_gas)
    | _ \<Rightarrow> Inl (EPanic ''unsupported token type''))"

definition send_for_resolve ::
  "token_id \<Rightarrow> account_id \<Rightarrow> nat \<Rightarrow> override_send \<Rightarrow> bool \<Rightarrow> (sent \<times> escrow_promise) eresult" where
  "send_for_resolve t receiver amount os unused_gas =
     bind_r (send_token t receiver amount (os_memo os) (os_msg os) (os_min_gas os) unused_gas) (\<lambda>p.
       Inr (\<lparr> sn_token_type = token_type t, sn_amount = amount, sn_is_call = (os_msg os \<noteq> None) \<rparr>, p))"

definition refund_value :: "sent \<Rightarrow> nat \<Rightarrow> string eresult" where
  "refund_value s refund = (case sn_token_type s of
      TNep141 \<Rightarrow> Inr (quoted refund)
    | TNep245 \<Rightarrow> Inr (json_compact [refund])
    | _ \<Rightarrow> Inl (EPanic ''unsupported token type''))"

subsection \<open>Results of transfers\<close>

text \<open>The result of a promise, rejected when it is longer than the bound.\<close>

definition result_checked :: "escrow_host \<Rightarrow> nat \<Rightarrow> nat \<Rightarrow> nat list option" where
  "result_checked env idx max_len = (case eh_result env idx of
      None \<Rightarrow> None | Some bs \<Rightarrow> if length bs \<le> max_len then Some bs else None)"

definition call_used :: "escrow_host \<Rightarrow> nat \<Rightarrow> json_shape \<Rightarrow> (nat list \<Rightarrow> nat option) \<Rightarrow> nat \<Rightarrow> nat" where
  "call_used env idx shape decode amount = (case result_checked env idx (max_json_length_root shape) of
      None \<Rightarrow> amount
    | Some bs \<Rightarrow> (case decode bs of None \<Rightarrow> 0 | Some used \<Rightarrow> used))"

definition resolve_used :: "escrow_host \<Rightarrow> sent \<Rightarrow> nat \<Rightarrow> nat eresult" where
  "resolve_used env s idx =
     (if sn_is_call s then
        (case sn_token_type s of
          TNep141 \<Rightarrow> Inr (min (call_used env idx JU128 (eh_json_u128 env) (sn_amount s)) (sn_amount s))
        | TNep245 \<Rightarrow> Inr (min (call_used env idx (JVec 1 JU128) (eh_json_u128s1 env) (sn_amount s)) (sn_amount s))
        | _ \<Rightarrow> Inl (EPanic ''unsupported token type''))
      else if result_checked env idx 0 \<noteq> None then Inr (sn_amount s) else Inr 0)"

definition resolve_refund :: "escrow_host \<Rightarrow> sent \<Rightarrow> nat \<Rightarrow> nat eresult" where
  "resolve_refund env s idx = bind_r (resolve_used env s idx) (\<lambda>used. Inr (sn_amount s - used))"

subsection \<open>Cleanup\<close>

definition close_unchecked :: "close_reason \<Rightarrow> es_mut \<Rightarrow> es_mut" where
  "close_unchecked reason p = (case p of (s, evs) \<Rightarrow>
     (s\<lparr>closed := True\<rparr>, if closed s then evs else evs @ [EvClosed reason]))"

definition should_cleanup :: "escrow_host \<Rightarrow> es_mut \<Rightarrow> bool \<times> es_mut" where
  "should_cleanup env p = (case p of (s, evs) \<Rightarrow>
     let expired = s_deadline s < eh_now env;
       (s', evs') = (if \<not> closed s \<and> expired then close_unchecked DeadlineReached (s, evs) else (s, evs)) in
     (closed s' \<and> in_flight s' = 0 \<and> maker_src_remaining s' = 0 \<and> maker_dst_lost s' = 0 \<and> expired, s', evs'))"

definition maybe_cleanup :: "escrow_host \<Rightarrow> escrow \<Rightarrow> escrow \<times> bool" where
  "maybe_cleanup env c = (case es_storage c of
      None \<Rightarrow> (c, False)
    | Some st \<Rightarrow> (case should_cleanup env (st_state st, es_events c) of (del, s, evs) \<Rightarrow>
        if del then
          (c\<lparr>es_storage := None, es_events := evs @ [EvCleanup],
             es_detached := es_detached c @ [PDeleteAccount (eh_current env) (eh_signer env)]\<rparr>, True)
        else (c\<lparr>es_storage := Some (st\<lparr>st_state := s\<rparr>), es_events := evs\<rparr>, False)))"

text \<open>The guard is dropped at the end of a method, also when its state was never alive.\<close>

definition drop_guard :: "escrow_host \<Rightarrow> (escrow \<times> 'v) eresult \<Rightarrow> (escrow \<times> 'v) eresult" where
  "drop_guard env r = bind_r r (\<lambda>(c, v). Inr (fst (maybe_cleanup env c), v))"

definition callback :: "escrow_state \<Rightarrow> escrow_state eresult" where
  "callback s = bind_r (ok_or (checked_add_u 32 (in_flight s) 1) (EPanic ''too many callbacks in flight''))
     (\<lambda>n. Inr (s\<lparr>in_flight := n\<rparr>))"

definition on_callback :: "escrow_state \<Rightarrow> escrow_state eresult" where
  "on_callback s = bind_r (ok_or (checked_sub_u 32 (in_flight s) 1) (EPanic ''unregistered callback''))
     (\<lambda>n. Inr (s\<lparr>in_flight := n\<rparr>))"

definition callback_resolve_transfers ::
  "sent option \<Rightarrow> sent option \<Rightarrow> escrow_state \<Rightarrow> (escrow_state \<times> escrow_promise) eresult" where
  "callback_resolve_transfers src dst s =
     bind_r (callback s) (\<lambda>s'. Inr (s', PResolve src dst ESCROW_RESOLVE_TRANSFERS_GAS))"

definition es_return_value :: "string \<Rightarrow> escrow_promise \<Rightarrow> escrow_promise" where
  "es_return_value v p = (case p of
      PResolve src dst g \<Rightarrow> PResolveReturn src dst g v RETURN_VALUE_GAS | _ \<Rightarrow> p)"

definition and_maybe :: "escrow_promise option \<Rightarrow> escrow_promise \<Rightarrow> escrow_promise" where
  "and_maybe q p = (case q of None \<Rightarrow> p | Some q \<Rightarrow> PAnd p q)"

subsection \<open>Funding and filling\<close>

definition fund :: "params \<Rightarrow> account_id \<Rightarrow> nat \<Rightarrow> es_mut \<Rightarrow> (es_mut \<times> nat outcome) eresult" where
  "fund p sender amount m = (case m of (s, evs) \<Rightarrow>
     bind_r (require_r (sender = maker p) Unauthorized) (\<lambda>_.
     bind_r (ok_or (checked_add_u 128 (maker_src_remaining s) amount) IntegerOverflow) (\<lambda>r.
       Inr ((s\<lparr>maker_src_remaining := r\<rparr>, evs @ [EvFunded p amount r]), OValue 0))))"

definition taker_swap :: "wide \<Rightarrow> escrow_state \<Rightarrow> nat \<Rightarrow> ud128 \<Rightarrow> bool \<Rightarrow> (nat \<times> nat) eresult" where
  "taker_swap W s taker_dst_in taker_price partial_ok =
     bind_r (ok_or (ud_checked_div W taker_dst_in taker_price) IntegerOverflow) (\<lambda>want.
       if want < maker_src_remaining s then
         if \<not> partial_ok then Inl PartialFillsNotAllowed else Inr (want, taker_dst_in)
       else bind_r (ok_or (ud_checked_mul_ceil W (maker_src_remaining s) taker_price) IntegerOverflow) (\<lambda>used.
         Inr (maker_src_remaining s, used)))"

definition surplus_fee :: "wide \<Rightarrow> protocol_fees \<Rightarrow> nat \<Rightarrow> nat \<Rightarrow> ud128 \<Rightarrow> nat eresult" where
  "surplus_fee W pf src_out taker_dst_used maker_price =
     (if pips_is_zero (pf_surplus pf) then Inr 0
      else bind_r (ok_or (ud_checked_mul W src_out maker_price) IntegerOverflow) (\<lambda>maker_want_dst.
        ok_or (fee_ceil W (pf_surplus pf) (taker_dst_used - maker_want_dst)) (EPanic ''unreachable'')))"

definition protocol_collect ::
  "wide \<Rightarrow> nat \<Rightarrow> nat \<Rightarrow> ud128 \<Rightarrow> protocol_fees \<Rightarrow> protocol_fees_collected eresult" where
  "protocol_collect W src_out taker_dst_used maker_price pf =
     bind_r (ok_or (fee_ceil W (pf_fee pf) taker_dst_used) (EPanic ''unreachable'')) (\<lambda>f.
     bind_r (surplus_fee W pf src_out taker_dst_used maker_price) (\<lambda>sp.
       Inr \<lparr> pc_fee = f, pc_surplus = sp, pc_collector = pf_collector pf \<rparr>))"

definition to_collector_amount :: "protocol_fees_collected \<Rightarrow> (account_id \<times> nat) eresult" where
  "to_collector_amount pc =
     bind_r (ok_or (checked_add_u 128 (pc_fee pc) (pc_surplus pc)) ExcessiveFees) (\<lambda>a. Inr (pc_collector pc, a))"

definition transpose_r :: "'a option \<Rightarrow> ('a \<Rightarrow> 'e + 'b) \<Rightarrow> 'e + 'b option" where
  "transpose_r m f = (case m of None \<Rightarrow> Inr None | Some x \<Rightarrow> bind_r (f x) (\<lambda>y. Inr (Some y)))"

fun integrator_collect :: "wide \<Rightarrow> nat \<Rightarrow> (account_id \<times> pips) list \<Rightarrow> (account_id \<times> nat) list eresult" where
  "integrator_collect W used [] = Inr []"
| "integrator_collect W used ((a, f) # fs) =
     bind_r (ok_or (fee_ceil W f used) (EPanic ''unreachable'')) (\<lambda>x.
     bind_r (integrator_collect W used fs) (\<lambda>xs. Inr ((a, x) # xs)))"

text \<open>The iterator of \<open>collect_fees\<close>: the amounts that are zero are skipped, each other one is
  taken from what is left for the maker and sent, and the promises are joined.\<close>

fun collect_loop ::
  "token_id \<Rightarrow> (account_id \<times> nat) list \<Rightarrow> escrow_promise option \<Rightarrow> nat \<Rightarrow> (escrow_promise option \<times> nat) eresult" where
  "collect_loop t [] acc out = Inr (acc, out)"
| "collect_loop t ((a, x) # fs) acc out =
     (if x = 0 then collect_loop t fs acc out
      else bind_r (ok_or (checked_sub_u 128 out x) ExcessiveFees) (\<lambda>out'.
        bind_r (send_token t a x (Some ''fee'') None None False) (\<lambda>p.
          collect_loop t fs (Some (case acc of None \<Rightarrow> p | Some q \<Rightarrow> PAnd q p)) out')))"

definition collect_fees ::
  "token_id \<Rightarrow> protocol_fees_collected option \<Rightarrow> (account_id \<times> nat) list \<Rightarrow> nat \<Rightarrow> (escrow_promise option \<times> nat) eresult" where
  "collect_fees t pc fs out =
     bind_r (transpose_r pc to_collector_amount) (\<lambda>x.
       collect_loop t ((case x of None \<Rightarrow> [] | Some y \<Rightarrow> [y]) @ fs) None out)"

definition unwrap_or_es :: "'a option \<Rightarrow> 'a \<Rightarrow> 'a" where
  "unwrap_or_es m d = (case m of None \<Rightarrow> d | Some x \<Rightarrow> x)"

definition fill :: "escrow_host \<Rightarrow> params \<Rightarrow> account_id \<Rightarrow> nat \<Rightarrow> fill_action \<Rightarrow> es_mut \<Rightarrow> (es_mut \<times> nat outcome) eresult" where
  "fill env p sender taker_dst_in msg m = (case m of (s, evs) \<Rightarrow>
     bind_r (require_r (taker_whitelist p = [] \<or> sender \<in> set (taker_whitelist p)) Unauthorized) (\<lambda>_.
     bind_r (require_r (ud_cmp (fa_price msg) (price p) \<noteq> Less) PriceTooLow) (\<lambda>_.
     bind_r (require_r (\<not> fa_deadline msg < eh_now env) EDeadlineExpired) (\<lambda>_.
     bind_r (taker_swap (eh_wide env) s taker_dst_in (fa_price msg) (partial_fills_allowed p)) (\<lambda>(taker_src_out, taker_dst_used).
     bind_r (require_r (taker_src_out \<noteq> 0) InsufficientAmount) (\<lambda>_.
     bind_r (ok_or (checked_sub_u 128 (maker_src_remaining s) taker_src_out) (EPanic ''attempt to subtract with overflow'')) (\<lambda>remaining.
     let s1 = s\<lparr>maker_src_remaining := remaining\<rparr> in
     bind_r (transpose_r (p_protocol_fees p) (protocol_collect (eh_wide env) taker_src_out taker_dst_used (price p))) (\<lambda>protocol_dst_fees.
     bind_r (integrator_collect (eh_wide env) taker_dst_used (integrator_fees p)) (\<lambda>integrator_dst_fees.
     bind_r (collect_fees (dst_token p) protocol_dst_fees integrator_dst_fees taker_dst_used) (\<lambda>(send_fees, maker_dst_out).
     let evs1 = evs @ [EvFill \<lparr> fe_maker = maker p, fe_taker = sender, fe_src_token = src_token p, fe_dst_token = dst_token p,
         fe_taker_price = fa_price msg, fe_maker_price = price p, fe_taker_dst_in = taker_dst_in,
         fe_taker_dst_used = taker_dst_used, fe_taker_src_out = taker_src_out, fe_maker_dst_out = maker_dst_out,
         fe_maker_src_remaining = remaining, fe_taker_receive_src_to = os_receiver_id (fa_receive_src_to msg),
         fe_maker_receive_dst_to = os_receiver_id (receive_dst_to p), fe_protocol_dst_fees = protocol_dst_fees,
         fe_integrator_dst_fees = integrator_dst_fees \<rparr>] in
     bind_r (require_r (maker_dst_out \<noteq> 0) InsufficientAmount) (\<lambda>_.
     bind_r (send_for_resolve (dst_token p) (unwrap_or_es (os_receiver_id (receive_dst_to p)) (maker p)) maker_dst_out
       (receive_dst_to p) True) (\<lambda>(maker_dst, maker_dst_p).
     bind_r (send_token (src_token p) (unwrap_or_es (os_receiver_id (fa_receive_src_to msg)) sender) taker_src_out
       (os_memo (fa_receive_src_to msg)) (os_msg (fa_receive_src_to msg)) (os_min_gas (fa_receive_src_to msg)) True) (\<lambda>taker_src_p.
     bind_r (callback_resolve_transfers None (Some maker_dst) s1) (\<lambda>(s2, cb).
     bind_r (ok_or (checked_sub_u 128 taker_dst_in taker_dst_used) IntegerOverflow) (\<lambda>refund.
     bind_r (refund_value maker_dst refund) (\<lambda>v.
       Inr ((s2, evs1), OPromise (PThen (and_maybe send_fees (PAnd maker_dst_p taker_src_p)) (es_return_value v cb)))))))))))))))))))"

definition state_on_receive ::
  "escrow_host \<Rightarrow> params \<Rightarrow> account_id \<Rightarrow> token_id \<Rightarrow> nat \<Rightarrow> transfer_action \<Rightarrow> es_mut \<Rightarrow> (es_mut \<times> nat outcome) eresult" where
  "state_on_receive env p sender token amount action m =
     bind_r (require_r (\<not> (closed (fst m) \<or> s_deadline (fst m) < eh_now env)) Closed) (\<lambda>_.
       case action of
         Fund \<Rightarrow> if token = src_token p then fund p sender amount m else Inl WrongToken
       | Fill msg \<Rightarrow> if token = dst_token p then fill env p sender amount msg m else Inl WrongToken)"

text \<open>Running a method of the state on the live contract whose parameters are given.\<close>

definition with_state ::
  "escrow_host \<Rightarrow> params \<Rightarrow> (es_mut \<Rightarrow> (es_mut \<times> 'v) eresult) \<Rightarrow> escrow \<Rightarrow> (escrow \<times> 'v) eresult" where
  "with_state env p f c = bind_r (alive_state env p c) (\<lambda>s.
     bind_r (f (s, es_events c)) (\<lambda>((s', evs'), v). Inr (put_state s' (c\<lparr>es_events := evs'\<rparr>), v)))"

definition on_receive :: "escrow_host \<Rightarrow> account_id \<Rightarrow> token_id \<Rightarrow> nat \<Rightarrow> string \<Rightarrow> escrow \<Rightarrow> (escrow \<times> nat outcome) eresult" where
  "on_receive env sender token amount msg c =
     bind_r (require_r (amount \<noteq> 0) InsufficientAmount) (\<lambda>_.
     bind_r (ok_or (eh_parse_transfer env msg) EJSON) (\<lambda>tm.
       drop_guard env (with_state env (tm_params tm)
         (state_on_receive env (tm_params tm) sender token amount (tm_action tm)) c)))"

definition ft_on_transfer :: "escrow_host \<Rightarrow> account_id \<Rightarrow> nat \<Rightarrow> string \<Rightarrow> escrow \<Rightarrow> (escrow \<times> nat outcome) eresult" where
  "ft_on_transfer env sender amount msg c = on_receive env sender (Nep141 (eh_predecessor env)) amount msg c"

definition single :: "'a list \<Rightarrow> 'a option" where
  "single xs = (case xs of [x] \<Rightarrow> Some x | _ \<Rightarrow> None)"

definition mt_on_transfer ::
  "escrow_host \<Rightarrow> account_id \<Rightarrow> account_id list \<Rightarrow> string list \<Rightarrow> nat list \<Rightarrow> string \<Rightarrow> escrow \<Rightarrow> (escrow \<times> nat list outcome) eresult" where
  "mt_on_transfer env sender previous_owner_ids token_ids amounts msg c =
     bind_r (require_r (single previous_owner_ids = Some sender) (EPanic ''approvals are not supported'')) (\<lambda>_.
     case (single token_ids, single amounts) of
       (Some i, Some a) \<Rightarrow> bind_r (on_receive env sender (Nep245 (eh_predecessor env) i) a msg c)
         (\<lambda>(c', r). Inr (c', case r of OValue x \<Rightarrow> OValue [x] | OPromise q \<Rightarrow> OPromise q))
     | _ \<Rightarrow> Inl WrongToken)"

subsection \<open>Returning what is left, closing and resolving\<close>

definition from_sent :: "sent option \<Rightarrow> sent option \<Rightarrow> maker_sent" where
  "from_sent src dst = \<lparr> ms_src = (case src of None \<Rightarrow> 0 | Some s \<Rightarrow> sn_amount s),
     ms_dst = (case dst of None \<Rightarrow> 0 | Some s \<Rightarrow> sn_amount s) \<rparr>"

definition send_maker :: "token_id \<Rightarrow> params \<Rightarrow> override_send \<Rightarrow> nat option \<Rightarrow> (sent \<times> escrow_promise) option eresult" where
  "send_maker t p os amount = (case amount of
      None \<Rightarrow> Inr None
    | Some a \<Rightarrow> if a = 0 then Inr None
        else bind_r (send_for_resolve t (unwrap_or_es (os_receiver_id os) (maker p)) a os True) (\<lambda>x. Inr (Some x)))"

definition reduce_and :: "escrow_promise option \<Rightarrow> escrow_promise option \<Rightarrow> escrow_promise option" where
  "reduce_and a b = (case (a, b) of (None, q) \<Rightarrow> q | (Some q, None) \<Rightarrow> Some q | (Some q, Some r) \<Rightarrow> Some (PAnd q r))"

definition state_lost_found :: "params \<Rightarrow> es_mut \<Rightarrow> (es_mut \<times> escrow_promise option) eresult" where
  "state_lost_found p m = (case m of (s, evs) \<Rightarrow>
     bind_r (send_maker (src_token p) p (refund_src_to p) (if closed s then Some (maker_src_remaining s) else None)) (\<lambda>src.
     let s1 = (if closed s then s\<lparr>maker_src_remaining := 0\<rparr> else s) in
     bind_r (send_maker (dst_token p) p (receive_dst_to p) (Some (maker_dst_lost s1))) (\<lambda>dst.
     let s2 = s1\<lparr>maker_dst_lost := 0\<rparr> in
     case reduce_and (map_option snd src) (map_option snd dst) of
       None \<Rightarrow> Inr ((s2, evs), None)
     | Some send \<Rightarrow>
         let evs1 = evs @ [EvMakerRefunded (from_sent (map_option fst src) (map_option fst dst))] in
         bind_r (callback_resolve_transfers (map_option fst src) (map_option fst dst) s2) (\<lambda>(s3, cb).
           Inr ((s3, evs1), Some (PThen send cb))))))"

definition state_close :: "escrow_host \<Rightarrow> account_id \<Rightarrow> params \<Rightarrow> es_mut \<Rightarrow> (es_mut \<times> escrow_promise option) eresult" where
  "state_close env signer p m =
     bind_r (if closed (fst m) then Inr m
       else bind_r (if s_deadline (fst m) < eh_now env then Inr DeadlineReached
         else if maker_src_remaining (fst m) = 0 \<and> signer = maker p then Inr ByMaker
         else if length (taker_whitelist p) = 1 \<and> signer \<in> set (taker_whitelist p) then Inr BySingleTaker
         else Inl Unauthorized) (\<lambda>reason. Inr (close_unchecked reason m))) (\<lambda>m'. state_lost_found p m')"

definition finish :: "escrow_host \<Rightarrow> (escrow \<times> escrow_promise option) eresult \<Rightarrow> (escrow \<times> bool outcome) eresult" where
  "finish env r = bind_r r (\<lambda>(c, q). case q of
      None \<Rightarrow> (case maybe_cleanup env c of (c', b) \<Rightarrow> Inr (c', OValue b))
    | Some q \<Rightarrow> Inr (c, OPromise q))"

definition es_close :: "escrow_host \<Rightarrow> params \<Rightarrow> escrow \<Rightarrow> (escrow \<times> bool outcome) eresult" where
  "es_close env p c = drop_guard env (finish env (with_state env p (state_close env (eh_predecessor env) p) c))"

definition es_lost_found :: "escrow_host \<Rightarrow> params \<Rightarrow> escrow \<Rightarrow> (escrow \<times> bool outcome) eresult" where
  "es_lost_found env p c = drop_guard env (finish env (with_state env p (state_lost_found p) c))"

definition on_auth :: "escrow_host \<Rightarrow> account_id \<Rightarrow> string \<Rightarrow> escrow \<Rightarrow> (escrow \<times> unit outcome) eresult" where
  "on_auth env signer msg c =
     bind_r (ok_or (eh_parse_auth env msg) EJSON) (\<lambda>am.
     drop_guard env (bind_r (alive_state env (am_params am) c) (\<lambda>_.
     bind_r (require_r (auth_caller (am_params am) = Some (eh_predecessor env)) Unauthorized) (\<lambda>_.
     case am_action am of AuthClose \<Rightarrow>
       bind_r (with_state env (am_params am) (state_close env signer (am_params am)) c) (\<lambda>(c', q).
         Inr (c', case q of None \<Rightarrow> OValue () | Some q \<Rightarrow> OPromise q))))))"

definition resolve_one ::
  "escrow_host \<Rightarrow> nat \<Rightarrow> sent option \<Rightarrow> nat \<Rightarrow> (sent option \<times> nat) eresult" where
  "resolve_one env idx sn lost = (case sn of
      None \<Rightarrow> Inr (None, lost)
    | Some s \<Rightarrow> bind_r (resolve_refund env s idx) (\<lambda>refund.
        bind_r (ok_or (checked_add_u 128 lost refund) IntegerOverflow) (\<lambda>l. Inr (Some (s\<lparr>sn_amount := refund\<rparr>), l))))"

definition state_resolve_transfers :: "escrow_host \<Rightarrow> sent option \<Rightarrow> sent option \<Rightarrow> es_mut \<Rightarrow> es_mut eresult" where
  "state_resolve_transfers env src dst m = (case m of (s, evs) \<Rightarrow>
     bind_r (resolve_one env 0 src (maker_src_remaining s)) (\<lambda>(src', remaining).
     bind_r (resolve_one env (if src = None then 0 else 1) dst (maker_dst_lost s)) (\<lambda>(dst', lost).
     let ms = from_sent src' dst' in
       Inr (s\<lparr>maker_src_remaining := remaining, maker_dst_lost := lost\<rparr>,
         if ms_src ms = 0 \<and> ms_dst ms = 0 then evs else evs @ [EvMakerLost ms]))))"

definition es_resolve_transfers :: "escrow_host \<Rightarrow> sent option \<Rightarrow> sent option \<Rightarrow> escrow \<Rightarrow> (escrow \<times> bool) eresult" where
  "es_resolve_transfers env src dst c =
     bind_r (require_r (eh_predecessor env = eh_current env) (EPanic ''Method es_resolve_transfers is private'')) (\<lambda>_.
     bind_r (try_as_alive c) (\<lambda>st.
     bind_r (on_callback (st_state st)) (\<lambda>s.
     bind_r (state_resolve_transfers env src dst (s, es_events c)) (\<lambda>(s', evs').
     let c1 = put_state s' (c\<lparr>es_events := evs'\<rparr>) in
     case maybe_cleanup env c1 of (c2, b) \<Rightarrow> drop_guard env (Inr (c2, b))))))"

end
