(* ===== verification/EscrowLaws.thy ===== *)
theory EscrowLaws
  imports EscrowMethods
begin

text \<open>
  What the contract \<open>escrow-swap\<close> guarantees: a fill moves exactly the tokens it accounts for, at
  a price not below the maker's; over any sequence of calls and of resolved transfers every token
  of the maker is accounted for; and the account is deleted only when nothing is left in it.
\<close>

subsection \<open>What a promise sends\<close>

fun sends :: "escrow_promise \<Rightarrow> token_send list" where
  "sends (PSend x) = [x]"
| "sends (PAnd p q) = sends p @ sends q"
| "sends (PThen p q) = sends p @ sends q"
| "sends (PResolve a b g) = []"
| "sends (PResolveReturn a b g v h) = []"
| "sends (PDeleteAccount a b) = []"

definition sent_token :: "token_send \<Rightarrow> token_id" where
  "sent_token x = (case ts_token_id x of None \<Rightarrow> Nep141 (ts_contract x) | Some i \<Rightarrow> Nep245 (ts_contract x) i)"

definition sent_total :: "token_id \<Rightarrow> escrow_promise \<Rightarrow> nat" where
  "sent_total t p = sum_list (map ts_amount (filter (\<lambda>x. sent_token x = t) (sends p)))"

lemma sent_total_simps [simp]:
  "sent_total t (PAnd p q) = sent_total t p + sent_total t q"
  "sent_total t (PThen p q) = sent_total t p + sent_total t q"
  "sent_total t (PResolve a b g) = 0"
  "sent_total t (PResolveReturn a b g v h) = 0"
  "sent_total t (PDeleteAccount x y) = 0"
  by (simp_all add: sent_total_def)

lemma send_token_total:
  "send_token t a x memo msg g u = Inr p \<Longrightarrow> sent_total t' p = (if t' = t then x else 0)"
  by (auto simp: send_token_def nep141_send_def nep245_send_def sent_total_def sent_token_def split: token_id.splits)

lemma send_for_resolve_total:
  assumes "send_for_resolve t a x os u = Inr (sn, p)"
  shows "sent_total t' p = (if t' = t then x else 0)" and "sn_amount sn = x" and "sn_token_type sn = token_type t"
    and "sn_token_type sn \<in> {TNep141, TNep245}"
  using assms by (auto simp: send_for_resolve_def result_simps send_token_total)
    (auto simp: send_token_def split: token_id.splits)

fun opt_total :: "token_id \<Rightarrow> escrow_promise option \<Rightarrow> nat" where
  "opt_total t None = 0"
| "opt_total t (Some p) = sent_total t p"

lemma and_maybe_total [simp]: "sent_total t (and_maybe q p) = sent_total t p + opt_total t q"
  by (cases q) (simp_all add: and_maybe_def)

lemma collect_loop_total:
  "collect_loop t fs acc out = Inr (q, out') \<Longrightarrow>
     out = out' + sum_list (map snd fs) \<and> opt_total t q = opt_total t acc + sum_list (map snd fs) \<and>
     (t' \<noteq> t \<longrightarrow> opt_total t' q = opt_total t' acc)"
proof (induction t fs acc out rule: collect_loop.induct)
  case (2 t a x fs acc out)
  show ?case
  proof (cases "x = 0")
    case True
    then show ?thesis using 2 by simp
  next
    case False
    then obtain out1 p where o: "checked_sub_u 128 out x = Some out1"
      and p: "send_token t a x (Some ''fee'') None None False = Inr p"
      and rest: "collect_loop t fs (Some (case acc of None \<Rightarrow> p | Some q \<Rightarrow> PAnd q p)) out1 = Inr (q, out')"
      using 2(3) by (auto simp: result_simps)
    from 2(2) [OF False rest] have
      "out1 = out' + sum_list (map snd fs)" and
      "opt_total t q = opt_total t (Some (case acc of None \<Rightarrow> p | Some q \<Rightarrow> PAnd q p)) + sum_list (map snd fs)" and
      "t' \<noteq> t \<longrightarrow> opt_total t' q = opt_total t' (Some (case acc of None \<Rightarrow> p | Some q \<Rightarrow> PAnd q p))"
      by simp_all
    moreover have "out = x + out1" using o by (simp add: checked_sub_u_Some)
    ultimately show ?thesis using send_token_total [OF p] by (cases acc) simp_all
  qed
qed simp

lemma collect_fees_total:
  assumes "collect_fees t pc fs out = Inr (q, out')"
  obtains fees where "out = out' + fees" and "opt_total t q = fees" and "\<And>t'. t' \<noteq> t \<Longrightarrow> opt_total t' q = 0"
proof -
  from assms obtain x where loop: "collect_loop t ((case x of None \<Rightarrow> [] | Some y \<Rightarrow> [y]) @ fs) None out = Inr (q, out')"
    by (auto simp: collect_fees_def result_simps)
  show thesis using that collect_loop_total [OF loop] by simp
qed

text \<open>Who is paid how much of which token.\<close>

definition payouts :: "escrow_promise \<Rightarrow> (token_id \<times> account_id \<times> nat) list" where
  "payouts p = map (\<lambda>x. (sent_token x, ts_receiver x, ts_amount x)) (sends p)"

definition opt_payouts :: "escrow_promise option \<Rightarrow> (token_id \<times> account_id \<times> nat) list" where
  "opt_payouts q = (case q of None \<Rightarrow> [] | Some p \<Rightarrow> payouts p)"

lemma payouts_simps [simp]:
  "payouts (PAnd p q) = payouts p @ payouts q" "payouts (PThen p q) = payouts p @ payouts q"
  "payouts (PResolve a b g) = []" "payouts (PResolveReturn a b g v h) = []"
  "opt_payouts None = []" "opt_payouts (Some p) = payouts p"
  by (simp_all add: payouts_def opt_payouts_def)

lemma payouts_and_maybe [simp]: "payouts (and_maybe q p) = payouts p @ opt_payouts q"
  by (cases q) (simp_all add: and_maybe_def)

lemma send_token_payouts: "send_token t a x memo msg g u = Inr p \<Longrightarrow> payouts p = [(t, a, x)]"
  by (auto simp: send_token_def nep141_send_def nep245_send_def payouts_def sent_token_def split: token_id.splits)

lemma send_for_resolve_payouts: "send_for_resolve t a x os u = Inr (sn, p) \<Longrightarrow> payouts p = [(t, a, x)]"
  by (auto simp: send_for_resolve_def result_simps send_token_payouts)

lemma collect_loop_payouts:
  "collect_loop t fs acc out = Inr (q, out') \<Longrightarrow> opt_payouts q = opt_payouts acc @ map (Pair t) (filter (\<lambda>(_, x). x \<noteq> 0) fs)"
proof (induction t fs acc out rule: collect_loop.induct)
  case (2 t a x fs acc out)
  show ?case
  proof (cases "x = 0")
    case True
    then show ?thesis using 2 by simp
  next
    case False
    then obtain out1 p where p: "send_token t a x (Some ''fee'') None None False = Inr p"
      and rest: "collect_loop t fs (Some (case acc of None \<Rightarrow> p | Some q \<Rightarrow> PAnd q p)) out1 = Inr (q, out')"
      using 2(3) by (auto simp: result_simps)
    from 2(2) [OF False rest] show ?thesis using send_token_payouts [OF p] False by (cases acc) simp_all
  qed
qed simp

lemma opt_payouts_total: "opt_total t q = sum_list (map (snd \<circ> snd) (filter (\<lambda>x. fst x = t) (opt_payouts q)))"
  by (cases q) (simp_all add: sent_total_def payouts_def filter_map comp_def)

lemma paid_fees: "sum_list (map (snd \<circ> snd) (filter (\<lambda>x. fst x = t) (map (Pair t) (filter (\<lambda>(_, x). x \<noteq> 0) fs)))) = sum_list (map snd (fs :: ('a \<times> nat) list))"
  by (induction fs) (auto simp: comp_def)

text \<open>The fees of a fill: those of the protocol, with its share of the surplus, and of each integrator.\<close>

definition fees_due :: "wide \<Rightarrow> params \<Rightarrow> nat \<Rightarrow> nat \<Rightarrow> (account_id \<times> nat) list \<Rightarrow> bool" where
  "fees_due W p src_out used fs \<longleftrightarrow> (\<exists>protocol integrators. fs = protocol @ integrators \<and>
     (case p_protocol_fees p of
        None \<Rightarrow> protocol = []
      | Some pf \<Rightarrow> \<exists>f surplus. protocol = [(pf_collector pf, f + surplus)] \<and> fee_ceil W (pf_fee pf) used = Some f \<and>
          surplus_fee W pf src_out used (price p) = Inr surplus) \<and>
     list_all2 (\<lambda>(a, f) (b, x). b = a \<and> fee_ceil W f used = Some x) (integrator_fees p) integrators)"

lemma integrator_collect_due:
  "integrator_collect W used fs = Inr xs \<Longrightarrow> list_all2 (\<lambda>(a, f) (b, x). b = a \<and> fee_ceil W f used = Some x) fs xs"
  by (induction fs arbitrary: xs) (auto simp: result_simps)

lemma collect_fees_due:
  assumes "transpose_r (p_protocol_fees p) (protocol_collect W src_out used (price p)) = Inr pfees"
    and "integrator_collect W used (integrator_fees p) = Inr ifees" and "collect_fees t pfees ifees out = Inr (q, out')"
  obtains fs where "fees_due W p src_out used fs" "opt_payouts q = map (Pair t) (filter (\<lambda>(_, x). x \<noteq> 0) fs)"
proof -
  from assms(3) obtain x where x: "transpose_r pfees to_collector_amount = Inr x"
    and loop: "collect_loop t ((case x of None \<Rightarrow> [] | Some y \<Rightarrow> [y]) @ ifees) None out = Inr (q, out')"
    by (auto simp: collect_fees_def result_simps)
  have "fees_due W p src_out used ((case x of None \<Rightarrow> [] | Some y \<Rightarrow> [y]) @ ifees)"
    unfolding fees_due_def
  proof (intro exI conjI)
    show "case p_protocol_fees p of None \<Rightarrow> (case x of None \<Rightarrow> [] | Some y \<Rightarrow> [y]) = []
      | Some pf \<Rightarrow> \<exists>f surplus. (case x of None \<Rightarrow> [] | Some y \<Rightarrow> [y]) = [(pf_collector pf, f + surplus)] \<and>
          fee_ceil W (pf_fee pf) used = Some f \<and> surplus_fee W pf src_out used (price p) = Inr surplus"
      using assms(1) x
      by (auto simp: transpose_r_def protocol_collect_def to_collector_amount_def result_simps checked_add_u_Some split: option.splits)
  qed (rule refl integrator_collect_due [OF assms(2)])+
  with collect_loop_payouts [OF loop] that show thesis by simp
qed

text \<open>The callbacks a promise ends in, and the value it returns to the caller.\<close>

fun resolves :: "escrow_promise \<Rightarrow> (sent option \<times> sent option) list" where
  "resolves (PResolve a b g) = [(a, b)]"
| "resolves (PResolveReturn a b g v h) = [(a, b)]"
| "resolves (PAnd p q) = resolves p @ resolves q"
| "resolves (PThen p q) = resolves p @ resolves q"
| "resolves (PSend x) = []"
| "resolves (PDeleteAccount a b) = []"

fun returned :: "escrow_promise \<Rightarrow> string option" where
  "returned (PResolveReturn a b g v h) = Some v"
| "returned (PThen p q) = returned q"
| "returned _ = None"

lemma send_token_PSend: "send_token t a x memo msg g u = Inr p \<Longrightarrow> \<exists>y. p = PSend y"
  by (auto simp: send_token_def nep141_send_def nep245_send_def split: token_id.splits)

lemma send_for_resolve_PSend: "send_for_resolve t a x os u = Inr (sn, p) \<Longrightarrow> \<exists>y. p = PSend y"
  by (auto simp: send_for_resolve_def result_simps dest: send_token_PSend)

fun opt_resolves :: "escrow_promise option \<Rightarrow> (sent option \<times> sent option) list" where
  "opt_resolves None = []"
| "opt_resolves (Some p) = resolves p"

lemma and_maybe_resolves [simp]: "resolves (and_maybe q p) = resolves p @ opt_resolves q"
  by (cases q) (simp_all add: and_maybe_def)

lemma collect_loop_resolves:
  "collect_loop t fs acc out = Inr (q, out') \<Longrightarrow> opt_resolves acc = [] \<Longrightarrow> opt_resolves q = []"
proof (induction t fs acc out rule: collect_loop.induct)
  case (2 t a x fs acc out)
  then show ?case by (cases acc) (auto simp: result_simps dest!: send_token_PSend split: if_splits)
qed simp

lemma collect_fees_resolves: "collect_fees t pc fs out = Inr (q, out') \<Longrightarrow> opt_resolves q = []"
  by (auto simp: collect_fees_def result_simps dest: collect_loop_resolves)

subsection \<open>A fill\<close>

lemma taker_swap_Inr:
  assumes swap: "taker_swap W s taker_dst_in tp partial_ok = Inr (src_out, used)"
    and W: "wide_unsigned_ok W" and tp: "ud_ok tp"
    and b: "taker_dst_in \<le> u_max 128" "maker_src_remaining s \<le> u_max 128"
  shows "src_out \<le> maker_src_remaining s" and "used \<le> taker_dst_in"
    and "src_out * ud_digits tp \<le> used * denominator tp"
proof -
  have den: "0 < denominator tp" "denominator tp \<le> u_max 128"
    using tp power_increasing [of "decimals tp" 38 "10::nat"]
    by (auto simp: denominator_def ud_ok_def MAX_DECIMALS_def u_max_def)
  have dig: "ud_digits tp \<le> u_max 128" using tp by (simp add: ud_ok_def)
  from swap obtain want where want: "ud_checked_div W taker_dst_in tp = Some want"
    by (auto simp: taker_swap_def result_simps)
  have pos: "0 < ud_digits tp" and want_eq: "want = taker_dst_in * denominator tp div ud_digits tp"
    using want checked_mul_div_u128_value [OF W b(1) den(2) dig] by (auto simp: ud_checked_div_def split: if_splits)
  have floor: "want * ud_digits tp \<le> taker_dst_in * denominator tp" by (simp add: want_eq)
  have "src_out \<le> maker_src_remaining s \<and> used \<le> taker_dst_in \<and> src_out * ud_digits tp \<le> used * denominator tp"
  proof (cases "want < maker_src_remaining s")
    case True
    then have "src_out = want" and "used = taker_dst_in"
      using swap want by (auto simp: taker_swap_def split: if_splits)
    then show ?thesis using True floor by simp
  next
    case False
    then have so: "src_out = maker_src_remaining s" and mul: "ud_checked_mul_ceil W (maker_src_remaining s) tp = Some used"
      using swap want by (auto simp: taker_swap_def result_simps)
    have used: "used = div_ceil_u (maker_src_remaining s * ud_digits tp) (denominator tp)"
      using mul checked_mul_div_ceil_u128_value [OF W b(2) dig den(2)]
      by (auto simp: ud_checked_mul_ceil_def split: if_splits)
    have "maker_src_remaining s * ud_digits tp \<le> want * ud_digits tp" using False by simp
    then have "maker_src_remaining s * ud_digits tp \<le> taker_dst_in * denominator tp" using floor by linarith
    then have "used \<le> taker_dst_in" using den(1) by (simp add: used div_ceil_u_le_iff)
    moreover have "maker_src_remaining s * ud_digits tp \<le> used * denominator tp"
      using div_ceil_u_le_iff [OF den(1), of "maker_src_remaining s * ud_digits tp" used] by (simp add: used)
    ultimately show ?thesis by (simp add: so)
  qed
  then show "src_out \<le> maker_src_remaining s" and "used \<le> taker_dst_in"
    and "src_out * ud_digits tp \<le> used * denominator tp" by simp_all
qed

lemma price_transitive:
  assumes "ud_ok mp" and "ud_ok tp" and "ud_cmp tp mp \<noteq> Less" and "x * ud_digits tp \<le> y * denominator tp"
  shows "x * ud_digits mp \<le> y * denominator mp"
proof -
  have "ud_digits mp * denominator tp \<le> ud_digits tp * denominator mp"
    using assms(1-3) by (auto simp: ud_cmp_scaled ud_ok_def cmp_nat_def denominator_def split: if_splits)
  then have "x * ud_digits mp * denominator tp \<le> x * (ud_digits tp * denominator mp)"
    by (simp add: mult.assoc)
  also have "\<dots> \<le> y * denominator mp * denominator tp"
    using mult_le_mono1 [OF assms(4), of "denominator mp"] by (simp add: ac_simps)
  finally show ?thesis by (simp add: denominator_def)
qed

lemma fill_Inr:
  assumes "fill env p sender d msg (s, evs) = Inr ((s', evs'), r)"
  obtains src_out used pfees ifees q out maker_dst maker_p taker_p v ev where
    "ud_cmp (fa_price msg) (price p) \<noteq> Less"
    and "taker_swap (eh_wide env) s d (fa_price msg) (partial_fills_allowed p) = Inr (src_out, used)"
    and "transpose_r (p_protocol_fees p) (protocol_collect (eh_wide env) src_out used (price p)) = Inr pfees"
    and "integrator_collect (eh_wide env) used (integrator_fees p) = Inr ifees"
    and "collect_fees (dst_token p) pfees ifees used = Inr (q, out)"
    and "send_for_resolve (dst_token p) (unwrap_or_es (os_receiver_id (receive_dst_to p)) (maker p)) out
       (receive_dst_to p) True = Inr (maker_dst, maker_p)"
    and "send_token (src_token p) (unwrap_or_es (os_receiver_id (fa_receive_src_to msg)) sender) src_out
       (os_memo (fa_receive_src_to msg)) (os_msg (fa_receive_src_to msg)) (os_min_gas (fa_receive_src_to msg)) True = Inr taker_p"
    and "0 < src_out" and "0 < out" and "src_out \<le> maker_src_remaining s" and "used \<le> d"
    and "in_flight s < u_max 32"
    and "s' = s\<lparr>maker_src_remaining := maker_src_remaining s - src_out, in_flight := in_flight s + 1\<rparr>"
    and "evs' = evs @ [EvFill ev]" and "fe_taker_src_out ev = src_out" and "fe_taker_dst_used ev = used"
    and "fe_maker_dst_out ev = out" and "fe_taker_dst_in ev = d"
    and "refund_value maker_dst (d - used) = Inr v"
    and "r = OPromise (PThen (and_maybe q (PAnd maker_p taker_p))
       (PResolveReturn None (Some maker_dst) ESCROW_RESOLVE_TRANSFERS_GAS v RETURN_VALUE_GAS))"
  using assms
  by (auto simp: fill_def result_simps Let_def callback_resolve_transfers_def callback_def es_return_value_def
      checked_sub_u_Some checked_add_u_Some)

text \<open>C17: A fill of the escrow moves exactly what it accounts for, to whom it should. The payouts are,
  of the token the taker brought, the fees due to the protocol and to each integrator and the rest
  to the maker, and of the other token what the taker buys to the taker (or to the accounts the maker
  and the taker named for this). What leaves the maker's balance is what the taker receives, at least
  one unit; what is paid is what the taker is charged, and the rest of the deposit is the value
  returned for the refund; and the taker pays for the amount received at least the maker's price.\<close>

theorem fill_conserves:
  assumes "fill env p sender d msg (s, evs) = Inr ((s', evs'), OPromise r)"
    and "wide_unsigned_ok (eh_wide env)" and "ud_ok (price p)" and "ud_ok (fa_price msg)"
    and "d \<le> u_max 128" and "maker_src_remaining s \<le> u_max 128"
  shows "\<exists>fees out src_out used.
    payouts r =
      [(dst_token p, unwrap_or_es (os_receiver_id (receive_dst_to p)) (maker p), out),
       (src_token p, unwrap_or_es (os_receiver_id (fa_receive_src_to msg)) sender, src_out)] @
      map (Pair (dst_token p)) (filter (\<lambda>(_, x). x \<noteq> 0) fees) \<and>
    fees_due (eh_wide env) p src_out used fees \<and> used = sum_list (map snd fees) + out \<and> 0 < out \<and>
    0 < src_out \<and> maker_src_remaining s = maker_src_remaining s' + src_out \<and> used \<le> d \<and>
    returned r = Some (if token_type (dst_token p) = TNep141 then quoted (d - used) else json_compact [d - used]) \<and>
    src_out * ud_digits (price p) \<le> used * denominator (price p)"
proof -
  from assms(1) obtain src_out used pfees ifees q out maker_dst maker_p taker_p v where
    f: "ud_cmp (fa_price msg) (price p) \<noteq> Less"
      "taker_swap (eh_wide env) s d (fa_price msg) (partial_fills_allowed p) = Inr (src_out, used)"
      "transpose_r (p_protocol_fees p) (protocol_collect (eh_wide env) src_out used (price p)) = Inr pfees"
      "integrator_collect (eh_wide env) used (integrator_fees p) = Inr ifees"
      "collect_fees (dst_token p) pfees ifees used = Inr (q, out)"
      "send_for_resolve (dst_token p) (unwrap_or_es (os_receiver_id (receive_dst_to p)) (maker p)) out
         (receive_dst_to p) True = Inr (maker_dst, maker_p)"
      "send_token (src_token p) (unwrap_or_es (os_receiver_id (fa_receive_src_to msg)) sender) src_out
         (os_memo (fa_receive_src_to msg)) (os_msg (fa_receive_src_to msg)) (os_min_gas (fa_receive_src_to msg)) True = Inr taker_p"
      "0 < src_out" "0 < out" "src_out \<le> maker_src_remaining s"
      "s' = s\<lparr>maker_src_remaining := maker_src_remaining s - src_out, in_flight := in_flight s + 1\<rparr>"
      "refund_value maker_dst (d - used) = Inr v"
      "r = PThen (and_maybe q (PAnd maker_p taker_p))
         (PResolveReturn None (Some maker_dst) ESCROW_RESOLVE_TRANSFERS_GAS v RETURN_VALUE_GAS)"
    by (elim fill_Inr) blast
  obtain fees where fees: "fees_due (eh_wide env) p src_out used fees"
      "opt_payouts q = map (Pair (dst_token p)) (filter (\<lambda>(_, x). x \<noteq> 0) fees)"
    using collect_fees_due [OF f(3-5)] by blast
  have total: "used = sum_list (map snd fees) + out"
    using collect_fees_total [OF f(5)] opt_payouts_total [of "dst_token p" q] fees(2)
    by (metis add.commute paid_fees)
  note swap = taker_swap_Inr [OF f(2) assms(2,4,5,6)]
  have v: "v = (if token_type (dst_token p) = TNep141 then quoted (d - used) else json_compact [d - used])"
    using f(12) send_for_resolve_total(3,4) [OF f(6)] by (auto simp: refund_value_def split: token_id_type.splits)
  show ?thesis
  proof (intro exI conjI)
    show "payouts r =
      [(dst_token p, unwrap_or_es (os_receiver_id (receive_dst_to p)) (maker p), out),
       (src_token p, unwrap_or_es (os_receiver_id (fa_receive_src_to msg)) sender, src_out)] @
      map (Pair (dst_token p)) (filter (\<lambda>(_, x). x \<noteq> 0) fees)"
      using fees(2) by (simp add: f(13) send_for_resolve_payouts [OF f(6)] send_token_payouts [OF f(7)])
    show "returned r = Some (if token_type (dst_token p) = TNep141 then quoted (d - used) else json_compact [d - used])"
      by (simp add: f(13) v)
    show "src_out * ud_digits (price p) \<le> used * denominator (price p)"
      using price_transitive [OF assms(3,4) f(1) swap(3)] .
  qed (use fees(1) total f(8-11) swap(2) in simp_all)
qed

end
