(* ===== verification/EscrowRuns.thy ===== *)
theory EscrowRuns
  imports EscrowLaws
begin

text \<open>
  The contract \<open>escrow-swap\<close> over time: calls of its methods by anybody, and the callbacks that
  resolve its transfers, which come in any order and with any results. A callback that aborts is
  lost: it stays in flight for ever. The events the contract emits are its account of what the
  maker gave and got, and the invariant relates them to the state and to the transfers that are
  still outstanding.
\<close>

subsection \<open>Calls and callbacks\<close>

datatype (plugins only: code size) escrow_call =
    CallFt account_id nat string
  | CallMt account_id "account_id list" "string list" "nat list" string
  | CallClose params
  | CallLostFound params
  | CallAuth account_id string

definition out_promise :: "'v outcome \<Rightarrow> escrow_promise option" where
  "out_promise r = (case r of OValue _ \<Rightarrow> None | OPromise q \<Rightarrow> Some q)"

definition promised :: "(escrow \<times> 'v outcome) eresult \<Rightarrow> (escrow \<times> escrow_promise option) eresult" where
  "promised r = bind_r r (\<lambda>(c, o'). Inr (c, out_promise o'))"

fun run_escrow_call :: "escrow_host \<Rightarrow> escrow_call \<Rightarrow> escrow \<Rightarrow> (escrow \<times> escrow_promise option) eresult" where
  "run_escrow_call env (CallFt sender amount msg) c = promised (ft_on_transfer env sender amount msg c)"
| "run_escrow_call env (CallMt sender owners ids amounts msg) c = promised (mt_on_transfer env sender owners ids amounts msg c)"
| "run_escrow_call env (CallClose p) c = promised (es_close env p c)"
| "run_escrow_call env (CallLostFound p) c = promised (es_lost_found env p c)"
| "run_escrow_call env (CallAuth signer msg) c = promised (on_auth env signer msg c)"

text \<open>Amounts are \<open>u128\<close>, and the prices that are decoded are decimals in normal form.\<close>

fun call_typed :: "escrow_call \<Rightarrow> bool" where
  "call_typed (CallFt sender amount msg) \<longleftrightarrow> amount \<le> u_max 128"
| "call_typed (CallMt sender owners ids amounts msg) \<longleftrightarrow> (\<forall>a \<in> set amounts. a \<le> u_max 128)"
| "call_typed _ \<longleftrightarrow> True"

definition decodes_typed :: "escrow_host \<Rightarrow> bool" where
  "decodes_typed env \<longleftrightarrow>
     (\<forall>m tm f. eh_parse_transfer env m = Some tm \<and> tm_action tm = Fill f \<longrightarrow> ud_ok (fa_price f))"

definition same_deployment :: "escrow_host \<Rightarrow> escrow_host \<Rightarrow> bool" where
  "same_deployment h h' \<longleftrightarrow> eh_current h' = eh_current h \<and> eh_hash h' = eh_hash h \<and> eh_wide h' = eh_wide h"

type_synonym callbacks = "(sent option \<times> sent option) list"

inductive escrow_reach :: "escrow_host \<Rightarrow> params \<Rightarrow> escrow \<Rightarrow> callbacks \<Rightarrow> callbacks \<Rightarrow> bool"
  for h :: escrow_host and p :: params where
  deployed: "escrow_init h p = Inr c \<Longrightarrow> escrow_reach h p c [] []"
| called: "escrow_reach h p c pending stuck \<Longrightarrow> same_deployment h h' \<Longrightarrow> decodes_typed h' \<Longrightarrow> call_typed call \<Longrightarrow>
    run_escrow_call h' call c = Inr (c', q) \<Longrightarrow> escrow_reach h p c' (pending @ opt_resolves q) stuck"
| resolved: "escrow_reach h p c (pre @ (src, dst) # post) stuck \<Longrightarrow> same_deployment h h' \<Longrightarrow>
    es_resolve_transfers h' src dst c = Inr (c', b) \<Longrightarrow> escrow_reach h p c' (pre @ post) stuck"
| aborted: "escrow_reach h p c (pre @ (src, dst) # post) stuck \<Longrightarrow> same_deployment h h' \<Longrightarrow>
    eh_predecessor h' = eh_current h' \<Longrightarrow> es_resolve_transfers h' src dst c = Inl e \<Longrightarrow>
    escrow_reach h p c (pre @ post) ((src, dst) # stuck)"

subsection \<open>The account kept by the events\<close>

fun ev_funded :: "escrow_event \<Rightarrow> nat" where
  "ev_funded (EvFunded p a r) = a" | "ev_funded _ = 0"

fun ev_sold :: "escrow_event \<Rightarrow> nat" where
  "ev_sold (EvFill f) = fe_taker_src_out f" | "ev_sold _ = 0"

fun ev_paid :: "escrow_event \<Rightarrow> nat" where
  "ev_paid (EvFill f) = fe_taker_dst_used f" | "ev_paid _ = 0"

fun ev_earned :: "escrow_event \<Rightarrow> nat" where
  "ev_earned (EvFill f) = fe_maker_dst_out f" | "ev_earned _ = 0"

fun ev_refunded_src :: "escrow_event \<Rightarrow> nat" where
  "ev_refunded_src (EvMakerRefunded m) = ms_src m" | "ev_refunded_src _ = 0"

fun ev_refunded_dst :: "escrow_event \<Rightarrow> nat" where
  "ev_refunded_dst (EvMakerRefunded m) = ms_dst m" | "ev_refunded_dst _ = 0"

fun ev_lost_src :: "escrow_event \<Rightarrow> nat" where
  "ev_lost_src (EvMakerLost m) = ms_src m" | "ev_lost_src _ = 0"

fun ev_lost_dst :: "escrow_event \<Rightarrow> nat" where
  "ev_lost_dst (EvMakerLost m) = ms_dst m" | "ev_lost_dst _ = 0"

definition ev_sum :: "(escrow_event \<Rightarrow> nat) \<Rightarrow> escrow_event list \<Rightarrow> nat" where
  "ev_sum f evs = sum_list (map f evs)"

lemma ev_sum_simps [simp]: "ev_sum f [] = 0" "ev_sum f (evs @ evs') = ev_sum f evs + ev_sum f evs'"
    "ev_sum f (e # evs) = f e + ev_sum f evs"
  by (simp_all add: ev_sum_def)

definition amount_of :: "sent option \<Rightarrow> nat" where
  "amount_of sn = (case sn of None \<Rightarrow> 0 | Some s \<Rightarrow> sn_amount s)"

lemma amount_of_simps [simp]: "amount_of None = 0" "amount_of (Some s) = sn_amount s"
  by (simp_all add: amount_of_def)

definition out_src :: "callbacks \<Rightarrow> nat" where
  "out_src cs = sum_list (map (amount_of \<circ> fst) cs)"

definition out_dst :: "callbacks \<Rightarrow> nat" where
  "out_dst cs = sum_list (map (amount_of \<circ> snd) cs)"

lemma out_simps [simp]:
  "out_src [] = 0" "out_src (x # cs) = amount_of (fst x) + out_src cs" "out_src (cs @ cs') = out_src cs + out_src cs'"
  "out_dst [] = 0" "out_dst (x # cs) = amount_of (snd x) + out_dst cs" "out_dst (cs @ cs') = out_dst cs + out_dst cs'"
  by (simp_all add: out_src_def out_dst_def)

definition supported :: "sent option \<Rightarrow> bool" where
  "supported sn \<longleftrightarrow> (case sn of None \<Rightarrow> True | Some s \<Rightarrow> sn_token_type s \<in> {TNep141, TNep245})"

text \<open>
  The maker's account: what was funded is what remains, what was sold and what was sent back less
  what came back; of the other token what came back is kept or was sent again; what is outstanding
  was sent; and all sales together are at the maker's price or above.
\<close>

definition balanced :: "params \<Rightarrow> nat \<Rightarrow> nat \<Rightarrow> escrow_event list \<Rightarrow> callbacks \<Rightarrow> bool" where
  "balanced p remaining lost evs out \<longleftrightarrow>
     remaining + ev_sum ev_sold evs + ev_sum ev_refunded_src evs = ev_sum ev_funded evs + ev_sum ev_lost_src evs \<and>
     lost + ev_sum ev_refunded_dst evs = ev_sum ev_lost_dst evs \<and>
     ev_sum ev_lost_src evs + out_src out \<le> ev_sum ev_refunded_src evs \<and>
     ev_sum ev_lost_dst evs + out_dst out \<le> ev_sum ev_refunded_dst evs + ev_sum ev_earned evs \<and>
     ev_sum ev_earned evs \<le> ev_sum ev_paid evs \<and>
     ev_sum ev_sold evs * ud_digits (price p) \<le> ev_sum ev_paid evs * denominator (price p)"

definition state_ok :: "params \<Rightarrow> escrow_state \<Rightarrow> callbacks \<Rightarrow> bool" where
  "state_ok p s out \<longleftrightarrow>
     s_deadline s = p_deadline p \<and> in_flight s = length out \<and> in_flight s \<le> u_max 32 \<and>
     maker_src_remaining s + out_src out \<le> u_max 128 \<and> maker_dst_lost s \<le> u_max 128 \<and>
     (\<not> closed s \<longrightarrow> out_src out = 0) \<and>
     (\<forall>(a, b) \<in> set out. supported a \<and> supported b)"

definition acct :: "params \<Rightarrow> es_mut \<Rightarrow> callbacks \<Rightarrow> bool" where
  "acct p m out \<longleftrightarrow> state_ok p (fst m) out \<and>
     balanced p (maker_src_remaining (fst m)) (maker_dst_lost (fst m)) (snd m) out"

definition escrow_inv :: "escrow_host \<Rightarrow> params \<Rightarrow> escrow \<Rightarrow> callbacks \<Rightarrow> bool" where
  "escrow_inv h p c out \<longleftrightarrow> (case es_storage c of
      Some st \<Rightarrow> params_hash st = eh_hash h p \<and> acct p (st_state st, es_events c) out
    | None \<Rightarrow> out = [] \<and> balanced p 0 0 (es_events c) [])"

subsection \<open>Every method keeps the account\<close>

lemma fund_acct:
  assumes "fund p sender a (s, evs) = Inr (m', r)" and "acct p (s, evs) out" and "\<not> closed s"
  shows "acct p m' (out @ opt_resolves (out_promise r))"
  using assms by (auto simp: fund_def result_simps checked_add_u_Some acct_def state_ok_def balanced_def out_promise_def)

lemma fill_acct:
  assumes f: "fill env p sender d msg (s, evs) = Inr (m', r)" and a: "acct p (s, evs) out" and "\<not> closed s"
    and W: "wide_unsigned_ok (eh_wide env)" and ok: "ud_ok (price p)" "ud_ok (fa_price msg)" and d: "d \<le> u_max 128"
  shows "acct p m' (out @ opt_resolves (out_promise r))"
proof -
  obtain s' evs' where m': "m' = (s', evs')" by (cases m')
  have rem: "maker_src_remaining s \<le> u_max 128" using a by (simp add: acct_def state_ok_def)
  from f [unfolded m'] show ?thesis
  proof (rule fill_Inr)
    fix src_out used pfees ifees q out' maker_dst maker_p taker_p v ev
    assume cmp: "ud_cmp (fa_price msg) (price p) \<noteq> Less"
      and swap: "taker_swap (eh_wide env) s d (fa_price msg) (partial_fills_allowed p) = Inr (src_out, used)"
      and fees: "collect_fees (dst_token p) pfees ifees used = Inr (q, out')"
      and mk: "send_for_resolve (dst_token p) (unwrap_or_es (os_receiver_id (receive_dst_to p)) (maker p)) out'
         (receive_dst_to p) True = Inr (maker_dst, maker_p)"
      and tk: "send_token (src_token p) (unwrap_or_es (os_receiver_id (fa_receive_src_to msg)) sender) src_out
         (os_memo (fa_receive_src_to msg)) (os_msg (fa_receive_src_to msg)) (os_min_gas (fa_receive_src_to msg)) True = Inr taker_p"
      and le: "src_out \<le> maker_src_remaining s" and fl: "in_flight s < u_max 32"
      and s': "s' = s\<lparr>maker_src_remaining := maker_src_remaining s - src_out, in_flight := in_flight s + 1\<rparr>"
      and ev: "evs' = evs @ [EvFill ev]" "fe_taker_src_out ev = src_out" "fe_taker_dst_used ev = used" "fe_maker_dst_out ev = out'"
      and r: "r = OPromise (PThen (and_maybe q (PAnd maker_p taker_p))
         (PResolveReturn None (Some maker_dst) ESCROW_RESOLVE_TRANSFERS_GAS v RETURN_VALUE_GAS))"
    have res: "opt_resolves (out_promise r) = [(None, Some maker_dst)]"
      using collect_fees_resolves [OF fees] send_for_resolve_PSend [OF mk] send_token_PSend [OF tk]
      by (auto simp: r out_promise_def)
    obtain fs where "used = out' + fs" using collect_fees_total [OF fees] by blast
    moreover have "src_out * ud_digits (price p) \<le> used * denominator (price p)"
      using price_transitive [OF ok cmp taker_swap_Inr(3) [OF swap W ok(2) d rem]] .
    ultimately show ?thesis
      using a le fl send_for_resolve_total(2,4) [OF mk] \<open>\<not> closed s\<close>
      by (auto simp: m' s' ev res acct_def state_ok_def balanced_def supported_def add_mult_distrib)
  qed
qed

lemma state_on_receive_acct:
  assumes "state_on_receive env p sender t d action (s, evs) = Inr (m', r)" and "acct p (s, evs) out"
    and "wide_unsigned_ok (eh_wide env)" and "ud_ok (price p)" and "\<And>f. action = Fill f \<Longrightarrow> ud_ok (fa_price f)"
    and "d \<le> u_max 128"
  shows "acct p m' (out @ opt_resolves (out_promise r))"
  using assms by (cases action)
    (auto simp: state_on_receive_def result_simps intro: fund_acct fill_acct split: if_splits)

lemma send_maker_Inr:
  assumes "send_maker t p os amount = Inr x"
  obtains (nothing) "x = None" and "amount = None \<or> amount = Some 0"
  | (sent) a sn y where "x = Some (sn, PSend y)" and "amount = Some a" and "0 < a" and "sn_amount sn = a"
      and "supported (Some sn)"
proof (cases "amount = None \<or> amount = Some 0")
  case True
  then have "x = None" using assms by (auto simp: send_maker_def)
  then show thesis using True that(1) by blast
next
  case False
  then obtain a where a: "amount = Some a" "0 < a" by auto
  then obtain sn q where sn: "send_for_resolve t (unwrap_or_es (os_receiver_id os) (maker p)) a os True = Inr (sn, q)"
    and x: "x = Some (sn, q)" using assms by (auto simp: send_maker_def result_simps)
  obtain y where "q = PSend y" using send_for_resolve_PSend [OF sn] by blast
  then show thesis using that(2) x a send_for_resolve_total(2,4) [OF sn] by (simp add: supported_def)
qed

lemma state_lost_found_acct:
  assumes "state_lost_found p (s, evs) = Inr (m', q)" and a: "acct p (s, evs) out"
  shows "acct p m' (out @ opt_resolves q)"
proof -
  define s1 where "s1 = (if closed s then s\<lparr>maker_src_remaining := 0\<rparr> else s)"
  have s1: "maker_dst_lost s1 = maker_dst_lost s" by (simp add: s1_def)
  obtain src dst where
    src: "send_maker (src_token p) p (refund_src_to p) (if closed s then Some (maker_src_remaining s) else None) = Inr src"
    and dst: "send_maker (dst_token p) p (receive_dst_to p) (Some (maker_dst_lost s)) = Inr dst"
    and rest: "(case reduce_and (map_option snd src) (map_option snd dst) of
       None \<Rightarrow> Inr ((s1\<lparr>maker_dst_lost := 0\<rparr>, evs), None)
     | Some send \<Rightarrow> bind_r (callback_resolve_transfers (map_option fst src) (map_option fst dst) (s1\<lparr>maker_dst_lost := 0\<rparr>))
         (\<lambda>(s3, cb). Inr ((s3, evs @ [EvMakerRefunded (from_sent (map_option fst src) (map_option fst dst))]),
           Some (PThen send cb)))) = Inr (m', q)"
    using assms(1) unfolding state_lost_found_def prod.case Let_def s1_def [symmetric] s1 bind_r_Inr by blast
  from src dst rest a show ?thesis
    by (elim send_maker_Inr)
      (auto simp: reduce_and_def callback_resolve_transfers_def callback_def result_simps checked_add_u_Some from_sent_def
        s1_def acct_def state_ok_def balanced_def supported_def split: if_splits)
qed

lemma close_unchecked_acct: "acct p m out \<Longrightarrow> acct p (close_unchecked reason m) out"
  by (cases m) (auto simp: close_unchecked_def acct_def state_ok_def balanced_def)

lemma state_close_acct:
  assumes "state_close env signer p (s, evs) = Inr (m', q)" and "acct p (s, evs) out"
  shows "acct p m' (out @ opt_resolves q)"
proof -
  obtain s1 evs1 where "acct p (s1, evs1) out" and "state_lost_found p (s1, evs1) = Inr (m', q)"
    using assms close_unchecked_acct [OF assms(2)]
    by (auto simp: state_close_def result_simps split: if_splits) (metis surj_pair)+
  then show ?thesis by (rule state_lost_found_acct [rotated])
qed

lemma resolve_refund_le: "resolve_refund env s idx = Inr r \<Longrightarrow> r \<le> sn_amount s"
  by (auto simp: resolve_refund_def result_simps)

lemma resolve_refund_total:
  "supported (Some s) \<Longrightarrow> \<exists>r. resolve_refund env s idx = Inr r"
  by (auto simp: resolve_refund_def resolve_used_def supported_def)

lemma resolve_one_Inr:
  "resolve_one env idx sn lost = Inr (sn', lost') \<Longrightarrow>
     lost' = lost + amount_of sn' \<and> amount_of sn' \<le> amount_of sn \<and> (lost \<le> u_max 128 \<longrightarrow> lost' \<le> u_max 128)"
  by (cases sn) (auto simp: resolve_one_def result_simps checked_add_u_Some dest: resolve_refund_le)

lemma from_sent_amounts [simp]: "ms_src (from_sent a b) = amount_of a" "ms_dst (from_sent a b) = amount_of b"
  by (simp_all add: from_sent_def amount_of_def)

lemma state_resolve_acct:
  assumes "state_resolve_transfers env src dst (s\<lparr>in_flight := n\<rparr>, evs) = Inr m'"
    and a: "acct p (s, evs) (pre @ (src, dst) # post)" and n: "in_flight s = Suc n"
  shows "acct p m' (pre @ post)"
proof -
  obtain src' remaining dst' lost where
    r: "resolve_one env 0 src (maker_src_remaining s) = Inr (src', remaining)"
      "resolve_one env (if src = None then 0 else 1) dst (maker_dst_lost s) = Inr (dst', lost)"
    and m': "m' = (s\<lparr>in_flight := n, maker_src_remaining := remaining, maker_dst_lost := lost\<rparr>,
         if amount_of src' = 0 \<and> amount_of dst' = 0 then evs else evs @ [EvMakerLost (from_sent src' dst')])"
    using assms(1) by (auto simp: state_resolve_transfers_def result_simps Let_def)
  note i = resolve_one_Inr [OF r(1)] resolve_one_Inr [OF r(2)]
  have "state_ok p (fst m') (pre @ post)"
    using a i n by (auto simp: m' acct_def state_ok_def)
  moreover have "balanced p remaining lost (snd m') (pre @ post)"
    using a i by (auto simp: m' acct_def balanced_def)
  ultimately show ?thesis by (simp add: acct_def m')
qed

subsection \<open>Cleanup\<close>

lemma should_cleanup_acct:
  assumes "should_cleanup env (s, evs) = (del, s', evs')" and a: "acct p (s, evs) out"
  shows "acct p (s', evs') out"
    and "del \<Longrightarrow> out = [] \<and> maker_src_remaining s' = 0 \<and> maker_dst_lost s' = 0 \<and> closed s' \<and> p_deadline p < eh_now env"
proof -
  have s': "(s', evs') = (if \<not> closed s \<and> s_deadline s < eh_now env then close_unchecked DeadlineReached (s, evs) else (s, evs))"
    and del: "del \<longleftrightarrow> closed s' \<and> in_flight s' = 0 \<and> maker_src_remaining s' = 0 \<and> maker_dst_lost s' = 0 \<and> s_deadline s < eh_now env"
    using assms(1) by (auto simp: should_cleanup_def Let_def split: prod.splits if_splits)
  show acct: "acct p (s', evs') out" unfolding s' using close_unchecked_acct [OF a] a by simp
  show "del \<Longrightarrow> out = [] \<and> maker_src_remaining s' = 0 \<and> maker_dst_lost s' = 0 \<and> closed s' \<and> p_deadline p < eh_now env"
    using a acct del by (auto simp: acct_def state_ok_def)
qed

lemma maybe_cleanup_inv:
  assumes "escrow_inv h p c out" and "same_deployment h env"
  shows "escrow_inv h p (fst (maybe_cleanup env c)) out"
proof (cases "es_storage c")
  case None
  then show ?thesis using assms by (simp add: maybe_cleanup_def)
next
  case (Some st)
  then have a: "acct p (st_state st, es_events c) out" and hash: "params_hash st = eh_hash h p"
    using assms by (simp_all add: escrow_inv_def)
  obtain del s evs where sc: "should_cleanup env (st_state st, es_events c) = (del, s, evs)" by (cases "should_cleanup env (st_state st, es_events c)")
  note sa = should_cleanup_acct [OF sc a]
  show ?thesis
  proof (cases del)
    case True
    have "balanced p 0 0 evs []" using sa True by (auto simp: acct_def)
    then have "balanced p 0 0 (evs @ [EvCleanup]) []" by (simp add: balanced_def)
    then show ?thesis using sa(2) True Some sc by (simp add: maybe_cleanup_def escrow_inv_def)
  next
    case False
    then show ?thesis using sa(1) hash Some sc by (simp add: maybe_cleanup_def escrow_inv_def)
  qed
qed

lemma drop_guard_inv:
  assumes "drop_guard env r = Inr (c', v)" and "same_deployment h env"
    and "\<And>c. r = Inr (c, v) \<Longrightarrow> escrow_inv h p c out"
  shows "escrow_inv h p c' out"
  using assms maybe_cleanup_inv by (auto simp: drop_guard_def result_simps)

subsection \<open>Every call keeps the account\<close>

definition collision_free :: "escrow_host \<Rightarrow> params \<Rightarrow> bool" where
  "collision_free h p \<longleftrightarrow> (\<forall>q. eh_hash h q = eh_hash h p \<longrightarrow> q = p)"

lemma with_state_inv:
  assumes "with_state env q f c = Inr (c', v)" and inv: "escrow_inv h p c out" and "same_deployment h env" and "collision_free h p"
    and step: "\<And>s evs m'. q = p \<Longrightarrow> f (s, evs) = Inr (m', v) \<Longrightarrow> acct p (s, evs) out \<Longrightarrow> acct p m' out'"
  shows "escrow_inv h p c' out'"
proof -
  from assms(1) obtain s s' evs' where al: "alive_state env q c = Inr s" and f: "f (s, es_events c) = Inr ((s', evs'), v)"
    and c': "c' = put_state s' (c\<lparr>es_events := evs'\<rparr>)" by (auto simp: with_state_def result_simps)
  from al obtain st where st: "es_storage c = Some st" "params_hash st = eh_hash env q" "s = st_state st"
    by (auto simp: alive_state_def try_as_alive_def verify_def result_simps)
  have "q = p" using st inv assms(3,4) by (auto simp: escrow_inv_def same_deployment_def collision_free_def)
  moreover have "acct p (s, es_events c) out" using inv st by (simp add: escrow_inv_def)
  ultimately have "acct p (s', evs') out'" using step f by blast
  then show ?thesis using inv st by (simp add: c' put_state_def escrow_inv_def)
qed

lemma on_receive_inv:
  assumes run: "on_receive env sender t d msg c = Inr (c', r)" and inv: "escrow_inv h p c out"
    and env: "same_deployment h env" "collision_free h p" "wide_unsigned_ok (eh_wide h)" "ud_ok (price p)" "decodes_typed env"
    and d: "d \<le> u_max 128"
  shows "escrow_inv h p c' (out @ opt_resolves (out_promise r))"
proof -
  obtain tm where tm: "eh_parse_transfer env msg = Some tm"
    and g: "drop_guard env (with_state env (tm_params tm) (state_on_receive env (tm_params tm) sender t d (tm_action tm)) c) = Inr (c', r)"
    using run by (auto simp: on_receive_def result_simps)
  have W: "wide_unsigned_ok (eh_wide env)" using env by (simp add: same_deployment_def)
  from g env(1) show ?thesis
  proof (rule drop_guard_inv)
    fix c1 assume "with_state env (tm_params tm) (state_on_receive env (tm_params tm) sender t d (tm_action tm)) c = Inr (c1, r)"
    then show "escrow_inv h p c1 (out @ opt_resolves (out_promise r))"
      using inv env(1,2)
    proof (rule with_state_inv)
      fix s evs m' assume p: "tm_params tm = p"
        and f: "state_on_receive env (tm_params tm) sender t d (tm_action tm) (s, evs) = Inr (m', r)" and a: "acct p (s, evs) out"
      have "ud_ok (fa_price x)" if "tm_action tm = Fill x" for x using env(5) tm that by (auto simp: decodes_typed_def)
      then show "acct p m' (out @ opt_resolves (out_promise r))"
        using state_on_receive_acct [OF f [unfolded p] a W env(4) _ d] by blast
    qed
  qed
qed

lemma finish_inv:
  assumes "finish env r = Inr (c', v)" and "same_deployment h env"
    and "\<And>c q. r = Inr (c, q) \<Longrightarrow> escrow_inv h p c (out @ opt_resolves q)"
  shows "escrow_inv h p c' (out @ opt_resolves (out_promise v))"
proof -
  obtain c q where r: "r = Inr (c, q)" using assms(1) by (auto simp: finish_def result_simps)
  note i = assms(3) [OF r]
  show ?thesis
    using assms(1) i maybe_cleanup_inv [OF i assms(2)]
    by (auto simp: finish_def r out_promise_def split: option.splits prod.splits)
qed

lemma drop_finish_inv:
  assumes "drop_guard env (finish env (with_state env q f c)) = Inr (c', v)" and "escrow_inv h p c out"
    and "same_deployment h env" and "collision_free h p"
    and "\<And>s evs m' x. q = p \<Longrightarrow> f (s, evs) = Inr (m', x) \<Longrightarrow> acct p (s, evs) out \<Longrightarrow> acct p m' (out @ opt_resolves x)"
  shows "escrow_inv h p c' (out @ opt_resolves (out_promise v))"
  using assms(1,3)
proof (rule drop_guard_inv)
  fix c1 assume "finish env (with_state env q f c) = Inr (c1, v)"
  then show "escrow_inv h p c1 (out @ opt_resolves (out_promise v))"
    using assms(3)
  proof (rule finish_inv)
    fix c2 x assume "with_state env q f c = Inr (c2, x)"
    then show "escrow_inv h p c2 (out @ opt_resolves x)"
      using assms(2,3,4) by (rule with_state_inv) (rule assms(5))
  qed
qed

lemma on_auth_inv:
  assumes "on_auth env signer msg c = Inr (c', v)" and inv: "escrow_inv h p c out"
    and env: "same_deployment h env" "collision_free h p"
  shows "escrow_inv h p c' (out @ opt_resolves (out_promise v))"
proof -
  have act: "am_action a = AuthClose" for a :: auth_message by (cases "am_action a")
  obtain am :: auth_message where g: "drop_guard env (bind_r (alive_state env (am_params am) c) (\<lambda>_.
     bind_r (require_r (auth_caller (am_params am) = Some (eh_predecessor env)) Unauthorized) (\<lambda>_.
     bind_r (with_state env (am_params am) (state_close env signer (am_params am)) c) (\<lambda>(c', q).
         Inr (c', case q of None \<Rightarrow> OValue () | Some q \<Rightarrow> OPromise q))))) = Inr (c', v)"
    using assms(1) unfolding on_auth_def act auth_action.case bind_r_Inr by blast
  from g env(1) show ?thesis
  proof (rule drop_guard_inv)
    fix c1 assume "bind_r (alive_state env (am_params am) c) (\<lambda>_.
     bind_r (require_r (auth_caller (am_params am) = Some (eh_predecessor env)) Unauthorized) (\<lambda>_.
     bind_r (with_state env (am_params am) (state_close env signer (am_params am)) c) (\<lambda>(c', q).
         Inr (c', case q of None \<Rightarrow> OValue () | Some q \<Rightarrow> OPromise q)))) = Inr (c1, v)"
    then obtain x where run: "with_state env (am_params am) (state_close env signer (am_params am)) c = Inr (c1, x)"
      and x: "out_promise v = x"
      by (auto simp: result_simps out_promise_def split: option.splits)
    show "escrow_inv h p c1 (out @ opt_resolves (out_promise v))" unfolding x using run inv env
    proof (rule with_state_inv)
      fix s evs m'
      assume p: "am_params am = p" and f: "state_close env signer (am_params am) (s, evs) = Inr (m', x)" and a: "acct p (s, evs) out"
      show "acct p m' (out @ opt_resolves x)" using state_close_acct [OF f [unfolded p] a] .
    qed
  qed
qed

lemma out_promise_single [simp]: "out_promise (case x of OValue y \<Rightarrow> OValue [y] | OPromise q \<Rightarrow> OPromise q) = out_promise x"
  by (simp add: out_promise_def split: outcome.splits)

lemma mt_on_transfer_inv:
  assumes "mt_on_transfer env sender owners ids amounts msg c = Inr (c', r)" and "escrow_inv h p c out"
    and "same_deployment h env" "collision_free h p" "wide_unsigned_ok (eh_wide h)" "ud_ok (price p)" "decodes_typed env"
    and "\<forall>a \<in> set amounts. a \<le> u_max 128"
  shows "escrow_inv h p c' (out @ opt_resolves (out_promise r))"
proof -
  obtain i a x where a: "single amounts = Some a" and run: "on_receive env sender (Nep245 (eh_predecessor env) i) a msg c = Inr (c', x)"
    and r: "out_promise r = out_promise x"
    using assms(1) by (auto simp: mt_on_transfer_def result_simps split: option.splits)
  have "a \<le> u_max 128" using a assms(8) by (auto simp: single_def split: list.splits)
  then show ?thesis unfolding r using run assms(2-7) by (intro on_receive_inv)
qed

lemma run_escrow_call_inv:
  assumes run: "run_escrow_call env call c = Inr (c', q)" and inv: "escrow_inv h p c out"
    and env: "same_deployment h env" "collision_free h p" "wide_unsigned_ok (eh_wide h)" "ud_ok (price p)" "decodes_typed env"
    and typed: "call_typed call"
  shows "escrow_inv h p c' (out @ opt_resolves q)"
proof (cases call)
  case (CallFt sender d msg)
  then obtain r where "q = out_promise r" and "on_receive env sender (Nep141 (eh_predecessor env)) d msg c = Inr (c', r)"
    using run by (auto simp: promised_def ft_on_transfer_def result_simps)
  then show ?thesis using on_receive_inv inv env typed CallFt by simp
next
  case (CallMt sender owners ids amounts msg)
  then obtain r where "q = out_promise r" and "mt_on_transfer env sender owners ids amounts msg c = Inr (c', r)"
    using run by (auto simp: promised_def result_simps)
  then show ?thesis using mt_on_transfer_inv inv env typed CallMt by simp
next
  case (CallClose p')
  then obtain r where q: "q = out_promise r" and r: "es_close env p' c = Inr (c', r)"
    using run by (auto simp: promised_def result_simps)
  show ?thesis unfolding q using r [unfolded es_close_def] inv env(1,2)
    by (rule drop_finish_inv) (auto intro: state_close_acct)
next
  case (CallLostFound p')
  then obtain r where q: "q = out_promise r" and r: "es_lost_found env p' c = Inr (c', r)"
    using run by (auto simp: promised_def result_simps)
  show ?thesis unfolding q using r [unfolded es_lost_found_def] inv env(1,2)
    by (rule drop_finish_inv) (auto intro: state_lost_found_acct)
next
  case (CallAuth signer msg)
  then obtain r where "q = out_promise r" and "on_auth env signer msg c = Inr (c', r)"
    using run by (auto simp: promised_def result_simps)
  then show ?thesis using on_auth_inv inv env(1,2) by simp
qed

lemma es_resolve_inv:
  assumes run: "es_resolve_transfers env src dst c = Inr (c', b)" and inv: "escrow_inv h p c (pre @ (src, dst) # post)"
    and env: "same_deployment h env"
  shows "escrow_inv h p c' (pre @ post)"
proof -
  from run obtain st s s' evs' where st: "es_storage c = Some st" and cb: "on_callback (st_state st) = Inr s"
    and rs: "state_resolve_transfers env src dst (s, es_events c) = Inr (s', evs')"
    and c': "c' = fst (maybe_cleanup env (fst (maybe_cleanup env (put_state s' (c\<lparr>es_events := evs'\<rparr>)))))"
    by (auto simp: es_resolve_transfers_def try_as_alive_def drop_guard_def Let_def result_simps split_def)
  obtain n where n: "in_flight (st_state st) = Suc n" "s = (st_state st)\<lparr>in_flight := n\<rparr>"
    using cb by (auto simp: on_callback_def result_simps checked_sub_u_Some)
  have "acct p (s', evs') (pre @ post)"
    using inv st by (intro state_resolve_acct [OF rs [unfolded n(2)] _ n(1)]) (simp add: escrow_inv_def)
  then have "escrow_inv h p (put_state s' (c\<lparr>es_events := evs'\<rparr>)) (pre @ post)"
    using inv st by (simp add: put_state_def escrow_inv_def)
  then show ?thesis unfolding c' using env by (intro maybe_cleanup_inv)
qed

lemma escrow_inv_perm:
  assumes "escrow_inv h p c out" and "mset out = mset out'"
  shows "escrow_inv h p c out'"
proof -
  have sums: "out_src out = out_src out'" "out_dst out = out_dst out'"
    using assms(2) by (metis out_src_def mset_map sum_mset_sum_list, metis out_dst_def mset_map sum_mset_sum_list)
  have "set out = set out'" and "length out = length out'" and "out = [] \<longleftrightarrow> out' = []"
    using assms(2) by (auto dest: mset_eq_setD mset_eq_length)
  then show ?thesis using assms(1) sums
    by (auto simp: escrow_inv_def acct_def state_ok_def balanced_def split: option.splits)
qed

lemma escrow_reach_inv:
  assumes "escrow_reach h p c pending stuck" and "collision_free h p" and "wide_unsigned_ok (eh_wide h)" and "ud_ok (price p)"
  shows "escrow_inv h p c (pending @ stuck)"
  using assms(1)
proof induction
  case (deployed c)
  then show ?case
    by (auto simp: escrow_init_def storage_new_def result_simps escrow_inv_def acct_def state_ok_def balanced_def)
next
  case (called c pending stuck h' call c' q)
  then have "escrow_inv h p c' ((pending @ stuck) @ opt_resolves q)"
    using run_escrow_call_inv assms(2-4) by blast
  then show ?case by (rule escrow_inv_perm) simp
next
  case (resolved c pre src dst post stuck h' c' b)
  then have "escrow_inv h p c' (pre @ (post @ stuck))"
    using es_resolve_inv [where post = "post @ stuck" and pre = pre] by simp
  then show ?case by simp
next
  case (aborted c pre src dst post stuck h' e)
  show ?case using aborted(5) by (rule escrow_inv_perm) simp
qed

subsection \<open>Guarantees\<close>

definition held_src :: "escrow \<Rightarrow> nat" where
  "held_src c = (case es_storage c of None \<Rightarrow> 0 | Some st \<Rightarrow> maker_src_remaining (st_state st))"

definition held_dst :: "escrow \<Rightarrow> nat" where
  "held_dst c = (case es_storage c of None \<Rightarrow> 0 | Some st \<Rightarrow> maker_dst_lost (st_state st))"

text \<open>C18: Over any sequence of calls by anybody and of callbacks in any order, with any results of the
  transfers, the maker's tokens are accounted for: what the maker funded is what the contract still
  holds, what was sold and what was sent back to the maker and did not return; of the other token
  the contract holds exactly what returned and was not sent again; what may still return was sent;
  and what the takers paid for all they received is at least the maker's price.\<close>

theorem escrow_accounting:
  assumes "escrow_reach h p c pending stuck" and "collision_free h p" and "wide_unsigned_ok (eh_wide h)" and "ud_ok (price p)"
  shows "held_src c + ev_sum ev_sold (es_events c) + ev_sum ev_refunded_src (es_events c) =
      ev_sum ev_funded (es_events c) + ev_sum ev_lost_src (es_events c) \<and>
    held_dst c + ev_sum ev_refunded_dst (es_events c) = ev_sum ev_lost_dst (es_events c) \<and>
    ev_sum ev_lost_src (es_events c) + out_src (pending @ stuck) \<le> ev_sum ev_refunded_src (es_events c) \<and>
    ev_sum ev_lost_dst (es_events c) + out_dst (pending @ stuck) \<le>
      ev_sum ev_refunded_dst (es_events c) + ev_sum ev_earned (es_events c) \<and>
    ev_sum ev_earned (es_events c) \<le> ev_sum ev_paid (es_events c) \<and>
    ev_sum ev_sold (es_events c) * ud_digits (price p) \<le> ev_sum ev_paid (es_events c) * denominator (price p) \<and>
    (es_storage c = None \<longrightarrow> pending = [] \<and> stuck = [])"
  using escrow_reach_inv [OF assms]
  by (auto simp: escrow_inv_def acct_def balanced_def held_src_def held_dst_def split: option.splits)

lemma resolve_one_total:
  assumes "supported sn" and "lost + amount_of sn \<le> u_max 128"
  shows "\<exists>x. resolve_one env idx sn lost = Inr x"
proof (cases sn)
  case (Some s)
  then obtain r where "resolve_refund env s idx = Inr r" using resolve_refund_total assms by blast
  moreover have "lost + r \<le> u_max 128" using resolve_refund_le [OF calculation] assms(2) Some by simp
  ultimately show ?thesis using Some by (simp add: resolve_one_def checked_add_u_def fit_u_def)
qed (simp add: resolve_one_def)

text \<open>C19: While a transfer is outstanding the contract is not deleted, and the callback of the
  transfer does not abort, whatever the transfer returns, unless what the maker is owed of the
  bought token would exceed \<open>u128\<close>.\<close>

theorem callback_total:
  assumes "escrow_reach h p c (pre @ (src, dst) # post) stuck" and "collision_free h p"
    and "wide_unsigned_ok (eh_wide h)" and "ud_ok (price p)"
    and "same_deployment h h'" and "eh_predecessor h' = eh_current h'" and "held_dst c + amount_of dst \<le> u_max 128"
  shows "\<exists>c' b. es_resolve_transfers h' src dst c = Inr (c', b)"
proof -
  have inv: "escrow_inv h p c ((pre @ (src, dst) # post) @ stuck)" using escrow_reach_inv [OF assms(1-4)] .
  then obtain st where st: "es_storage c = Some st" and a: "acct p (st_state st, es_events c) ((pre @ (src, dst) # post) @ stuck)"
    by (auto simp: escrow_inv_def split: option.splits)
  let ?s = "st_state st"
  have ok: "0 < in_flight ?s" "in_flight ?s \<le> u_max 32" "maker_src_remaining ?s + amount_of src \<le> u_max 128" "supported src" "supported dst"
    using a by (auto simp: acct_def state_ok_def)
  obtain x where x: "resolve_one h' 0 src (maker_src_remaining ?s) = Inr x" using resolve_one_total [OF ok(4,3)] by blast
  have "maker_dst_lost ?s + amount_of dst \<le> u_max 128" using assms(7) st by (simp add: held_dst_def)
  then obtain y where y: "resolve_one h' (if src = None then 0 else 1) dst (maker_dst_lost ?s) = Inr y"
    using resolve_one_total [OF ok(5)] by blast
  have "on_callback ?s = Inr (?s\<lparr>in_flight := in_flight ?s - 1\<rparr>)"
    using ok(1,2) by (simp add: on_callback_def checked_sub_u_def fit_u_def of_nat_diff nat_diff_distrib)
  then show ?thesis using assms(6) st x y
    by (auto simp: es_resolve_transfers_def try_as_alive_def state_resolve_transfers_def drop_guard_def Let_def split_def)
qed

definition sendable :: "token_id \<Rightarrow> bool" where
  "sendable t \<longleftrightarrow> token_type t \<in> {TNep141, TNep245}"

text \<open>The account that is paid what a promise returns of a token: the maker, or who is named for it.\<close>

definition owed :: "token_id \<Rightarrow> params \<Rightarrow> override_send \<Rightarrow> nat \<Rightarrow> (token_id \<times> account_id \<times> nat) list" where
  "owed t p os n = (if n = 0 then [] else [(t, unwrap_or_es (os_receiver_id os) (maker p), n)])"

lemma send_maker_sends:
  assumes "sendable t"
  obtains x where "send_maker t p os (Some a) = Inr x" and "x = None \<longleftrightarrow> a = 0" and "opt_payouts (map_option snd x) = owed t p os a"
proof (cases "a = 0")
  case True
  then show thesis using that [of None] by (simp add: send_maker_def owed_def)
next
  case False
  obtain q where q: "send_token t (unwrap_or_es (os_receiver_id os) (maker p)) a (os_memo os) (os_msg os) (os_min_gas os) True = Inr q"
    using assms by (cases t) (auto simp: send_token_def sendable_def)
  show thesis
    using that [of "Some (\<lparr> sn_token_type = token_type t, sn_amount = a, sn_is_call = (os_msg os \<noteq> None) \<rparr>, q)"]
      q False send_token_payouts [OF q] by (simp add: send_maker_def send_for_resolve_def owed_def)
qed

lemma reduce_and_payouts: "opt_payouts (reduce_and a b) = opt_payouts a @ opt_payouts b"
  by (cases a; cases b) (simp_all add: reduce_and_def)

text \<open>C20: Once the deadline of the escrow has passed, anybody can close it, and closing pays out
  everything the contract holds for the maker of both tokens and keeps nothing back: each token in one
  payment, to the maker, or to the account the maker named for refunds of the token sold and for
  receipts of the token bought.\<close>

theorem close_returns_all:
  assumes "es_storage c = Some st" and "params_hash st = eh_hash env p" and "s_deadline (st_state st) < eh_now env"
    and "sendable (src_token p)" and "sendable (dst_token p)"
    and "in_flight (st_state st) < u_max 32" and "0 < held_src c + held_dst c"
  shows "\<exists>c' r. es_close env p c = Inr (c', OPromise r) \<and>
    payouts r = owed (src_token p) p (refund_src_to p) (held_src c) @ owed (dst_token p) p (receive_dst_to p) (held_dst c) \<and>
    held_src c' = 0 \<and> held_dst c' = 0 \<and> es_storage c' \<noteq> None"
proof -
  define s where "s = (st_state st)\<lparr>closed := True\<rparr>"
  have held: "held_src c = maker_src_remaining s" "held_dst c = maker_dst_lost s"
    using assms(1) by (simp_all add: held_src_def held_dst_def s_def)
  have same: "closed (st_state st) \<Longrightarrow> s = st_state st" by (cases "st_state st") (simp add: s_def)
  obtain evs where close: "state_close env (eh_predecessor env) p (st_state st, es_events c) = state_lost_found p (s, evs)"
  proof (cases "closed (st_state st)")
    case True
    then show thesis using that [of "es_events c"] same by (simp add: state_close_def)
  next
    case False
    then show thesis using that assms(3) by (simp add: state_close_def close_unchecked_def s_def)
  qed
  obtain x where
    x: "send_maker (src_token p) p (refund_src_to p) (Some (maker_src_remaining s)) = Inr x"
      "x = None \<longleftrightarrow> maker_src_remaining s = 0" "opt_payouts (map_option snd x) = owed (src_token p) p (refund_src_to p) (maker_src_remaining s)"
    by (rule send_maker_sends [OF assms(4)]) (rule that)
  obtain y where
    y: "send_maker (dst_token p) p (receive_dst_to p) (Some (maker_dst_lost s)) = Inr y"
      "y = None \<longleftrightarrow> maker_dst_lost s = 0" "opt_payouts (map_option snd y) = owed (dst_token p) p (receive_dst_to p) (maker_dst_lost s)"
    by (rule send_maker_sends [OF assms(5)]) (rule that)
  obtain q where q: "reduce_and (map_option snd x) (map_option snd y) = Some q"
    using assms(7) x(2) y(2) held by (cases x; cases y) (auto simp: reduce_and_def)
  have paid: "payouts q = owed (src_token p) p (refund_src_to p) (held_src c) @ owed (dst_token p) p (receive_dst_to p) (held_dst c)"
    using reduce_and_payouts [of "map_option snd x" "map_option snd y"] x(3) y(3) by (simp add: q held)
  define s3 where "s3 = s\<lparr>maker_src_remaining := 0, maker_dst_lost := 0, in_flight := in_flight s + 1\<rparr>"
  define r where "r = PThen q (PResolve (map_option fst x) (map_option fst y) ESCROW_RESOLVE_TRANSFERS_GAS)"
  define evs3 where "evs3 = evs @ [EvMakerRefunded (from_sent (map_option fst x) (map_option fst y))]"
  have "in_flight s < u_max 32" using assms(6) by (simp add: s_def)
  then have lf: "state_lost_found p (s, evs) = Inr ((s3, evs3), Some r)"
    using x(1) y(1) by (simp add: state_lost_found_def s_def q callback_resolve_transfers_def callback_def
        checked_add_u_def fit_u_def s3_def r_def evs3_def Let_def)
  define c1 where "c1 = put_state s3 (c\<lparr>es_events := evs3\<rparr>)"
  have c1: "es_storage c1 = Some (st\<lparr>st_state := s3\<rparr>)" using assms(1) by (simp add: c1_def put_state_def)
  have ws: "with_state env p (state_close env (eh_predecessor env) p) c = Inr (c1, Some r)"
    using assms(1,2) by (simp add: with_state_def alive_state_def try_as_alive_def verify_def close lf c1_def)
  have "\<not> fst (should_cleanup env (s3, es_events c1))"
    by (simp add: should_cleanup_def s3_def s_def Let_def split_def)
  then obtain c2 evs2 where c2: "fst (maybe_cleanup env c1) = c2" "es_storage c2 = Some (st\<lparr>st_state := s3\<rparr>)"
    by (auto simp: maybe_cleanup_def c1 split_def should_cleanup_def close_unchecked_def s3_def s_def Let_def)
  have "es_close env p c = Inr (c2, OPromise r)"
    by (simp add: es_close_def ws finish_def drop_guard_def c2(1))
  moreover have "payouts r = payouts q" by (simp add: r_def)
  moreover have "held_src c2 = 0" "held_dst c2 = 0" by (simp_all add: held_src_def held_dst_def c2(2) s3_def)
  ultimately show ?thesis using c2(2) paid by auto
qed

end
