(* ===== verification/EscrowSamples.thy ===== *)
theory EscrowSamples
  imports EscrowRuns Evaluation
begin

text \<open>
  A small escrow on which the guarantees of the contract \<open>escrow-swap\<close> are evaluated: alice sells
  1000 of a fungible token for a multi-token at 2.5 each, bob takes 100 at a price of 3, and the
  transfer to alice fails and comes back.
\<close>

definition no_override :: override_send where
  "no_override = \<lparr> os_receiver_id = None, os_memo = None, os_msg = None, os_min_gas = None \<rparr>"

definition swap_params :: params where
  "swap_params = \<lparr> maker = ''alice'', src_token = Nep141 ''usdc'', dst_token = Nep245 ''intents'' ''btc'',
     price = UD128 1 25, p_deadline = 1000, partial_fills_allowed = True, refund_src_to = no_override,
     receive_dst_to = no_override, taker_whitelist = [],
     p_protocol_fees = Some \<lparr> pf_fee = Pips 10000, pf_surplus = Pips 500000, pf_collector = ''dao'' \<rparr>,
     integrator_fees = [(''ref'', Pips 5000)], auth_caller = None, p_salt = [] \<rparr>"

definition swap_fill :: fill_action where
  "swap_fill = \<lparr> fa_price = UD128 0 3, fa_deadline = 900, fa_receive_src_to = no_override \<rparr>"

definition swap_host :: "account_id \<Rightarrow> int \<Rightarrow> escrow_host" where
  "swap_host caller now = \<lparr> eh_current = ''escrow'', eh_predecessor = caller, eh_signer = ''relay'', eh_now = now,
     eh_hash = (\<lambda>q. if q = swap_params then [1] else [0]), eh_wide = exact_wide,
     eh_parse_transfer = (\<lambda>m. if m = ''fund'' then Some \<lparr> tm_params = swap_params, tm_action = Fund \<rparr>
       else if m = ''fill'' then Some \<lparr> tm_params = swap_params, tm_action = Fill swap_fill \<rparr> else None),
     eh_parse_auth = (\<lambda>_. None), eh_result = (\<lambda>_. None), eh_json_u128 = (\<lambda>_. None), eh_json_u128s1 = (\<lambda>_. None) \<rparr>"

definition swap_new :: escrow where
  "swap_new = ok_value (escrow_init (swap_host ''escrow'' 0) swap_params) \<lparr> es_storage = None, es_events = [], es_detached = [] \<rparr>"

definition after_call :: "escrow_host \<Rightarrow> escrow_call \<Rightarrow> escrow \<Rightarrow> escrow \<times> escrow_promise option" where
  "after_call env call c = ok_value (run_escrow_call env call c) (c, None)"

definition fund_call :: escrow_call where "fund_call = CallFt ''alice'' 1000 ''fund''"
definition fill_call :: escrow_call where "fill_call = CallMt ''bob'' [''bob''] [''btc''] [310] ''fill''"

definition swap_funded :: escrow where
  "swap_funded = fst (after_call (swap_host ''usdc'' 10) fund_call swap_new)"

definition swap_filled :: escrow where
  "swap_filled = fst (after_call (swap_host ''intents'' 20) fill_call swap_funded)"

definition swap_sent :: sent where
  "swap_sent = \<lparr> sn_token_type = TNep245, sn_amount = 277, sn_is_call = False \<rparr>"

definition swap_lost :: escrow where
  "swap_lost = fst (ok_value (es_resolve_transfers (swap_host ''escrow'' 30) None (Some swap_sent) swap_filled) (swap_filled, False))"

text \<open>One evaluation of the whole run.\<close>

lemma swap_run:
  "is_ok (escrow_init (swap_host ''escrow'' 0) swap_params) \<and>
   is_ok (run_escrow_call (swap_host ''usdc'' 10) fund_call swap_new) \<and>
   snd (after_call (swap_host ''usdc'' 10) fund_call swap_new) = None \<and>
   is_ok (run_escrow_call (swap_host ''intents'' 20) fill_call swap_funded) \<and>
   opt_resolves (snd (after_call (swap_host ''intents'' 20) fill_call swap_funded)) = [(None, Some swap_sent)] \<and>
   is_ok (es_resolve_transfers (swap_host ''escrow'' 30) None (Some swap_sent) swap_filled) \<and>
   held_dst swap_filled = 0 \<and> held_src swap_lost = 897 \<and> held_dst swap_lost = 277 \<and>
   map_option params_hash (es_storage swap_lost) = Some [1] \<and>
   map_option (\<lambda>st. (s_deadline (st_state st), in_flight (st_state st))) (es_storage swap_lost) = Some (1000, 0)"
  by code_simp

lemma swap_same: "same_deployment (swap_host a n) (swap_host b m)"
  by (simp add: same_deployment_def swap_host_def)

lemma swap_hypotheses:
  "collision_free (swap_host a n) swap_params" "wide_unsigned_ok (eh_wide (swap_host a n))" "ud_ok (price swap_params)"
  "decodes_typed (swap_host a n)"
  by (simp_all add: collision_free_def decodes_typed_def swap_host_def wide_unsigned_ok_exact swap_params_def swap_fill_def
      ud_ok_def ud_normal_def MAX_DECIMALS_def u_max_def split: if_splits)

lemma run_after_call: "is_ok (run_escrow_call env call c) \<Longrightarrow> run_escrow_call env call c = Inr (fst (after_call env call c), snd (after_call env call c))"
  by (simp add: after_call_def flip: ok_value)

lemma reach_filled: "escrow_reach (swap_host ''escrow'' 0) swap_params swap_filled [(None, Some swap_sent)] []"
proof -
  have "escrow_init (swap_host ''escrow'' 0) swap_params = Inr swap_new"
    unfolding swap_new_def by (rule ok_value) (simp add: swap_run)
  then have 0: "escrow_reach (swap_host ''escrow'' 0) swap_params swap_new [] []" by (rule deployed)
  have "run_escrow_call (swap_host ''usdc'' 10) fund_call swap_new = Inr (swap_funded, None)"
    using run_after_call [of "swap_host ''usdc'' 10" fund_call swap_new] swap_run by (simp add: swap_funded_def)
  from called [OF 0 swap_same swap_hypotheses(4) _ this]
  have 1: "escrow_reach (swap_host ''escrow'' 0) swap_params swap_funded [] []"
    by (simp add: fund_call_def u_max_def)
  have "run_escrow_call (swap_host ''intents'' 20) fill_call swap_funded =
      Inr (swap_filled, snd (after_call (swap_host ''intents'' 20) fill_call swap_funded))"
    using run_after_call [of "swap_host ''intents'' 20" fill_call swap_funded] swap_run by (simp add: swap_filled_def)
  from called [OF 1 swap_same swap_hypotheses(4) _ this] show ?thesis
    using swap_run by (simp add: fill_call_def u_max_def)
qed

lemma reach_lost: "escrow_reach (swap_host ''escrow'' 0) swap_params swap_lost [] []"
proof -
  let ?r = "es_resolve_transfers (swap_host ''escrow'' 30) None (Some swap_sent) swap_filled"
  have "?r = Inr (swap_lost, snd (ok_value ?r (swap_filled, False)))"
    unfolding swap_lost_def using ok_value [of ?r] swap_run by simp
  from resolved [OF _ swap_same this, where pre = "[]" and post = "[]" and stuck = "[]"] reach_filled show ?thesis by simp
qed

theorem escrow_accounting_witness:
  "held_src swap_lost = 897 \<and>
   897 + ev_sum ev_sold (es_events swap_lost) + ev_sum ev_refunded_src (es_events swap_lost) =
     ev_sum ev_funded (es_events swap_lost) + ev_sum ev_lost_src (es_events swap_lost)"
  using escrow_accounting [OF reach_lost swap_hypotheses(1-3)] swap_run by simp

theorem callback_total_witness:
  "\<exists>c' b. es_resolve_transfers (swap_host ''escrow'' 30) None (Some swap_sent) swap_filled = Inr (c', b)"
proof (rule callback_total [where pre = "[]" and post = "[]" and stuck = "[]", OF _ swap_hypotheses(1-3) swap_same])
  show "escrow_reach (swap_host ''escrow'' 0) swap_params swap_filled ([] @ (None, Some swap_sent) # []) []"
    using reach_filled by simp
  show "eh_predecessor (swap_host ''escrow'' 30) = eh_current (swap_host ''escrow'' 30)" by (simp add: swap_host_def)
  have "held_dst swap_filled = 0" using swap_run by blast
  then show "held_dst swap_filled + amount_of (Some swap_sent) \<le> u_max 128" by (simp add: swap_sent_def u_max_def)
qed

theorem close_returns_all_witness:
  "\<exists>c' r. es_close (swap_host ''carol'' 2000) swap_params swap_lost = Inr (c', OPromise r) \<and>
    payouts r = [(Nep141 ''usdc'', ''alice'', 897), (Nep245 ''intents'' ''btc'', ''alice'', 277)] \<and>
    held_src c' = 0 \<and> held_dst c' = 0 \<and> es_storage c' \<noteq> None"
proof -
  have held: "held_src swap_lost = 897" "held_dst swap_lost = 277" using swap_run by blast+
  obtain st where "es_storage swap_lost = Some st" "params_hash st = [1]" "s_deadline (st_state st) = 1000" "in_flight (st_state st) = 0"
    using swap_run by auto
  then have "\<exists>c' r. es_close (swap_host ''carol'' 2000) swap_params swap_lost = Inr (c', OPromise r) \<and>
      payouts r = owed (src_token swap_params) swap_params (refund_src_to swap_params) (held_src swap_lost) @
        owed (dst_token swap_params) swap_params (receive_dst_to swap_params) (held_dst swap_lost) \<and>
      held_src c' = 0 \<and> held_dst c' = 0 \<and> es_storage c' \<noteq> None"
    by (intro close_returns_all [of _ st]) (simp_all add: swap_host_def swap_params_def sendable_def u_max_def held)
  then show ?thesis unfolding held by (simp add: swap_params_def owed_def no_override_def unwrap_or_es_def)
qed

definition open_state :: escrow_state where
  "open_state = \<lparr> maker_src_remaining = 1000, maker_dst_lost = 0, s_deadline = 1000, closed = False, in_flight = 0 \<rparr>"

lemma open_fill: "is_ok (fill (swap_host ''intents'' 20) swap_params ''bob'' 310 swap_fill (open_state, []))"
  by code_simp

theorem fill_conserves_witness:
  "\<exists>s' evs' r fees out src_out used.
    fill (swap_host ''intents'' 20) swap_params ''bob'' 310 swap_fill (open_state, []) = Inr ((s', evs'), OPromise r) \<and>
    payouts r = [(Nep245 ''intents'' ''btc'', ''alice'', out), (Nep141 ''usdc'', ''bob'', src_out)] @
      map (Pair (Nep245 ''intents'' ''btc'')) (filter (\<lambda>(_, x). x \<noteq> 0) fees) \<and>
    1000 = maker_src_remaining s' + src_out \<and> used = sum_list (map snd fees) + out \<and> src_out * 25 \<le> used * 10"
proof -
  obtain s' evs' x where x: "fill (swap_host ''intents'' 20) swap_params ''bob'' 310 swap_fill (open_state, []) = Inr ((s', evs'), x)"
    using open_fill by (auto simp: is_ok_Ex)
  obtain r where r: "x = OPromise r" using x by (rule fill_Inr) blast
  have "ud_ok (fa_price swap_fill)" "(310::nat) \<le> u_max 128" "maker_src_remaining open_state \<le> u_max 128"
    by (simp_all add: swap_fill_def open_state_def ud_ok_def ud_normal_def MAX_DECIMALS_def u_max_def)
  from fill_conserves [OF x [unfolded r] swap_hypotheses(2,3) this] obtain fees out src_out used where
    "payouts r = [(dst_token swap_params, unwrap_or_es (os_receiver_id (receive_dst_to swap_params)) (maker swap_params), out),
       (src_token swap_params, unwrap_or_es (os_receiver_id (fa_receive_src_to swap_fill)) ''bob'', src_out)] @
      map (Pair (dst_token swap_params)) (filter (\<lambda>(_, x). x \<noteq> 0) fees)"
    "maker_src_remaining open_state = maker_src_remaining s' + src_out" "used = sum_list (map snd fees) + out"
    "src_out * ud_digits (price swap_params) \<le> used * denominator (price swap_params)" by blast
  with x r show ?thesis
    by (intro exI [of _ s'] exI [of _ evs'] exI [of _ r] exI [of _ fees] exI [of _ out] exI [of _ src_out] exI [of _ used])
      (simp add: swap_params_def swap_fill_def open_state_def denominator_def no_override_def unwrap_or_es_def)
qed

end
