(* ===== verification/Timestamps.thy ===== *)
theory Timestamps
  imports NumUtils
begin

text \<open>
  Time stamps (\<open>crates/primitives/time/src/lib.rs\<close>): a number of nanoseconds since the epoch within
  the range of the crate \<open>time\<close>, whose bounds are the record \<open>ts_range\<close>. Durations are naturals in
  nanoseconds, as \<open>core::time::Duration\<close>; the crate's own durations hold at most \<open>i64::MAX\<close> seconds.
\<close>

type_synonym duration = nat

record ts_range =
  ts_min :: int
  ts_max :: int

definition NANOS_PER_SEC :: nat where "NANOS_PER_SEC = 1000000000"

definition from_secs_dur :: "nat \<Rightarrow> duration" where
  "from_secs_dur s = s * NANOS_PER_SEC"

definition as_secs_dur :: "duration \<Rightarrow> nat" where
  "as_secs_dur d = d div NANOS_PER_SEC"

definition time_duration :: "duration \<Rightarrow> duration option" where
  "time_duration d = (if int (as_secs_dur d) \<le> i_max 64 then Some d else None)"

definition TIME_DURATION_MAX :: duration where
  "TIME_DURATION_MAX = from_secs_dur (nat (i_max 64)) + (NANOS_PER_SEC - 1)"

definition in_ts_range :: "ts_range \<Rightarrow> int \<Rightarrow> int option" where
  "in_ts_range R x = (if ts_min R \<le> x \<and> x \<le> ts_max R then Some x else None)"

definition from_nanos :: "ts_range \<Rightarrow> int \<Rightarrow> int option" where
  "from_nanos R n = in_ts_range R n"

definition from_micros :: "ts_range \<Rightarrow> int \<Rightarrow> int option" where
  "from_micros R n = in_ts_range R (n * 1000)"

definition from_millis :: "ts_range \<Rightarrow> int \<Rightarrow> int option" where
  "from_millis R n = in_ts_range R (n * 1000000)"

definition from_secs :: "ts_range \<Rightarrow> int \<Rightarrow> int option" where
  "from_secs R n = in_ts_range R (n * 1000000000)"

definition checked_add_unsigned :: "ts_range \<Rightarrow> int \<Rightarrow> duration \<Rightarrow> int option" where
  "checked_add_unsigned R t d = Option.bind (time_duration d) (\<lambda>d. in_ts_range R (t + int d))"

definition checked_sub_unsigned :: "ts_range \<Rightarrow> int \<Rightarrow> duration \<Rightarrow> int option" where
  "checked_sub_unsigned R t d = Option.bind (time_duration d) (\<lambda>d. in_ts_range R (t - int d))"

definition dur_or_max :: "duration \<Rightarrow> duration" where
  "dur_or_max d = (case time_duration d of None \<Rightarrow> TIME_DURATION_MAX | Some d \<Rightarrow> d)"

definition saturating_add_unsigned :: "ts_range \<Rightarrow> int \<Rightarrow> duration \<Rightarrow> int" where
  "saturating_add_unsigned R t d = min (ts_max R) (t + int (dur_or_max d))"

definition saturating_sub_unsigned :: "ts_range \<Rightarrow> int \<Rightarrow> duration \<Rightarrow> int" where
  "saturating_sub_unsigned R t d = max (ts_min R) (t - int (dur_or_max d))"

text \<open>\<open>Err\<close> carries how far the other time stamp is ahead.\<close>

definition duration_since :: "int \<Rightarrow> int \<Rightarrow> duration + duration" where
  "duration_since t other = (if t - other < 0 then Inl (nat \<bar>t - other\<bar>) else Inr (nat \<bar>t - other\<bar>))"

text \<open>The operators panic where the checked operations fail; here they are options.\<close>

definition ts_add :: "ts_range \<Rightarrow> int \<Rightarrow> duration \<Rightarrow> int option" where
  "ts_add = checked_add_unsigned"

definition ts_sub :: "ts_range \<Rightarrow> int \<Rightarrow> duration \<Rightarrow> int option" where
  "ts_sub = checked_sub_unsigned"

lemma ts_sub_Some:
  "ts_sub R t d = Some x \<longleftrightarrow> x = t - int d \<and> int (as_secs_dur d) \<le> i_max 64 \<and> ts_min R \<le> x \<and> x \<le> ts_max R"
  by (auto simp: ts_sub_def checked_sub_unsigned_def time_duration_def in_ts_range_def)

lemma ts_add_sub: "ts_add R t d = Some x \<Longrightarrow> ts_min R \<le> t \<Longrightarrow> t \<le> ts_max R \<Longrightarrow> ts_sub R x d = Some t"
  by (auto simp: ts_add_def checked_add_unsigned_def ts_sub_Some time_duration_def in_ts_range_def split: if_splits)

lemma duration_since_Inr: "duration_since t u = Inr d \<longleftrightarrow> t = u + int d"
  by (auto simp: duration_since_def)

lemma saturating_add_bounds:
  "ts_min R \<le> t \<Longrightarrow> t \<le> ts_max R \<Longrightarrow> t \<le> saturating_add_unsigned R t d \<and> saturating_add_unsigned R t d \<le> ts_max R"
  by (simp add: saturating_add_unsigned_def)

end
