(* ===== verification/Borsh.thy ===== *)
theory Borsh
  imports Nonces Timestamps
begin

text \<open>
  Borsh encodings, as the derived implementations and the crate \<open>borsh-utils\<close> (\<open>duration.rs\<close>)
  write them. An encoder returns no bytes where serialization fails: a vector with more than
  \<open>u32::MAX\<close> elements, or a number that does not fit its integer type. An encoder is uniquely
  readable when the bytes of a value followed by anything determine the value and the rest.
\<close>

type_synonym 'a encoder = "'a \<Rightarrow> byte list option"

definition e_seq :: "byte list option \<Rightarrow> byte list option \<Rightarrow> byte list option" where
  "e_seq a b = Option.bind a (\<lambda>x. map_option ((@) x) b)"

definition e_uint :: "nat \<Rightarrow> nat encoder" where
  "e_uint w n = (if n \<le> u_max w then Some (le_bytes (w div 8) (int n)) else None)"

definition e_bool :: "bool encoder" where
  "e_bool b = Some [if b then 1 else 0]"

definition e_option :: "'a encoder \<Rightarrow> 'a option encoder" where
  "e_option e x = (case x of None \<Rightarrow> Some [0] | Some y \<Rightarrow> e_seq (Some [1]) (e y))"

fun e_all :: "'a encoder \<Rightarrow> 'a list encoder" where
  "e_all e [] = Some []"
| "e_all e (x # xs) = e_seq (e x) (e_all e xs)"

definition e_vec :: "'a encoder \<Rightarrow> 'a list encoder" where
  "e_vec e xs = e_seq (e_uint 32 (length xs)) (e_all e xs)"

definition e_byte :: "byte encoder" where
  "e_byte b = Some [b]"

definition char_byte :: "char \<Rightarrow> byte" where
  "char_byte c = word_of_nat (of_char c)"

definition e_string :: "string encoder" where
  "e_string s = e_vec e_byte (map char_byte s)"

text \<open>The adapters for durations and time stamps: \<open>unit\<close> nanoseconds in an integer of \<open>w\<close> bits.\<close>

definition e_duration :: "nat \<Rightarrow> nat \<Rightarrow> duration encoder" where
  "e_duration unit w d = e_uint w (d div unit)"

definition d_duration :: "nat \<Rightarrow> nat \<Rightarrow> byte list \<Rightarrow> duration option" where
  "d_duration unit w bs = (if length bs = w div 8 then Some (nat (from_le bs) * unit) else None)"

definition e_timestamp_nanos :: "nat \<Rightarrow> int encoder" where
  "e_timestamp_nanos w t = (if 0 \<le> t then e_uint w (nat t) else None)"

subsection \<open>Unique readability\<close>

definition readable :: "('a \<Rightarrow> bool) \<Rightarrow> 'a encoder \<Rightarrow> bool" where
  "readable P e \<longleftrightarrow> (\<forall>x y a b r s. P x \<longrightarrow> P y \<longrightarrow> e x = Some a \<longrightarrow> e y = Some b \<longrightarrow> a @ r = b @ s \<longrightarrow> x = y \<and> r = s)"

locale uniquely_readable =
  fixes P :: "'a \<Rightarrow> bool" and e :: "'a encoder"
  assumes readable: "readable P e"
begin

lemma determines:
  "P x \<Longrightarrow> P y \<Longrightarrow> e x = Some a \<Longrightarrow> e y = Some b \<Longrightarrow> a @ r = b @ s \<Longrightarrow> x = y \<and> r = s"
  using readable unfolding readable_def by blast

lemma injective: "P x \<Longrightarrow> P y \<Longrightarrow> e x = Some a \<Longrightarrow> e y = Some a \<Longrightarrow> x = y"
  using determines [of x y a a "[]" "[]"] by simp

end

lemma readableI:
  "(\<And>x y a b r s. P x \<Longrightarrow> P y \<Longrightarrow> e x = Some a \<Longrightarrow> e y = Some b \<Longrightarrow> a @ r = b @ s \<Longrightarrow> x = y \<and> r = s) \<Longrightarrow> readable P e"
  unfolding readable_def by blast

lemma readableD:
  "readable P e \<Longrightarrow> P x \<Longrightarrow> P y \<Longrightarrow> e x = Some a \<Longrightarrow> e y = Some b \<Longrightarrow> a @ r = b @ s \<Longrightarrow> x = y \<and> r = s"
  unfolding readable_def by blast

lemma readable_mono: "readable P e \<Longrightarrow> (\<And>x. Q x \<Longrightarrow> P x) \<Longrightarrow> readable Q e"
  unfolding readable_def by blast

lemma readable_where: "readable P e \<Longrightarrow> (\<And>x a. Q x \<Longrightarrow> e x = Some a \<Longrightarrow> P x) \<Longrightarrow> readable Q e"
  unfolding readable_def by blast

lemma e_seq_Some: "e_seq a b = Some z \<longleftrightarrow> (\<exists>x y. a = Some x \<and> b = Some y \<and> z = x @ y)"
  by (auto simp: e_seq_def bind_eq_Some_conv)

lemma readable_seq:
  assumes "readable P e" and "readable Q f"
  shows "readable (\<lambda>p. P (fst p) \<and> Q (snd p)) (\<lambda>p. e_seq (e (fst p)) (f (snd p)))"
proof (rule readableI)
  fix p q a b r s
  assume ok: "P (fst p) \<and> Q (snd p)" "P (fst q) \<and> Q (snd q)" and "e_seq (e (fst p)) (f (snd p)) = Some a"
    "e_seq (e (fst q)) (f (snd q)) = Some b" and eq: "a @ r = b @ s"
  then obtain a1 a2 b1 b2 where parts: "e (fst p) = Some a1" "f (snd p) = Some a2" "a = a1 @ a2"
      "e (fst q) = Some b1" "f (snd q) = Some b2" "b = b1 @ b2"
    by (auto simp: e_seq_Some)
  have one: "fst p = fst q \<and> a2 @ r = b2 @ s"
    using readableD [OF assms(1) _ _ parts(1,4), of "a2 @ r" "b2 @ s"] ok eq parts(3,6) by simp
  with readableD [OF assms(2) _ _ parts(2,5), of r s] ok show "p = q \<and> r = s" by (simp add: prod_eq_iff)
qed

text \<open>A record is read when its fields, which determine it, are read one after the other.\<close>

lemma readable_via:
  assumes "readable Q f" and "\<And>x y. P x \<Longrightarrow> P y \<Longrightarrow> g x = g y \<Longrightarrow> x = y" and "\<And>x. P x \<Longrightarrow> Q (g x)" and "\<And>x. P x \<Longrightarrow> e x = f (g x)"
  shows "readable P e"
  using assms unfolding readable_def by metis

lemma bytes_pow: "8 dvd w \<Longrightarrow> (256 :: int) ^ (w div 8) = 2 ^ w"
proof -
  assume "8 dvd w"
  then obtain k where w: "w = 8 * k" by (rule dvdE)
  have "((2 :: int) ^ 8) ^ k = 2 ^ w" unfolding w power_mult ..
  then show ?thesis by (simp add: w)
qed

lemma u_max_lt: "n \<le> u_max w \<Longrightarrow> int n mod 2 ^ w = int n"
proof -
  assume "n \<le> u_max w"
  moreover have "(0 :: nat) < 2 ^ w" by simp
  ultimately have "n < 2 ^ w" unfolding u_max_def by linarith
  then show ?thesis by (simp add: mod_pos_pos_trivial)
qed

lemma readable_uint: "8 dvd w \<Longrightarrow> readable (\<lambda>_. True) (e_uint w)"
proof (rule readableI)
  fix x y a b r s assume w: "8 dvd w" and enc: "e_uint w x = Some a" "e_uint w y = Some b" and eq: "a @ r = b @ s"
  then have len: "length a = length b" and le: "x \<le> u_max w" "y \<le> u_max w" by (auto simp: e_uint_def split: if_splits)
  have "from_le (le_bytes (w div 8) (int x)) = int x" "from_le (le_bytes (w div 8) (int y)) = int y"
    using le by (simp_all add: from_le_le_bytes bytes_pow [OF w] u_max_lt)
  moreover have "a = b" "r = s" using eq len by simp_all
  ultimately show "x = y \<and> r = s" using enc by (auto simp: e_uint_def split: if_splits)
qed

lemma readable_bool: "readable (\<lambda>_. True) e_bool"
  by (auto simp: readable_def e_bool_def split: if_splits)

lemma readable_byte: "readable (\<lambda>_. True) e_byte"
  by (auto simp: readable_def e_byte_def)

lemma readable_option:
  assumes "readable P e"
  shows "readable (\<lambda>x. \<forall>y. x = Some y \<longrightarrow> P y) (e_option e)"
proof (rule readableI)
  fix x y a b r s
  assume ok: "\<forall>z. x = Some z \<longrightarrow> P z" "\<forall>z. y = Some z \<longrightarrow> P z" and enc: "e_option e x = Some a" "e_option e y = Some b"
    and eq: "a @ r = b @ s"
  show "x = y \<and> r = s"
  proof (cases "x = None \<or> y = None")
    case True
    then show ?thesis using enc eq by (auto simp: e_option_def e_seq_Some split: option.splits)
  next
    case False
    then obtain u v where uv: "x = Some u" "y = Some v" by auto
    obtain a' b' where "e u = Some a'" "e v = Some b'" "a = 1 # a'" "b = 1 # b'"
      using enc by (auto simp: uv e_option_def e_seq_Some)
    with readableD [OF assms, of u v a' b' r s] ok eq show ?thesis by (simp add: uv)
  qed
qed

lemma readable_all:
  assumes "readable P e" and "length xs = length ys" and "\<forall>x \<in> set xs. P x" and "\<forall>y \<in> set ys. P y"
    and "e_all e xs = Some a" and "e_all e ys = Some b" and "a @ r = b @ s"
  shows "xs = ys \<and> r = s"
  using assms(2-)
proof (induction xs ys arbitrary: a b rule: list_induct2)
  case (Cons x xs y ys)
  obtain a1 a2 b1 b2 where parts: "e x = Some a1" "e_all e xs = Some a2" "a = a1 @ a2"
      "e y = Some b1" "e_all e ys = Some b2" "b = b1 @ b2"
    using Cons.prems by (auto simp: e_seq_Some)
  have "x = y \<and> a2 @ r = b2 @ s"
    using readableD [OF assms(1) _ _ parts(1,4), of "a2 @ r" "b2 @ s"] Cons.prems parts(3,6) by simp
  with Cons.IH [OF _ _ parts(2,5)] Cons.prems show ?case by simp
qed simp

lemma readable_vec:
  assumes "readable P e"
  shows "readable (list_all P) (e_vec e)"
proof (rule readableI)
  fix xs ys a b r s
  assume ok: "list_all P xs" "list_all P ys" and "e_vec e xs = Some a" "e_vec e ys = Some b" and eq: "a @ r = b @ s"
  then obtain a1 a2 b1 b2 where parts: "e_uint 32 (length xs) = Some a1" "e_all e xs = Some a2" "a = a1 @ a2"
      "e_uint 32 (length ys) = Some b1" "e_all e ys = Some b2" "b = b1 @ b2"
    by (auto simp: e_vec_def e_seq_Some)
  have "length xs = length ys \<and> a2 @ r = b2 @ s"
    using readableD [OF readable_uint _ _ parts(1,4), of "a2 @ r" "b2 @ s"] eq parts(3,6) by simp
  then show "xs = ys \<and> r = s"
    using readable_all [OF assms _ _ _ parts(2,5), of r s] ok by (simp add: list_all_iff)
qed

lemma char_byte_inj: "char_byte c = char_byte d \<longleftrightarrow> c = d"
proof
  assume "char_byte c = char_byte d"
  then have "unat (char_byte c) = unat (char_byte d)" by simp
  then have "(of_char c :: nat) = of_char d" by (simp add: char_byte_def unat_word_ariths unsigned_of_nat take_bit_nat_eq_self)
  then show "c = d" by simp
qed simp

lemma readable_string: "readable (\<lambda>_. True) e_string"
  by (rule readable_via [OF readable_vec [OF readable_byte], where g = "map char_byte"])
    (auto simp: e_string_def list_all_iff inj_map_eq_map char_byte_inj inj_def)

lemma readable_timestamp: "8 dvd w \<Longrightarrow> readable (\<lambda>_. True) (e_timestamp_nanos w)"
  by (rule readable_where [OF readable_via [OF readable_uint, where g = nat and P = "\<lambda>t. 0 \<le> t"]])
    (auto simp: e_timestamp_nanos_def split: if_splits)

text \<open>Durations lose what is below the unit; whole units are read back.\<close>

lemma readable_duration: "8 dvd w \<Longrightarrow> 0 < unit \<Longrightarrow> readable (\<lambda>d. unit dvd d) (e_duration unit w)"
  by (rule readable_via [OF readable_uint, where g = "\<lambda>d. d div unit"]) (auto simp: e_duration_def dvd_div_eq_iff)

lemma duration_round_trip:
  assumes "8 dvd w" and "e_duration unit w d = Some bs"
  shows "d_duration unit w bs = Some (d - d mod unit)"
proof -
  have le: "d div unit \<le> u_max w" and bs: "bs = le_bytes (w div 8) (int (d div unit))"
    using assms(2) by (auto simp: e_duration_def e_uint_def split: if_splits)
  have "from_le bs = int (d div unit)" using u_max_lt [OF le] by (simp add: bs from_le_le_bytes bytes_pow [OF assms(1)])
  then show ?thesis by (simp add: d_duration_def bs minus_mod_eq_div_mult)
qed

end
