(* ===== verification/NearPromises.thy ===== *)
theory NearPromises
  imports Borsh Intents MtEvents
begin

text \<open>
  Promises as data (\<open>crates/near/promise/src\<close>): the actions a wallet may request, their deposits
  and the estimate of their gas, how they become a promise of \<open>near-sdk\<close>, and their encoding. The
  encoding of a state init belongs to the crate \<open>near-global-contracts\<close> and is an argument.
\<close>

subsection \<open>Saturating numbers\<close>

definition sat_add_u :: "nat \<Rightarrow> nat \<Rightarrow> nat \<Rightarrow> nat" where
  "sat_add_u w a b = min (u_max w) (a + b)"

definition sat_mul_u :: "nat \<Rightarrow> nat \<Rightarrow> nat \<Rightarrow> nat" where
  "sat_mul_u w a b = min (u_max w) (a * b)"

definition to_u64 :: "nat \<Rightarrow> nat" where
  "to_u64 n = min (u_max 64) n"

definition ggas :: "nat \<Rightarrow> gas" where
  "ggas n = n * 10 ^ 9"

subsection \<open>Actions\<close>

record function_call =
  fc_function_name :: string
  fc_args :: "byte list"
  fc_deposit :: near_token
  fc_gas :: gas
  fc_gas_weight :: nat

datatype global_contract_id = CodeHash "byte list" | GlobalAccountId account_id

record state_init_v1 =
  si_code :: global_contract_id
  si_data :: "(byte list \<times> byte list) list"

record deterministic_state_init =
  ds_state_init :: state_init_v1
  ds_deposit :: near_token

datatype near_action =
    FunctionCall function_call
  | TransferNear near_token
  | DeterministicStateInit deterministic_state_init

definition default_gas_weight :: nat where
  "default_gas_weight = 1"

definition fc_name :: "string \<Rightarrow> function_call" where
  "fc_name f = \<lparr> fc_function_name = f, fc_args = [], fc_deposit = 0, fc_gas = tgas 50, fc_gas_weight = default_gas_weight \<rparr>"

definition fc_with_args :: "byte list \<Rightarrow> function_call \<Rightarrow> function_call" where
  "fc_with_args a f = f\<lparr>fc_args := a\<rparr>"

definition fc_attach_deposit :: "near_token \<Rightarrow> function_call \<Rightarrow> function_call" where
  "fc_attach_deposit d f = f\<lparr>fc_deposit := d\<rparr>"

definition fc_with_gas :: "gas \<Rightarrow> function_call \<Rightarrow> function_call" where
  "fc_with_gas g f = f\<lparr>fc_gas := g\<rparr>"

definition fc_unused_gas_weight :: "nat \<Rightarrow> function_call \<Rightarrow> function_call" where
  "fc_unused_gas_weight w f = f\<lparr>fc_gas_weight := w\<rparr>"

definition fc_gas_exact :: "gas \<Rightarrow> function_call \<Rightarrow> function_call" where
  "fc_gas_exact g f = fc_unused_gas_weight 0 (fc_with_gas g f)"

definition fc_estimate_gas :: "function_call \<Rightarrow> gas" where
  "fc_estimate_gas f = sat_add_u 64 (sat_add_u 64 (ggas 1500)
     (sat_mul_u 64 75000000 (to_u64 (sat_add (length (fc_function_name f)) (length (fc_args f)))))) (fc_gas f)"

definition ds_new :: "state_init_v1 \<Rightarrow> deterministic_state_init" where
  "ds_new si = \<lparr> ds_state_init = si, ds_deposit = 0 \<rparr>"

definition ds_with_deposit :: "near_token \<Rightarrow> deterministic_state_init \<Rightarrow> deterministic_state_init" where
  "ds_with_deposit d x = x\<lparr>ds_deposit := d\<rparr>"

definition ds_estimate_gas :: "deterministic_state_init \<Rightarrow> gas" where
  "ds_estimate_gas x = (let dat = si_data (ds_state_init x) in
     sat_add_u 64 (sat_add_u 64 (tgas 9) (sat_mul_u 64 (ggas 210) (to_u64 (length dat))))
       (sat_mul_u 64 160000000 (to_u64 (foldl sat_add 0 (map (\<lambda>(k, v). sat_add (length k) (length v)) dat)))))"

fun action_deposit :: "near_action \<Rightarrow> near_token" where
  "action_deposit (FunctionCall f) = fc_deposit f"
| "action_deposit (TransferNear amount) = amount"
| "action_deposit (DeterministicStateInit x) = ds_deposit x"

fun action_estimate_gas :: "near_action \<Rightarrow> gas" where
  "action_estimate_gas (FunctionCall f) = fc_estimate_gas f"
| "action_estimate_gas (TransferNear _) = tgas 12"
| "action_estimate_gas (DeterministicStateInit x) = ds_estimate_gas x"

subsection \<open>Promises\<close>

record near_promise =
  np_receiver_id :: account_id
  np_refund_to :: "account_id option"
  np_actions :: "near_action list"

definition np_new :: "account_id \<Rightarrow> near_promise" where
  "np_new r = \<lparr> np_receiver_id = r, np_refund_to = None, np_actions = [] \<rparr>"

definition np_with_refund_to :: "account_id \<Rightarrow> near_promise \<Rightarrow> near_promise" where
  "np_with_refund_to a p = p\<lparr>np_refund_to := Some a\<rparr>"

definition np_add_action :: "near_action \<Rightarrow> near_promise \<Rightarrow> near_promise" where
  "np_add_action a p = p\<lparr>np_actions := np_actions p @ [a]\<rparr>"

definition np_add_actions :: "near_action list \<Rightarrow> near_promise \<Rightarrow> near_promise" where
  "np_add_actions as p = p\<lparr>np_actions := np_actions p @ as\<rparr>"

definition np_transfer :: "near_token \<Rightarrow> near_promise \<Rightarrow> near_promise" where
  "np_transfer amount = np_add_action (TransferNear amount)"

definition np_deterministic_state_init :: "state_init_v1 \<Rightarrow> near_token \<Rightarrow> near_promise \<Rightarrow> near_promise" where
  "np_deterministic_state_init si d = np_add_action (DeterministicStateInit (ds_with_deposit d (ds_new si)))"

definition np_function_call :: "function_call \<Rightarrow> near_promise \<Rightarrow> near_promise" where
  "np_function_call f = np_add_action (FunctionCall f)"

definition np_is_empty :: "near_promise \<Rightarrow> bool" where
  "np_is_empty p \<longleftrightarrow> np_actions p = []"

definition np_total_deposit :: "near_promise \<Rightarrow> near_token" where
  "np_total_deposit p = foldl (sat_add_u 128) 0 (map action_deposit (np_actions p))"

definition np_estimate_gas :: "near_promise \<Rightarrow> gas" where
  "np_estimate_gas p = foldl (sat_add_u 64) (ggas 500) (map action_estimate_gas (np_actions p))"

text \<open>What \<open>build\<close> asks \<open>near-sdk\<close> to do, in its order.\<close>

datatype sdk_call =
    SdkFunctionCall string "byte list" near_token gas nat
  | SdkTransfer near_token
  | SdkStateInit state_init_v1 near_token

record sdk_promise =
  sp_receiver_id :: account_id
  sp_refund_to :: "account_id option"
  sp_calls :: "sdk_call list"

fun action_append :: "near_action \<Rightarrow> sdk_promise \<Rightarrow> sdk_promise" where
  "action_append (FunctionCall f) p =
     p\<lparr>sp_calls := sp_calls p @ [SdkFunctionCall (fc_function_name f) (fc_args f) (fc_deposit f) (fc_gas f) (fc_gas_weight f)]\<rparr>"
| "action_append (TransferNear amount) p = p\<lparr>sp_calls := sp_calls p @ [SdkTransfer amount]\<rparr>"
| "action_append (DeterministicStateInit x) p = p\<lparr>sp_calls := sp_calls p @ [SdkStateInit (ds_state_init x) (ds_deposit x)]\<rparr>"

definition np_build :: "near_promise \<Rightarrow> sdk_promise" where
  "np_build p = foldl (\<lambda>q a. action_append a q)
     (let q = \<lparr> sp_receiver_id = np_receiver_id p, sp_refund_to = None, sp_calls = [] \<rparr> in
      case np_refund_to p of None \<Rightarrow> q | Some a \<Rightarrow> q\<lparr>sp_refund_to := Some a\<rparr>) (np_actions p)"

fun sdk_deposit :: "sdk_call \<Rightarrow> near_token" where
  "sdk_deposit (SdkFunctionCall _ _ d _ _) = d"
| "sdk_deposit (SdkTransfer d) = d"
| "sdk_deposit (SdkStateInit _ d) = d"

subsection \<open>Deposits and gas are sums\<close>

lemma foldl_sat_add: "foldl (sat_add_u w) a xs = (if xs = [] then a else min (u_max w) (a + sum_list xs))"
proof (induction xs arbitrary: a)
  case (Cons x xs)
  then show ?case by (auto simp: sat_add_u_def)
qed simp

lemma np_total_deposit_sum: "np_total_deposit p = min (u_max 128) (sum_list (map action_deposit (np_actions p)))"
  by (simp add: np_total_deposit_def foldl_sat_add)

lemma fold_append_calls:
  "sp_calls (foldl (\<lambda>q a. action_append a q) q as) = sp_calls q @ sp_calls (foldl (\<lambda>q a. action_append a q) (q\<lparr>sp_calls := []\<rparr>) as)"
  "sp_receiver_id (foldl (\<lambda>q a. action_append a q) q as) = sp_receiver_id q"
  "sp_refund_to (foldl (\<lambda>q a. action_append a q) q as) = sp_refund_to q"
proof (induction as rule: rev_induct)
  case (snoc a as)
  { case 1 show ?case using snoc(1) by (cases a) simp_all }
  { case 2 show ?case using snoc(2) by (cases a) simp_all }
  { case 3 show ?case using snoc(3) by (cases a) simp_all }
qed simp_all

text \<open>Building keeps the receiver, where refunds go and the deposits of all actions in order.\<close>

lemma np_build_keeps:
  "sp_receiver_id (np_build p) = np_receiver_id p" "sp_refund_to (np_build p) = np_refund_to p"
  "map sdk_deposit (sp_calls (np_build p)) = map action_deposit (np_actions p)"
proof -
  have calls: "map sdk_deposit (sp_calls (foldl (\<lambda>q a. action_append a q) q as)) = map sdk_deposit (sp_calls q) @ map action_deposit as" for q as
  proof (induction as arbitrary: q)
    case (Cons a as)
    then show ?case by (cases a) simp_all
  qed simp
  show "sp_receiver_id (np_build p) = np_receiver_id p" "sp_refund_to (np_build p) = np_refund_to p"
    by (auto simp: np_build_def fold_append_calls Let_def split: option.splits)
  show "map sdk_deposit (sp_calls (np_build p)) = map action_deposit (np_actions p)"
    by (auto simp: np_build_def calls Let_def split: option.splits)
qed

text \<open>The estimate covers the gas every function call is given, unless \<open>u64\<close> is exhausted.\<close>

lemma estimate_covers_call: "min (u_max 64) (fc_gas f) \<le> fc_estimate_gas f"
  by (simp add: fc_estimate_gas_def sat_add_u_def)

fun action_gas :: "near_action \<Rightarrow> gas" where
  "action_gas (FunctionCall f) = fc_gas f"
| "action_gas _ = 0"

lemma estimate_covers_promise: "min (u_max 64) (sum_list (map action_gas (np_actions p))) \<le> np_estimate_gas p"
proof -
  have one: "min (u_max 64) (action_gas a) \<le> action_estimate_gas a" for a
    using estimate_covers_call by (cases a) simp_all
  have "min (u_max 64) (sum_list (map action_gas as)) \<le> sum_list (map action_estimate_gas as)" for as
  proof (induction as)
    case (Cons a as)
    then show ?case using one [of a] by (simp add: min_def split: if_splits)
  qed simp
  from this [of "np_actions p"] show ?thesis
    by (auto simp: np_estimate_gas_def foldl_sat_add min_def)
qed

subsection \<open>Encoding\<close>

definition e_account_id :: "account_id encoder" where
  "e_account_id = e_string"

definition e_function_call :: "function_call encoder" where
  "e_function_call f = e_seq (e_string (fc_function_name f)) (e_seq (e_vec e_byte (fc_args f))
     (e_seq (e_uint 128 (fc_deposit f)) (e_seq (e_uint 64 (fc_gas f)) (e_uint 64 (fc_gas_weight f)))))"

definition e_deterministic_state_init :: "state_init_v1 encoder \<Rightarrow> deterministic_state_init encoder" where
  "e_deterministic_state_init es x = e_seq (es (ds_state_init x)) (e_uint 128 (ds_deposit x))"

fun e_near_action :: "state_init_v1 encoder \<Rightarrow> near_action encoder" where
  "e_near_action es (FunctionCall f) = e_seq (e_uint 8 2) (e_function_call f)"
| "e_near_action es (TransferNear amount) = e_seq (e_uint 8 3) (e_uint 128 amount)"
| "e_near_action es (DeterministicStateInit x) = e_seq (e_uint 8 11) (e_deterministic_state_init es x)"

definition e_near_promise :: "state_init_v1 encoder \<Rightarrow> near_promise encoder" where
  "e_near_promise es p = e_seq (e_account_id (np_receiver_id p)) (e_seq (e_option e_account_id (np_refund_to p))
     (e_vec (e_near_action es) (np_actions p)))"

lemma readable_function_call: "readable (\<lambda>_. True) e_function_call"
  by (rule readable_via [OF readable_seq [OF readable_string readable_seq [OF readable_vec [OF readable_byte]
        readable_seq [OF readable_uint readable_seq [OF readable_uint readable_uint]]]],
        where g = "\<lambda>f. (fc_function_name f, fc_args f, fc_deposit f, fc_gas f, fc_gas_weight f)"])
    (simp_all add: e_function_call_def list_all_iff)

lemma readable_state_init: "readable (\<lambda>_. True) es \<Longrightarrow> readable (\<lambda>_. True) (e_deterministic_state_init es)"
  by (rule readable_via [OF readable_seq [OF _ readable_uint], where g = "\<lambda>x. (ds_state_init x, ds_deposit x)"])
    (simp_all add: e_deterministic_state_init_def)

text \<open>An enum: the tag is read first and tells which variant follows.\<close>

lemma tag_read:
  assumes "e_seq (e_uint 8 m) u = Some a" and "e_seq (e_uint 8 n) v = Some b" and "a @ r = b @ s"
  shows "m = n \<and> (\<exists>a' b'. u = Some a' \<and> v = Some b' \<and> a' @ r = b' @ s)"
proof -
  obtain x y where x: "e_uint 8 m = Some x" "u = Some y" "a = x @ y" using assms(1) by (auto simp: e_seq_Some)
  obtain x' y' where x': "e_uint 8 n = Some x'" "v = Some y'" "b = x' @ y'" using assms(2) by (auto simp: e_seq_Some)
  show ?thesis using readableD [OF readable_uint _ _ x(1) x'(1), of "y @ r" "y' @ s"] x x' assms(3) by simp
qed

lemma tag_readable:
  assumes "readable (\<lambda>_. True) e" and "e_seq (e_uint 8 m) (e x) = Some a" and "e_seq (e_uint 8 m) (e y) = Some b" and "a @ r = b @ s"
  shows "x = y \<and> r = s"
  using tag_read [OF assms(2-4)] readableD [OF assms(1) TrueI TrueI] by blast

lemma readable_action:
  assumes "readable (\<lambda>_. True) es"
  shows "readable (\<lambda>_. True) (e_near_action es)"
proof (rule readableI)
  fix x y a b r s assume enc: "e_near_action es x = Some a" "e_near_action es y = Some b" "a @ r = b @ s"
  show "x = y \<and> r = s"
  proof (cases x)
    case (FunctionCall f)
    then obtain g where y: "y = FunctionCall g" using enc(1,2) by (cases y) (auto dest: tag_read [OF _ _ enc(3)])
    show ?thesis using tag_readable [OF readable_function_call, of 2 f a g b r s] enc by (simp add: FunctionCall y)
  next
    case (TransferNear n)
    then obtain m where y: "y = TransferNear m" using enc(1,2) by (cases y) (auto dest: tag_read [OF _ _ enc(3)])
    show ?thesis using tag_readable [OF readable_uint, of 128 3 n a m b r s] enc by (simp add: TransferNear y)
  next
    case (DeterministicStateInit d)
    then obtain c where y: "y = DeterministicStateInit c" using enc(1,2) by (cases y) (auto dest: tag_read [OF _ _ enc(3)])
    show ?thesis using tag_readable [OF readable_state_init [OF assms], of 11 d a c b r s] enc by (simp add: DeterministicStateInit y)
  qed
qed

lemma readable_promise:
  assumes "readable (\<lambda>_. True) es"
  shows "readable (\<lambda>_. True) (e_near_promise es)"
  by (rule readable_via [OF readable_seq [OF readable_string readable_seq [OF readable_option [OF readable_string]
        readable_vec [OF readable_action [OF assms]]]], where g = "\<lambda>p. (np_receiver_id p, np_refund_to p, np_actions p)"])
    (simp_all add: e_near_promise_def e_account_id_def list_all_iff)

end
