(* ===== verification/WalletNonces.thy ===== *)
theory WalletNonces
  imports Timestamps CoreTypes
begin

text \<open>
  The nonces of a wallet (\<open>contracts/wallet/src/nonces.rs\<close>): two bitmaps that rotate once per
  timeout, and the generator of the client (\<open>crates/wallet/sdk/src/nonces.rs\<close>). The arithmetic of
  time stamps panics where it leaves the range of the crate \<open>time\<close>; that is the error \<open>TimeOverflow\<close>.
\<close>

unbundle bit_operations_syntax

subsection \<open>Nonces\<close>

datatype nonce_error = AlreadyUsed | ExpiredOrFuture | TimeOverflow

record wallet_nonces =
  wn_timeout :: duration
  wn_last_cleaned_at :: int
  wn_old :: "32 bitmap"
  wn_current :: "32 bitmap"

definition DEFAULT_TIMEOUT :: duration where
  "DEFAULT_TIMEOUT = from_secs_dur 3600"

definition wn_new :: "duration \<Rightarrow> wallet_nonces" where
  "wn_new timeout = \<lparr> wn_timeout = timeout, wn_last_cleaned_at = 0, wn_old = [], wn_current = [] \<rparr>"

definition check_cleanup :: "ts_range \<Rightarrow> int \<Rightarrow> wallet_nonces \<Rightarrow> nonce_error + wallet_nonces" where
  "check_cleanup R now ns =
     bind_r (ok_or (ts_sub R now (wn_timeout ns)) TimeOverflow) (\<lambda>last_valid_nonce_at.
       if wn_last_cleaned_at ns < last_valid_nonce_at then
         bind_r (ok_or (ts_sub R last_valid_nonce_at (wn_timeout ns)) TimeOverflow) (\<lambda>before.
           Inr (ns\<lparr>wn_old := (if wn_last_cleaned_at ns < before then [] else wn_current ns), wn_current := [],
             wn_last_cleaned_at := now\<rparr>))
       else Inr ns)"

definition wn_commit :: "ts_range \<Rightarrow> int \<Rightarrow> 32 word \<Rightarrow> int \<Rightarrow> duration \<Rightarrow> wallet_nonces \<Rightarrow> nonce_error + wallet_nonces" where
  "wn_commit R now nonce created_at timeout ns =
     bind_r (check_cleanup R now ns) (\<lambda>ns.
     bind_r (ok_or (ts_sub R now (min (wn_timeout ns) timeout)) TimeOverflow) (\<lambda>first.
     bind_r (require_r (first \<le> created_at \<and> created_at \<le> now) ExpiredOrFuture) (\<lambda>_.
     bind_r (require_r (\<not> bm_get (wn_old ns) nonce) AlreadyUsed) (\<lambda>_.
       case bm_set (wn_current ns) nonce of (m, used) \<Rightarrow>
       bind_r (require_r (\<not> used) AlreadyUsed) (\<lambda>_. Inr (ns\<lparr>wn_current := m\<rparr>))))))"

definition wn_ok :: "wallet_nonces \<Rightarrow> bool" where
  "wn_ok ns \<longleftrightarrow> bm_ok (wn_old ns) \<and> bm_ok (wn_current ns)"

definition wn_used :: "wallet_nonces \<Rightarrow> 32 word \<Rightarrow> bool" where
  "wn_used ns n \<longleftrightarrow> bm_get (wn_old ns) n \<or> bm_get (wn_current ns) n"

lemma bits_32: "bits_for_bit_pos TYPE(32) = 5"
  by (simp add: bits_for_bit_pos_def ilog2.simps)

lemma bm_ok_Nil [simp]: "bm_ok ([] :: 32 bitmap)"
  by (simp add: bm_ok_def bits_32)

lemma bm_get_Nil [simp]: "\<not> bm_get [] n"
  by (simp add: bm_get_def split_def Let_def)

lemma wn_new_ok [simp]: "wn_ok (wn_new t)"
  by (simp add: wn_ok_def wn_new_def)

lemma check_cleanup_Inr:
  assumes "check_cleanup R now ns = Inr ns'"
  obtains (kept) "ns' = ns" "now \<le> wn_last_cleaned_at ns + int (wn_timeout ns)"
    | (rotated) "wn_last_cleaned_at ns + int (wn_timeout ns) < now"
        "ns' = ns\<lparr>wn_old := (if wn_last_cleaned_at ns + 2 * int (wn_timeout ns) < now then [] else wn_current ns),
           wn_current := [], wn_last_cleaned_at := now\<rparr>"
proof (cases "wn_last_cleaned_at ns < now - int (wn_timeout ns)")
  case True
  show ?thesis
    by (rule rotated) (use assms True in \<open>auto simp: check_cleanup_def result_simps ts_sub_Some algebra_simps split: if_splits\<close>)
next
  case False
  show ?thesis
    by (rule kept) (use assms False in \<open>auto simp: check_cleanup_def result_simps ts_sub_Some split: if_splits\<close>)
qed

lemma wn_commit_Inr:
  assumes "wn_commit R now n created_at timeout ns = Inr ns'" and "wn_ok ns"
  obtains ns1 where "check_cleanup R now ns = Inr ns1" "wn_ok ns1" "wn_timeout ns1 = wn_timeout ns"
    "now \<le> created_at + int (min (wn_timeout ns) timeout)" "created_at \<le> now" "\<not> wn_used ns1 n"
    "ns' = ns1\<lparr>wn_current := fst (bm_set (wn_current ns1) n)\<rparr>" "wn_ok ns'"
proof -
  obtain ns1 where c: "check_cleanup R now ns = Inr ns1"
    and win: "now - int (min (wn_timeout ns1) timeout) \<le> created_at" "created_at \<le> now"
    and fresh: "\<not> bm_get (wn_old ns1) n" "\<not> snd (bm_set (wn_current ns1) n)"
    and ns': "ns' = ns1\<lparr>wn_current := fst (bm_set (wn_current ns1) n)\<rparr>"
    using assms(1) by (auto simp: wn_commit_def result_simps ts_sub_Some split_def)
  have t: "wn_timeout ns1 = wn_timeout ns" and ok: "wn_ok ns1"
    using c assms(2) by (auto elim!: check_cleanup_Inr simp: wn_ok_def)
  have bm: "bm_ok (wn_current ns1)" using ok by (simp add: wn_ok_def)
  have "\<not> wn_used ns1 n" using fresh bm.set_old [OF bm, of n] by (simp add: wn_used_def)
  moreover have "wn_ok ns'" using ok bm.inv_ops [OF bm, of n] by (simp add: wn_ok_def ns')
  ultimately show ?thesis using that c ok t win ns' by simp
qed

subsection \<open>Nonces stay used while their messages are valid\<close>

text \<open>
  For every nonce \<open>n\<close> committed at time \<open>t\<close>: since the last rotation it is among the current ones,
  before that among the old ones unless its window has passed.
\<close>

definition commits_kept :: "(32 word \<times> int) set \<Rightarrow> wallet_nonces \<Rightarrow> bool" where
  "commits_kept C ns \<longleftrightarrow> (\<forall>(n, t) \<in> C. t \<le> wn_last_cleaned_at ns + int (wn_timeout ns) \<and>
     (if wn_last_cleaned_at ns \<le> t then bm_get (wn_current ns) n
      else bm_get (wn_old ns) n \<or> t + int (wn_timeout ns) < wn_last_cleaned_at ns))"

lemma cleanup_keeps:
  assumes "check_cleanup R now ns = Inr ns'" and "commits_kept C ns" and "\<forall>(m, t) \<in> C. t \<le> now"
    and "wn_last_cleaned_at ns \<le> now"
  shows "commits_kept C ns'" and "wn_last_cleaned_at ns' \<le> now" and "now \<le> wn_last_cleaned_at ns' + int (wn_timeout ns')"
    and "wn_timeout ns' = wn_timeout ns"
proof -
  show "wn_last_cleaned_at ns' \<le> now" "now \<le> wn_last_cleaned_at ns' + int (wn_timeout ns')" "wn_timeout ns' = wn_timeout ns"
    using assms(1,4) by (auto elim!: check_cleanup_Inr)
  show "commits_kept C ns'"
    using assms(1)
  proof (cases rule: check_cleanup_Inr)
    case kept
    then show ?thesis using assms(2) by simp
  next
    case rotated
    have "t < now \<and> (if wn_last_cleaned_at ns + 2 * int (wn_timeout ns) < now then t + int (wn_timeout ns) < now
        else bm_get (wn_current ns) n \<or> t + int (wn_timeout ns) < now)" if "(n, t) \<in> C" for n t
      using assms(2) that rotated(1) unfolding commits_kept_def by (auto split: if_splits dest!: bspec)
    then show ?thesis unfolding commits_kept_def rotated(2) using assms(3) by fastforce
  qed
qed

lemma commit_keeps:
  assumes "wn_commit R now n created_at timeout ns = Inr ns'" and "wn_ok ns" and "commits_kept C ns"
    and "\<forall>(m, t) \<in> C. t \<le> now" and "wn_last_cleaned_at ns \<le> now"
  shows "commits_kept (insert (n, now) C) ns'" and "wn_last_cleaned_at ns' \<le> now" and "wn_ok ns'" and "wn_timeout ns' = wn_timeout ns"
    and "\<And>t. (n, t) \<in> C \<Longrightarrow> t + int (wn_timeout ns) < now"
proof -
  obtain ns1 where c: "check_cleanup R now ns = Inr ns1" and ok: "wn_ok ns1" and T: "wn_timeout ns1 = wn_timeout ns"
    and fresh: "\<not> wn_used ns1 n" and ns': "ns' = ns1\<lparr>wn_current := fst (bm_set (wn_current ns1) n)\<rparr>" and ok': "wn_ok ns'"
    using assms(1,2) by (rule wn_commit_Inr)
  note k = cleanup_keeps [OF c assms(3-5)]
  have bm: "bm_ok (wn_current ns1)" using ok by (simp add: wn_ok_def)
  show "wn_last_cleaned_at ns' \<le> now" "wn_ok ns'" "wn_timeout ns' = wn_timeout ns" using k ok' T by (simp_all add: ns')
  show "t + int (wn_timeout ns) < now" if "(n, t) \<in> C" for t
    using k(1,2) that fresh T unfolding commits_kept_def wn_used_def by (auto split: if_splits dest!: bspec)
  have set: "bm_get (fst (bm_set (wn_current ns1) n)) m \<longleftrightarrow> m = n \<or> bm_get (wn_current ns1) m" for m
    by (rule bm.set_get [OF bm]) simp_all
  show "commits_kept (insert (n, now) C) ns'"
    using k(1-3) unfolding commits_kept_def ns' by (auto simp: set split: if_splits)
qed

text \<open>What commits is exactly what the documentation says: a nonce of the window that is in neither map.\<close>

lemma wn_commit_accepts:
  assumes "check_cleanup R now ns = Inr ns1" and "wn_ok ns1" and "ts_sub R now (min (wn_timeout ns1) timeout) \<noteq> None"
  shows "is_ok (wn_commit R now n created_at timeout ns) \<longleftrightarrow>
    now - int (min (wn_timeout ns1) timeout) \<le> created_at \<and> created_at \<le> now \<and> \<not> wn_used ns1 n"
proof -
  have "bm_ok (wn_current ns1)" using assms(2) by (simp add: wn_ok_def)
  moreover obtain x where x: "ts_sub R now (min (wn_timeout ns1) timeout) = Some x" using assms(3) by auto
  moreover have "x = now - int (min (wn_timeout ns1) timeout)" using x by (simp add: ts_sub_Some)
  ultimately show ?thesis using bm.set_old [of "wn_current ns1" n] assms(1)
    by (auto simp: wn_commit_def ok_or_def require_r_def is_ok_def wn_used_def split_def)
qed

text \<open>Cleaning up and committing add no other nonce, and cannot fail while the window is within range.\<close>

lemma cleanup_used: "check_cleanup R now ns = Inr ns' \<Longrightarrow> wn_used ns' n \<Longrightarrow> wn_used ns n"
  by (erule check_cleanup_Inr) (auto simp: wn_used_def split: if_splits)

lemma commit_used:
  assumes "wn_commit R now n created_at timeout ns = Inr ns'" and "wn_ok ns" and "wn_used ns' k"
  shows "k = n \<or> wn_used ns k"
proof -
  obtain ns1 where c: "check_cleanup R now ns = Inr ns1" "wn_ok ns1" and ns': "ns' = ns1\<lparr>wn_current := fst (bm_set (wn_current ns1) n)\<rparr>"
    using assms(1,2) by (rule wn_commit_Inr)
  have "bm_get (fst (bm_set (wn_current ns1) n)) k \<longleftrightarrow> k = n \<or> bm_get (wn_current ns1) k"
    using c(2) by (intro bm.set_get) (simp_all add: wn_ok_def)
  then have "k = n \<or> wn_used ns1 k" using assms(3) by (auto simp: ns' wn_used_def)
  then show ?thesis using cleanup_used [OF c(1)] by blast
qed

definition window_in_range :: "ts_range \<Rightarrow> int \<Rightarrow> duration \<Rightarrow> bool" where
  "window_in_range R now T \<longleftrightarrow> ts_min R \<le> now - 2 * int T \<and> now \<le> ts_max R \<and> int (as_secs_dur T) \<le> i_max 64"

lemma window_sub: "window_in_range R now T \<Longrightarrow> d \<le> T \<Longrightarrow> ts_sub R now d = Some (now - int d)"
proof -
  assume w: "window_in_range R now T" and "d \<le> T"
  then have "as_secs_dur d \<le> as_secs_dur T" by (simp add: as_secs_dur_def div_le_mono)
  with w \<open>d \<le> T\<close> show ?thesis by (simp add: ts_sub_Some window_in_range_def)
qed

lemma check_cleanup_total:
  assumes "window_in_range R now (wn_timeout ns)"
  shows "\<exists>ns'. check_cleanup R now ns = Inr ns'"
proof -
  have "ts_sub R (now - int (wn_timeout ns)) (wn_timeout ns) = Some (now - int (wn_timeout ns) - int (wn_timeout ns))"
    using assms by (simp add: ts_sub_Some window_in_range_def)
  with window_sub [OF assms order_refl] show ?thesis by (simp add: check_cleanup_def)
qed

subsection \<open>The generator of the client\<close>

record concurrent_nonces =
  cn_next :: "32 word"
  cn_rng :: "32 word list"

definition BIT_POS_MASK :: "32 word" where
  "BIT_POS_MASK = push_bit (ilog2 32) 1 - 1"

definition cn_new :: "32 word list \<Rightarrow> concurrent_nonces" where
  "cn_new rng = \<lparr> cn_next = 0, cn_rng = rng \<rparr>"

text \<open>The random numbers are a list; none are left when it is empty.\<close>

definition next_nonce :: "concurrent_nonces \<Rightarrow> (concurrent_nonces \<times> 32 word) option" where
  "next_nonce g =
     (if cn_next g AND BIT_POS_MASK = 0 then
        (case cn_rng g of
           [] \<Rightarrow> None
         | x # xs \<Rightarrow> let n = x AND NOT BIT_POS_MASK in Some (g\<lparr>cn_next := n + 1, cn_rng := xs\<rparr>, n))
      else Some (g\<lparr>cn_next := cn_next g + 1\<rparr>, cn_next g))"

end
