(* ===== verification/WalletMessages.thy ===== *)
theory WalletMessages
  imports NearPromises WalletNonces
begin

text \<open>
  What wallets are asked to do: requests (\<open>contracts/wallet/src/request\<close>), the messages that carry
  them (\<open>message.rs\<close>) and the off-chain messages and resolutions of NEP-641
  (\<open>crates/signatures/nep641/src/lib.rs\<close>, \<open>message.rs\<close>), with their encodings and the bytes that are
  hashed and signed. SHA3-256 and the encoding of a state init are arguments.
\<close>

subsection \<open>Requests\<close>

datatype wallet_op =
    SetSignatureMode bool
  | AddExtension account_id
  | RemoveExtension account_id

record request =
  rq_internal :: "wallet_op list"
  rq_external :: "near_promise list"

definition rq_new :: request where
  "rq_new = \<lparr> rq_internal = [], rq_external = [] \<rparr>"

definition rq_is_empty :: "request \<Rightarrow> bool" where
  "rq_is_empty r \<longleftrightarrow> rq_internal r = [] \<and> rq_external r = []"

definition rq_with_internal :: "wallet_op list \<Rightarrow> request \<Rightarrow> request" where
  "rq_with_internal ops r = r\<lparr>rq_internal := rq_internal r @ ops\<rparr>"

definition rq_with_external :: "near_promise list \<Rightarrow> request \<Rightarrow> request" where
  "rq_with_external ps r = r\<lparr>rq_external := rq_external r @ ps\<rparr>"

definition rq_of_op :: "wallet_op \<Rightarrow> request" where
  "rq_of_op x = rq_with_internal [x] rq_new"

definition rq_of_promise :: "near_promise \<Rightarrow> request" where
  "rq_of_promise p = rq_with_external [p] rq_new"

definition rq_total_deposit :: "request \<Rightarrow> near_token" where
  "rq_total_deposit r = foldl (sat_add_u 128) 0 (map np_total_deposit (rq_external r))"

definition rq_estimate_gas :: "request \<Rightarrow> gas" where
  "rq_estimate_gas r = foldl (sat_add_u 64)
     (sat_add_u 64 (tgas 5) (sat_mul_u 64 (ggas 100) (to_u64 (length (rq_internal r)))))
     (map np_estimate_gas (rq_external r))"

record request_message =
  rm_pay_for_gas :: bool
  rm_chain_id :: string
  rm_signer_id :: account_id
  rm_nonce :: "32 word"
  rm_created_at :: int
  rm_timeout :: duration
  rm_request :: request

definition rm_deadline :: "ts_range \<Rightarrow> request_message \<Rightarrow> int" where
  "rm_deadline R m = saturating_add_unsigned R (rm_created_at m) (rm_timeout m)"

definition rm_duration_left :: "ts_range \<Rightarrow> int \<Rightarrow> request_message \<Rightarrow> duration option" where
  "rm_duration_left R now m =
     (if now < rm_created_at m then None
      else case duration_since (rm_deadline R m) now of Inl _ \<Rightarrow> None | Inr d \<Rightarrow> Some d)"

subsection \<open>Off-chain messages and resolutions\<close>

record offchain_message =
  om_chain_id :: string
  om_signer_id :: account_id
  om_path :: "account_id list"
  om_timestamp :: int
  om_payload :: string

definition is_top_level :: "offchain_message \<Rightarrow> bool" where
  "is_top_level m \<longleftrightarrow> om_path m = []"

definition om_depth :: "offchain_message \<Rightarrow> nat" where
  "om_depth m = length (om_path m)"

definition top_level_id :: "offchain_message \<Rightarrow> account_id" where
  "top_level_id m = (if om_path m = [] then om_signer_id m else last (om_path m))"

record pending_authorization =
  pa_account_id :: account_id
  pa_authorization :: string
  pa_expect :: string

record authorization_resolution =
  ar_payload :: string
  ar_pending :: "pending_authorization list"

definition ar_new :: "string \<Rightarrow> authorization_resolution" where
  "ar_new p = \<lparr> ar_payload = p, ar_pending = [] \<rparr>"

definition ar_add_pending :: "account_id \<Rightarrow> string \<Rightarrow> string \<Rightarrow> authorization_resolution \<Rightarrow> authorization_resolution" where
  "ar_add_pending a auth expect r =
     r\<lparr>ar_pending := ar_pending r @ [\<lparr> pa_account_id = a, pa_authorization = auth, pa_expect = expect \<rparr>]\<rparr>"

definition ar_is_leaf :: "authorization_resolution \<Rightarrow> bool" where
  "ar_is_leaf r \<longleftrightarrow> ar_pending r = []"

datatype wallet_authorization =
    ViaSignature offchain_message string
  | ViaExtension account_id string string

fun wa_payload :: "wallet_authorization \<Rightarrow> string" where
  "wa_payload (ViaSignature m _) = om_payload m"
| "wa_payload (ViaExtension _ _ p) = p"

text \<open>\<open>to_blob\<close> is the conversion of an authorization to JSON.\<close>

definition wa_as_extension_of :: "(wallet_authorization \<Rightarrow> string) \<Rightarrow> wallet_authorization \<Rightarrow> account_id \<Rightarrow> wallet_authorization" where
  "wa_as_extension_of to_blob w a = ViaExtension a (to_blob w) (wa_payload w)"

subsection \<open>Encoding and what is hashed\<close>

fun e_wallet_op :: "wallet_op encoder" where
  "e_wallet_op (SetSignatureMode b) = e_seq (e_uint 8 0) (e_bool b)"
| "e_wallet_op (AddExtension a) = e_seq (e_uint 8 1) (e_account_id a)"
| "e_wallet_op (RemoveExtension a) = e_seq (e_uint 8 2) (e_account_id a)"

definition e_request :: "state_init_v1 encoder \<Rightarrow> request encoder" where
  "e_request es r = e_seq (e_vec e_wallet_op (rq_internal r)) (e_vec (e_near_promise es) (rq_external r))"

definition e_request_message :: "state_init_v1 encoder \<Rightarrow> request_message encoder" where
  "e_request_message es m =
     e_seq (e_bool (rm_pay_for_gas m)) (e_seq (e_string (rm_chain_id m)) (e_seq (e_account_id (rm_signer_id m))
     (e_seq (e_uint 32 (unat (rm_nonce m))) (e_seq (e_timestamp_nanos 64 (rm_created_at m))
     (e_seq (e_duration NANOS_PER_SEC 32 (rm_timeout m)) (e_request es (rm_request m)))))))"

definition e_offchain_message :: "offchain_message encoder" where
  "e_offchain_message m =
     e_seq (e_string (om_chain_id m)) (e_seq (e_account_id (om_signer_id m)) (e_seq (e_vec e_account_id (om_path m))
     (e_seq (e_timestamp_nanos 64 (om_timestamp m)) (e_string (om_payload m)))))"

definition rm_domain_separator :: "byte list" where
  "rm_domain_separator = map char_byte ''NEAR_WALLET_CONTRACT/V1''"

definition om_domain_separator :: "byte list" where
  "om_domain_separator = map char_byte ''NEAR_NEP641_OFFCHAIN_MESSAGE/V1''"

text \<open>The hashes panic where the message cannot be serialized.\<close>

definition rm_preimage :: "state_init_v1 encoder \<Rightarrow> request_message \<Rightarrow> byte list option" where
  "rm_preimage es m = map_option ((@) rm_domain_separator) (e_request_message es m)"

definition rm_hash :: "(byte list \<Rightarrow> byte list) \<Rightarrow> state_init_v1 encoder \<Rightarrow> request_message \<Rightarrow> byte list option" where
  "rm_hash sha3 es m = map_option sha3 (rm_preimage es m)"

definition om_preimage :: "offchain_message \<Rightarrow> byte list option" where
  "om_preimage m = map_option ((@) om_domain_separator) (e_offchain_message m)"

definition om_hash :: "(byte list \<Rightarrow> byte list) \<Rightarrow> offchain_message \<Rightarrow> byte list option" where
  "om_hash sha3 m = map_option sha3 (om_preimage m)"

lemma readable_account_id: "readable (\<lambda>_. True) e_account_id"
  unfolding e_account_id_def by (rule readable_string)

lemma readable_op: "readable (\<lambda>_. True) e_wallet_op"
proof (rule readableI)
  fix x y a b r s assume enc: "e_wallet_op x = Some a" "e_wallet_op y = Some b" "a @ r = b @ s"
  show "x = y \<and> r = s"
  proof (cases x)
    case (SetSignatureMode u)
    then obtain v where y: "y = SetSignatureMode v" using enc(1,2) by (cases y) (auto dest: tag_read [OF _ _ enc(3)])
    show ?thesis using tag_readable [OF readable_bool, of 0 u a v b r s] enc by (simp add: SetSignatureMode y)
  next
    case (AddExtension u)
    then obtain v where y: "y = AddExtension v" using enc(1,2) by (cases y) (auto dest: tag_read [OF _ _ enc(3)])
    show ?thesis using tag_readable [OF readable_account_id, of 1 u a v b r s] enc by (simp add: AddExtension y)
  next
    case (RemoveExtension u)
    then obtain v where y: "y = RemoveExtension v" using enc(1,2) by (cases y) (auto dest: tag_read [OF _ _ enc(3)])
    show ?thesis using tag_readable [OF readable_account_id, of 2 u a v b r s] enc by (simp add: RemoveExtension y)
  qed
qed

lemma readable_request: "readable (\<lambda>_. True) es \<Longrightarrow> readable (\<lambda>_. True) (e_request es)"
  by (rule readable_via [OF readable_seq [OF readable_vec [OF readable_op] readable_vec [OF readable_promise]],
        where g = "\<lambda>r. (rq_internal r, rq_external r)"])
    (simp_all add: e_request_def list_all_iff)

lemma readable_nonce: "readable (\<lambda>_. True) (\<lambda>n :: 32 word. e_uint 32 (unat n))"
  by (rule readable_via [OF readable_uint, where g = unat]) (simp_all add: unsigned_word_eqI)

lemma readable_request_message:
  "readable (\<lambda>_. True) es \<Longrightarrow> readable (\<lambda>m. NANOS_PER_SEC dvd rm_timeout m) (e_request_message es)"
  by (rule readable_via [OF readable_seq [OF readable_bool readable_seq [OF readable_string readable_seq [OF readable_account_id
        readable_seq [OF readable_nonce readable_seq [OF readable_timestamp readable_seq [OF readable_duration readable_request]]]]]],
        where g = "\<lambda>m. (rm_pay_for_gas m, rm_chain_id m, rm_signer_id m, rm_nonce m, rm_created_at m, rm_timeout m, rm_request m)"])
    (simp_all add: e_request_message_def NANOS_PER_SEC_def)

interpretation offchain: uniquely_readable "\<lambda>_. True" e_offchain_message
  by unfold_locales
    (rule readable_via [OF readable_seq [OF readable_string readable_seq [OF readable_account_id readable_seq [OF
        readable_vec [OF readable_account_id] readable_seq [OF readable_timestamp readable_string]]]],
        where g = "\<lambda>m. (om_chain_id m, om_signer_id m, om_path m, om_timestamp m, om_payload m)"];
     simp add: e_offchain_message_def list_all_iff)

text \<open>The two domains share no bytes to hash: the separators differ in their sixth byte.\<close>

lemma domains_differ: "rm_preimage es m = Some a \<Longrightarrow> om_preimage n = Some b \<Longrightarrow> a \<noteq> b"
  by (auto simp: rm_preimage_def om_preimage_def rm_domain_separator_def om_domain_separator_def char_byte_def)

text \<open>
  C24: The bytes a wallet hashes and verifies a signature over determine the whole message: two
  request messages with whole-second timeouts that have the same bytes are the same message, two
  off-chain messages likewise, and no request message has the bytes of an off-chain message. This
  needs only that the encoding of state inits is uniquely readable.
\<close>

theorem signed_bytes_determine_message:
  assumes "readable (\<lambda>_. True) es"
  shows "(NANOS_PER_SEC dvd rm_timeout m \<and> NANOS_PER_SEC dvd rm_timeout m' \<and>
        rm_preimage es m = Some b \<and> rm_preimage es m' = Some b \<longrightarrow> m = m')
    \<and> (om_preimage n = Some b \<and> om_preimage n' = Some b \<longrightarrow> n = n')
    \<and> \<not> (rm_preimage es m = Some b \<and> om_preimage n = Some b)"
  using uniquely_readable.injective [OF uniquely_readable.intro [OF readable_request_message [OF assms]], of m m']
    offchain.injective [of n _ n'] domains_differ [of es m b n b]
  by (auto simp: rm_preimage_def om_preimage_def)

end
