(* ===== verification/Wallet.thy ===== *)
theory Wallet
  imports WalletMessages
begin

text \<open>
  The wallet contract (\<open>contracts/wallet/src/state.rs\<close>, \<open>contract.rs\<close>, \<open>events.rs\<close>, \<open>error.rs\<close>).
  A method takes the state and returns it with the events it emitted and the promises it detached;
  an error panics, so that nothing of it is kept. The signature schema (\<open>schema.rs\<close>) is a record of
  the two verification functions, the runtime, the hash and the JSON parser are the record
  \<open>wallet_env\<close>.
\<close>

subsection \<open>State\<close>

record 'k wallet_state =
  ws_signature_enabled :: bool
  ws_subwallet_id :: "32 word"
  ws_public_key :: 'k
  ws_nonces :: wallet_nonces
  ws_extensions :: "account_id set"

definition DEFAULT_SUBWALLET_ID :: "32 word" where
  "DEFAULT_SUBWALLET_ID = 0"

definition ws_new :: "'k \<Rightarrow> 'k wallet_state" where
  "ws_new pk = \<lparr> ws_signature_enabled = True, ws_subwallet_id = DEFAULT_SUBWALLET_ID, ws_public_key = pk,
     ws_nonces = wn_new DEFAULT_TIMEOUT, ws_extensions = {} \<rparr>"

definition ws_with_subwallet_id :: "32 word \<Rightarrow> 'k wallet_state \<Rightarrow> 'k wallet_state" where
  "ws_with_subwallet_id i s = s\<lparr>ws_subwallet_id := i\<rparr>"

definition ws_with_timeout :: "duration \<Rightarrow> 'k wallet_state \<Rightarrow> 'k wallet_state" where
  "ws_with_timeout d s = s\<lparr>ws_nonces := wn_new d\<rparr>"

definition ws_with_extensions :: "account_id list \<Rightarrow> 'k wallet_state \<Rightarrow> 'k wallet_state" where
  "ws_with_extensions as s = s\<lparr>ws_extensions := ws_extensions s \<union> set as\<rparr>"

definition is_signature_allowed :: "'k wallet_state \<Rightarrow> bool" where
  "is_signature_allowed s \<longleftrightarrow> ws_signature_enabled s \<or> ws_extensions s = {}"

definition has_extension :: "account_id \<Rightarrow> 'k wallet_state \<Rightarrow> bool" where
  "has_extension a s \<longleftrightarrow> a \<in> ws_extensions s"

subsection \<open>Errors, events and the environment\<close>

datatype wallet_error =
    ExtensionEnabled account_id
  | ExtensionNotEnabled account_id
  | FromTheFuture
  | InsufficientDeposit
  | InvalidChainId
  | InvalidPath
  | InvalidWalletSignature
  | InvalidSignerId account_id
  | InvalidJson
  | Lockout
  | NonceErr nonce_error
  | SelfCallsNotAllowed
  | SignatureDisabled
  | ThisSignatureModeAlreadySet
  | UnsupportedPromiseAction
  | WalletPanic string

datatype actor = BySignedRequest "byte list" | ByExtension account_id

datatype wallet_event =
    ExtensionAdded account_id actor
  | ExtensionRemoved account_id actor
  | SignatureModeSet bool actor
  | SignedRequest "byte list"

record 'k signature_schema =
  verify_request_msg :: "'k \<Rightarrow> request_message \<Rightarrow> string \<Rightarrow> bool"
  verify_offchain_msg :: "'k \<Rightarrow> offchain_message \<Rightarrow> string \<Rightarrow> bool"

record wallet_env =
  we_chain_id :: string
  we_current :: account_id
  we_predecessor :: account_id
  we_attached_deposit :: near_token
  we_now :: int
  we_ts_range :: ts_range
  we_sha3_256 :: "byte list \<Rightarrow> byte list"
  we_state_init :: "state_init_v1 encoder"
  we_from_json :: "string \<Rightarrow> wallet_authorization option"

record 'k wallet_run =
  wr_state :: "'k wallet_state"
  wr_events :: "wallet_event list"
  wr_promises :: "sdk_promise list"

definition wr_start :: "'k wallet_state \<Rightarrow> 'k wallet_run" where
  "wr_start s = \<lparr> wr_state = s, wr_events = [], wr_promises = [] \<rparr>"

definition wr_emit :: "wallet_event \<Rightarrow> 'k wallet_run \<Rightarrow> 'k wallet_run" where
  "wr_emit e r = r\<lparr>wr_events := wr_events r @ [e]\<rparr>"

definition wr_detach :: "sdk_promise \<Rightarrow> 'k wallet_run \<Rightarrow> 'k wallet_run" where
  "wr_detach p r = r\<lparr>wr_promises := wr_promises r @ [p]\<rparr>"

subsection \<open>Operations\<close>

definition check_extension_enabled :: "account_id \<Rightarrow> 'k wallet_state \<Rightarrow> wallet_error + unit" where
  "check_extension_enabled a s = require_r (has_extension a s) (ExtensionNotEnabled a)"

definition check_lockout :: "'k wallet_state \<Rightarrow> wallet_error + unit" where
  "check_lockout s = require_r (\<not> (\<not> ws_signature_enabled s \<and> ws_extensions s = {})) Lockout"

definition set_signature_mode :: "bool \<Rightarrow> actor \<Rightarrow> 'k wallet_run \<Rightarrow> wallet_error + 'k wallet_run" where
  "set_signature_mode enable by_actor r =
     bind_r (require_r (ws_signature_enabled (wr_state r) \<noteq> enable) ThisSignatureModeAlreadySet) (\<lambda>_.
     let s = (wr_state r)\<lparr>ws_signature_enabled := enable\<rparr> in
     bind_r (check_lockout s) (\<lambda>_. Inr (wr_emit (SignatureModeSet enable by_actor) (r\<lparr>wr_state := s\<rparr>))))"

definition add_extension :: "account_id \<Rightarrow> actor \<Rightarrow> 'k wallet_run \<Rightarrow> wallet_error + 'k wallet_run" where
  "add_extension a by_actor r =
     bind_r (require_r (a \<notin> ws_extensions (wr_state r)) (ExtensionEnabled a)) (\<lambda>_.
     let s = (wr_state r)\<lparr>ws_extensions := insert a (ws_extensions (wr_state r))\<rparr> in
     Inr (wr_emit (ExtensionAdded a by_actor) (r\<lparr>wr_state := s\<rparr>)))"

definition remove_extension :: "account_id \<Rightarrow> actor \<Rightarrow> 'k wallet_run \<Rightarrow> wallet_error + 'k wallet_run" where
  "remove_extension a by_actor r =
     bind_r (require_r (a \<in> ws_extensions (wr_state r)) (ExtensionNotEnabled a)) (\<lambda>_.
     let s = (wr_state r)\<lparr>ws_extensions := ws_extensions (wr_state r) - {a}\<rparr> in
     bind_r (check_lockout s) (\<lambda>_. Inr (wr_emit (ExtensionRemoved a by_actor) (r\<lparr>wr_state := s\<rparr>))))"

fun execute_op :: "actor \<Rightarrow> wallet_op \<Rightarrow> 'k wallet_run \<Rightarrow> wallet_error + 'k wallet_run" where
  "execute_op by_actor (SetSignatureMode enable) r = set_signature_mode enable by_actor r"
| "execute_op by_actor (AddExtension a) r = add_extension a by_actor r"
| "execute_op by_actor (RemoveExtension a) r = remove_extension a by_actor r"

fun supported_action :: "near_action \<Rightarrow> bool" where
  "supported_action (FunctionCall _) = True"
| "supported_action (TransferNear _) = True"
| "supported_action (DeterministicStateInit _) = True"

definition build_promise :: "wallet_env \<Rightarrow> near_promise \<Rightarrow> wallet_error + sdk_promise" where
  "build_promise E p =
     bind_r (require_r (np_receiver_id p \<noteq> we_current E) SelfCallsNotAllowed) (\<lambda>_.
     bind_r (require_r (list_all supported_action (np_actions p)) UnsupportedPromiseAction) (\<lambda>_.
     Inr (np_build p)))"

definition execute_request :: "wallet_env \<Rightarrow> request \<Rightarrow> actor \<Rightarrow> 'k wallet_run \<Rightarrow> wallet_error + 'k wallet_run" where
  "execute_request E rq by_actor r =
     bind_r (fold_r (execute_op by_actor) (rq_internal rq) r)
       (fold_r (\<lambda>p r. bind_r (build_promise E p) (\<lambda>q. Inr (wr_detach q r))) (rq_external rq))"

subsection \<open>Methods\<close>

definition PAY_FOR_GAS_MSG :: string where
  "PAY_FOR_GAS_MSG = ''`pay_for_gas` is not currently supported''"

definition execute_signed ::
  "wallet_env \<Rightarrow> 'k signature_schema \<Rightarrow> request_message \<Rightarrow> string \<Rightarrow> 'k wallet_state \<Rightarrow> wallet_error + 'k wallet_run"
where
  "execute_signed E S m proof s =
     bind_r (require_r (is_signature_allowed s) SignatureDisabled) (\<lambda>_.
     bind_r (require_r (\<not> rm_pay_for_gas m) (WalletPanic PAY_FOR_GAS_MSG)) (\<lambda>_.
     bind_r (require_r (rm_chain_id m = we_chain_id E) InvalidChainId) (\<lambda>_.
     bind_r (require_r (rm_signer_id m = we_current E) (InvalidSignerId (rm_signer_id m))) (\<lambda>_.
     bind_r (map_sum NonceErr id (wn_commit (we_ts_range E) (we_now E) (rm_nonce m) (rm_created_at m) (rm_timeout m) (ws_nonces s))) (\<lambda>ns.
     let s = s\<lparr>ws_nonces := ns\<rparr> in
     bind_r (require_r (verify_request_msg S (ws_public_key s) m proof) InvalidWalletSignature) (\<lambda>_.
     bind_r (ok_or (rm_hash (we_sha3_256 E) (we_state_init E) m) (WalletPanic ''borsh: failed to serialize'')) (\<lambda>hash.
     execute_request E (rm_request m) (BySignedRequest hash) (wr_emit (SignedRequest hash) (wr_start s)))))))))"

definition execute_extension :: "wallet_env \<Rightarrow> request \<Rightarrow> 'k wallet_state \<Rightarrow> wallet_error + 'k wallet_run" where
  "execute_extension E rq s =
     bind_r (require_r (we_attached_deposit E \<noteq> 0) InsufficientDeposit) (\<lambda>_.
     bind_r (check_extension_enabled (we_predecessor E) s) (\<lambda>_.
     bind_r (map_sum NonceErr id (check_cleanup (we_ts_range E) (we_now E) (ws_nonces s))) (\<lambda>ns.
     execute_request E rq (ByExtension (we_predecessor E)) (wr_start (s\<lparr>ws_nonces := ns\<rparr>)))))"

definition w_timeout_secs :: "'k wallet_state \<Rightarrow> nat option" where
  "w_timeout_secs s = (let t = as_secs_dur (wn_timeout (ws_nonces s)) in if t \<le> u_max 32 then Some t else None)"

definition w_last_cleaned_at :: "'k wallet_state \<Rightarrow> int" where
  "w_last_cleaned_at s = wn_last_cleaned_at (ws_nonces s)"

subsection \<open>Off-chain authorizations\<close>

definition resolve_auth ::
  "wallet_env \<Rightarrow> 'k signature_schema \<Rightarrow> account_id list \<Rightarrow> string \<Rightarrow> 'k wallet_state \<Rightarrow> wallet_error + authorization_resolution"
where
  "resolve_auth E S path authorization s =
     bind_r (ok_or (we_from_json E authorization) InvalidJson) (\<lambda>input.
     case input of
       ViaSignature m proof \<Rightarrow>
         bind_r (require_r (is_signature_allowed s) SignatureDisabled) (\<lambda>_.
         bind_r (require_r (om_chain_id m = we_chain_id E) InvalidChainId) (\<lambda>_.
         bind_r (require_r (om_signer_id m = we_current E) (InvalidSignerId (om_signer_id m))) (\<lambda>_.
         bind_r (require_r (om_path m = path) InvalidPath) (\<lambda>_.
         bind_r (require_r (\<not> we_now E < om_timestamp m) FromTheFuture) (\<lambda>_.
         bind_r (require_r (verify_offchain_msg S (ws_public_key s) m proof) InvalidWalletSignature) (\<lambda>_.
         Inr (ar_new (om_payload m))))))))
     | ViaExtension a auth payload \<Rightarrow>
         bind_r (check_extension_enabled a s) (\<lambda>_.
         Inr (ar_add_pending a auth payload (ar_new payload))))"

end
