(* ===== verification/Keys.thy ===== *)
theory Keys
  imports CoreTypes
begin

text \<open>
  Keys and signatures (\<open>crates/crypto/src\<close>, \<open>contracts/defuse/core/src/public_key.rs\<close>,
  \<open>signature.rs\<close>, \<open>crates/signatures/nep641/src/access_keys.rs\<close>): the checks the crate puts before
  the primitives of the curves, and the text form \<open><curve>:<base58>\<close>. The primitives are the record
  \<open>curves\<close>, base 58 is the record \<open>base58\<close>. Keys and signatures are their bytes.
\<close>

subsection \<open>Curves\<close>

text \<open>
  What the libraries and the host provide: which bytes are keys and signatures, the weak keys of
  Ed25519, the high \<open>s\<close> of P-256, and the primitives. \<open>ecrecover\<close> rejects malleable signatures.
\<close>

record curves =
  ed25519_is_key :: "byte list \<Rightarrow> bool"
  ed25519_is_weak :: "byte list \<Rightarrow> bool"
  ed25519_primitive :: "byte list \<Rightarrow> byte list \<Rightarrow> byte list \<Rightarrow> bool"
  secp256k1_is_key :: "byte list \<Rightarrow> bool"
  secp256k1_is_signature :: "byte list \<Rightarrow> bool"
  ecrecover :: "byte list \<Rightarrow> byte list \<Rightarrow> nat \<Rightarrow> byte list option"
  p256_is_key :: "byte list \<Rightarrow> bool"
  p256_is_signature :: "byte list \<Rightarrow> bool"
  p256_high_s :: "byte list \<Rightarrow> bool"
  p256_primitive :: "byte list \<Rightarrow> byte list \<Rightarrow> byte list \<Rightarrow> bool"

definition ed25519_verify :: "curves \<Rightarrow> byte list \<Rightarrow> byte list \<Rightarrow> byte list \<Rightarrow> bool" where
  "ed25519_verify K pk msg sig = (if ed25519_is_weak K pk then False else ed25519_primitive K pk msg sig)"

definition RECOVERY_ID_MAX :: nat where
  "RECOVERY_ID_MAX = 3"

definition secp256k1_recover :: "curves \<Rightarrow> byte list \<Rightarrow> byte list \<Rightarrow> nat \<Rightarrow> byte list option" where
  "secp256k1_recover K prehash sig i =
     (if length prehash \<noteq> 32 then None
      else Option.bind (ecrecover K prehash sig i) (\<lambda>pk. if secp256k1_is_key K pk then Some pk else None))"

definition secp256k1_verify :: "curves \<Rightarrow> byte list \<Rightarrow> byte list \<Rightarrow> byte list \<Rightarrow> bool" where
  "secp256k1_verify K pk prehash sig =
     (if length prehash \<noteq> 32 then False
      else list_ex (\<lambda>i. secp256k1_recover K prehash sig i = Some pk) [0..<Suc RECOVERY_ID_MAX])"

text \<open>A recoverable signature: 64 bytes of signature and the recovery id.\<close>

definition recoverable_parts :: "curves \<Rightarrow> byte list \<Rightarrow> (byte list \<times> nat) option" where
  "recoverable_parts K sig =
     (if \<not> secp256k1_is_signature K (butlast sig) then None
      else if RECOVERY_ID_MAX < unat (last sig) then None
      else Some (butlast sig, unat (last sig)))"

definition recoverable_of :: "byte list \<times> nat \<Rightarrow> byte list" where
  "recoverable_of p = fst p @ [word_of_nat (snd p)]"

definition p256_verify :: "curves \<Rightarrow> byte list \<Rightarrow> byte list \<Rightarrow> byte list \<Rightarrow> bool" where
  "p256_verify K pk prehash sig =
     (if length prehash \<noteq> 32 then False
      else if p256_high_s K sig then False
      else p256_primitive K pk prehash sig)"

lemma recoverable_round_trip:
  "secp256k1_is_signature K sig \<Longrightarrow> i \<le> RECOVERY_ID_MAX \<Longrightarrow> recoverable_parts K (recoverable_of (sig, i)) = Some (sig, i)"
  by (simp add: recoverable_parts_def recoverable_of_def RECOVERY_ID_MAX_def unsigned_of_nat take_bit_nat_eq_self)

text \<open>Verification by trial recovery accepts exactly what some recovery id recovers.\<close>

lemma secp256k1_verify_recovers:
  "secp256k1_verify K pk prehash sig \<longleftrightarrow> (\<exists>i \<le> RECOVERY_ID_MAX. secp256k1_recover K prehash sig i = Some pk)"
proof (cases "length prehash = 32")
  case True
  then show ?thesis by (auto simp: secp256k1_verify_def list_ex_iff less_Suc_eq_le simp del: upt_Suc)
qed (simp add: secp256k1_verify_def secp256k1_recover_def)

subsection \<open>Text form\<close>

text \<open>
  \<open>bs58_decode n\<close> is the decoder into a buffer of \<open>n\<close> bytes: it fails on other characters and where
  the buffer is too small, and returns what it wrote.
\<close>

record base58 =
  bs58_encode :: "byte list \<Rightarrow> string"
  bs58_decode :: "nat \<Rightarrow> string \<Rightarrow> byte list option"

datatype parse_curve_error = WrongCurveType | Base58Error | InvalidLength

datatype curve_type = CurveEd25519 | CurveSecp256k1 | CurveP256

fun CURVE_TYPE :: "curve_type \<Rightarrow> string" where
  "CURVE_TYPE CurveEd25519 = ''ed25519''"
| "CURVE_TYPE CurveSecp256k1 = ''secp256k1''"
| "CURVE_TYPE CurveP256 = ''p256''"

definition to_base58 :: "base58 \<Rightarrow> curve_type \<Rightarrow> byte list \<Rightarrow> string" where
  "to_base58 B c bytes = CURVE_TYPE c @ '':'' @ bs58_encode B bytes"

definition checked_base58_decode_array :: "base58 \<Rightarrow> nat \<Rightarrow> string \<Rightarrow> parse_curve_error + byte list" where
  "checked_base58_decode_array B n s =
     bind_r (ok_or (bs58_decode B n s) Base58Error) (\<lambda>out.
     bind_r (require_r (length out = n) InvalidLength) (\<lambda>_. Inr out))"

definition ascii_lower :: "char \<Rightarrow> char" where
  "ascii_lower c = (if CHR ''A'' \<le> c \<and> c \<le> CHR ''Z'' then char_of ((of_char c :: nat) + 32) else c)"

definition eq_ignore_ascii_case :: "string \<Rightarrow> string \<Rightarrow> bool" where
  "eq_ignore_ascii_case s t \<longleftrightarrow> map ascii_lower s = map ascii_lower t"

definition parse_base58 :: "base58 \<Rightarrow> curve_type \<Rightarrow> nat \<Rightarrow> string \<Rightarrow> parse_curve_error + byte list" where
  "parse_base58 B c n s =
     (case split_once CHR '':'' s of
        Some (curve, data) \<Rightarrow>
          bind_r (require_r (eq_ignore_ascii_case curve (CURVE_TYPE c)) WrongCurveType) (\<lambda>_. checked_base58_decode_array B n data)
      | None \<Rightarrow> checked_base58_decode_array B n s)"

text \<open>
  The keys and signatures of the intents contract name their curve, Ed25519 being the default; those
  of NEP-641 must name it, and know two curves only.
\<close>

datatype signature = SigEd25519 "byte list" | SigSecp256k1 "byte list" | SigP256 "byte list"

fun public_key_to_string :: "base58 \<Rightarrow> public_key \<Rightarrow> string" where
  "public_key_to_string B (Ed25519 pk) = to_base58 B CurveEd25519 pk"
| "public_key_to_string B (Secp256k1 pk) = to_base58 B CurveSecp256k1 pk"
| "public_key_to_string B (P256 pk) = to_base58 B CurveP256 pk"

fun signature_to_string :: "base58 \<Rightarrow> signature \<Rightarrow> string" where
  "signature_to_string B (SigEd25519 x) = to_base58 B CurveEd25519 x"
| "signature_to_string B (SigSecp256k1 x) = to_base58 B CurveSecp256k1 x"
| "signature_to_string B (SigP256 x) = to_base58 B CurveP256 x"

definition public_key_from_str :: "base58 \<Rightarrow> string \<Rightarrow> parse_curve_error + public_key" where
  "public_key_from_str B s =
     (let (curve, data) = (case split_once CHR '':'' s of Some p \<Rightarrow> p | None \<Rightarrow> (CURVE_TYPE CurveEd25519, s)) in
      if curve = CURVE_TYPE CurveEd25519 then map_sum id Ed25519 (checked_base58_decode_array B 32 data)
      else if curve = CURVE_TYPE CurveSecp256k1 then map_sum id Secp256k1 (checked_base58_decode_array B 64 data)
      else if curve = CURVE_TYPE CurveP256 then map_sum id P256 (checked_base58_decode_array B 64 data)
      else Inl WrongCurveType)"

definition signature_from_str :: "base58 \<Rightarrow> string \<Rightarrow> parse_curve_error + signature" where
  "signature_from_str B s =
     (let (curve, data) = (case split_once CHR '':'' s of Some p \<Rightarrow> p | None \<Rightarrow> (CURVE_TYPE CurveEd25519, s)) in
      if curve = CURVE_TYPE CurveEd25519 then map_sum id SigEd25519 (checked_base58_decode_array B 64 data)
      else if curve = CURVE_TYPE CurveSecp256k1 then map_sum id SigSecp256k1 (checked_base58_decode_array B 65 data)
      else if curve = CURVE_TYPE CurveP256 then map_sum id SigP256 (checked_base58_decode_array B 64 data)
      else Inl WrongCurveType)"

datatype access_key = AkEd25519 "byte list" | AkSecp256k1 "byte list"

datatype access_signature = AsEd25519 "byte list" | AsSecp256k1 "byte list"

fun access_key_to_string :: "base58 \<Rightarrow> access_key \<Rightarrow> string" where
  "access_key_to_string B (AkEd25519 pk) = to_base58 B CurveEd25519 pk"
| "access_key_to_string B (AkSecp256k1 pk) = to_base58 B CurveSecp256k1 pk"

fun access_signature_to_string :: "base58 \<Rightarrow> access_signature \<Rightarrow> string" where
  "access_signature_to_string B (AsEd25519 x) = to_base58 B CurveEd25519 x"
| "access_signature_to_string B (AsSecp256k1 x) = to_base58 B CurveSecp256k1 x"

definition access_key_from_str :: "base58 \<Rightarrow> string \<Rightarrow> parse_curve_error + access_key" where
  "access_key_from_str B s =
     bind_r (ok_or (split_once CHR '':'' s) WrongCurveType) (\<lambda>(curve, data).
      if curve = CURVE_TYPE CurveEd25519 then map_sum id AkEd25519 (checked_base58_decode_array B 32 data)
      else if curve = CURVE_TYPE CurveSecp256k1 then map_sum id AkSecp256k1 (checked_base58_decode_array B 64 data)
      else Inl WrongCurveType)"

definition access_signature_from_str :: "base58 \<Rightarrow> string \<Rightarrow> parse_curve_error + access_signature" where
  "access_signature_from_str B s =
     bind_r (ok_or (split_once CHR '':'' s) WrongCurveType) (\<lambda>(curve, data).
      if curve = CURVE_TYPE CurveEd25519 then map_sum id AsEd25519 (checked_base58_decode_array B 64 data)
      else if curve = CURVE_TYPE CurveSecp256k1 then map_sum id AsSecp256k1 (checked_base58_decode_array B 65 data)
      else Inl WrongCurveType)"

fun access_key_to_implicit_account_id :: "codecs \<Rightarrow> access_key \<Rightarrow> account_id" where
  "access_key_to_implicit_account_id C (AkEd25519 pk) = hex_encode C pk"
| "access_key_to_implicit_account_id C (AkSecp256k1 pk) = ''0x'' @ hex_encode C (eth_address (keccak256 C pk))"

subsection \<open>Round trips of the text form\<close>

text \<open>What base 58 promises: decoding into a buffer that is large enough undoes encoding.\<close>

definition base58_ok :: "base58 \<Rightarrow> bool" where
  "base58_ok B \<longleftrightarrow> (\<forall>b n. length b \<le> n \<longrightarrow> bs58_decode B n (bs58_encode B b) = Some b)"

fun key_bytes_ok :: "public_key \<Rightarrow> bool" where
  "key_bytes_ok (Ed25519 pk) \<longleftrightarrow> length pk = 32"
| "key_bytes_ok (Secp256k1 pk) \<longleftrightarrow> length pk = 64"
| "key_bytes_ok (P256 pk) \<longleftrightarrow> length pk = 64"

fun signature_bytes_ok :: "signature \<Rightarrow> bool" where
  "signature_bytes_ok (SigEd25519 x) \<longleftrightarrow> length x = 64"
| "signature_bytes_ok (SigSecp256k1 x) \<longleftrightarrow> length x = 65"
| "signature_bytes_ok (SigP256 x) \<longleftrightarrow> length x = 64"

lemma decode_encode: "base58_ok B \<Longrightarrow> length b = n \<Longrightarrow> checked_base58_decode_array B n (bs58_encode B b) = Inr b"
  by (simp add: checked_base58_decode_array_def base58_ok_def)

lemma split_to_base58: "split_once CHR '':'' (to_base58 B c b) = Some (CURVE_TYPE c, bs58_encode B b)"
  by (cases c) (simp_all add: to_base58_def)

lemma decode_length: "checked_base58_decode_array B n s = Inr b \<Longrightarrow> length b = n"
  by (auto simp: checked_base58_decode_array_def result_simps)

lemma parse_base58_round_trip: "base58_ok B \<Longrightarrow> length b = n \<Longrightarrow> parse_base58 B c n (to_base58 B c b) = Inr b"
  by (simp add: parse_base58_def split_to_base58 decode_encode eq_ignore_ascii_case_def)

lemma access_key_round_trip:
  "base58_ok B \<Longrightarrow> (case k of AkEd25519 b \<Rightarrow> length b = 32 | AkSecp256k1 b \<Rightarrow> length b = 64) \<Longrightarrow>
     access_key_from_str B (access_key_to_string B k) = Inr k"
  by (cases k) (simp_all add: access_key_from_str_def split_to_base58 decode_encode)

lemma public_key_round_trip: "base58_ok B \<Longrightarrow> key_bytes_ok k \<Longrightarrow> public_key_from_str B (public_key_to_string B k) = Inr k"
  by (cases k) (simp_all add: public_key_from_str_def split_to_base58 decode_encode)

lemma signature_round_trip: "base58_ok B \<Longrightarrow> signature_bytes_ok x \<Longrightarrow> signature_from_str B (signature_to_string B x) = Inr x"
  by (cases x) (simp_all add: signature_from_str_def split_to_base58 decode_encode)

lemma parsed_bytes_ok:
  "public_key_from_str B t = Inr k \<Longrightarrow> key_bytes_ok k" "signature_from_str B t = Inr x \<Longrightarrow> signature_bytes_ok x"
  unfolding public_key_from_str_def signature_from_str_def Let_def split_def
  by (auto simp only: map_sum_Inr key_bytes_ok.simps signature_bytes_ok.simps dest: decode_length split: if_splits)

text \<open>
  Keys and signatures of the intents contract survive their text form, and whatever text parses
  to one yields exactly the number of bytes of its curve. A text without a curve is Ed25519.
\<close>

theorem key_text_round_trip:
  assumes "base58_ok B"
  shows "(key_bytes_ok k \<longrightarrow> public_key_from_str B (public_key_to_string B k) = Inr k) \<and>
    (signature_bytes_ok x \<longrightarrow> signature_from_str B (signature_to_string B x) = Inr x) \<and>
    (public_key_from_str B t = Inr k' \<longrightarrow> key_bytes_ok k') \<and> (signature_from_str B t = Inr x' \<longrightarrow> signature_bytes_ok x') \<and>
    (CHR '':'' \<notin> set t \<longrightarrow> public_key_from_str B t = public_key_from_str B (''ed25519:'' @ t))"
  using public_key_round_trip [OF assms] signature_round_trip [OF assms] parsed_bytes_ok
  by (auto simp: public_key_from_str_def split_once_None)

end
