(* ===== verification/SignedMessages.thy ===== *)
theory SignedMessages
  imports NearUtils Borsh Keys
begin

text \<open>
  The standards for signed messages (\<open>crates/signatures\<close>): ERC-191, TIP-191, SEP-53, NEP-413 with its
  prefix tag from NEP-461, TON Connect and WebAuthn. Each builds the bytes to hash from a message;
  those bytes are shown to determine the message and the standard. The hashes are in \<open>codecs\<close>, what
  the library of TON cells provides in \<open>cell_lib\<close>, and the JSON parser of the client data is an argument.
\<close>

definition bytes_of :: "string \<Rightarrow> byte list" where
  "bytes_of s = map char_byte s"

lemma bytes_of_simps [simp]: "bytes_of s = bytes_of t \<longleftrightarrow> s = t" "length (bytes_of s) = length s"
  by (simp_all add: bytes_of_def inj_map_eq_map inj_def char_byte_inj)

subsection \<open>ERC-191, TIP-191 and SEP-53\<close>

definition erc191_bytes :: "byte list \<Rightarrow> byte list" where
  "erc191_bytes msg = 0x19 # bytes_of ''Ethereum Signed Message:'' @ [10] @ bytes_of (digits (length msg)) @ msg"

definition erc191_prehash :: "codecs \<Rightarrow> byte list \<Rightarrow> byte list" where
  "erc191_prehash C msg = keccak256 C (erc191_bytes msg)"

definition erc191_recover :: "codecs \<Rightarrow> curves \<Rightarrow> byte list \<Rightarrow> byte list \<Rightarrow> nat \<Rightarrow> byte list option" where
  "erc191_recover C K msg sig i = secp256k1_recover K (erc191_prehash C msg) sig i"

definition tip191_bytes :: "byte list \<Rightarrow> byte list" where
  "tip191_bytes msg = 0x19 # bytes_of ''TRON Signed Message:'' @ [10] @ bytes_of (digits (length msg)) @ msg"

definition tip191_prehash :: "codecs \<Rightarrow> byte list \<Rightarrow> byte list" where
  "tip191_prehash C msg = keccak256 C (tip191_bytes msg)"

definition tip191_recover :: "codecs \<Rightarrow> curves \<Rightarrow> byte list \<Rightarrow> byte list \<Rightarrow> nat \<Rightarrow> byte list option" where
  "tip191_recover C K msg sig i = secp256k1_recover K (tip191_prehash C msg) sig i"

definition sep53_bytes :: "byte list \<Rightarrow> byte list" where
  "sep53_bytes msg = bytes_of ''Stellar Signed Message:'' @ [10] @ msg"

definition sep53_prehash :: "codecs \<Rightarrow> byte list \<Rightarrow> byte list" where
  "sep53_prehash C msg = sha256 C (sep53_bytes msg)"

definition sep53_verify :: "codecs \<Rightarrow> curves \<Rightarrow> byte list \<Rightarrow> byte list \<Rightarrow> byte list \<Rightarrow> bool" where
  "sep53_verify C K pk msg sig = ed25519_verify K pk (sep53_prehash C msg) sig"

subsection \<open>NEP-413\<close>

record nep413_payload =
  n4_message :: string
  n4_nonce :: "byte list"
  n4_recipient :: string
  n4_callback_url :: "string option"

definition OFFCHAIN_PREFIX_TAG :: "nat \<Rightarrow> nat" where
  "OFFCHAIN_PREFIX_TAG nep_number = 2 ^ 31 + nep_number"

definition ONCHAIN_PREFIX_TAG :: "nat \<Rightarrow> nat" where
  "ONCHAIN_PREFIX_TAG nep_number = 2 ^ 30 + nep_number"

definition NEP_NUMBER :: nat where
  "NEP_NUMBER = 413"

text \<open>An array has no length prefix.\<close>

definition e_array :: "byte list encoder" where
  "e_array bs = Some bs"

definition e_nep413_payload :: "nep413_payload encoder" where
  "e_nep413_payload p = e_seq (e_string (n4_message p)) (e_seq (e_array (n4_nonce p))
     (e_seq (e_string (n4_recipient p)) (e_option e_string (n4_callback_url p))))"

definition nep413_bytes :: "nep413_payload \<Rightarrow> byte list option" where
  "nep413_bytes p = e_seq (e_uint 32 (OFFCHAIN_PREFIX_TAG NEP_NUMBER)) (e_nep413_payload p)"

definition nep413_prehash :: "codecs \<Rightarrow> nep413_payload \<Rightarrow> byte list option" where
  "nep413_prehash C p = map_option (sha256 C) (nep413_bytes p)"

text \<open>\<open>verify\<close> over the curve whose verification is given; a payload that cannot be encoded panics.\<close>

definition nep413_verify ::
  "codecs \<Rightarrow> (byte list \<Rightarrow> byte list \<Rightarrow> byte list \<Rightarrow> bool) \<Rightarrow> byte list \<Rightarrow> nep413_payload \<Rightarrow> byte list \<Rightarrow> bool option" where
  "nep413_verify C curve_verify pk p sig = map_option (\<lambda>h. curve_verify pk h sig) (nep413_prehash C p)"

definition n4_new :: "string \<Rightarrow> nep413_payload" where
  "n4_new msg = \<lparr> n4_message = msg, n4_nonce = replicate 32 0, n4_recipient = [], n4_callback_url = None \<rparr>"

definition n4_with_nonce :: "byte list \<Rightarrow> nep413_payload \<Rightarrow> nep413_payload" where
  "n4_with_nonce n p = p\<lparr>n4_nonce := n\<rparr>"

definition n4_with_recipient :: "string \<Rightarrow> nep413_payload \<Rightarrow> nep413_payload" where
  "n4_with_recipient r p = p\<lparr>n4_recipient := r\<rparr>"

definition n4_with_callback_url :: "string \<Rightarrow> nep413_payload \<Rightarrow> nep413_payload" where
  "n4_with_callback_url u p = p\<lparr>n4_callback_url := Some u\<rparr>"

subsection \<open>TON Connect\<close>

text \<open>The work chain is the bits of an \<open>i32\<close>; a cell is of the library's type \<open>'c\<close>.\<close>

datatype 'c ton_payload_schema = TonText string | TonBinary "byte list" | TonCell "32 word" 'c

record 'c ton_connect_payload =
  tc_workchain_id :: "32 word"
  tc_address :: "byte list"
  tc_domain :: string
  tc_timestamp :: int
  tc_payload :: "'c ton_payload_schema"

definition be_uint :: "nat \<Rightarrow> nat encoder" where
  "be_uint w n = map_option rev (e_uint w n)"

definition as_secs :: "int \<Rightarrow> int" where
  "as_secs t = t div int NANOS_PER_SEC"

definition timestamp_u64 :: "int \<Rightarrow> nat option" where
  "timestamp_u64 t = (if 0 \<le> as_secs t \<and> nat (as_secs t) \<le> u_max 64 then Some (nat (as_secs t)) else None)"

definition be_vec :: "byte list encoder" where
  "be_vec bs = e_seq (be_uint 32 (length bs)) (e_array bs)"

definition ton_bytes :: "'c ton_connect_payload \<Rightarrow> byte list \<Rightarrow> byte list \<Rightarrow> byte list option" where
  "ton_bytes p prefix payload = e_seq (Some ([0xFF, 0xFF] @ bytes_of ''ton-connect/sign-data/''))
     (e_seq (be_uint 32 (unat (tc_workchain_id p))) (e_seq (e_array (tc_address p))
     (e_seq (be_vec (bytes_of (tc_domain p)))
     (e_seq (Option.bind (timestamp_u64 (tc_timestamp p)) (be_uint 64)) (e_seq (e_array prefix) (be_vec payload))))))"

text \<open>
  The message of a cell payload is a cell itself, of fixed fields and of references to the domain and
  to the payload. From the library: the bits of an address, the cell of a text, the representation of
  a cell with given bits and references, which is hashed, and the hash of a cell.
\<close>

record 'c cell_lib =
  cl_msg_address :: "32 word \<Rightarrow> byte list \<Rightarrow> bool list option"
  cl_snake_data :: "string \<Rightarrow> 'c option"
  cl_repr :: "bool list \<Rightarrow> 'c list \<Rightarrow> byte list"
  cl_hash :: "'c \<Rightarrow> byte list"

record 'c ton_connect_cell_message =
  tm_schema_crc :: "32 word"
  tm_timestamp :: nat
  tm_workchain_id :: "32 word"
  tm_address :: "byte list"
  tm_app_domain :: string
  tm_payload :: 'c

definition MESSAGE_TAG :: nat where
  "MESSAGE_TAG = 0x75569022"

definition bits_of :: "byte list \<Rightarrow> bool list" where
  "bits_of bs = concat (map (\<lambda>b. map (bit b) (rev [0..<8])) bs)"

definition pack_uint :: "nat \<Rightarrow> nat \<Rightarrow> bool list option" where
  "pack_uint w n = map_option bits_of (be_uint w n)"

definition ton_cell_store :: "'c cell_lib \<Rightarrow> 'c ton_connect_cell_message \<Rightarrow> (bool list \<times> 'c list) option" where
  "ton_cell_store L m =
     Option.bind (pack_uint 32 MESSAGE_TAG) (\<lambda>tag.
     Option.bind (pack_uint 32 (unat (tm_schema_crc m))) (\<lambda>schema_hash.
     Option.bind (pack_uint 64 (tm_timestamp m)) (\<lambda>timestamp.
     Option.bind (cl_msg_address L (tm_workchain_id m) (tm_address m)) (\<lambda>user_address.
     Option.bind (cl_snake_data L (tm_app_domain m)) (\<lambda>app_domain.
     Some (tag @ schema_hash @ timestamp @ user_address, [app_domain, tm_payload m]))))))"

definition ton_cell_hash :: "codecs \<Rightarrow> 'c cell_lib \<Rightarrow> 'c ton_connect_cell_message \<Rightarrow> byte list option" where
  "ton_cell_hash C L m = map_option (\<lambda>(bits, refs). sha256 C (cl_repr L bits refs)) (ton_cell_store L m)"

definition ton_cell_message :: "'c ton_connect_payload \<Rightarrow> nat \<Rightarrow> 32 word \<Rightarrow> 'c \<Rightarrow> 'c ton_connect_cell_message" where
  "ton_cell_message p timestamp schema_crc cell = \<lparr> tm_schema_crc = schema_crc, tm_timestamp = timestamp,
     tm_workchain_id = tc_workchain_id p, tm_address = tc_address p, tm_app_domain = tc_domain p, tm_payload = cell \<rparr>"

definition try_prehash :: "codecs \<Rightarrow> 'c cell_lib \<Rightarrow> 'c ton_connect_payload \<Rightarrow> byte list option" where
  "try_prehash C L p = Option.bind (timestamp_u64 (tc_timestamp p)) (\<lambda>timestamp.
     case tc_payload p of
       TonText text \<Rightarrow> map_option (sha256 C) (ton_bytes p (bytes_of ''txt'') (bytes_of text))
     | TonBinary bytes \<Rightarrow> map_option (sha256 C) (ton_bytes p (bytes_of ''bin'') bytes)
     | TonCell schema_crc cell \<Rightarrow> ton_cell_hash C L (ton_cell_message p timestamp schema_crc cell))"

definition ton_connect_verify :: "codecs \<Rightarrow> curves \<Rightarrow> 'c cell_lib \<Rightarrow> byte list \<Rightarrow> 'c ton_connect_payload \<Rightarrow> byte list \<Rightarrow> bool" where
  "ton_connect_verify C K L pk p sig =
     (case try_prehash C L p of None \<Rightarrow> False | Some prehash \<Rightarrow> ed25519_verify K pk prehash sig)"

subsection \<open>WebAuthn\<close>

record webauthn_assertion =
  wa_authenticator_data :: "byte list"
  wa_client_data_json :: string

datatype client_data_type = WebauthnCreate | WebauthnGet

record collected_client_data =
  cd_type :: client_data_type
  cd_challenge :: "byte list"
  cd_origin :: string

datatype webauthn_algorithm = AlgP256 | AlgEd25519

definition AUTH_DATA_FLAGS_UP :: byte where "AUTH_DATA_FLAGS_UP = push_bit 0 1"
definition AUTH_DATA_FLAGS_UV :: byte where "AUTH_DATA_FLAGS_UV = push_bit 2 1"
definition AUTH_DATA_FLAGS_BE :: byte where "AUTH_DATA_FLAGS_BE = push_bit 3 1"
definition AUTH_DATA_FLAGS_BS :: byte where "AUTH_DATA_FLAGS_BS = push_bit 4 1"

definition check_flags :: "bool \<Rightarrow> byte \<Rightarrow> bool" where
  "check_flags uv_required flags =
     (if flags AND AUTH_DATA_FLAGS_UP \<noteq> AUTH_DATA_FLAGS_UP then False
      else if uv_required \<and> flags AND AUTH_DATA_FLAGS_UV \<noteq> AUTH_DATA_FLAGS_UV then False
      else if flags AND AUTH_DATA_FLAGS_BE \<noteq> AUTH_DATA_FLAGS_BE \<and> flags AND AUTH_DATA_FLAGS_BS = AUTH_DATA_FLAGS_BS then False
      else True)"

definition webauthn_check ::
  "(string \<Rightarrow> collected_client_data option) \<Rightarrow> bool \<Rightarrow> byte list \<Rightarrow> webauthn_assertion \<Rightarrow> bool" where
  "webauthn_check parse uv_required challenge a =
     (if length (wa_authenticator_data a) < 37 \<or> \<not> check_flags uv_required (wa_authenticator_data a ! 32) then False
      else case parse (wa_client_data_json a) of
        None \<Rightarrow> False
      | Some c \<Rightarrow> if cd_type c \<noteq> WebauthnGet then False else if cd_challenge c \<noteq> challenge then False else True)"

definition effective_msg :: "codecs \<Rightarrow> webauthn_assertion \<Rightarrow> byte list" where
  "effective_msg C a = wa_authenticator_data a @ sha256 C (bytes_of (wa_client_data_json a))"

fun maybe_prehash :: "codecs \<Rightarrow> webauthn_algorithm \<Rightarrow> byte list \<Rightarrow> byte list" where
  "maybe_prehash C AlgP256 msg = sha256 C msg"
| "maybe_prehash C AlgEd25519 msg = msg"

fun algorithm_verify :: "codecs \<Rightarrow> curves \<Rightarrow> webauthn_algorithm \<Rightarrow> byte list \<Rightarrow> byte list \<Rightarrow> byte list \<Rightarrow> bool" where
  "algorithm_verify C K AlgP256 pk msg sig = p256_verify K pk (maybe_prehash C AlgP256 msg) sig"
| "algorithm_verify C K AlgEd25519 pk msg sig = ed25519_verify K pk (maybe_prehash C AlgEd25519 msg) sig"

definition webauthn_verify ::
  "codecs \<Rightarrow> curves \<Rightarrow> (string \<Rightarrow> collected_client_data option) \<Rightarrow> webauthn_algorithm \<Rightarrow> bool \<Rightarrow>
     byte list \<Rightarrow> byte list \<Rightarrow> webauthn_assertion \<Rightarrow> byte list \<Rightarrow> bool"
where
  "webauthn_verify C K parse alg uv_required pk challenge a sig =
     (if \<not> webauthn_check parse uv_required challenge a then False
      else algorithm_verify C K alg pk (effective_msg C a) sig)"

text \<open>The flags, as the specification of WebAuthn numbers them.\<close>

lemma and_flag: "(f :: byte) AND push_bit n 1 = push_bit n 1 \<longleftrightarrow> (n < 8 \<longrightarrow> bit f n)"
  unfolding bit_eq_iff [of "f AND push_bit n 1"] by (auto simp: bit_simps simp del: push_bit_of_1)

lemma check_flags_spec: "check_flags uv f \<longleftrightarrow> bit f 0 \<and> (uv \<longrightarrow> bit f 2) \<and> (bit f 4 \<longrightarrow> bit f 3)"
  by (simp only: check_flags_def AUTH_DATA_FLAGS_UP_def AUTH_DATA_FLAGS_UV_def AUTH_DATA_FLAGS_BE_def AUTH_DATA_FLAGS_BS_def and_flag)
    auto

subsection \<open>The bytes determine the message and the standard\<close>

lemma length_digits_mono: "m \<le> n \<Longrightarrow> length (digits m) \<le> length (digits n)"
proof (induction n arbitrary: m rule: digits.induct)
  case (1 n)
  show ?case
  proof (cases "n < 10")
    case True
    then show ?thesis using 1(2) by (simp add: digits.simps)
  next
    case False
    then show ?thesis using 1(1) [of "m div 10"] 1(2) by (subst (1 2) digits.simps) (auto simp: div_le_mono)
  qed
qed

text \<open>The length in decimal followed by the message: longer messages have longer bytes.\<close>

lemma sized_determines:
  assumes "bytes_of (digits (length m)) @ m = bytes_of (digits (length m')) @ m'"
  shows "m = m'"
proof -
  have len: "length (digits (length m)) + length m = length (digits (length m')) + length m'"
    using arg_cong [OF assms, of length] by simp
  have "length m = length m'"
  proof (rule ccontr)
    assume "length m \<noteq> length m'"
    then consider "length m < length m'" | "length m' < length m" by linarith
    then show False using len length_digits_mono [of "length m" "length m'"] length_digits_mono [of "length m'" "length m"] by cases auto
  qed
  then show ?thesis using assms by simp
qed

lemma erc191_determines: "erc191_bytes m = erc191_bytes m' \<Longrightarrow> m = m'"
  by (rule sized_determines) (simp add: erc191_bytes_def)

lemma tip191_determines: "tip191_bytes m = tip191_bytes m' \<Longrightarrow> m = m'"
  by (rule sized_determines) (simp add: tip191_bytes_def)

lemma erc191_not_tip191: "erc191_bytes m \<noteq> tip191_bytes m'"
  by (simp add: erc191_bytes_def tip191_bytes_def bytes_of_def char_byte_def)

lemma readable_array: "readable (\<lambda>b. length b = n) e_array"
  by (auto simp: readable_def e_array_def)

interpretation nep413: uniquely_readable "\<lambda>p. length (n4_nonce p) = 32" e_nep413_payload
  by unfold_locales
    (rule readable_via [OF readable_seq [OF readable_string readable_seq [OF readable_array [of 32] readable_seq [OF
        readable_string readable_option [OF readable_string]]]],
        where g = "\<lambda>p. (n4_message p, n4_nonce p, n4_recipient p, n4_callback_url p)"];
     simp add: e_nep413_payload_def)

lemma nep413_determines:
  "nep413_bytes p = Some b \<Longrightarrow> nep413_bytes p' = Some b \<Longrightarrow> length (n4_nonce p) = 32 \<Longrightarrow> length (n4_nonce p') = 32 \<Longrightarrow> p = p'"
  by (auto simp: nep413_bytes_def e_seq_Some intro: nep413.injective)

lemma readable_be: "8 dvd w \<Longrightarrow> readable (\<lambda>_. True) (be_uint w)"
proof (rule readableI)
  fix x y a b r s assume w: "8 dvd w" and enc: "be_uint w x = Some a" "be_uint w y = Some b" "a @ r = b @ s"
  then have "length a = length b" by (auto simp: be_uint_def e_uint_def split: if_splits)
  then have ab: "a = b" "r = s" using enc(3) by simp_all
  then have "e_uint w x = Some (rev a)" "e_uint w y = Some (rev a)" using enc(1,2) by (auto simp: be_uint_def)
  from readableD [OF readable_uint [OF w] TrueI TrueI this, of "[]" "[]"] ab show "x = y \<and> r = s" by simp
qed

lemma readable_be_vec: "readable (\<lambda>_. True) be_vec"
proof (rule readableI)
  fix x y a b r s assume "be_vec x = Some a" "be_vec y = Some b" and eq: "a @ r = b @ s"
  then obtain a1 b1 where parts: "be_uint 32 (length x) = Some a1" "a = a1 @ x" "be_uint 32 (length y) = Some b1" "b = b1 @ y"
    by (auto simp: be_vec_def e_seq_Some e_array_def)
  have "length x = length y \<and> x @ r = y @ s"
    using readableD [OF readable_be _ _ parts(1,3), of "x @ r" "y @ s"] eq parts(2,4) by simp
  then show "x = y \<and> r = s" by auto
qed

definition ton_key :: "'c ton_connect_payload \<Rightarrow> byte list \<Rightarrow> byte list \<Rightarrow> 32 word \<times> byte list \<times> byte list \<times> int \<times> byte list \<times> byte list" where
  "ton_key p prefix payload = (tc_workchain_id p, tc_address p, bytes_of (tc_domain p), as_secs (tc_timestamp p), prefix, payload)"

lemma readable_word: "readable (\<lambda>_. True) (\<lambda>n :: 32 word. be_uint 32 (unat n))"
  by (rule readable_via [OF readable_be, where g = unat]) (simp_all add: unsigned_word_eqI)

lemma ton_determines:
  assumes "ton_bytes p pre pay = Some b" and "ton_bytes p' pre' pay' = Some b"
    and "length (tc_address p) = 32" and "length (tc_address p') = 32" and "length pre = 3" and "length pre' = 3"
  shows "ton_key p pre pay = ton_key p' pre' pay'"
proof -
  obtain t t' where t: "timestamp_u64 (tc_timestamp p) = Some t" "timestamp_u64 (tc_timestamp p') = Some t'"
    using assms(1,2) by (auto simp: ton_bytes_def e_seq_Some bind_eq_Some_conv)
  obtain c where enc: "e_seq (be_uint 32 (unat (tc_workchain_id p))) (e_seq (e_array (tc_address p)) (e_seq (be_vec (bytes_of (tc_domain p)))
        (e_seq (be_uint 64 t) (e_seq (e_array pre) (be_vec pay))))) = Some c"
      "e_seq (be_uint 32 (unat (tc_workchain_id p'))) (e_seq (e_array (tc_address p')) (e_seq (be_vec (bytes_of (tc_domain p')))
        (e_seq (be_uint 64 t') (e_seq (e_array pre') (be_vec pay'))))) = Some c"
    using assms(1,2) t unfolding ton_bytes_def e_seq_Some [where a = "Some _"] by auto
  note R = readable_seq [OF readable_word readable_seq [OF readable_array [of 32] readable_seq [OF readable_be_vec
        readable_seq [OF readable_be [of 64] readable_seq [OF readable_array [of 3] readable_be_vec]]]]]
  have "(tc_workchain_id p, tc_address p, bytes_of (tc_domain p), t, pre, pay) =
      (tc_workchain_id p', tc_address p', bytes_of (tc_domain p'), t', pre', pay')"
    using readableD [OF R, of "(tc_workchain_id p, tc_address p, bytes_of (tc_domain p), t, pre, pay)"
        "(tc_workchain_id p', tc_address p', bytes_of (tc_domain p'), t', pre', pay')" c c "[]" "[]"] enc assms(3-6) by simp
  then show ?thesis using t by (auto simp: ton_key_def timestamp_u64_def split: if_splits)
qed

text \<open>The first bytes tell the standards that share SHA-256 apart.\<close>

lemma sep53_first: "hd (sep53_bytes m) = 0x53"
  by (simp add: sep53_bytes_def bytes_of_def char_byte_def)

lemma ton_first: "ton_bytes q pre pay = Some b \<Longrightarrow> hd b = 0xFF"
  by (auto simp: ton_bytes_def e_seq_Some)

lemma nep413_first: "nep413_bytes p = Some b \<Longrightarrow> hd b = 0x9D"
proof -
  assume "nep413_bytes p = Some b"
  then obtain r where "b = le_bytes (Suc 3) 2147484061 @ r"
    by (auto simp: nep413_bytes_def e_seq_Some e_uint_def OFFCHAIN_PREFIX_TAG_def NEP_NUMBER_def split: if_splits)
  then show ?thesis unfolding le_bytes.simps(2) by simp
qed

lemma erc191_first: "hd (erc191_bytes m) = 0x19" and tip191_first: "hd (tip191_bytes m) = 0x19"
  by (simp_all add: erc191_bytes_def tip191_bytes_def)

text \<open>
  What is relied on of cells: the representation of a cell with two references determines its bits and
  the hashes of both, and starts with a descriptor that counts the references and is even for two.
\<close>

definition cells_ok :: "'c cell_lib \<Rightarrow> bool" where
  "cells_ok L \<longleftrightarrow> (\<forall>bits a b. even (uint (hd (cl_repr L bits [a, b])))) \<and>
     (\<forall>bits a b bits' a' b'. cl_repr L bits [a, b] = cl_repr L bits' [a', b'] \<longrightarrow>
        bits = bits' \<and> cl_hash L a = cl_hash L a' \<and> cl_hash L b = cl_hash L b')"

lemma bits_of_determines: "length a = length b \<Longrightarrow> bits_of a @ r = bits_of b @ s \<Longrightarrow> a = b \<and> r = s"
proof (induction a b rule: list_induct2)
  case (Cons x xs y ys)
  have len: "length (map (bit x) (rev [0..<8])) = length (map (bit y) (rev [0..<8]))" by simp
  from Cons.prems have "map (bit x) (rev [0..<8]) = map (bit y) (rev [0..<8]) \<and> bits_of xs @ r = bits_of ys @ s"
    unfolding bits_of_def list.map concat.simps append_assoc by (simp only: append_eq_append_conv [OF disjI1 [OF len]])
  then have "x = y \<and> bits_of xs @ r = bits_of ys @ s"
    by (auto simp: map_eq_conv intro!: bit_word_eqI)
  with Cons.IH show ?case by simp
qed (simp add: bits_of_def)

lemma pack_uint_determines:
  assumes "pack_uint w m = Some a" and "pack_uint w n = Some b" and "a @ r = b @ s" and "8 dvd w"
  shows "m = n \<and> r = s"
proof -
  obtain x y where x: "be_uint w m = Some x" "a = bits_of x" and y: "be_uint w n = Some y" "b = bits_of y"
    using assms(1,2) by (auto simp: pack_uint_def)
  then have "length x = length y" by (auto simp: be_uint_def e_uint_def split: if_splits)
  from bits_of_determines [OF this] assms(3) x(2) y(2) have "x = y" "r = s" by auto
  with readableD [OF readable_be [OF assms(4)] TrueI TrueI x(1) y(1), of "[]" "[]"] show ?thesis by simp
qed

lemma cell_determines:
  assumes "ton_cell_store L m = Some (bits, refs)" and "ton_cell_store L m' = Some (bits, refs')"
  shows "tm_schema_crc m = tm_schema_crc m'" "tm_timestamp m = tm_timestamp m'"
    "cl_msg_address L (tm_workchain_id m) (tm_address m) = cl_msg_address L (tm_workchain_id m') (tm_address m')"
    "\<exists>d. cl_snake_data L (tm_app_domain m) = Some d \<and> refs = [d, tm_payload m]"
    "\<exists>d. cl_snake_data L (tm_app_domain m') = Some d \<and> refs' = [d, tm_payload m']"
proof -
  obtain g h t u where m: "pack_uint 32 MESSAGE_TAG = Some g" "pack_uint 32 (unat (tm_schema_crc m)) = Some h"
      "pack_uint 64 (tm_timestamp m) = Some t" "cl_msg_address L (tm_workchain_id m) (tm_address m) = Some u" "bits = g @ h @ t @ u"
    using assms(1) by (auto simp: ton_cell_store_def bind_eq_Some_conv)
  obtain h' t' u' where m': "pack_uint 32 (unat (tm_schema_crc m')) = Some h'" "pack_uint 64 (tm_timestamp m') = Some t'"
      "cl_msg_address L (tm_workchain_id m') (tm_address m') = Some u'" "bits = g @ h' @ t' @ u'"
    using assms(2) m(1) by (auto simp: ton_cell_store_def bind_eq_Some_conv)
  have eq: "h @ t @ u = h' @ t' @ u'" using m(5) m'(4) by simp
  from pack_uint_determines [OF m(2) m'(1) eq] have h: "unat (tm_schema_crc m) = unat (tm_schema_crc m')" "t @ u = t' @ u'" by auto
  from pack_uint_determines [OF m(3) m'(2) h(2)] h(1) m(4) m'(3)
  show "tm_schema_crc m = tm_schema_crc m'" "tm_timestamp m = tm_timestamp m'"
    "cl_msg_address L (tm_workchain_id m) (tm_address m) = cl_msg_address L (tm_workchain_id m') (tm_address m')"
    by (simp_all add: unsigned_word_eqI)
qed (use assms in \<open>auto simp: ton_cell_store_def bind_eq_Some_conv\<close>)

text \<open>The messages of the five standards whose messages are hashed before they are signed.\<close>

datatype 'c hashed_message =
    HErc191 "byte list"
  | HTip191 "byte list"
  | HSep53 "byte list"
  | HNep413 nep413_payload
  | HTonConnect "'c ton_connect_payload"

fun message_prehash :: "codecs \<Rightarrow> 'c cell_lib \<Rightarrow> 'c hashed_message \<Rightarrow> byte list option" where
  "message_prehash C L (HErc191 m) = Some (erc191_prehash C m)"
| "message_prehash C L (HTip191 m) = Some (tip191_prehash C m)"
| "message_prehash C L (HSep53 m) = Some (sep53_prehash C m)"
| "message_prehash C L (HNep413 p) = nep413_prehash C p"
| "message_prehash C L (HTonConnect q) = try_prehash C L q"

fun message_bytes :: "'c cell_lib \<Rightarrow> 'c hashed_message \<Rightarrow> byte list option" where
  "message_bytes L (HErc191 m) = Some (erc191_bytes m)"
| "message_bytes L (HTip191 m) = Some (tip191_bytes m)"
| "message_bytes L (HSep53 m) = Some (sep53_bytes m)"
| "message_bytes L (HNep413 p) = nep413_bytes p"
| "message_bytes L (HTonConnect q) = (case tc_payload q of
     TonText t \<Rightarrow> ton_bytes q (bytes_of ''txt'') (bytes_of t)
   | TonBinary b \<Rightarrow> ton_bytes q (bytes_of ''bin'') b
   | TonCell crc c \<Rightarrow> Option.bind (timestamp_u64 (tc_timestamp q)) (\<lambda>ts.
       map_option (\<lambda>(bits, refs). cl_repr L bits refs) (ton_cell_store L (ton_cell_message q ts crc c))))"

fun message_hash :: "codecs \<Rightarrow> 'c hashed_message \<Rightarrow> byte list \<Rightarrow> byte list" where
  "message_hash C (HErc191 m) = keccak256 C"
| "message_hash C (HTip191 m) = keccak256 C"
| "message_hash C _ = sha256 C"

fun well_sized :: "'c hashed_message \<Rightarrow> bool" where
  "well_sized (HNep413 p) \<longleftrightarrow> length (n4_nonce p) = 32"
| "well_sized (HTonConnect q) \<longleftrightarrow> length (tc_address q) = 32"
| "well_sized _ \<longleftrightarrow> True"

text \<open>The same message: for TON Connect up to the fraction of a second, and for cells up to the hash of a cell.\<close>

definition same_ton :: "'c cell_lib \<Rightarrow> 'c ton_connect_payload \<Rightarrow> 'c ton_connect_payload \<Rightarrow> bool" where
  "same_ton L q q' \<longleftrightarrow> as_secs (tc_timestamp q) = as_secs (tc_timestamp q') \<and>
     (case (tc_payload q, tc_payload q') of
        (TonCell crc c, TonCell crc' c') \<Rightarrow> crc = crc' \<and> cl_hash L c = cl_hash L c' \<and>
          map_option (cl_hash L) (cl_snake_data L (tc_domain q)) = map_option (cl_hash L) (cl_snake_data L (tc_domain q')) \<and>
          cl_msg_address L (tc_workchain_id q) (tc_address q) = cl_msg_address L (tc_workchain_id q') (tc_address q')
      | (x, y) \<Rightarrow> x = y \<and> tc_workchain_id q = tc_workchain_id q' \<and> tc_address q = tc_address q' \<and> tc_domain q = tc_domain q')"

fun same_message :: "'c cell_lib \<Rightarrow> 'c hashed_message \<Rightarrow> 'c hashed_message \<Rightarrow> bool" where
  "same_message L (HTonConnect q) (HTonConnect q') \<longleftrightarrow> same_ton L q q'"
| "same_message L x y \<longleftrightarrow> x = y"

lemma ton_message_bytes:
  assumes "message_bytes L (HTonConnect q) = Some b"
  obtains (as_text) t where "tc_payload q = TonText t" "ton_bytes q (bytes_of ''txt'') (bytes_of t) = Some b"
    | (as_binary) bs where "tc_payload q = TonBinary bs" "ton_bytes q (bytes_of ''bin'') bs = Some b"
    | (as_cell) crc c ts bits d where "tc_payload q = TonCell crc c" "timestamp_u64 (tc_timestamp q) = Some ts"
        "ton_cell_store L (ton_cell_message q ts crc c) = Some (bits, [d, c])" "cl_snake_data L (tc_domain q) = Some d" "b = cl_repr L bits [d, c]"
proof (cases "tc_payload q")
  case (TonCell crc c)
  then obtain ts bits refs where ts: "timestamp_u64 (tc_timestamp q) = Some ts"
    and st: "ton_cell_store L (ton_cell_message q ts crc c) = Some (bits, refs)" and b: "b = cl_repr L bits refs"
    using assms by (auto simp: bind_eq_Some_conv)
  from cell_determines(4) [OF st st] obtain d where "cl_snake_data L (tc_domain q) = Some d" "refs = [d, c]"
    by (auto simp: ton_cell_message_def)
  then show thesis using as_cell [OF TonCell ts] st b by simp
qed (use assms that in auto)

lemma ton_message_first: "cells_ok L \<Longrightarrow> message_bytes L (HTonConnect q) = Some b \<Longrightarrow> hd b = 0xFF \<or> even (uint (hd b))"
  by (erule ton_message_bytes) (auto simp: cells_ok_def dest: ton_first)

lemma timestamp_secs: "timestamp_u64 t = Some n \<Longrightarrow> timestamp_u64 t' = Some n \<Longrightarrow> as_secs t = as_secs t'"
  by (auto simp: timestamp_u64_def split: if_splits)

lemma ton_bytes_same:
  assumes "ton_bytes q (bytes_of pre) pay = Some b" and "ton_bytes q' (bytes_of pre') pay' = Some b"
    and "length (tc_address q) = 32" and "length (tc_address q') = 32" and "length pre = 3" and "length pre' = 3"
  shows "tc_workchain_id q = tc_workchain_id q' \<and> tc_address q = tc_address q' \<and> tc_domain q = tc_domain q' \<and>
    as_secs (tc_timestamp q) = as_secs (tc_timestamp q') \<and> pre = pre' \<and> pay = pay'"
  using ton_determines [OF assms(1,2)] assms(3-6) by (simp add: ton_key_def)

lemma ton_not_cell: "cells_ok L \<Longrightarrow> ton_bytes q pre pay \<noteq> Some (cl_repr L bits [d, c])"
proof
  assume ok: "cells_ok L" and "ton_bytes q pre pay = Some (cl_repr L bits [d, c])"
  from ton_first [OF this(2)] have "odd (uint (hd (cl_repr L bits [d, c])))" by simp
  with ok show False by (simp add: cells_ok_def)
qed

lemma ton_message_determines:
  assumes "cells_ok L" and "length (tc_address q) = 32" and "length (tc_address q') = 32"
    and "message_bytes L (HTonConnect q) = Some b" and "message_bytes L (HTonConnect q') = Some b"
  shows "same_ton L q q'"
  using assms(4)
proof (cases rule: ton_message_bytes)
  case x: (as_text t)
  from assms(5) show ?thesis
  proof (cases rule: ton_message_bytes)
    case (as_text t')
    from ton_bytes_same [OF x(2) this(2) assms(2,3)] show ?thesis by (simp add: same_ton_def x(1) as_text(1))
  next
    case (as_binary bs)
    from ton_bytes_same [OF x(2) this(2) assms(2,3)] show ?thesis by simp
  next
    case (as_cell crc c ts bits d)
    then show ?thesis using x(2) ton_not_cell [OF assms(1)] by blast
  qed
next
  case x: (as_binary bs)
  from assms(5) show ?thesis
  proof (cases rule: ton_message_bytes)
    case (as_text t')
    from ton_bytes_same [OF x(2) this(2) assms(2,3)] show ?thesis by simp
  next
    case (as_binary bs')
    from ton_bytes_same [OF x(2) this(2) assms(2,3)] show ?thesis by (simp add: same_ton_def x(1) as_binary(1))
  next
    case (as_cell crc c ts bits d)
    then show ?thesis using x(2) ton_not_cell [OF assms(1)] by blast
  qed
next
  case x: (as_cell crc c ts bits d)
  from assms(5) show ?thesis
  proof (cases rule: ton_message_bytes)
    case y: (as_cell crc' c' ts' bits' d')
    have eq: "bits = bits'" "cl_hash L d = cl_hash L d'" "cl_hash L c = cl_hash L c'"
      using assms(1) x(5) y(5) unfolding cells_ok_def by metis+
    note det = cell_determines(1-3) [OF x(3) y(3) [folded eq(1)]]
    have "ts = ts'" using det(2) by (simp add: ton_cell_message_def)
    with det(1,3) eq x(1,4) y(1,4) timestamp_secs [OF x(2)] y(2) show ?thesis
      by (simp add: same_ton_def ton_cell_message_def)
  qed (use x(5) ton_not_cell [OF assms(1)] in blast)+
qed

lemma message_first:
  assumes "cells_ok L" and "message_bytes L x = Some b"
  shows "case x of HErc191 _ \<Rightarrow> hd b = 0x19 | HTip191 _ \<Rightarrow> hd b = 0x19 | HSep53 _ \<Rightarrow> hd b = 0x53 | HNep413 _ \<Rightarrow> hd b = 0x9D
    | HTonConnect _ \<Rightarrow> hd b = 0xFF \<or> even (uint (hd b))"
  using assms ton_message_first [OF assms(1)]
  by (cases x) (auto simp: erc191_first tip191_first sep53_first nep413_first simp del: message_bytes.simps(5))

text \<open>
  C25: What is hashed and signed determines what was signed. The hash each of the standards ERC-191,
  TIP-191, SEP-53, NEP-413 and TON Connect signs is its hash function applied to bytes that belong to
  one standard only and determine the message: for TON Connect whether it is a text, binary data or a
  cell, with the address, the domain and the content, and the time up to the fraction of a second,
  where a cell stands for all cells with its hash.
\<close>

theorem signed_bytes_separate:
  assumes "cells_ok L" and "well_sized x" and "well_sized y"
  shows "message_prehash C L x = map_option (message_hash C x) (message_bytes L x) \<and>
    (message_bytes L x = Some b \<and> message_bytes L y = Some b \<longrightarrow> same_message L x y)"
proof (intro conjI impI)
  show "message_prehash C L x = map_option (message_hash C x) (message_bytes L x)"
  proof (cases x)
    case (HTonConnect q)
    have "timestamp_u64 (tc_timestamp q) = None \<Longrightarrow> ton_bytes q pre pay = None" for pre pay
      by (simp add: ton_bytes_def e_seq_def split: option.splits)
    then show ?thesis
      by (cases "timestamp_u64 (tc_timestamp q)"; cases "tc_payload q")
        (auto simp: HTonConnect try_prehash_def ton_cell_hash_def option.map_comp comp_def split_def)
  qed (simp_all add: erc191_prehash_def tip191_prehash_def sep53_prehash_def nep413_prehash_def)
next
  assume b: "message_bytes L x = Some b \<and> message_bytes L y = Some b"
  note first = message_first [OF assms(1), of x b] message_first [OF assms(1), of y b]
  show "same_message L x y"
  proof (cases x)
    case (HErc191 m)
    with b first show ?thesis by (cases y) (auto simp: erc191_not_tip191 erc191_not_tip191 [symmetric] dest: erc191_determines simp del: message_bytes.simps(5))
  next
    case (HTip191 m)
    with b first show ?thesis
      by (cases y) (auto simp: erc191_not_tip191 erc191_not_tip191 [symmetric] dest: tip191_determines simp del: message_bytes.simps(5))
  next
    case (HSep53 m)
    with b first show ?thesis by (cases y) (auto simp: sep53_bytes_def simp del: message_bytes.simps(5))
  next
    case (HNep413 p)
    with b first assms(2,3) show ?thesis by (cases y) (auto dest: nep413_determines simp del: message_bytes.simps(5))
  next
    case (HTonConnect q)
    with b first assms ton_message_determines [OF assms(1), of q _ b] show ?thesis
      by (cases y) (auto simp del: message_bytes.simps(5))
  qed
qed

end
