(* ===== verification/AuthResolver.thy ===== *)
theory AuthResolver
  imports Wallet SignedMessages
begin

text \<open>
  The off-chain resolver of NEP-641 (\<open>crates/signatures/nep641/src/access_keys.rs\<close>, \<open>resolver\<close>): how a
  single authorization is resolved through an access key or the view method of a contract, and the
  loop that resolves the pending sub-authorizations concurrently. The node is the record
  \<open>rpc_client\<close>; what it answers is a function of the block it is asked about. The pool of futures
  completes in any order, so the loop is a step relation.
\<close>

subsection \<open>Access keys\<close>

record nep641_codecs =
  n6_codecs :: codecs
  n6_curves :: curves
  n6_sha3_256 :: "byte list \<Rightarrow> byte list"
  n6_show_time :: "int \<Rightarrow> string"

definition truncate_subsecs :: "int \<Rightarrow> int" where
  "truncate_subsecs t = t - t mod int NANOS_PER_SEC"

definition into_nep413_payload :: "nep641_codecs \<Rightarrow> string option \<Rightarrow> offchain_message \<Rightarrow> nep413_payload option" where
  "into_nep413_payload N callback_url m = map_option (\<lambda>h.
     \<lparr> n4_message = om_payload m, n4_nonce = h,
       n4_recipient = om_chain_id m @ '': '' @ sep_by '' -> '' (om_signer_id m # om_path m) @ '' @ '' @
         n6_show_time N (truncate_subsecs (om_timestamp m)),
       n4_callback_url = callback_url \<rparr>) (om_hash (n6_sha3_256 N) m)"

record access_key_authorization =
  aka_msg :: offchain_message
  aka_callback_url :: "string option"
  aka_access_key :: access_key
  aka_signature :: access_signature

fun schema_verify :: "nep641_codecs \<Rightarrow> nep413_payload \<Rightarrow> access_key \<Rightarrow> access_signature \<Rightarrow> bool" where
  "schema_verify N p (AkEd25519 pk) (AsEd25519 sig) =
     (if \<not> ed25519_is_key (n6_curves N) pk then False
      else nep413_verify (n6_codecs N) (ed25519_verify (n6_curves N)) pk p sig = Some True)"
| "schema_verify N p (AkSecp256k1 pk) (AsSecp256k1 sig) =
     (if \<not> secp256k1_is_key (n6_curves N) pk then False
      else case recoverable_parts (n6_curves N) sig of
        None \<Rightarrow> False
      | Some (s, _) \<Rightarrow> nep413_verify (n6_codecs N) (secp256k1_verify (n6_curves N)) pk p s = Some True)"
| "schema_verify N p _ _ = False"

definition aka_verify :: "nep641_codecs \<Rightarrow> access_key_authorization \<Rightarrow> bool" where
  "aka_verify N a = (case into_nep413_payload N (aka_callback_url a) (aka_msg a) of
     None \<Rightarrow> False
   | Some p \<Rightarrow> schema_verify N p (aka_access_key a) (aka_signature a))"

subsection \<open>The node and the errors\<close>

datatype block_reference = AtHash "byte list" | AtHeight nat | AtFinality

datatype rpc_error =
    AccessKeyNotFound
  | RpcAccountNotFound account_id
  | ContractNotDeployed account_id
  | ContractPanic string
  | ContractExecution string
  | FunctionCallFailed "string option"
  | InvalidResponse string
  | OtherRpcError string

datatype key_permission = FullAccess | GasKeyFullAccess | LimitedAccess

record block_header =
  bh_hash :: "byte list"
  bh_height :: nat
  bh_timestamp :: nat

text \<open>The result of the view method, \<open>None\<close> where it is not the JSON of a resolution.\<close>

record rpc_client =
  rpc_block :: "block_reference \<Rightarrow> rpc_error + block_header"
  rpc_view_access_key :: "account_id \<Rightarrow> access_key \<Rightarrow> byte list \<Rightarrow> rpc_error + key_permission"
  rpc_w_resolve_auth :: "account_id \<Rightarrow> account_id list \<Rightarrow> string \<Rightarrow> block_reference \<Rightarrow>
    rpc_error + (authorization_resolution option \<times> byte list \<times> nat)"
  rpc_access_key_json :: "string \<Rightarrow> access_key_authorization option"

datatype access_key_error =
    AkFromTheFuture
  | AkInvalidChainId
  | AkInvalidPath
  | AkInvalidSignerId account_id
  | AkInvalidSignature
  | NoFullAccess access_key

datatype contract_error = NoResolve | ContractPanicked string

datatype resolve_error_kind =
    AccessKeyErr access_key_error
  | ContractErr contract_error
  | InvalidPayload string string
  | JsonErr
  | MaxDepthExceeded nat
  | RpcErr rpc_error
  | TooManySubAuthorizations nat

record resolve_error =
  re_account_id :: account_id
  re_rev_path :: "account_id list"
  re_kind :: resolve_error_kind

definition err_at :: "resolve_error_kind \<Rightarrow> account_id \<Rightarrow> account_id list \<Rightarrow> resolve_error" where
  "err_at k a rev_path = \<lparr> re_account_id = a, re_rev_path = rev_path, re_kind = k \<rparr>"

record rpc_resolver =
  rv_client :: rpc_client
  rv_codecs :: nep641_codecs
  rv_chain_id :: string
  rv_at_block :: block_reference
  rv_max_sub_auths :: nat
  rv_max_depth :: nat

definition rv_new :: "rpc_client \<Rightarrow> nep641_codecs \<Rightarrow> string \<Rightarrow> rpc_resolver" where
  "rv_new client N chain_id = \<lparr> rv_client = client, rv_codecs = N, rv_chain_id = chain_id, rv_at_block = AtFinality,
     rv_max_sub_auths = 0, rv_max_depth = 0 \<rparr>"

definition rv_with_at_block :: "block_reference \<Rightarrow> rpc_resolver \<Rightarrow> rpc_resolver" where
  "rv_with_at_block b R = R\<lparr>rv_at_block := b\<rparr>"

definition with_max_sub_authorizations :: "nat \<Rightarrow> rpc_resolver \<Rightarrow> rpc_resolver" where
  "with_max_sub_authorizations n R = R\<lparr>rv_max_sub_auths := n\<rparr>"

text \<open>\<open>None\<close>: the assertion fails.\<close>

definition with_max_depth :: "nat \<Rightarrow> rpc_resolver \<Rightarrow> rpc_resolver option" where
  "with_max_depth d R = (if d \<le> rv_max_sub_auths R then Some (R\<lparr>rv_max_depth := d\<rparr>) else None)"

subsection \<open>A single authorization\<close>

record resolved =
  rd_res :: authorization_resolution
  rd_block_hash :: "byte list"
  rd_block_height :: nat

definition is_full_access :: "nep641_codecs \<Rightarrow> account_id \<Rightarrow> access_key \<Rightarrow> rpc_error + key_permission \<Rightarrow> resolve_error_kind + bool" where
  "is_full_access N a k r = (case r of
     Inr p \<Rightarrow> Inr (p = FullAccess \<or> p = GasKeyFullAccess)
   | Inl AccessKeyNotFound \<Rightarrow> Inr False
   | Inl (RpcAccountNotFound _) \<Rightarrow> Inr (access_key_to_implicit_account_id (n6_codecs N) k = a)
   | Inl e \<Rightarrow> Inl (RpcErr e))"

definition resolve_access_key ::
  "rpc_resolver \<Rightarrow> account_id \<Rightarrow> account_id list \<Rightarrow> string \<Rightarrow> block_reference \<Rightarrow> resolve_error_kind + resolved"
where
  "resolve_access_key R a rev_path auth block =
     (let client = rv_client R; N = rv_codecs R in
     bind_r (ok_or (rpc_access_key_json client auth) JsonErr) (\<lambda>auth.
     bind_r (require_r (om_chain_id (aka_msg auth) = rv_chain_id R) (AccessKeyErr AkInvalidChainId)) (\<lambda>_.
     bind_r (require_r (om_signer_id (aka_msg auth) = a) (AccessKeyErr (AkInvalidSignerId (om_signer_id (aka_msg auth))))) (\<lambda>_.
     bind_r (require_r (om_path (aka_msg auth) = rev rev_path) (AccessKeyErr AkInvalidPath)) (\<lambda>_.
     bind_r (require_r (aka_verify N auth) (AccessKeyErr AkInvalidSignature)) (\<lambda>_.
     bind_r (map_sum RpcErr id (rpc_block client block)) (\<lambda>b.
     let access_key = rpc_view_access_key client a (aka_access_key auth) (case block of AtHash h \<Rightarrow> h | _ \<Rightarrow> bh_hash b) in
     bind_r (require_r (\<not> om_timestamp (aka_msg auth) > int (bh_timestamp b)) (AccessKeyErr AkFromTheFuture)) (\<lambda>_.
     bind_r (is_full_access N a (aka_access_key auth) access_key) (\<lambda>full.
     bind_r (require_r full (AccessKeyErr (NoFullAccess (aka_access_key auth)))) (\<lambda>_.
     Inr \<lparr> rd_res = ar_new (om_payload (aka_msg auth)), rd_block_hash = bh_hash b, rd_block_height = bh_height b \<rparr>))))))))))"

fun contract_rpc_error :: "rpc_error \<Rightarrow> resolve_error_kind" where
  "contract_rpc_error (RpcAccountNotFound _) = ContractErr NoResolve"
| "contract_rpc_error (ContractNotDeployed _) = ContractErr NoResolve"
| "contract_rpc_error (ContractPanic m) = ContractErr (ContractPanicked m)"
| "contract_rpc_error (ContractExecution m) = ContractErr (ContractPanicked m)"
| "contract_rpc_error (FunctionCallFailed p) = ContractErr (ContractPanicked (case p of Some m \<Rightarrow> m | None \<Rightarrow> ''contract panic''))"
| "contract_rpc_error e = RpcErr e"

definition resolve_contract ::
  "rpc_resolver \<Rightarrow> account_id \<Rightarrow> account_id list \<Rightarrow> string \<Rightarrow> block_reference \<Rightarrow> resolve_error_kind + resolved"
where
  "resolve_contract R a rev_path auth block =
     bind_r (map_sum contract_rpc_error id (rpc_w_resolve_auth (rv_client R) a (rev rev_path) auth block)) (\<lambda>(res, hash, height).
     bind_r (ok_or res JsonErr) (\<lambda>res. Inr \<lparr> rd_res = res, rd_block_hash = hash, rd_block_height = height \<rparr>))"

definition or_r :: "'e + 'a \<Rightarrow> 'e + 'a \<Rightarrow> 'e + 'a" where
  "or_r a b = (case a of Inr _ \<Rightarrow> a | Inl _ \<Rightarrow> b)"

definition do_resolve_single ::
  "rpc_resolver \<Rightarrow> account_id \<Rightarrow> account_id list \<Rightarrow> string \<Rightarrow> string option \<Rightarrow> block_reference \<Rightarrow> resolve_error_kind + resolved"
where
  "do_resolve_single R a rev_path auth expect block =
     bind_r (case (resolve_access_key R a rev_path auth block, resolve_contract R a rev_path auth block) of
         (Inl (AccessKeyErr e), Inl _) \<Rightarrow> Inl (AccessKeyErr e)
       | (access_key, contract) \<Rightarrow> or_r access_key contract) (\<lambda>res.
     bind_r (require_r (\<not> (case block of
         AtHash h \<Rightarrow> rd_block_hash res \<noteq> h
       | AtHeight n \<Rightarrow> rd_block_height res \<noteq> n
       | AtFinality \<Rightarrow> False)) (RpcErr (InvalidResponse ''returned block doesn't match the requested one''))) (\<lambda>_.
     case expect of
       None \<Rightarrow> Inr res
     | Some expected \<Rightarrow>
         bind_r (require_r (expected = ar_payload (rd_res res)) (InvalidPayload (ar_payload (rd_res res)) expected)) (\<lambda>_. Inr res)))"

text \<open>A task of the pool: the arguments of \<open>resolve_single\<close>.\<close>

record task =
  tk_account_id :: account_id
  tk_rev_path :: "account_id list"
  tk_authorization :: string
  tk_expect :: "string option"
  tk_block :: block_reference

definition resolve_single :: "rpc_resolver \<Rightarrow> task \<Rightarrow> resolve_error + resolved" where
  "resolve_single R t =
     map_sum (\<lambda>k. err_at k (tk_account_id t) (tk_rev_path t)) id
       (do_resolve_single R (tk_account_id t) (tk_rev_path t) (tk_authorization t) (tk_expect t) (tk_block t))"

subsection \<open>The loop\<close>

definition sub_tasks :: "task \<Rightarrow> byte list \<Rightarrow> pending_authorization list \<Rightarrow> task list" where
  "sub_tasks t block_hash pending = map (\<lambda>p.
     \<lparr> tk_account_id = pa_account_id p, tk_rev_path = tk_rev_path t @ [tk_account_id t],
       tk_authorization = pa_authorization p, tk_expect = Some (pa_expect p), tk_block = AtHash block_hash \<rparr>) pending"

text \<open>The body of the loop up to where it waits: the limits, and the pool with the new tasks.\<close>

definition admit :: "rpc_resolver \<Rightarrow> byte list \<Rightarrow> task \<Rightarrow> pending_authorization list \<Rightarrow> nat \<Rightarrow> task list \<Rightarrow> resolve_error + (nat \<times> task list)" where
  "admit R block_hash t pending sub_count pool =
     bind_r (require_r (\<not> (pending \<noteq> [] \<and> length (tk_rev_path t) \<ge> rv_max_depth R))
       (err_at (MaxDepthExceeded (rv_max_depth R)) (tk_account_id t) (tk_rev_path t))) (\<lambda>_.
     let sub_count = sat_add_u 64 sub_count (length pending) in
     bind_r (require_r (\<not> sub_count > rv_max_sub_auths R)
       (err_at (TooManySubAuthorizations (rv_max_sub_auths R)) (tk_account_id t) (tk_rev_path t))) (\<lambda>_.
     Inr (sub_count, pool @ sub_tasks t block_hash pending)))"

datatype resolving =
    Running "byte list" string nat "task list"
  | Finished "resolve_error + string"

definition after_admit :: "byte list \<Rightarrow> string \<Rightarrow> resolve_error + (nat \<times> task list) \<Rightarrow> resolving" where
  "after_admit h payload r = (case r of Inl e \<Rightarrow> Finished (Inl e) | Inr (n, pool) \<Rightarrow> Running h payload n pool)"

definition top_task :: "rpc_resolver \<Rightarrow> account_id \<Rightarrow> string \<Rightarrow> task" where
  "top_task R a auth = \<lparr> tk_account_id = a, tk_rev_path = [], tk_authorization = auth, tk_expect = None, tk_block = rv_at_block R \<rparr>"

definition resolve_start :: "rpc_resolver \<Rightarrow> account_id \<Rightarrow> string \<Rightarrow> resolving" where
  "resolve_start R a auth = (case resolve_single R (top_task R a auth) of
     Inl e \<Rightarrow> Finished (Inl e)
   | Inr r \<Rightarrow> after_admit (rd_block_hash r) (ar_payload (rd_res r))
       (admit R (rd_block_hash r) (top_task R a auth) (ar_pending (rd_res r)) 0 []))"

text \<open>What happens when the task \<open>t\<close> of the pool completes, the others being \<open>rest\<close>.\<close>

definition complete :: "rpc_resolver \<Rightarrow> byte list \<Rightarrow> string \<Rightarrow> nat \<Rightarrow> task \<Rightarrow> task list \<Rightarrow> resolving" where
  "complete R h payload n t rest = (case resolve_single R t of
     Inl e \<Rightarrow> Finished (Inl e)
   | Inr r \<Rightarrow> after_admit h payload (admit R h t (ar_pending (rd_res r)) n rest))"

inductive resolve_step :: "rpc_resolver \<Rightarrow> resolving \<Rightarrow> resolving \<Rightarrow> bool" for R where
  none_left: "resolve_step R (Running h payload n []) (Finished (Inr payload))"
| completes: "resolve_step R (Running h payload n (xs @ t # ys)) (complete R h payload n t (xs @ ys))"

inductive_simps resolve_step_Running: "resolve_step R (Running h payload n pool) s"
inductive_simps resolve_step_Finished: "resolve_step R (Finished r) s"

end
