(* ===== verification/ResolverLaws.thy ===== *)
theory ResolverLaws
  imports AuthResolver
begin

text \<open>
  The resolver terminates within its limits, and whether it accepts, and which payload, does not
  depend on the order in which the pending authorizations complete: it accepts exactly the trees of
  authorizations that the recursive specification below accepts.
\<close>

subsection \<open>Termination\<close>

fun within_limit :: "rpc_resolver \<Rightarrow> resolving \<Rightarrow> bool" where
  "within_limit R (Running _ _ n _) \<longleftrightarrow> n \<le> rv_max_sub_auths R"
| "within_limit R (Finished _) \<longleftrightarrow> True"

fun work :: "rpc_resolver \<Rightarrow> resolving \<Rightarrow> nat" where
  "work R (Running _ _ n pool) = rv_max_sub_auths R - n + length pool + 1"
| "work R (Finished _) = 0"

lemma admit_Inr:
  assumes "rv_max_sub_auths R < u_max 64"
  shows "admit R h t pending n pool = Inr (n', pool') \<longleftrightarrow>
    (pending = [] \<or> length (tk_rev_path t) < rv_max_depth R) \<and> n' = n + length pending \<and> n' \<le> rv_max_sub_auths R \<and>
    pool' = pool @ sub_tasks t h pending"
  using assms by (auto simp: admit_def result_simps Let_def sat_add_u_def)

lemma admit_cases:
  assumes "rv_max_sub_auths R < u_max 64"
  shows "after_admit h payload (admit R h t pending n pool) =
    (if (pending = [] \<or> length (tk_rev_path t) < rv_max_depth R) \<and> n + length pending \<le> rv_max_sub_auths R
     then Running h payload (n + length pending) (pool @ sub_tasks t h pending)
     else Finished (Inl (case admit R h t pending n pool of Inl e \<Rightarrow> e)))"
proof (cases "admit R h t pending n pool")
  case (Inl e)
  then show ?thesis using admit_Inr [OF assms, of h t pending n pool] by (auto simp: after_admit_def)
next
  case (Inr x)
  then show ?thesis using admit_Inr [OF assms, of h t pending n pool "fst x" "snd x"] by (auto simp: after_admit_def split_def)
qed

lemma sub_tasks_simps [simp]: "length (sub_tasks t h ps) = length ps" "sub_tasks t h [] = []"
  by (simp_all add: sub_tasks_def)

lemma step_within_work:
  assumes lim: "rv_max_sub_auths R < u_max 64" and "resolve_step R s s'" and "within_limit R s"
  shows "within_limit R s' \<and> work R s' < work R s"
  using assms(2,3)
proof cases
  case (completes h payload n xs t ys)
  then show ?thesis using assms(3) by (auto simp: complete_def admit_cases [OF lim] split: sum.splits)
qed simp

lemma start_within: "rv_max_sub_auths R < u_max 64 \<Longrightarrow> within_limit R (resolve_start R a auth) \<and> work R (resolve_start R a auth) \<le> rv_max_sub_auths R + 1"
  by (auto simp: resolve_start_def admit_cases split: sum.splits)

lemma steps_within:
  assumes "rv_max_sub_auths R < u_max 64" and "(resolve_step R ^^ k) s s'" and "within_limit R s"
  shows "within_limit R s' \<and> work R s' + k \<le> work R s"
  using assms(2,3)
proof (induction k arbitrary: s')
  case (Suc k)
  then obtain u where "(resolve_step R ^^ k) s u" "resolve_step R u s'" by auto
  then show ?case using Suc step_within_work [OF assms(1)] by fastforce
qed simp

lemma step_exists: "\<exists>s'. resolve_step R (Running h payload n pool) s'"
proof (cases pool)
  case (Cons t ys)
  then show ?thesis using resolve_step.completes [of R h payload n "[]" t ys] by auto
qed (auto intro: resolve_step.none_left)

lemma reaches_finish:
  assumes "rv_max_sub_auths R < u_max 64"
  shows "within_limit R s \<Longrightarrow> \<exists>r. (resolve_step R)\<^sup>*\<^sup>* s (Finished r)"
proof (induction "work R s" arbitrary: s rule: less_induct)
  case less
  show ?case
  proof (cases s)
    case (Running h payload n pool)
    then obtain s' where s': "resolve_step R s s'" using step_exists by blast
    then obtain r where "(resolve_step R)\<^sup>*\<^sup>* s' (Finished r)"
      using less step_within_work [OF assms s'] by blast
    then show ?thesis using s' by (blast intro: converse_rtranclp_into_rtranclp)
  qed blast
qed

lemma start_reaches_finish:
  assumes "rv_max_sub_auths R < u_max 64" and "(resolve_step R)\<^sup>*\<^sup>* (resolve_start R a auth) s"
  shows "\<exists>r. (resolve_step R)\<^sup>*\<^sup>* s (Finished r)"
proof -
  obtain k where "(resolve_step R ^^ k) (resolve_start R a auth) s" using assms(2) by (auto simp: rtranclp_power)
  with steps_within [OF assms(1) this] start_within [OF assms(1), of a auth] show ?thesis
    by (intro reaches_finish [OF assms(1)]) simp
qed

text \<open>
  C11: The resolver terminates. Whatever the node answers and in whatever order the pending
  authorizations complete, it finishes after at most one step more than the configured number of
  sub-authorizations, and until then it always has a step to take.
\<close>

theorem resolver_terminates:
  assumes "rv_max_sub_auths R < u_max 64" and "(resolve_step R ^^ k) (resolve_start R a auth) s"
  shows "k \<le> rv_max_sub_auths R + 1 \<and> ((\<exists>r. s = Finished r) \<or> (\<exists>s'. resolve_step R s s'))"
proof -
  have "k \<le> rv_max_sub_auths R + 1"
    using steps_within [OF assms] start_within [OF assms(1), of a auth] by simp
  moreover have "(\<exists>r. s = Finished r) \<or> (\<exists>s'. resolve_step R s s')"
    using step_exists by (cases s) auto
  ultimately show ?thesis by blast
qed

subsection \<open>The tree of authorizations\<close>

fun sum_opt :: "nat option list \<Rightarrow> nat option" where
  "sum_opt [] = Some 0"
| "sum_opt (x # xs) = Option.bind x (\<lambda>a. map_option ((+) a) (sum_opt xs))"

text \<open>The number of sub-authorizations below a task whose whole tree resolves at depth at most \<open>d\<close> below it.\<close>

fun tree_size :: "rpc_resolver \<Rightarrow> byte list \<Rightarrow> nat \<Rightarrow> task \<Rightarrow> nat option" where
  "tree_size R h d t = (case resolve_single R t of
     Inl _ \<Rightarrow> None
   | Inr r \<Rightarrow>
       if ar_pending (rd_res r) = [] then Some 0
       else case d of
         0 \<Rightarrow> None
       | Suc d' \<Rightarrow> map_option ((+) (length (ar_pending (rd_res r)))) (sum_opt (map (tree_size R h d') (sub_tasks t h (ar_pending (rd_res r))))))"

declare tree_size.simps [simp del]

definition size_of :: "rpc_resolver \<Rightarrow> byte list \<Rightarrow> task \<Rightarrow> nat option" where
  "size_of R h t = tree_size R h (rv_max_depth R - length (tk_rev_path t)) t"

definition tree_accepts :: "rpc_resolver \<Rightarrow> account_id \<Rightarrow> string \<Rightarrow> string \<Rightarrow> bool" where
  "tree_accepts R a auth payload = (case resolve_single R (top_task R a auth) of
     Inl _ \<Rightarrow> False
   | Inr r \<Rightarrow> ar_payload (rd_res r) = payload \<and>
       (case size_of R (rd_block_hash r) (top_task R a auth) of None \<Rightarrow> False | Some k \<Rightarrow> k \<le> rv_max_sub_auths R))"

lemma sum_opt_append: "sum_opt (xs @ ys) = Option.bind (sum_opt xs) (\<lambda>a. map_option ((+) a) (sum_opt ys))"
  by (induction xs) (auto simp: map_option_case split: Option.bind_split option.splits)

lemma size_of_unfold:
  "size_of R h t = (case resolve_single R t of
     Inl _ \<Rightarrow> None
   | Inr r \<Rightarrow>
       if ar_pending (rd_res r) = [] then Some 0
       else if rv_max_depth R \<le> length (tk_rev_path t) then None
       else map_option ((+) (length (ar_pending (rd_res r)))) (sum_opt (map (size_of R h) (sub_tasks t h (ar_pending (rd_res r))))))"
proof -
  have sub: "map (tree_size R h d) (sub_tasks t h ps) = map (size_of R h) (sub_tasks t h ps)"
    if "rv_max_depth R - length (tk_rev_path t) = Suc d" for d ps
  proof -
    have "rv_max_depth R - Suc (length (tk_rev_path t)) = d" using that by linarith
    then show ?thesis by (simp add: sub_tasks_def size_of_def)
  qed
  show ?thesis
    unfolding size_of_def tree_size.simps [of R h _ t]
    by (auto simp: sub size_of_def [symmetric] split: sum.splits nat.splits)
qed

fun accepting :: "rpc_resolver \<Rightarrow> string \<Rightarrow> resolving \<Rightarrow> bool" where
  "accepting R p (Running h q n pool) \<longleftrightarrow> q = p \<and>
     (case sum_opt (map (size_of R h) pool) of None \<Rightarrow> False | Some k \<Rightarrow> n + k \<le> rv_max_sub_auths R)"
| "accepting R p (Finished r) \<longleftrightarrow> r = Inr p"

lemma sum_opt_insert: "sum_opt (xs @ y # ys) = Option.bind y (\<lambda>a. map_option ((+) a) (sum_opt (xs @ ys)))"
  by (auto simp: sum_opt_append map_option_case split: Option.bind_split option.splits)

lemma admit_accepting:
  assumes "rv_max_sub_auths R < u_max 64" and "resolve_single R t = Inr r"
  shows "accepting R p (after_admit h q (admit R h t (ar_pending (rd_res r)) n rest)) \<longleftrightarrow> q = p \<and>
    (case Option.bind (size_of R h t) (\<lambda>a. map_option ((+) a) (sum_opt (map (size_of R h) rest))) of
       None \<Rightarrow> False | Some k \<Rightarrow> n + k \<le> rv_max_sub_auths R)"
  unfolding admit_cases [OF assms(1)] size_of_unfold [of R h t] assms(2)
  by (auto simp: sum_opt_append map_option_case split: Option.bind_split option.splits if_splits)

lemma step_accepting:
  assumes "rv_max_sub_auths R < u_max 64" and "resolve_step R s s'" and "within_limit R s"
  shows "accepting R p s' \<longleftrightarrow> accepting R p s"
  using assms(2)
proof cases
  case (completes h payload n xs t ys)
  show ?thesis
  proof (cases "resolve_single R t")
    case (Inl e)
    then have "size_of R h t = None" by (simp add: size_of_unfold)
    then show ?thesis using Inl by (simp add: completes complete_def sum_opt_insert)
  next
    case (Inr r)
    show ?thesis unfolding completes complete_def Inr using admit_accepting [OF assms(1) Inr]
      by (simp add: sum_opt_insert)
  qed
qed (use assms(3) in auto)

lemma steps_accepting:
  assumes "rv_max_sub_auths R < u_max 64" and "(resolve_step R)\<^sup>*\<^sup>* s s'" and "within_limit R s"
  shows "accepting R p s' \<longleftrightarrow> accepting R p s" and "within_limit R s'"
  using assms(2,3)
proof (induction rule: rtranclp_induct)
  case (step u v)
  { case 1 show ?case using 1 step step_accepting [OF assms(1)] by blast }
  { case 2 show ?case using 2 step step_within_work [OF assms(1)] by blast }
qed simp_all

lemma tree_accepts_of_steps:
  assumes "rv_max_sub_auths R < u_max 64" and "(resolve_step R)\<^sup>*\<^sup>* (resolve_start R a auth) (Finished r)"
  shows "r = Inr payload \<longleftrightarrow> tree_accepts R a auth payload"
proof -
  have "accepting R payload (resolve_start R a auth) \<longleftrightarrow> tree_accepts R a auth payload"
  proof (cases "resolve_single R (top_task R a auth)")
    case (Inr d)
    then show ?thesis using admit_accepting [OF assms(1) Inr, of payload "rd_block_hash d" "ar_payload (rd_res d)" 0 "[]"]
      by (auto simp: resolve_start_def tree_accepts_def map_option_case split: Option.bind_split option.splits)
  qed (simp add: resolve_start_def tree_accepts_def)
  then show ?thesis using steps_accepting(1) [OF assms] start_within [OF assms(1)] by auto
qed

text \<open>
  C12: The verdict does not depend on the schedule. However the pending authorizations interleave, the
  resolver accepts a payload exactly if the top-level authorization resolves to it and the whole tree
  of pending authorizations resolves, each to the payload its parent expects, with no branch deeper
  than the maximal depth and no more sub-authorizations than allowed.
\<close>

theorem resolver_accepts_trees:
  assumes "rv_max_sub_auths R < u_max 64" and "(resolve_step R)\<^sup>*\<^sup>* (resolve_start R a auth) (Finished r)"
  shows "r = Inr payload \<longleftrightarrow> tree_accepts R a auth payload"
  using assms by (rule tree_accepts_of_steps)

end
