(* ===== verification/SpeaksFor.thy ===== *)
theory SpeaksFor
  imports ResolverLaws
begin

text \<open>
  The resolver over a chain on which wallets live beside other contracts: what an accepted payload
  shows about who authorized it. At every block an account may hold a wallet, with its own signature
  schema and its state there; the view method of such an account runs the wallet's \<open>resolve_auth\<close> at
  that state. Every other contract that answers the method may answer whatever it likes.
\<close>

record 'k wallet_world =
  ww_wallet :: "byte list \<Rightarrow> account_id \<Rightarrow> ('k signature_schema \<times> 'k wallet_state) option"
  ww_env :: "byte list \<Rightarrow> wallet_env"

definition wallet_answer :: "'k wallet_world \<Rightarrow> byte list \<Rightarrow> account_id \<Rightarrow> account_id list \<Rightarrow> string \<Rightarrow>
    (wallet_error + authorization_resolution) option" where
  "wallet_answer W h a path auth =
     map_option (\<lambda>(S, s). resolve_auth ((ww_env W h)\<lparr>we_current := a\<rparr>) S path auth s) (ww_wallet W h a)"

text \<open>
  What is relied on of the node: a successful answer for an account that holds a wallet at the block
  the node names is the wallet's answer at that block.
\<close>

definition serves_wallets :: "rpc_client \<Rightarrow> 'k wallet_world \<Rightarrow> bool" where
  "serves_wallets client W \<longleftrightarrow> (\<forall>a path auth block r h n x.
     rpc_w_resolve_auth client a path auth block = Inr (r, h, n) \<and> wallet_answer W h a path auth = Some x \<longrightarrow>
     (\<exists>res. r = Some res \<and> x = Inr res))"

text \<open>
  \<open>speaks_for\<close>, at the block \<open>h\<close>: the holder of the wallet key of \<open>a\<close>, the holder of a full access key of
  \<open>a\<close>, or whoever speaks for an enabled extension of \<open>a\<close>, has signed \<open>payload\<close> for this very path; or the
  contract of \<open>a\<close> is no wallet, it has resolved to \<open>payload\<close> itself, and somebody speaks for each account
  whose authorization it has made this depend on.
\<close>

definition signed_payload :: "string \<Rightarrow> account_id \<Rightarrow> account_id list \<Rightarrow> string \<Rightarrow> int \<Rightarrow> offchain_message \<Rightarrow> bool" where
  "signed_payload chain a path payload now m \<longleftrightarrow> om_chain_id m = chain \<and> om_signer_id m = a \<and> om_path m = path \<and>
     om_payload m = payload \<and> om_timestamp m \<le> now"

inductive speaks_for :: "rpc_resolver \<Rightarrow> 'k wallet_world \<Rightarrow> byte list \<Rightarrow> account_id \<Rightarrow> account_id list \<Rightarrow> string \<Rightarrow> bool"
  for R W h where
  by_wallet_key: "ww_wallet W h a = Some (S, s) \<Longrightarrow> is_signature_allowed s \<Longrightarrow>
    verify_offchain_msg S (ws_public_key s) m proof \<Longrightarrow>
    signed_payload (we_chain_id (ww_env W h)) a path payload (we_now (ww_env W h)) m \<Longrightarrow> speaks_for R W h a path payload"
| by_access_key: "aka_verify (rv_codecs R) k \<Longrightarrow> rpc_block (rv_client R) block = Inr b \<Longrightarrow> bh_hash b = h \<Longrightarrow>
    signed_payload (rv_chain_id R) a path payload (int (bh_timestamp b)) (aka_msg k) \<Longrightarrow>
    is_full_access (rv_codecs R) a (aka_access_key k) (rpc_view_access_key (rv_client R) a (aka_access_key k) h) = Inr True \<Longrightarrow>
    speaks_for R W h a path payload"
| by_extension: "ww_wallet W h a = Some (S, s) \<Longrightarrow> has_extension e s \<Longrightarrow> speaks_for R W h e (a # path) payload \<Longrightarrow>
    speaks_for R W h a path payload"
| by_contract: "ww_wallet W h a = None \<Longrightarrow> rpc_w_resolve_auth (rv_client R) a path auth block = Inr (Some res, h, n) \<Longrightarrow>
    \<forall>q\<in>set (ar_pending res). speaks_for R W h (pa_account_id q) (a # path) (pa_expect q) \<Longrightarrow>
    speaks_for R W h a path (ar_payload res)"

lemma resolve_auth_Inr:
  assumes "resolve_auth E S path auth s = Inr r"
  obtains (leaf) m sig where "is_signature_allowed s" "verify_offchain_msg S (ws_public_key s) m sig"
      "signed_payload (we_chain_id E) (we_current E) path (ar_payload r) (we_now E) m" "ar_pending r = []"
    | (extension) e auth' where "has_extension e s"
      "ar_pending r = [\<lparr> pa_account_id = e, pa_authorization = auth', pa_expect = ar_payload r \<rparr>]"
proof -
  obtain x where x: "we_from_json E auth = Some x" using assms by (auto simp: resolve_auth_def result_simps)
  note simps = resolve_auth_def result_simps check_extension_enabled_def signed_payload_def ar_new_def ar_add_pending_def
  show ?thesis
  proof (cases x)
    case (ViaSignature m sig)
    then show ?thesis using assms x by (intro leaf [of m sig]) (auto simp: simps)
  next
    case (ViaExtension e auth' p)
    then show ?thesis using assms x by (intro extension [of e auth']) (auto simp: simps)
  qed
qed

lemma do_resolve_single_Inr:
  assumes "do_resolve_single R a rev_path auth expect block = Inr r"
  shows "resolve_access_key R a rev_path auth block = Inr r \<or> resolve_contract R a rev_path auth block = Inr r"
    and "\<And>p. expect = Some p \<Longrightarrow> ar_payload (rd_res r) = p"
    and "\<And>h. block = AtHash h \<Longrightarrow> rd_block_hash r = h"
  using assms
  by (auto simp: do_resolve_single_def result_simps or_r_def split: sum.splits resolve_error_kind.splits option.splits)

lemma resolve_access_key_Inr:
  assumes "resolve_access_key R a rev_path auth block = Inr r" and "\<And>h. block = AtHash h \<Longrightarrow> rd_block_hash r = h"
  shows "speaks_for R W (rd_block_hash r) a (rev rev_path) (ar_payload (rd_res r))"
proof -
  obtain k b where b: "aka_verify (rv_codecs R) k" "rpc_block (rv_client R) block = Inr b" "bh_hash b = rd_block_hash r"
    "signed_payload (rv_chain_id R) a (rev rev_path) (ar_payload (rd_res r)) (int (bh_timestamp b)) (aka_msg k)"
    and key: "is_full_access (rv_codecs R) a (aka_access_key k)
      (rpc_view_access_key (rv_client R) a (aka_access_key k) (case block of AtHash h \<Rightarrow> h | _ \<Rightarrow> bh_hash b)) = Inr True"
    using assms(1) by (auto simp: resolve_access_key_def Let_def result_simps map_sum_Inr signed_payload_def ar_new_def)
  have "(case block of AtHash h \<Rightarrow> h | _ \<Rightarrow> bh_hash b) = rd_block_hash r"
    using assms(2) b(3) by (auto split: block_reference.splits)
  then show ?thesis using b key by (auto intro: speaks_for.by_access_key)
qed

lemma resolve_contract_Inr:
  assumes "serves_wallets (rv_client R) W" and "resolve_contract R a rev_path auth block = Inr r"
  obtains (wallet) S s where "ww_wallet W (rd_block_hash r) a = Some (S, s)"
      "resolve_auth ((ww_env W (rd_block_hash r))\<lparr>we_current := a\<rparr>) S (rev rev_path) auth s = Inr (rd_res r)"
    | (other) n where "ww_wallet W (rd_block_hash r) a = None"
      "rpc_w_resolve_auth (rv_client R) a (rev rev_path) auth block = Inr (Some (rd_res r), rd_block_hash r, n)"
proof -
  obtain n where view: "rpc_w_resolve_auth (rv_client R) a (rev rev_path) auth block = Inr (Some (rd_res r), rd_block_hash r, n)"
    using assms(2) by (auto simp: resolve_contract_def result_simps map_sum_Inr)
  show ?thesis
  proof (cases "ww_wallet W (rd_block_hash r) a")
    case None
    then show ?thesis using view by (rule other)
  next
    case (Some x)
    then show ?thesis using assms(1) [unfolded serves_wallets_def wallet_answer_def] view
      by (cases x) (fastforce intro: wallet)
  qed
qed

text \<open>A task whose tree resolves: so does each of its pending authorizations, at the same block and as expected.\<close>

lemma sum_opt_Some: "sum_opt xs \<noteq> None \<Longrightarrow> x \<in> set xs \<Longrightarrow> x \<noteq> None"
  by (induction xs) (auto simp: bind_eq_Some_conv)

lemma tree_size_pending:
  assumes "tree_size R h d t \<noteq> None" and "resolve_single R t = Inr r" and "q \<in> set (ar_pending (rd_res r))"
  obtains d' r' where "d' < d" "resolve_single R (hd (sub_tasks t h [q])) = Inr r'" "ar_payload (rd_res r') = pa_expect q"
    "rd_block_hash r' = h" "tree_size R h d' (hd (sub_tasks t h [q])) \<noteq> None"
proof -
  let ?t = "hd (sub_tasks t h [q])"
  obtain d' where d: "d' < d" and sub: "sum_opt (map (tree_size R h d') (sub_tasks t h (ar_pending (rd_res r)))) \<noteq> None"
    using assms by (subst (asm) tree_size.simps) (auto split: nat.splits if_splits)
  from sum_opt_Some [OF this(2), of "tree_size R h d' ?t"] assms(3) have sub: "tree_size R h d' ?t \<noteq> None"
    by (auto simp: sub_tasks_def)
  then obtain r' where r': "resolve_single R ?t = Inr r'"
    by (subst (asm) tree_size.simps) (auto split: sum.splits)
  then have "do_resolve_single R (tk_account_id ?t) (tk_rev_path ?t) (tk_authorization ?t) (Some (pa_expect q)) (AtHash h) = Inr r'"
    by (auto simp: resolve_single_def map_sum_Inr sub_tasks_def)
  from do_resolve_single_Inr(2,3) [OF this refl] show ?thesis using that d r' sub by blast
qed

lemma tree_speaks:
  assumes view: "serves_wallets (rv_client R) W"
  shows "resolve_single R t = Inr r \<Longrightarrow> rd_block_hash r = h \<Longrightarrow> tree_size R h d t \<noteq> None \<Longrightarrow>
    speaks_for R W h (tk_account_id t) (rev (tk_rev_path t)) (ar_payload (rd_res r))"
proof (induction d arbitrary: t r rule: less_induct)
  case (less d)
  let ?a = "tk_account_id t" and ?path = "rev (tk_rev_path t)"
  have pending: "speaks_for R W h (pa_account_id q) (?a # ?path) (pa_expect q)" if q: "q \<in> set (ar_pending (rd_res r))" for q
  proof -
    obtain d' r' where "d' < d" "resolve_single R (hd (sub_tasks t h [q])) = Inr r'" "ar_payload (rd_res r') = pa_expect q"
      "rd_block_hash r' = h" "tree_size R h d' (hd (sub_tasks t h [q])) \<noteq> None"
      using tree_size_pending [OF less.prems(3,1) q] by blast
    from less.IH [OF this(1,2,4,5)] this(3) show ?thesis by (simp add: sub_tasks_def)
  qed
  have "do_resolve_single R ?a (tk_rev_path t) (tk_authorization t) (tk_expect t) (tk_block t) = Inr r"
    using less.prems(1) by (auto simp: resolve_single_def map_sum_Inr)
  note single = do_resolve_single_Inr [OF this]
  from single(1) show ?case
  proof
    assume "resolve_access_key R ?a (tk_rev_path t) (tk_authorization t) (tk_block t) = Inr r"
    from resolve_access_key_Inr [OF this single(3)] show ?thesis using less.prems(2) by simp
  next
    assume "resolve_contract R ?a (tk_rev_path t) (tk_authorization t) (tk_block t) = Inr r"
    with view show ?thesis
    proof (cases rule: resolve_contract_Inr)
      case (wallet S s)
      from wallet(2) show ?thesis
      proof (cases rule: resolve_auth_Inr)
        case (leaf m sig)
        then show ?thesis using wallet(1) less.prems(2) by (auto intro: speaks_for.by_wallet_key)
      next
        case (extension e auth')
        then show ?thesis using wallet(1) less.prems(2) pending by (auto intro: speaks_for.by_extension)
      qed
    next
      case (other n)
      then show ?thesis using less.prems(2) pending by (auto intro: speaks_for.by_contract)
    qed
  qed
qed


end
