(* ===== verification/WalletSdk.thy ===== *)
theory WalletSdk
  imports SpeaksFor
begin

text \<open>
  The client of a wallet (\<open>crates/wallet/sdk/src/lib.rs\<close>, \<open>relayer/request.rs\<close>): the builder that derives
  the account from the initial state, and how requests and off-chain payloads are wrapped along a
  chain of extensions and signed. The signer, the derivation of account ids, JSON and the random
  numbers are arguments; \<open>None\<close> is a panic, or an error of the signer.
\<close>

subsection \<open>The initial state in storage\<close>

definition STATE_KEY :: "byte list" where
  "STATE_KEY = []"

definition e_word_map :: "32 bitmap encoder" where
  "e_word_map m = e_vec (\<lambda>(k, v). e_seq (e_uint 32 (unat k)) (e_uint 32 (unat v))) (sort_key fst m)"

definition e_wallet_nonces :: "wallet_nonces encoder" where
  "e_wallet_nonces ns = e_seq (e_duration NANOS_PER_SEC 32 (wn_timeout ns)) (e_seq (e_timestamp_nanos 64 (wn_last_cleaned_at ns))
     (e_seq (e_word_map (wn_old ns)) (e_word_map (wn_current ns))))"

definition e_wallet_state :: "'k encoder \<Rightarrow> 'k wallet_state encoder" where
  "e_wallet_state ek s = e_seq (e_bool (ws_signature_enabled s)) (e_seq (e_uint 32 (unat (ws_subwallet_id s))) (e_seq (ek (ws_public_key s))
     (e_seq (e_wallet_nonces (ws_nonces s)) (e_vec e_account_id (sorted_list_of_set (ws_extensions s))))))"

definition as_storage :: "'k encoder \<Rightarrow> 'k wallet_state \<Rightarrow> (byte list \<times> byte list) list option" where
  "as_storage ek s = map_option (\<lambda>bytes. [(STATE_KEY, bytes)]) (e_wallet_state ek s)"

subsection \<open>The builder\<close>

record wallet_builder =
  wb_subwallet_id :: "32 word"
  wb_timeout :: duration
  wb_extensions :: "account_id set"

definition wb_new :: wallet_builder where
  "wb_new = \<lparr> wb_subwallet_id = DEFAULT_SUBWALLET_ID, wb_timeout = DEFAULT_TIMEOUT, wb_extensions = {} \<rparr>"

definition wb_with_subwallet_id :: "32 word \<Rightarrow> wallet_builder \<Rightarrow> wallet_builder" where
  "wb_with_subwallet_id i b = b\<lparr>wb_subwallet_id := i\<rparr>"

definition wb_with_timeout :: "duration \<Rightarrow> wallet_builder \<Rightarrow> wallet_builder" where
  "wb_with_timeout d b = b\<lparr>wb_timeout := d\<rparr>"

definition wb_extension :: "account_id \<Rightarrow> wallet_builder \<Rightarrow> wallet_builder" where
  "wb_extension a b = b\<lparr>wb_extensions := insert a (wb_extensions b)\<rparr>"

definition wb_with_extensions :: "account_id list \<Rightarrow> wallet_builder \<Rightarrow> wallet_builder" where
  "wb_with_extensions as b = b\<lparr>wb_extensions := wb_extensions b \<union> set as\<rparr>"

record sdk_wallet =
  sw_account_id :: account_id
  sw_state_init :: state_init_v1
  sw_initialized :: bool
  sw_as_extension_chain :: "account_id list"
  sw_chain_id :: string
  sw_timeout :: duration
  sw_nonces :: concurrent_nonces

definition MAINNET :: string where
  "MAINNET = ''mainnet''"

definition built_state :: "'k \<Rightarrow> wallet_builder \<Rightarrow> 'k wallet_state" where
  "built_state pk b = ws_with_extensions (sorted_list_of_set (wb_extensions b)) (ws_with_timeout (wb_timeout b)
     (ws_with_subwallet_id (wb_subwallet_id b) (ws_new pk)))"

definition wb_build ::
  "(state_init_v1 \<Rightarrow> account_id) \<Rightarrow> 'k encoder \<Rightarrow> 32 word list \<Rightarrow> global_contract_id \<Rightarrow> 'k \<Rightarrow> wallet_builder \<Rightarrow> sdk_wallet option"
where
  "wb_build derive_account_id ek rng code pk b = map_option (\<lambda>dat.
     let si = \<lparr> si_code = code, si_data = dat \<rparr> in
     \<lparr> sw_account_id = derive_account_id si, sw_state_init = si, sw_initialized = False, sw_as_extension_chain = [],
       sw_chain_id = MAINNET, sw_timeout = wb_timeout b, sw_nonces = cn_new rng \<rparr>) (as_storage ek (built_state pk b))"

subsection \<open>The handle\<close>

definition sw_with_chain_id :: "32 word list \<Rightarrow> string \<Rightarrow> sdk_wallet \<Rightarrow> sdk_wallet" where
  "sw_with_chain_id rng c w =
     (if c \<noteq> sw_chain_id w then w\<lparr>sw_chain_id := c, sw_initialized := False, sw_nonces := cn_new rng\<rparr> else w\<lparr>sw_chain_id := c\<rparr>)"

definition sw_as_initialized_unchecked :: "sdk_wallet \<Rightarrow> sdk_wallet" where
  "sw_as_initialized_unchecked w = w\<lparr>sw_initialized := True\<rparr>"

definition sw_as_extension_of :: "account_id \<Rightarrow> sdk_wallet \<Rightarrow> sdk_wallet option" where
  "sw_as_extension_of a w =
     (if a \<noteq> sw_account_id w \<and> a \<notin> set (sw_as_extension_chain w)
      then Some (w\<lparr>sw_as_extension_chain := sw_as_extension_chain w @ [a]\<rparr>) else None)"

definition sw_as_self :: "sdk_wallet \<Rightarrow> sdk_wallet" where
  "sw_as_self w = w\<lparr>sw_as_extension_chain := []\<rparr>"

definition effective_account_id :: "sdk_wallet \<Rightarrow> account_id" where
  "effective_account_id w = (if sw_as_extension_chain w = [] then sw_account_id w else last (sw_as_extension_chain w))"

definition reseed_nonces :: "32 word list \<Rightarrow> sdk_wallet \<Rightarrow> sdk_wallet" where
  "reseed_nonces rng w = w\<lparr>sw_nonces := cn_new rng\<rparr>"

definition BLOCKCHAIN_LAG :: duration where
  "BLOCKCHAIN_LAG = from_secs_dur 60"

definition wrap_extension_call :: "(request \<Rightarrow> byte list) \<Rightarrow> account_id \<Rightarrow> request \<Rightarrow> request" where
  "wrap_extension_call args_json e rq = rq_of_promise (np_function_call
     (fc_with_args (args_json rq) (fc_with_gas (rq_estimate_gas rq) (fc_attach_deposit 1 (fc_name ''w_execute_extension''))))
     (np_new e))"

definition wrap_request_msg ::
  "ts_range \<Rightarrow> int \<Rightarrow> (request \<Rightarrow> byte list) \<Rightarrow> request \<Rightarrow> sdk_wallet \<Rightarrow> (sdk_wallet \<times> request_message) option"
where
  "wrap_request_msg T now args_json rq w =
     Option.bind (next_nonce (sw_nonces w)) (\<lambda>(ns, n).
     Option.bind (ts_sub T now (min BLOCKCHAIN_LAG (sw_timeout w div 5))) (\<lambda>created_at.
     Some (w\<lparr>sw_nonces := ns\<rparr>,
       \<lparr> rm_pay_for_gas = False, rm_chain_id = sw_chain_id w, rm_signer_id = sw_account_id w, rm_nonce = n,
         rm_created_at = created_at, rm_timeout = sw_timeout w,
         rm_request = foldr (wrap_extension_call args_json) (sw_as_extension_chain w) rq \<rparr>)))"

definition sw_sign ::
  "(request_message \<Rightarrow> string option) \<Rightarrow> ts_range \<Rightarrow> int \<Rightarrow> (request \<Rightarrow> byte list) \<Rightarrow> request \<Rightarrow> sdk_wallet \<Rightarrow>
     (sdk_wallet \<times> request_message \<times> string) option"
where
  "sw_sign signer T now args_json rq w =
     Option.bind (wrap_request_msg T now args_json rq w) (\<lambda>(w, m).
     map_option (\<lambda>sig. (w, m, sig)) (signer m))"

record wallet_relay_request =
  wl_deterministic_state_init :: "state_init_v1 option"
  wl_msg :: request_message
  wl_proof :: string

definition sign_and_send ::
  "(request_message \<Rightarrow> string option) \<Rightarrow> ts_range \<Rightarrow> int \<Rightarrow> (request \<Rightarrow> byte list) \<Rightarrow> request \<Rightarrow> sdk_wallet \<Rightarrow>
     (sdk_wallet \<times> wallet_relay_request) option"
where
  "sign_and_send signer T now args_json rq w = map_option (\<lambda>(w, m, sig). (w,
     \<lparr> wl_deterministic_state_init = (if \<not> sw_initialized w then Some (sw_state_init w) else None), wl_msg = m, wl_proof = sig \<rparr>))
     (sw_sign signer T now args_json rq w)"

definition wrap_offchain_msg :: "(wallet_authorization \<Rightarrow> string) \<Rightarrow> offchain_message \<Rightarrow> string \<Rightarrow> sdk_wallet \<Rightarrow> string" where
  "wrap_offchain_msg to_blob m sig w = to_blob (foldl (wa_as_extension_of to_blob) (ViaSignature m sig)
     (take (length (sw_as_extension_chain w)) (sw_account_id w # sw_as_extension_chain w)))"

definition sign_offchain_msg ::
  "(offchain_message \<Rightarrow> string option) \<Rightarrow> (wallet_authorization \<Rightarrow> string) \<Rightarrow> ts_range \<Rightarrow> int \<Rightarrow> string \<Rightarrow> account_id list \<Rightarrow>
     sdk_wallet \<Rightarrow> string option"
where
  "sign_offchain_msg signer to_blob T now payload path w =
     (if \<not> sw_initialized w then None
      else Option.bind (ts_sub T now BLOCKCHAIN_LAG) (\<lambda>timestamp.
        let m = \<lparr> om_chain_id = sw_chain_id w, om_signer_id = sw_account_id w, om_path = sw_as_extension_chain w @ path,
                  om_timestamp = timestamp, om_payload = payload \<rparr> in
        map_option (\<lambda>sig. wrap_offchain_msg to_blob m sig w) (signer m)))"

end
