(* ===== verification/WalletLaws.thy ===== *)
theory WalletLaws
  imports Wallet
begin

text \<open>
  What the methods of a wallet do, against a specification of its operations on the pair of signature
  mode and extensions, and the runs of a wallet: successful calls in the order of a clock that does
  not go back, from a state whose nonces are fresh.
\<close>

subsection \<open>Operations against their specification\<close>

type_synonym access = "bool \<times> account_id set"

definition access :: "'k wallet_state \<Rightarrow> access" where
  "access s = (ws_signature_enabled s, ws_extensions s)"

definition open_access :: "access \<Rightarrow> bool" where
  "open_access x \<longleftrightarrow> fst x \<or> snd x \<noteq> {}"

fun op_spec :: "wallet_op \<Rightarrow> access \<Rightarrow> access option" where
  "op_spec (SetSignatureMode b) (g, X) = (if g \<noteq> b \<and> (b \<or> X \<noteq> {}) then Some (b, X) else None)"
| "op_spec (AddExtension a) (g, X) = (if a \<notin> X then Some (g, insert a X) else None)"
| "op_spec (RemoveExtension a) (g, X) = (if a \<in> X \<and> (g \<or> X \<noteq> {a}) then Some (g, X - {a}) else None)"

definition ops_spec :: "wallet_op list \<Rightarrow> access \<Rightarrow> access option" where
  "ops_spec ops x = try_fold (\<lambda>x c. op_spec c x) x ops"

fun op_event :: "actor \<Rightarrow> wallet_op \<Rightarrow> wallet_event" where
  "op_event by_actor (SetSignatureMode b) = SignatureModeSet b by_actor"
| "op_event by_actor (AddExtension a) = ExtensionAdded a by_actor"
| "op_event by_actor (RemoveExtension a) = ExtensionRemoved a by_actor"

definition with_access :: "access \<Rightarrow> 'k wallet_state \<Rightarrow> 'k wallet_state" where
  "with_access x s = s\<lparr>ws_signature_enabled := fst x, ws_extensions := snd x\<rparr>"

lemma with_access_simps [simp]:
  "access (with_access x s) = x" "with_access y (with_access x s) = with_access y s" "with_access (access s) s = s"
  "ws_nonces (with_access x s) = ws_nonces s" "ws_public_key (with_access x s) = ws_public_key s"
  "ws_subwallet_id (with_access x s) = ws_subwallet_id s"
  by (simp_all add: access_def with_access_def)

lemma execute_op_spec:
  "execute_op by_actor c r = Inr r' \<longleftrightarrow> (\<exists>x. op_spec c (access (wr_state r)) = Some x \<and>
     r' = r\<lparr>wr_state := with_access x (wr_state r), wr_events := wr_events r @ [op_event by_actor c]\<rparr>)"
  by (cases c) (auto simp: set_signature_mode_def add_extension_def remove_extension_def check_lockout_def access_def
      with_access_def wr_emit_def Let_def result_simps)

lemma execute_ops_spec:
  "fold_r (execute_op by_actor) ops r = Inr r' \<longleftrightarrow> (\<exists>x. ops_spec ops (access (wr_state r)) = Some x \<and>
     r' = r\<lparr>wr_state := with_access x (wr_state r), wr_events := wr_events r @ map (op_event by_actor) ops\<rparr>)"
proof (induction ops arbitrary: r)
  case (Cons c ops)
  then show ?case by (auto simp: ops_spec_def result_simps execute_op_spec split: option.splits)
qed (auto simp: ops_spec_def)

lemma supported_all [simp]: "list_all supported_action as"
proof -
  have "supported_action a" for a by (cases a) simp_all
  then show ?thesis by (simp add: list_all_iff)
qed

lemma build_promise_Inr: "build_promise E p = Inr q \<longleftrightarrow> np_receiver_id p \<noteq> we_current E \<and> q = np_build p"
  by (auto simp: build_promise_def result_simps)

lemma detach_spec:
  "fold_r (\<lambda>p r. bind_r (build_promise E p) (\<lambda>q. Inr (wr_detach q r))) ps r = Inr r' \<longleftrightarrow>
     list_all (\<lambda>p. np_receiver_id p \<noteq> we_current E) ps \<and> r' = r\<lparr>wr_promises := wr_promises r @ map np_build ps\<rparr>"
  by (induction ps arbitrary: r) (auto simp: result_simps build_promise_Inr wr_detach_def)

lemma execute_request_spec:
  "execute_request E rq by_actor r = Inr r' \<longleftrightarrow>
     list_all (\<lambda>p. np_receiver_id p \<noteq> we_current E) (rq_external rq) \<and>
     (\<exists>x. ops_spec (rq_internal rq) (access (wr_state r)) = Some x \<and>
       r' = \<lparr> wr_state = with_access x (wr_state r), wr_events = wr_events r @ map (op_event by_actor) (rq_internal rq),
              wr_promises = wr_promises r @ map np_build (rq_external rq) \<rparr>)"
  by (cases r) (auto simp: execute_request_def result_simps execute_ops_spec detach_spec)

text \<open>Every operation leaves a way in, and its event tells what it did.\<close>

fun apply_event :: "wallet_event \<Rightarrow> access \<Rightarrow> access" where
  "apply_event (ExtensionAdded a _) (g, X) = (g, insert a X)"
| "apply_event (ExtensionRemoved a _) (g, X) = (g, X - {a})"
| "apply_event (SignatureModeSet b _) (g, X) = (b, X)"
| "apply_event (SignedRequest _) x = x"

lemma op_spec_open: "op_spec c x = Some y \<Longrightarrow> open_access y"
  by (cases x; cases c) (auto simp: open_access_def split: if_splits)

lemma op_spec_event: "op_spec c x = Some y \<Longrightarrow> apply_event (op_event by_actor c) x = y"
  by (cases x; cases c) (auto split: if_splits)

lemma ops_spec_open: "ops_spec ops x = Some y \<Longrightarrow> open_access x \<or> ops \<noteq> [] \<Longrightarrow> open_access y"
  unfolding ops_spec_def
  by (induction ops arbitrary: x) (auto split: option.splits dest: op_spec_open)

lemma ops_spec_events: "ops_spec ops x = Some y \<Longrightarrow> fold apply_event (map (op_event by_actor) ops) x = y"
  unfolding ops_spec_def
  by (induction ops arbitrary: x) (auto split: option.splits simp: op_spec_event)

subsection \<open>Calls\<close>

datatype wallet_call = CallSigned request_message string | CallExtension request

fun do_call :: "wallet_env \<Rightarrow> 'k signature_schema \<Rightarrow> wallet_call \<Rightarrow> 'k wallet_state \<Rightarrow> wallet_error + 'k wallet_run" where
  "do_call E S (CallSigned m proof) s = execute_signed E S m proof s"
| "do_call E S (CallExtension rq) s = execute_extension E rq s"

fun call_request :: "wallet_call \<Rightarrow> request" where
  "call_request (CallSigned m _) = rm_request m"
| "call_request (CallExtension rq) = rq"

text \<open>Who may call: the holder of the key, within the window of the message, or an enabled extension.\<close>

fun may_call :: "wallet_env \<Rightarrow> 'k signature_schema \<Rightarrow> 'k \<Rightarrow> duration \<Rightarrow> access \<Rightarrow> wallet_call \<Rightarrow> bool" where
  "may_call E S pk T x (CallSigned m proof) \<longleftrightarrow> (fst x \<or> snd x = {}) \<and> verify_request_msg S pk m proof \<and> \<not> rm_pay_for_gas m \<and>
     rm_chain_id m = we_chain_id E \<and> rm_signer_id m = we_current E \<and>
     rm_created_at m \<le> we_now E \<and> we_now E \<le> rm_created_at m + int (min T (rm_timeout m))"
| "may_call E S pk T x (CallExtension rq) \<longleftrightarrow> we_predecessor E \<in> snd x \<and> 0 < we_attached_deposit E"

fun call_nonces :: "wallet_env \<Rightarrow> wallet_call \<Rightarrow> wallet_nonces \<Rightarrow> nonce_error + wallet_nonces" where
  "call_nonces E (CallSigned m _) ns = wn_commit (we_ts_range E) (we_now E) (rm_nonce m) (rm_created_at m) (rm_timeout m) ns"
| "call_nonces E (CallExtension _) ns = check_cleanup (we_ts_range E) (we_now E) ns"

text \<open>All that a successful call does.\<close>

lemma do_call_Inr:
  assumes "do_call E S c s = Inr r" and "wn_ok (ws_nonces s)"
  obtains ns x where "may_call E S (ws_public_key s) (wn_timeout (ws_nonces s)) (access s) c"
    "call_nonces E c (ws_nonces s) = Inr ns" "ops_spec (rq_internal (call_request c)) (access s) = Some x"
    "fold apply_event (wr_events r) (access s) = x"
    "wr_state r = with_access x (s\<lparr>ws_nonces := ns\<rparr>)" "wr_promises r = map np_build (rq_external (call_request c))"
    "list_all (\<lambda>p. np_receiver_id p \<noteq> we_current E) (rq_external (call_request c))"
proof (cases c)
  case (CallSigned m proof')
  obtain ns h x where ns: "wn_commit (we_ts_range E) (we_now E) (rm_nonce m) (rm_created_at m) (rm_timeout m) (ws_nonces s) = Inr ns"
    and auth: "is_signature_allowed s" "\<not> rm_pay_for_gas m" "rm_chain_id m = we_chain_id E" "rm_signer_id m = we_current E"
      "verify_request_msg S (ws_public_key s) m proof'"
    and req: "list_all (\<lambda>p. np_receiver_id p \<noteq> we_current E) (rq_external (rm_request m))"
      "ops_spec (rq_internal (rm_request m)) (access s) = Some x"
      "r = \<lparr> wr_state = with_access x (s\<lparr>ws_nonces := ns\<rparr>),
             wr_events = SignedRequest h # map (op_event (BySignedRequest h)) (rq_internal (rm_request m)),
             wr_promises = map np_build (rq_external (rm_request m)) \<rparr>"
    using assms(1) by (auto simp: CallSigned execute_signed_def result_simps map_sum_Inr execute_request_spec Let_def
        wr_emit_def wr_start_def access_def)
  from ns assms(2) have "rm_created_at m \<le> we_now E" "we_now E \<le> rm_created_at m + int (min (wn_timeout (ws_nonces s)) (rm_timeout m))"
    by (auto elim: wn_commit_Inr)
  then show ?thesis
    using that [of ns x] auth req ns ops_spec_events [OF req(2), of "BySignedRequest h"]
    by (simp add: CallSigned is_signature_allowed_def access_def)
next
  case (CallExtension rq)
  obtain ns x where "check_cleanup (we_ts_range E) (we_now E) (ws_nonces s) = Inr ns"
    and "0 < we_attached_deposit E" "we_predecessor E \<in> ws_extensions s"
    and req: "list_all (\<lambda>p. np_receiver_id p \<noteq> we_current E) (rq_external rq)"
      "ops_spec (rq_internal rq) (access s) = Some x"
      "r = \<lparr> wr_state = with_access x (s\<lparr>ws_nonces := ns\<rparr>),
             wr_events = map (op_event (ByExtension (we_predecessor E))) (rq_internal rq),
             wr_promises = map np_build (rq_external rq) \<rparr>"
    using assms(1) by (auto simp: CallExtension execute_extension_def result_simps map_sum_Inr execute_request_spec
        wr_start_def access_def check_extension_enabled_def has_extension_def)
  then show ?thesis using that [of ns x] ops_spec_events [OF req(2)] by (simp add: CallExtension access_def)
qed

end
