(* ===== verification/WalletRuns.thy ===== *)
theory WalletRuns
  imports WalletLaws
begin

text \<open>
  The life of a wallet: successful calls, each with its environment and what it did, while the clock
  of the blocks does not go back. Calls that panic leave no trace and are not in the log.
\<close>

type_synonym 'k entry = "wallet_env \<times> wallet_call \<times> 'k wallet_run"

definition clock :: "'k entry list \<Rightarrow> int" where
  "clock log = (if log = [] then 0 else we_now (fst (last log)))"

inductive wallet_life ::
  "'k signature_schema \<Rightarrow> account_id \<Rightarrow> 'k wallet_state \<Rightarrow> 'k entry list \<Rightarrow> 'k wallet_state \<Rightarrow> bool"
for S self s0 where
  deployed: "wallet_life S self s0 [] s0"
| called: "wallet_life S self s0 log s \<Longrightarrow> we_current E = self \<Longrightarrow> clock log \<le> we_now E \<Longrightarrow>
    do_call E S c s = Inr r \<Longrightarrow> wallet_life S self s0 (log @ [(E, c, r)]) (wr_state r)"

inductive_cases wallet_lifeE: "wallet_life S self s0 log s"

text \<open>The state a wallet is deployed with: no nonce has been used.\<close>

definition fresh_wallet :: "'k wallet_state \<Rightarrow> bool" where
  "fresh_wallet s \<longleftrightarrow> wn_last_cleaned_at (ws_nonces s) = 0 \<and> wn_old (ws_nonces s) = [] \<and> wn_current (ws_nonces s) = []"

definition log_events :: "'k entry list \<Rightarrow> wallet_event list" where
  "log_events log = concat (map (\<lambda>(_, _, r). wr_events r) log)"

fun executed_by :: "'k entry \<Rightarrow> (int \<times> request_message) list" where
  "executed_by (E, CallSigned m _, _) = [(we_now E, m)]"
| "executed_by (_, CallExtension _, _) = []"

definition executions :: "'k entry list \<Rightarrow> (int \<times> request_message) list" where
  "executions log = concat (map executed_by log)"

definition commits :: "'k entry list \<Rightarrow> (32 word \<times> int) set" where
  "commits log = (\<lambda>(t, m). (rm_nonce m, t)) ` set (executions log)"

lemma log_snoc [simp]:
  "clock (log @ [e]) = we_now (fst e)" "log_events (log @ [e]) = log_events log @ wr_events (snd (snd e))"
  "executions (log @ [e]) = executions log @ executed_by e"
  by (simp_all add: clock_def log_events_def executions_def split_def)

lemma log_Nil [simp]: "clock [] = 0" "log_events [] = []" "executions [] = []"
  by (simp_all add: clock_def log_events_def executions_def)

lemma distinct_sorted_wrt: "distinct xs \<longleftrightarrow> sorted_wrt (\<noteq>) xs"
  by (induction xs) auto

text \<open>Every later execution of a nonce has a message created after the earlier one was executed.\<close>

definition replay_free :: "duration \<Rightarrow> (int \<times> request_message) list \<Rightarrow> bool" where
  "replay_free T xs \<longleftrightarrow> sorted_wrt (\<lambda>(t, m) (t', m'). rm_nonce m = rm_nonce m' \<longrightarrow> t + int T < t' \<and> t < rm_created_at m') xs"

lemma replay_free_snoc:
  "replay_free T (xs @ [(t', m')]) \<longleftrightarrow> replay_free T xs \<and>
     (\<forall>(t, m) \<in> set xs. rm_nonce m = rm_nonce m' \<longrightarrow> t + int T < t' \<and> t < rm_created_at m')"
  by (auto simp: replay_free_def sorted_wrt_append)

definition life_ok :: "'k wallet_state \<Rightarrow> 'k entry list \<Rightarrow> 'k wallet_state \<Rightarrow> bool" where
  "life_ok s0 log s \<longleftrightarrow> wn_ok (ws_nonces s) \<and> wn_timeout (ws_nonces s) = wn_timeout (ws_nonces s0) \<and>
     ws_public_key s = ws_public_key s0 \<and> ws_subwallet_id s = ws_subwallet_id s0 \<and>
     access s = fold apply_event (log_events log) (access s0) \<and>
     wn_last_cleaned_at (ws_nonces s) \<le> clock log \<and> commits_kept (commits log) (ws_nonces s) \<and>
     (\<forall>n. wn_used (ws_nonces s) n \<longrightarrow> n \<in> fst ` commits log) \<and>
     (\<forall>(t, m) \<in> set (executions log). t \<le> clock log \<and> rm_created_at m \<le> t) \<and>
     replay_free (wn_timeout (ws_nonces s0)) (executions log)"

lemma life_ok_start: "fresh_wallet s \<Longrightarrow> life_ok s [] s"
  by (auto simp: life_ok_def fresh_wallet_def wn_ok_def wn_used_def commits_kept_def commits_def replay_free_def)

lemma life_ok_call:
  assumes ok: "life_ok s0 log s" and clk: "clock log \<le> we_now E" and call: "do_call E S c s = Inr r"
  shows "life_ok s0 (log @ [(E, c, r)]) (wr_state r)"
proof -
  let ?T = "wn_timeout (ws_nonces s0)"
  have wn: "wn_ok (ws_nonces s)" and T: "wn_timeout (ws_nonces s) = ?T" and kept: "commits_kept (commits log) (ws_nonces s)"
    and used: "\<forall>n. wn_used (ws_nonces s) n \<longrightarrow> n \<in> fst ` commits log"
    and lca: "wn_last_cleaned_at (ws_nonces s) \<le> we_now E"
    using ok clk by (auto simp: life_ok_def)
  have past: "\<forall>(t, m) \<in> set (executions log). t \<le> we_now E \<and> rm_created_at m \<le> t"
    using ok clk by (fastforce simp: life_ok_def)
  then have before: "\<forall>(m, t) \<in> commits log. t \<le> we_now E" by (auto simp: commits_def)
  obtain ns x where auth: "may_call E S (ws_public_key s) ?T (access s) c" and ns: "call_nonces E c (ws_nonces s) = Inr ns"
    and ev: "fold apply_event (wr_events r) (access s) = x" and st: "wr_state r = with_access x (s\<lparr>ws_nonces := ns\<rparr>)"
    using do_call_Inr [OF call wn] T by metis
  have nonces: "wn_ok ns \<and> wn_timeout ns = ?T \<and> wn_last_cleaned_at ns \<le> we_now E \<and> commits_kept (commits (log @ [(E, c, r)])) ns \<and>
      (\<forall>n. wn_used ns n \<longrightarrow> n \<in> fst ` commits (log @ [(E, c, r)])) \<and> replay_free ?T (executions (log @ [(E, c, r)]))"
  proof (cases c)
    case (CallSigned m proof')
    have com: "wn_commit (we_ts_range E) (we_now E) (rm_nonce m) (rm_created_at m) (rm_timeout m) (ws_nonces s) = Inr ns"
      using ns CallSigned by simp
    have "t + int ?T < we_now E \<and> t < rm_created_at m" if "(t, m') \<in> set (executions log)" "rm_nonce m' = rm_nonce m" for t m'
    proof -
      have "(rm_nonce m, t) \<in> commits log" using that by (force simp: commits_def)
      then have "t + int ?T < we_now E" using commit_keeps(5) [OF com wn kept before lca] T by simp
      then show ?thesis using auth by (auto simp: CallSigned)
    qed
    then show ?thesis
      using commit_keeps(1-4) [OF com wn kept before lca] commit_used [OF com wn] used T ok
      by (auto simp: CallSigned commits_def replay_free_snoc life_ok_def)
  next
    case (CallExtension rq)
    have cl: "check_cleanup (we_ts_range E) (we_now E) (ws_nonces s) = Inr ns" using ns CallExtension by simp
    then have "wn_ok ns" using wn by (auto elim!: check_cleanup_Inr simp: wn_ok_def)
    then show ?thesis
      using cleanup_keeps [OF cl kept before lca] cleanup_used [OF cl] used T ok by (simp add: CallExtension commits_def life_ok_def)
  qed
  have "\<forall>(t, m) \<in> set (executed_by (E, c, r)). t \<le> we_now E \<and> rm_created_at m \<le> t"
    using auth by (cases c) auto
  with nonces past ok ev show ?thesis by (auto simp: life_ok_def st)
qed

lemma wallet_life_ok: "wallet_life S self s0 log s \<Longrightarrow> fresh_wallet s0 \<Longrightarrow> life_ok s0 log s"
  by (induction rule: wallet_life.induct) (auto intro: life_ok_start life_ok_call)

lemma wallet_life_append:
  "wallet_life S self s0 (l1 @ l2) s \<Longrightarrow> \<exists>s1. wallet_life S self s0 l1 s1"
proof (induction l2 arbitrary: s rule: rev_induct)
  case (snoc e l2)
  then obtain s' where "wallet_life S self s0 (l1 @ l2) s'"
    by (auto elim: wallet_lifeE simp flip: append_assoc)
  then show ?case by (rule snoc.IH)
qed auto

text \<open>
  C8: No signed request is executed twice. Whenever a wallet, over its whole life from a deployment
  with unused nonces, executes two messages with the same nonce, the later message was created after
  the earlier one was executed; so the pairs of nonce and creation time of all executed messages are
  distinct, whatever the relayers deliver and whenever the nonces rotate.
\<close>

theorem wallet_no_replay:
  assumes "wallet_life S self s0 log s" and "fresh_wallet s0"
  shows "replay_free (wn_timeout (ws_nonces s0)) (executions log) \<and>
    distinct (map (\<lambda>(t, m). (rm_nonce m, rm_created_at m)) (executions log))"
proof -
  have ok: "life_ok s0 log s" using assms by (rule wallet_life_ok)
  have "sorted_wrt (\<lambda>x y. (\<lambda>(t, m). (rm_nonce m, rm_created_at m)) x \<noteq> (\<lambda>(t, m). (rm_nonce m, rm_created_at m)) y) (executions log)"
  proof (rule sorted_wrt_mono_rel)
    show "sorted_wrt (\<lambda>(t, m) (t', m'). rm_nonce m = rm_nonce m' \<longrightarrow> t + int (wn_timeout (ws_nonces s0)) < t' \<and> t < rm_created_at m') (executions log)"
      using ok by (simp add: life_ok_def replay_free_def)
  qed (use ok in \<open>fastforce simp: life_ok_def\<close>)
  then have "distinct (map (\<lambda>(t, m). (rm_nonce m, rm_created_at m)) (executions log))"
    by (simp add: distinct_sorted_wrt sorted_wrt_map)
  then show ?thesis using ok by (simp add: life_ok_def)
qed

lemma life_authority:
  assumes "wallet_life S self s0 (l1 @ (E, c, r) # l2) s" and "fresh_wallet s0"
  shows "may_call E S (ws_public_key s0) (wn_timeout (ws_nonces s0)) (fold apply_event (log_events l1) (access s0)) c \<and>
    we_current E = self \<and> wr_promises r = map np_build (rq_external (call_request c)) \<and>
    list_all (\<lambda>p. sp_receiver_id p \<noteq> self) (wr_promises r)"
proof -
  have "wallet_life S self s0 ((l1 @ [(E, c, r)]) @ l2) s" using assms(1) by simp
  then obtain s1 where "wallet_life S self s0 (l1 @ [(E, c, r)]) s1" by (blast dest: wallet_life_append)
  then obtain s' where life: "wallet_life S self s0 l1 s'" and cur: "we_current E = self" and call: "do_call E S c s' = Inr r"
    by (auto elim: wallet_lifeE)
  have ok: "life_ok s0 l1 s'" using life assms(2) by (rule wallet_life_ok)
  then have wn: "wn_ok (ws_nonces s')" by (simp add: life_ok_def)
  obtain ns x where "may_call E S (ws_public_key s') (wn_timeout (ws_nonces s')) (access s') c"
    "wr_promises r = map np_build (rq_external (call_request c))"
    "list_all (\<lambda>p. np_receiver_id p \<noteq> we_current E) (rq_external (call_request c))"
    using call wn by (rule do_call_Inr)
  then show ?thesis using ok cur by (simp add: life_ok_def list_all_iff np_build_keeps)
qed

text \<open>
  C9: A wallet acts only for those who control it. Every call in the life of a wallet was authorized
  at the time: by a signature that the key of the deployment verifies over the delivered message,
  meant for this wallet and this chain and within its validity window, or by an account that is an
  enabled extension then and attached a deposit. The extensions and the signature mode at any time are
  what the emitted events say. The promises created are exactly the requested ones, none to the wallet itself.
\<close>

theorem wallet_authority:
  assumes "wallet_life S self s0 (l1 @ (E, c, r) # l2) s" and "fresh_wallet s0"
  shows "may_call E S (ws_public_key s0) (wn_timeout (ws_nonces s0)) (fold apply_event (log_events l1) (access s0)) c \<and>
    we_current E = self \<and> wr_promises r = map np_build (rq_external (call_request c)) \<and>
    list_all (\<lambda>p. sp_receiver_id p \<noteq> self) (wr_promises r)"
  using assms by (rule life_authority)

text \<open>
  C21: A wallet never locks its holders out. From a deployment with a way in (by signature or through
  an extension) every state of its life has one, and its key, its subwallet id and its nonce timeout
  are those of the deployment.
\<close>

theorem wallet_never_locked:
  assumes "wallet_life S self s0 log s" and "fresh_wallet s0" and "open_access (access s0)"
  shows "open_access (access s) \<and> ws_public_key s = ws_public_key s0 \<and> ws_subwallet_id s = ws_subwallet_id s0 \<and>
    w_timeout_secs s = w_timeout_secs s0"
proof -
  have "open_access (access s)" using assms(1)
  proof induction
    case (called log s E c r)
    then have wn: "wn_ok (ws_nonces s)" using assms(2) wallet_life_ok unfolding life_ok_def by blast
    obtain x where "ops_spec (rq_internal (call_request c)) (access s) = Some x" "access (wr_state r) = x"
      using called.hyps(4) wn by (rule do_call_Inr) simp
    then show ?case using called.IH ops_spec_open by blast
  qed (rule assms(3))
  then show ?thesis using wallet_life_ok [OF assms(1,2)] by (simp add: life_ok_def w_timeout_secs_def)
qed

text \<open>
  A valid signed request is executed: for this wallet and chain, verified by its key, delivered within its
  window, with a nonce that no executed message had, with operations that apply and promises that go elsewhere.
\<close>

lemma executes_signed:
  assumes "wallet_life S self s0 log s" and "fresh_wallet s0"
    and "we_current E = self" and "window_in_range (we_ts_range E) (we_now E) (wn_timeout (ws_nonces s0))"
    and "may_call E S (ws_public_key s0) (wn_timeout (ws_nonces s0)) (access s) (CallSigned m proof)"
    and "rm_nonce m \<notin> fst ` commits log"
    and "rm_hash (we_sha3_256 E) (we_state_init E) m \<noteq> None"
    and "list_all (\<lambda>p. np_receiver_id p \<noteq> self) (rq_external (rm_request m))"
    and "ops_spec (rq_internal (rm_request m)) (access s) = Some x"
  shows "\<exists>r. do_call E S (CallSigned m proof) s = Inr r \<and> access (wr_state r) = x"
proof -
  have ok: "life_ok s0 log s" using assms(1,2) by (rule wallet_life_ok)
  have T: "wn_timeout (ws_nonces s) = wn_timeout (ws_nonces s0)" and wn: "wn_ok (ws_nonces s)"
    and pk: "ws_public_key s = ws_public_key s0" using ok by (auto simp: life_ok_def)
  obtain ns1 where c: "check_cleanup (we_ts_range E) (we_now E) (ws_nonces s) = Inr ns1"
    using check_cleanup_total assms(4) T by metis
  have ns1: "wn_ok ns1" "wn_timeout ns1 = wn_timeout (ws_nonces s0)" using c wn T by (auto elim!: check_cleanup_Inr simp: wn_ok_def)
  have fresh: "\<not> wn_used ns1 (rm_nonce m)" using cleanup_used [OF c] ok assms(6) by (auto simp: life_ok_def)
  have "ts_sub (we_ts_range E) (we_now E) (min (wn_timeout ns1) (rm_timeout m)) \<noteq> None"
    using window_sub [OF assms(4)] by (simp add: ns1)
  then have "is_ok (wn_commit (we_ts_range E) (we_now E) (rm_nonce m) (rm_created_at m) (rm_timeout m) (ws_nonces s))"
    using assms(5) fresh by (simp add: wn_commit_accepts [OF c ns1(1)] ns1(2))
  then obtain ns where "wn_commit (we_ts_range E) (we_now E) (rm_nonce m) (rm_created_at m) (rm_timeout m) (ws_nonces s) = Inr ns"
    by (auto simp: is_ok_Ex)
  moreover obtain h where "rm_hash (we_sha3_256 E) (we_state_init E) m = Some h" using assms(7) by auto
  ultimately show ?thesis using assms(3,5,8,9) pk
    by (simp add: execute_signed_def is_signature_allowed_def access_def with_access_def execute_request_spec wr_emit_def wr_start_def)
qed

end
