(* ===== verification/SdkLaws.thy ===== *)
theory SdkLaws
  imports WalletSdk WalletRuns
begin

text \<open>
  The client and the contracts together: what the client signs is executed by the wallet it derived,
  what it signs off-chain is accepted by the resolver, and the derived storage determines the wallet.
\<close>

subsection \<open>The storage determines the wallet\<close>

definition deployable :: "'k wallet_state \<Rightarrow> bool" where
  "deployable s \<longleftrightarrow> fresh_wallet s \<and> finite (ws_extensions s) \<and> NANOS_PER_SEC dvd wn_timeout (ws_nonces s)"

definition storage_fields :: "'k wallet_state \<Rightarrow> bool \<times> nat \<times> 'k \<times> duration \<times> account_id list" where
  "storage_fields s = (ws_signature_enabled s, unat (ws_subwallet_id s), ws_public_key s, wn_timeout (ws_nonces s),
     sorted_list_of_set (ws_extensions s))"

lemma e_seq_assoc: "e_seq (e_seq a b) c = e_seq a (e_seq b c)"
  by (cases a; cases b; cases c) (simp_all add: e_seq_def)

lemma storage_fields_determine: "deployable s \<Longrightarrow> deployable s' \<Longrightarrow> storage_fields s = storage_fields s' \<Longrightarrow> s = s'"
proof -
  assume d: "deployable s" "deployable s'" and eq: "storage_fields s = storage_fields s'"
  then have "set (sorted_list_of_set (ws_extensions s)) = set (sorted_list_of_set (ws_extensions s'))" by (simp add: storage_fields_def)
  with d have "ws_extensions s = ws_extensions s'" by (simp add: deployable_def)
  moreover have "ws_nonces s = ws_nonces s'"
    using d eq by (intro wallet_nonces.equality) (auto simp: deployable_def fresh_wallet_def storage_fields_def)
  ultimately show "s = s'"
    using eq by (intro wallet_state.equality) (auto simp: storage_fields_def unsigned_word_eqI)
qed

lemma readable_wallet_state:
  assumes "readable (\<lambda>_. True) ek"
  shows "readable deployable (e_wallet_state ek)"
proof -
  have const: "readable (\<lambda>_ :: unit. True) (\<lambda>_. c)" for c by (auto simp: readable_def)
  let ?rest = "e_seq (e_timestamp_nanos 64 0) (e_seq (e_word_map []) (e_word_map []))"
  note R = readable_seq [OF readable_bool readable_seq [OF readable_uint [of 32] readable_seq [OF assms
      readable_seq [OF readable_duration [of 32 NANOS_PER_SEC] readable_seq [OF const [of ?rest] readable_vec [OF readable_account_id]]]]]]
  show ?thesis
  proof (rule readable_via [OF R, where g = "\<lambda>s. case storage_fields s of (a, b, c, d, e) \<Rightarrow> (a, b, c, d, (), e)"])
    fix s s' :: "'a wallet_state"
    assume "deployable s" "deployable s'"
      "(case storage_fields s of (a, b, c, d, e) \<Rightarrow> (a, b, c, d, (), e)) = (case storage_fields s' of (a, b, c, d, e) \<Rightarrow> (a, b, c, d, (), e))"
    then show "s = s'" by (intro storage_fields_determine) (auto split: prod.splits)
  qed (auto simp: storage_fields_def deployable_def fresh_wallet_def list_all_iff NANOS_PER_SEC_def e_wallet_state_def
      e_wallet_nonces_def e_seq_assoc)
qed

text \<open>
  C26: The address of a wallet is bound to its initial state. Two deployable states, with whole-second
  timeouts and unused nonces, that have the same storage (from which the deterministic account id is
  derived) are the same: same key, subwallet id, timeout, signature mode and extensions.
\<close>

theorem wallet_storage_determines_state:
  assumes "readable (\<lambda>_. True) ek" and "deployable s" and "deployable s'"
    and "as_storage ek s = Some dat" and "as_storage ek s' = Some dat"
  shows "s = s'"
  using readableD [OF readable_wallet_state [OF assms(1)] assms(2,3), of _ _ "[]" "[]"] assms(4,5)
  by (auto simp: as_storage_def)

subsection \<open>Requests\<close>

lemma sw_sign_Some:
  assumes "sw_sign signer T now args_json rq w = Some (w', m, sig)"
  shows "signer m = Some sig" and "rm_pay_for_gas m = False" and "rm_chain_id m = sw_chain_id w" and "rm_signer_id m = sw_account_id w"
    and "rm_created_at m = now - int (min BLOCKCHAIN_LAG (sw_timeout w div 5))" and "rm_timeout m = sw_timeout w"
    and "rm_request m = foldr (wrap_extension_call args_json) (sw_as_extension_chain w) rq"
  using assms by (auto simp: sw_sign_def wrap_request_msg_def bind_eq_Some_conv ts_sub_Some)

lemma built_state_simps [simp]:
  "ws_public_key (built_state pk b) = pk" "wn_timeout (ws_nonces (built_state pk b)) = wb_timeout b" "fresh_wallet (built_state pk b)"
  by (simp_all add: built_state_def ws_with_extensions_def ws_with_timeout_def ws_with_subwallet_id_def ws_new_def wn_new_def fresh_wallet_def)

text \<open>
  C22: What the client signs, the wallet executes. For a wallet deployed with the state the builder
  derived, at any time of its life while its signature mode allows it: a request signed by the client
  at its time \<open>tc\<close> and delivered while the block clock is at most a minute (or a fifth of the timeout)
  behind, and before the timeout has passed, with a nonce no executed message had, is executed, if the
  client is configured with the wallet's chain id and timeout, the message can be encoded, its
  operations apply and its promises do not go to the wallet itself.
\<close>

theorem sdk_request_executes:
  assumes "wallet_life S (sw_account_id w) (built_state pk b) log s" and "sw_timeout w = wb_timeout b"
    and "sw_sign signer T tc args_json rq w = Some (w', m, sig)" and "\<forall>m sig. signer m = Some sig \<longrightarrow> verify_request_msg S pk m sig"
    and "we_current E = sw_account_id w" and "we_chain_id E = sw_chain_id w" and "is_signature_allowed s"
    and "tc - int (min BLOCKCHAIN_LAG (wb_timeout b div 5)) \<le> we_now E"
    and "we_now E \<le> tc - int (min BLOCKCHAIN_LAG (wb_timeout b div 5)) + int (wb_timeout b)"
    and "window_in_range (we_ts_range E) (we_now E) (wb_timeout b)" and "rm_nonce m \<notin> fst ` commits log"
    and "rm_hash (we_sha3_256 E) (we_state_init E) m \<noteq> None"
    and "list_all (\<lambda>p. np_receiver_id p \<noteq> sw_account_id w) (rq_external (rm_request m))"
    and "ops_spec (rq_internal (rm_request m)) (access s) = Some x"
  shows "\<exists>r. execute_signed E S m sig s = Inr r \<and> access (wr_state r) = x"
proof -
  note sign = sw_sign_Some [OF assms(3)]
  have "may_call E S (ws_public_key (built_state pk b)) (wn_timeout (ws_nonces (built_state pk b))) (access s) (CallSigned m sig)"
    using sign assms(2,4-9) by (auto simp: is_signature_allowed_def access_def)
  from executes_signed [OF assms(1) _ assms(5) _ this assms(11-14)] assms(10) show ?thesis by simp
qed

subsection \<open>Off-chain messages\<close>

text \<open>Each account of the chain is, at the block \<open>h\<close>, an enabled extension of the wallet that follows it.\<close>

fun linked :: "'k wallet_world \<Rightarrow> byte list \<Rightarrow> account_id list \<Rightarrow> bool" where
  "linked W h (a # b # cs) \<longleftrightarrow> (case ww_wallet W h b of None \<Rightarrow> False | Some (S, s) \<Rightarrow> has_extension a s) \<and> linked W h (b # cs)"
| "linked W h _ \<longleftrightarrow> True"

lemma linked_snoc:
  "linked W h (xs @ [b, c]) \<longleftrightarrow> linked W h (xs @ [b]) \<and> (case ww_wallet W h c of None \<Rightarrow> False | Some (S, s) \<Rightarrow> has_extension b s)"
proof (induction xs)
  case (Cons x xs)
  then show ?case by (cases xs) auto
qed auto

text \<open>What the client relies on: the JSON of an authorization is read back, and not as an access key's.\<close>

definition blobs_ok :: "rpc_resolver \<Rightarrow> wallet_env \<Rightarrow> (wallet_authorization \<Rightarrow> string) \<Rightarrow> bool" where
  "blobs_ok R E to_blob \<longleftrightarrow> (\<forall>x. we_from_json E (to_blob x) = Some x \<and> rpc_access_key_json (rv_client R) (to_blob x) = None)"

text \<open>
  The node is up: asked for the final block, or for the block \<open>h\<close> of height \<open>n\<close>, it answers with what the
  wallets answer at \<open>h\<close>.
\<close>

definition resolves_at :: "byte list \<Rightarrow> nat \<Rightarrow> block_reference \<Rightarrow> bool" where
  "resolves_at h n block \<longleftrightarrow> block = AtFinality \<or> block = AtHash h \<or> block = AtHeight n"

definition answers_at :: "rpc_client \<Rightarrow> 'k wallet_world \<Rightarrow> byte list \<Rightarrow> nat \<Rightarrow> bool" where
  "answers_at client W h n \<longleftrightarrow> (\<forall>a path auth block res.
     wallet_answer W h a path auth = Some (Inr res) \<and> resolves_at h n block \<longrightarrow>
     rpc_w_resolve_auth client a path auth block = Inr (Some res, h, n))"

lemma resolve_single_blob:
  assumes "answers_at (rv_client R) W h n" and "blobs_ok R (ww_env W h) to_blob" and "resolves_at h n (tk_block t)"
    and "tk_authorization t = to_blob x" and "ww_wallet W h (tk_account_id t) = Some (S, s)"
    and "resolve_auth ((ww_env W h)\<lparr>we_current := tk_account_id t\<rparr>) S (rev (tk_rev_path t)) (to_blob x) s = Inr res"
    and "\<forall>p. tk_expect t = Some p \<longrightarrow> ar_payload res = p"
  shows "resolve_single R t = Inr \<lparr> rd_res = res, rd_block_hash = h, rd_block_height = n \<rparr>"
proof -
  have "resolve_access_key R (tk_account_id t) (tk_rev_path t) (tk_authorization t) (tk_block t) = Inl JsonErr"
    using assms(2,4) by (simp add: resolve_access_key_def blobs_ok_def)
  moreover have "resolve_contract R (tk_account_id t) (tk_rev_path t) (tk_authorization t) (tk_block t) =
      Inr \<lparr> rd_res = res, rd_block_hash = h, rd_block_height = n \<rparr>"
    using assms(1,3-6) by (simp add: resolve_contract_def answers_at_def wallet_answer_def)
  ultimately show ?thesis
    using assms(3,7) by (auto simp: resolve_single_def do_resolve_single_def or_r_def resolves_at_def split: option.splits)
qed

lemma wrapped_payload: "wa_payload (foldl (wa_as_extension_of to_blob) x ids) = wa_payload x"
  by (induction ids rule: rev_induct) (simp_all add: wa_as_extension_of_def)

lemma chain_resolves:
  assumes node: "answers_at (rv_client R) W h n" and blobs: "blobs_ok R (ww_env W h) to_blob"
    and wallet: "ww_wallet W h (om_signer_id m) = Some (S, s)" "is_signature_allowed s" "verify_offchain_msg S (ws_public_key s) m sig"
    and msg: "om_chain_id m = we_chain_id (ww_env W h)" "om_timestamp m \<le> we_now (ww_env W h)"
  shows "linked W h (ids @ [tk_account_id t]) \<Longrightarrow> tk_authorization t = to_blob (foldl (wa_as_extension_of to_blob) (ViaSignature m sig) ids) \<Longrightarrow>
    hd (ids @ [tk_account_id t]) = om_signer_id m \<Longrightarrow> om_path m = tl (ids @ [tk_account_id t]) @ rev (tk_rev_path t) \<Longrightarrow>
    resolves_at h n (tk_block t) \<Longrightarrow> \<forall>p. tk_expect t = Some p \<longrightarrow> om_payload m = p \<Longrightarrow> length ids \<le> d \<Longrightarrow>
    \<exists>r. resolve_single R t = Inr r \<and> ar_payload (rd_res r) = om_payload m \<and> rd_block_hash r = h \<and>
      tree_size R h d t = Some (length ids)"
proof (induction ids arbitrary: t d rule: rev_induct)
  case Nil
  have "ww_wallet W h (tk_account_id t) = Some (S, s)" using wallet(1) Nil.prems(3) by simp
  moreover have "resolve_auth ((ww_env W h)\<lparr>we_current := tk_account_id t\<rparr>) S (rev (tk_rev_path t)) (to_blob (ViaSignature m sig)) s =
      Inr (ar_new (om_payload m))"
    using wallet(2,3) msg Nil.prems(3,4) blobs by (simp add: resolve_auth_def blobs_ok_def)
  ultimately show ?case using resolve_single_blob [OF node blobs Nil.prems(5)] Nil.prems(2,6)
    by (simp add: ar_new_def tree_size.simps)
next
  case (snoc b ids)
  let ?x = "foldl (wa_as_extension_of to_blob) (ViaSignature m sig) ids" and ?a = "tk_account_id t"
  let ?q = "\<lparr> pa_account_id = b, pa_authorization = to_blob ?x, pa_expect = om_payload m \<rparr>"
  obtain S' s' where s: "ww_wallet W h ?a = Some (S', s')" and ext: "has_extension b s'" and link: "linked W h (ids @ [b])"
    using snoc.prems(1) by (auto simp: linked_snoc split: option.splits)
  have au: "tk_authorization t = to_blob (ViaExtension b (to_blob ?x) (om_payload m))"
    using snoc.prems(2) wrapped_payload [of to_blob "ViaSignature m sig" ids] by (simp add: wa_as_extension_of_def [of to_blob ?x])
  have "resolve_auth ((ww_env W h)\<lparr>we_current := ?a\<rparr>) S' (rev (tk_rev_path t)) (to_blob (ViaExtension b (to_blob ?x) (om_payload m))) s' =
      Inr \<lparr> ar_payload = om_payload m, ar_pending = [?q] \<rparr>"
    using ext blobs by (simp add: resolve_auth_def blobs_ok_def check_extension_enabled_def ar_new_def ar_add_pending_def)
  from resolve_single_blob [OF node blobs snoc.prems(5) au s this] snoc.prems(6)
  have res: "resolve_single R t = Inr \<lparr> rd_res = \<lparr> ar_payload = om_payload m, ar_pending = [?q] \<rparr>, rd_block_hash = h,
      rd_block_height = n \<rparr>" by simp
  obtain d' where d: "d = Suc d'" "length ids \<le> d'" using snoc.prems(7) by (cases d) auto
  have "tl (ids @ [b]) @ [?a] = tl (ids @ [b, ?a])" by (cases ids) simp_all
  moreover have "hd (ids @ [b]) = om_signer_id m" using snoc.prems(3) by (cases ids) simp_all
  ultimately have "tree_size R h d' (hd (sub_tasks t h [?q])) = Some (length ids)"
    using snoc.IH [of "hd (sub_tasks t h [?q])" d'] link snoc.prems(4) d(2) by (auto simp: sub_tasks_def resolves_at_def)
  then have "tree_size R h d t = Some (length (ids @ [b]))"
    unfolding d(1) tree_size.simps [of R h "Suc d'" t] res by (simp add: sub_tasks_def)
  then show ?case using res by simp
qed

lemma sign_offchain_msg_Some:
  assumes "sign_offchain_msg signer to_blob T now payload path w = Some auth"
  obtains m sig where "signer m = Some sig" "auth = wrap_offchain_msg to_blob m sig w" "om_chain_id m = sw_chain_id w"
    "om_signer_id m = sw_account_id w" "om_path m = sw_as_extension_chain w @ path" "om_payload m = payload"
    "om_timestamp m = now - int BLOCKCHAIN_LAG"
  using assms by (auto simp: sign_offchain_msg_def Let_def bind_eq_Some_conv ts_sub_Some split: if_splits)

text \<open>
  C23: What the client signs off-chain, the resolver accepts. The client's signer may sign any message,
  with the key of the client's wallet, whose signature mode must allow it. A payload that the client signs
  at its time \<open>now\<close> for its effective account, through any chain of wallets each of which has the previous
  one enabled as an extension, resolves to that payload at the effective account: however the pending
  sub-authorizations are scheduled, the resolver can always finish with this payload and with nothing
  else, if its limits allow as many of them as the chain is long, the node answers for the wallets, the
  client is configured with the chain's id and its clock is at most a minute ahead of the block.
\<close>

theorem sdk_authorization_resolves:
  assumes "answers_at (rv_client R) W h n" and "blobs_ok R (ww_env W h) to_blob" and "resolves_at h n (rv_at_block R)"
    and "sign_offchain_msg signer to_blob T now payload [] w = Some auth"
    and "ww_wallet W h (sw_account_id w) = Some (S, s)" and "is_signature_allowed s"
    and "\<forall>m sig. signer m = Some sig \<longrightarrow> verify_offchain_msg S (ws_public_key s) m sig"
    and "sw_chain_id w = we_chain_id (ww_env W h)" and "now \<le> we_now (ww_env W h) + int BLOCKCHAIN_LAG"
    and "linked W h (sw_account_id w # sw_as_extension_chain w)"
    and "length (sw_as_extension_chain w) \<le> rv_max_depth R" and "length (sw_as_extension_chain w) \<le> rv_max_sub_auths R"
    and "rv_max_sub_auths R < u_max 64" and "(resolve_step R)\<^sup>*\<^sup>* (resolve_start R (effective_account_id w) auth) st"
  shows "(resolve_step R)\<^sup>*\<^sup>* st (Finished (Inr payload)) \<and> (\<forall>r. (resolve_step R)\<^sup>*\<^sup>* st (Finished r) \<longrightarrow> r = Inr payload)"
proof -
  let ?c = "sw_as_extension_chain w" and ?ids = "take (length (sw_as_extension_chain w)) (sw_account_id w # sw_as_extension_chain w)"
  let ?t = "top_task R (effective_account_id w) auth"
  obtain m sig where sig: "signer m = Some sig" and auth: "auth = wrap_offchain_msg to_blob m sig w"
    and m: "om_chain_id m = sw_chain_id w" "om_signer_id m = sw_account_id w" "om_path m = ?c @ []" "om_payload m = payload"
      "om_timestamp m = now - int BLOCKCHAIN_LAG"
    using assms(4) by (rule sign_offchain_msg_Some)
  have chain: "?ids @ [effective_account_id w] = sw_account_id w # ?c"
    by (cases ?c rule: rev_cases) (simp_all add: effective_account_id_def)
  have "\<exists>r. resolve_single R ?t = Inr r \<and> ar_payload (rd_res r) = om_payload m \<and> rd_block_hash r = h \<and>
      tree_size R h (rv_max_depth R) ?t = Some (length ?ids)"
    by (rule chain_resolves [OF assms(1,2), where sig = sig])
      (use assms(3,5-11) sig m chain in \<open>auto simp: top_task_def auth wrap_offchain_msg_def\<close>)
  then have "tree_accepts R (effective_account_id w) auth payload"
    using assms(12) m(4) by (auto simp: tree_accepts_def size_of_def top_task_def)
  then have "r = Inr payload" if "(resolve_step R)\<^sup>*\<^sup>* st (Finished r)" for r
    using tree_accepts_of_steps [OF assms(13)] rtranclp_trans [OF assms(14) that] by blast
  then show ?thesis using start_reaches_finish [OF assms(13,14)] by blast
qed

end
