(* ===== verification/WalletSchemas.thy ===== *)
theory WalletSchemas
  imports WalletRuns SignedMessages
begin

text \<open>
  The variants of the wallet (\<open>contracts/wallet/signatures\<close>): the signature schemas of the Ed25519, the
  WebAuthn and the no-sign wallet, the signer of the first (\<open>ed25519/src/signer.rs\<close>), and the
  initialization of the last (\<open>no-sign/src/contract.rs\<close>). A message that cannot be serialized panics in
  its hash; the schemas then do not accept it.
\<close>

subsection \<open>Ed25519\<close>

definition ed25519_verify_hash :: "curves \<Rightarrow> base58 \<Rightarrow> byte list \<Rightarrow> byte list \<Rightarrow> string \<Rightarrow> bool" where
  "ed25519_verify_hash K B pk hash sig =
     (case parse_base58 B CurveEd25519 64 sig of
        Inl _ \<Rightarrow> False
      | Inr signature \<Rightarrow> if \<not> ed25519_is_key K pk then False else ed25519_verify K pk hash signature)"

definition wallet_ed25519 :: "curves \<Rightarrow> base58 \<Rightarrow> (byte list \<Rightarrow> byte list) \<Rightarrow> state_init_v1 encoder \<Rightarrow> byte list signature_schema" where
  "wallet_ed25519 K B sha3 es = \<lparr>
     verify_request_msg = (\<lambda>pk m sig. case rm_hash sha3 es m of None \<Rightarrow> False | Some h \<Rightarrow> ed25519_verify_hash K B pk h sig),
     verify_offchain_msg = (\<lambda>pk m sig. case om_hash sha3 m of None \<Rightarrow> False | Some h \<Rightarrow> ed25519_verify_hash K B pk h sig) \<rparr>"

text \<open>The signer: \<open>sign\<close> is the signing primitive of the key.\<close>

definition sign_hash :: "base58 \<Rightarrow> (byte list \<Rightarrow> byte list option) \<Rightarrow> byte list \<Rightarrow> string option" where
  "sign_hash B sign hash = map_option (to_base58 B CurveEd25519) (sign hash)"

definition sign_request_msg ::
  "base58 \<Rightarrow> (byte list \<Rightarrow> byte list option) \<Rightarrow> (byte list \<Rightarrow> byte list) \<Rightarrow> state_init_v1 encoder \<Rightarrow> request_message \<Rightarrow> string option" where
  "sign_request_msg B sign sha3 es m = Option.bind (rm_hash sha3 es m) (sign_hash B sign)"

definition sign_offchain_msg_hash ::
  "base58 \<Rightarrow> (byte list \<Rightarrow> byte list option) \<Rightarrow> (byte list \<Rightarrow> byte list) \<Rightarrow> offchain_message \<Rightarrow> string option" where
  "sign_offchain_msg_hash B sign sha3 m = Option.bind (om_hash sha3 m) (sign_hash B sign)"

text \<open>What the signing primitive promises for the key \<open>pk\<close>.\<close>

definition signs_for :: "curves \<Rightarrow> (byte list \<Rightarrow> byte list option) \<Rightarrow> byte list \<Rightarrow> bool" where
  "signs_for K sign pk \<longleftrightarrow> ed25519_is_key K pk \<and> (\<forall>h sig. sign h = Some sig \<longrightarrow> length sig = 64 \<and> ed25519_verify K pk h sig)"

lemma signed_hash_verifies:
  assumes "base58_ok B" and "signs_for K sign pk" and "sign_hash B sign h = Some sig"
  shows "ed25519_verify_hash K B pk h sig"
  using assms by (auto simp: sign_hash_def ed25519_verify_hash_def signs_for_def parse_base58_round_trip)

text \<open>
  The signer and the schema of the Ed25519 wallet agree: whatever message the signer signs, request
  or off-chain, the schema verifies under its key; and a signature that the schema verifies for a
  message is one that the curve accepts over the hash of exactly that message.
\<close>

theorem ed25519_signer_verifies:
  assumes "base58_ok B" and "signs_for K sign pk"
  shows "(sign_request_msg B sign sha3 es m = Some sig \<longrightarrow> verify_request_msg (wallet_ed25519 K B sha3 es) pk m sig) \<and>
    (sign_offchain_msg_hash B sign sha3 n = Some sig \<longrightarrow> verify_offchain_msg (wallet_ed25519 K B sha3 es) pk n sig) \<and>
    (verify_request_msg (wallet_ed25519 K B sha3 es) k m sig \<longrightarrow>
      (\<exists>h bytes. rm_hash sha3 es m = Some h \<and> ed25519_primitive K k h bytes \<and> \<not> ed25519_is_weak K k \<and> length bytes = 64))"
proof -
  have len: "parse_base58 B CurveEd25519 64 sig = Inr bytes \<Longrightarrow> length bytes = 64" for bytes
    by (auto simp: parse_base58_def result_simps dest: decode_length split: option.splits prod.splits)
  show ?thesis
    using signed_hash_verifies [OF assms] len
    by (auto simp: sign_request_msg_def sign_offchain_msg_hash_def wallet_ed25519_def bind_eq_Some_conv ed25519_verify_hash_def ed25519_verify_def
        split: option.splits sum.splits if_splits)
qed

subsection \<open>WebAuthn\<close>

record webauthn_proof =
  wp_assertion :: webauthn_assertion
  wp_signature :: "byte list"

record webauthn_env =
  wv_codecs :: codecs
  wv_curves :: curves
  wv_client_data :: "string \<Rightarrow> collected_client_data option"
  wv_proof :: "string \<Rightarrow> webauthn_proof option"
  wv_p256_decompress :: "byte list \<Rightarrow> byte list option"

fun webauthn_key :: "webauthn_env \<Rightarrow> webauthn_algorithm \<Rightarrow> byte list \<Rightarrow> byte list option" where
  "webauthn_key V AlgEd25519 pk = (if ed25519_is_key (wv_curves V) pk then Some pk else None)"
| "webauthn_key V AlgP256 pk = wv_p256_decompress V pk"

fun webauthn_signature :: "webauthn_env \<Rightarrow> webauthn_algorithm \<Rightarrow> byte list \<Rightarrow> byte list option" where
  "webauthn_signature V AlgEd25519 sig = Some sig"
| "webauthn_signature V AlgP256 sig = (if p256_is_signature (wv_curves V) sig then Some sig else None)"

definition webauthn_verify_hash :: "webauthn_env \<Rightarrow> webauthn_algorithm \<Rightarrow> bool \<Rightarrow> byte list \<Rightarrow> byte list \<Rightarrow> string \<Rightarrow> bool" where
  "webauthn_verify_hash V alg uv pk hash sig =
     (case webauthn_key V alg pk of
        None \<Rightarrow> False
      | Some key \<Rightarrow> (case wv_proof V sig of
          None \<Rightarrow> False
        | Some p \<Rightarrow> (case webauthn_signature V alg (wp_signature p) of
            None \<Rightarrow> False
          | Some signature \<Rightarrow>
              webauthn_verify (wv_codecs V) (wv_curves V) (wv_client_data V) alg uv key hash (wp_assertion p) signature)))"

definition wallet_webauthn ::
  "webauthn_env \<Rightarrow> webauthn_algorithm \<Rightarrow> bool \<Rightarrow> (byte list \<Rightarrow> byte list) \<Rightarrow> state_init_v1 encoder \<Rightarrow> byte list signature_schema" where
  "wallet_webauthn V alg uv sha3 es = \<lparr>
     verify_request_msg = (\<lambda>pk m sig. case rm_hash sha3 es m of None \<Rightarrow> False | Some h \<Rightarrow> webauthn_verify_hash V alg uv pk h sig),
     verify_offchain_msg = (\<lambda>pk m sig. case om_hash sha3 m of None \<Rightarrow> False | Some h \<Rightarrow> webauthn_verify_hash V alg uv pk h sig) \<rparr>"

text \<open>A passkey signs for one message: the assertion's challenge is the hash.\<close>

lemma webauthn_challenge:
  assumes "verify_request_msg (wallet_webauthn V alg uv sha3 es) pk m sig"
  obtains h p c where "rm_hash sha3 es m = Some h" "wv_proof V sig = Some p"
    "wv_client_data V (wa_client_data_json (wp_assertion p)) = Some c" "cd_type c = WebauthnGet" "cd_challenge c = h"
    "bit (wa_authenticator_data (wp_assertion p) ! 32) 0"
  using assms that
  by (auto simp: wallet_webauthn_def webauthn_verify_hash_def webauthn_verify_def webauthn_check_def check_flags_spec
      split: option.splits if_splits)

subsection \<open>No signatures\<close>

definition no_sign :: "unit signature_schema" where
  "no_sign = \<lparr> verify_request_msg = (\<lambda>_ _ _. False), verify_offchain_msg = (\<lambda>_ _ _. False) \<rparr>"

definition no_public_key_from_str :: "string \<Rightarrow> unit option" where
  "no_public_key_from_str s = (if s = [] then Some () else None)"

text \<open>The macro's checks for a private initializer come first.\<close>

definition w_init :: "wallet_env \<Rightarrow> bool \<Rightarrow> wallet_error + unit wallet_state" where
  "w_init E already_initialized =
     bind_r (require_r (we_predecessor E = we_current E) (WalletPanic ''Method w_init is private'')) (\<lambda>_.
     bind_r (require_r (\<not> already_initialized) (WalletPanic ''The contract has already been initialized'')) (\<lambda>_.
     bind_r (require_r (we_attached_deposit E \<noteq> 0) InsufficientDeposit) (\<lambda>_.
     Inr ((ws_with_extensions [we_current E] (ws_new ()))\<lparr>ws_signature_enabled := False\<rparr>))))"

lemma no_sign_never_signs: "\<not> may_call E no_sign pk T x (CallSigned m sig)"
  by (simp add: no_sign_def)

lemma w_init_Inr:
  assumes "w_init E init = Inr s"
  shows "access s = (False, {we_current E})" and "fresh_wallet s" and "wn_timeout (ws_nonces s) = DEFAULT_TIMEOUT"
  using assms by (auto simp: w_init_def result_simps access_def ws_with_extensions_def ws_new_def wn_new_def fresh_wallet_def)

text \<open>
  A no-sign wallet acts for its extensions only: over its whole life from its initialization, every
  executed call comes, with a deposit, from an account that the events up to then left enabled as an
  extension, starting from the wallet's own account.
\<close>

theorem no_sign_acts_for_extensions:
  assumes "w_init E0 init = Inr s0" and "wallet_life no_sign (we_current E0) s0 (l1 @ (E, c, r) # l2) s"
  shows "(\<exists>rq. c = CallExtension rq) \<and> 0 < we_attached_deposit E \<and>
    we_predecessor E \<in> snd (fold apply_event (log_events l1) (False, {we_current E0}))"
  using life_authority [OF assms(2) w_init_Inr(2) [OF assms(1)]] w_init_Inr(1) [OF assms(1)]
  by (cases c) (auto simp: no_sign_def)

text \<open>Without extensions nothing can be called: the schema accepts no signature.\<close>

lemma no_sign_dead: "ws_extensions s = {} \<Longrightarrow> \<not> is_ok (do_call E no_sign c s)"
  by (cases c) (auto simp: is_ok_Ex execute_signed_def execute_extension_def result_simps Let_def no_sign_def
      check_extension_enabled_def has_extension_def)

text \<open>
  C27: The lockout check does not protect a no-sign wallet. Its extension, the wallet's own account, can
  turn the signature mode on and then remove itself in one request, which the wallet executes; after
  that no call ever succeeds.
\<close>

theorem no_sign_can_lock_out:
  assumes "w_init E0 init = Inr s0" and "we_predecessor E = we_current E0" and "0 < we_attached_deposit E"
    and "window_in_range (we_ts_range E) (we_now E) DEFAULT_TIMEOUT"
  shows "\<exists>r. execute_extension E \<lparr> rq_internal = [SetSignatureMode True, RemoveExtension (we_current E0)], rq_external = [] \<rparr> s0 = Inr r \<and>
    (\<forall>E' c. \<not> is_ok (do_call E' no_sign c (wr_state r)))"
proof -
  note s0 = w_init_Inr [OF assms(1)]
  obtain ns where ns: "check_cleanup (we_ts_range E) (we_now E) (ws_nonces s0) = Inr ns"
    using check_cleanup_total [of "we_ts_range E" "we_now E" "ws_nonces s0"] assms(4) s0(3) by auto
  let ?rq = "\<lparr> rq_internal = [SetSignatureMode True, RemoveExtension (we_current E0)], rq_external = [] \<rparr>"
  have acc: "ws_signature_enabled s0 = False" "ws_extensions s0 = {we_current E0}" using s0(1) by (simp_all add: access_def)
  then have "execute_extension E ?rq s0 = Inr \<lparr> wr_state = with_access (True, {}) (s0\<lparr>ws_nonces := ns\<rparr>),
      wr_events = map (op_event (ByExtension (we_predecessor E))) (rq_internal ?rq), wr_promises = [] \<rparr>"
    using assms(2,3) ns by (simp add: execute_extension_def check_extension_enabled_def has_extension_def execute_request_spec wr_start_def
        access_def ops_spec_def)
  moreover have "ws_extensions (with_access (True, {}) (s0\<lparr>ws_nonces := ns\<rparr>)) = {}" by (simp add: with_access_def)
  ultimately show ?thesis using no_sign_dead by (metis wallet_run.select_convs(1))
qed

end
