(* ===== verification/WalletSamples.thy ===== *)
theory WalletSamples
  imports SdkLaws WalletSchemas Evaluation
begin

text \<open>
  A wallet, its client and a resolver on which the theorems about them are applied. The hash, the
  schema, JSON and the encoding of state inits are simple functions that satisfy what is required.
\<close>

subsection \<open>A readable encoding of state inits\<close>

fun sample_code :: "global_contract_id encoder" where
  "sample_code (CodeHash b) = e_seq (e_uint 8 0) (e_vec e_byte b)"
| "sample_code (GlobalAccountId a) = e_seq (e_uint 8 1) (e_string a)"

definition sample_es :: "state_init_v1 encoder" where
  "sample_es si = e_seq (sample_code (si_code si)) (e_vec (\<lambda>p. e_seq (e_vec e_byte (fst p)) (e_vec e_byte (snd p))) (si_data si))"

lemma readable_bytes: "readable (\<lambda>_. True) (e_vec e_byte)"
  by (rule readable_mono [OF readable_vec [OF readable_byte]]) (simp add: list_all_iff)

lemma readable_sample_code: "readable (\<lambda>_. True) sample_code"
proof (rule readableI)
  fix x y a b r s assume enc: "sample_code x = Some a" "sample_code y = Some b" "a @ r = b @ s"
  show "x = y \<and> r = s"
  proof (cases x)
    case (CodeHash u)
    then obtain v where y: "y = CodeHash v" using enc(1,2) by (cases y) (auto dest: tag_read [OF _ _ enc(3)])
    show ?thesis using tag_readable [OF readable_bytes, of 0 u a v b r s] enc by (simp add: CodeHash y)
  next
    case (GlobalAccountId u)
    then obtain v where y: "y = GlobalAccountId v" using enc(1,2) by (cases y) (auto dest: tag_read [OF _ _ enc(3)])
    show ?thesis using tag_readable [OF readable_string, of 1 u a v b r s] enc by (simp add: GlobalAccountId y)
  qed
qed

lemma readable_sample_es: "readable (\<lambda>_. True) sample_es"
  by (rule readable_via [OF readable_seq [OF readable_sample_code readable_vec [OF readable_seq [OF readable_bytes readable_bytes]]],
        where g = "\<lambda>si. (si_code si, si_data si)"]) (simp_all add: sample_es_def list_all_iff)

subsection \<open>A reversible text form of authorizations\<close>

fun enc_str :: "string \<Rightarrow> string" where
  "enc_str [] = ''0''"
| "enc_str (c # s) = CHR ''1'' # c # enc_str s"

fun dec_str :: "string \<Rightarrow> (string \<times> string) option" where
  "dec_str (b # r) = (if b = CHR ''0'' then Some ([], r)
     else case r of [] \<Rightarrow> None | c # r' \<Rightarrow> map_option (\<lambda>(s, r''). (c # s, r'')) (dec_str r'))"
| "dec_str [] = None"

fun enc_strs :: "string list \<Rightarrow> string" where
  "enc_strs [] = ''0''"
| "enc_strs (x # xs) = CHR ''1'' # enc_str x @ enc_strs xs"

fun dec_strs :: "nat \<Rightarrow> string \<Rightarrow> (string list \<times> string) option" where
  "dec_strs 0 s = None"
| "dec_strs (Suc n) s = (case s of
     [] \<Rightarrow> None
   | b # r \<Rightarrow> if b = CHR ''0'' then Some ([], r)
       else Option.bind (dec_str r) (\<lambda>(x, r'). map_option (\<lambda>(xs, r''). (x # xs, r'')) (dec_strs n r')))"

definition from_digits :: "string \<Rightarrow> nat" where
  "from_digits s = foldl (\<lambda>a c. a * 10 + (of_char c - 48)) 0 s"

definition enc_int :: "int \<Rightarrow> string" where
  "enc_int i = (if i < 0 then CHR ''-'' else CHR ''+'') # digits (nat \<bar>i\<bar>)"

definition dec_int :: "string \<Rightarrow> int" where
  "dec_int s = (if hd s = CHR ''-'' then - int (from_digits (tl s)) else int (from_digits (tl s)))"

fun blob_fields :: "wallet_authorization \<Rightarrow> string list" where
  "blob_fields (ViaSignature m sig) = ''signature'' # sig # om_chain_id m # om_signer_id m # om_payload m # enc_int (om_timestamp m) # om_path m"
| "blob_fields (ViaExtension a auth p) = [''extension'', a, auth, p]"

definition sample_blob :: "wallet_authorization \<Rightarrow> string" where
  "sample_blob x = enc_strs (blob_fields x)"

definition fields_blob :: "string list \<Rightarrow> wallet_authorization option" where
  "fields_blob xs = (case xs of
     tag # a # b # c # rest \<Rightarrow>
       (if tag = ''extension'' then (if rest = [] then Some (ViaExtension a b c) else None)
        else case rest of p # t # path \<Rightarrow>
          Some (ViaSignature \<lparr> om_chain_id = b, om_signer_id = c, om_path = path, om_timestamp = dec_int t, om_payload = p \<rparr> a)
        | _ \<Rightarrow> None)
   | _ \<Rightarrow> None)"

definition sample_json :: "string \<Rightarrow> wallet_authorization option" where
  "sample_json s = Option.bind (dec_strs (Suc (length s)) s) (\<lambda>(xs, _). fields_blob xs)"

lemma dec_enc_str: "dec_str (enc_str s @ r) = Some (s, r)"
  by (induction s) simp_all

lemma dec_enc_strs: "length xs < n \<Longrightarrow> dec_strs n (enc_strs xs @ r) = Some (xs, r)"
proof (induction xs arbitrary: n)
  case (Cons x xs)
  then show ?case by (cases n) (simp_all add: dec_enc_str)
qed (case_tac n; simp)

lemma length_enc_strs: "length xs < length (enc_strs xs)"
  by (induction xs) simp_all

lemma from_digits_digits: "from_digits (digits n) = n"
proof (induction n rule: digits.induct)
  case (1 n)
  then show ?case by (subst digits.simps) (auto simp: from_digits_def of_char_of)
qed

lemma sample_json_blob: "sample_json (sample_blob x) = Some x"
proof -
  have "dec_int (enc_int i) = i" for i by (simp add: dec_int_def enc_int_def from_digits_digits)
  then have "fields_blob (blob_fields x) = Some x" by (cases x) (simp_all add: fields_blob_def)
  then show ?thesis
    using dec_enc_strs [of "blob_fields x" "Suc (length (sample_blob x))" "[]"] length_enc_strs [of "blob_fields x"]
    by (simp add: sample_json_def sample_blob_def)
qed

subsection \<open>A wallet and its life\<close>

definition sample_range :: ts_range where
  "sample_range = \<lparr> ts_min = - (10 ^ 20), ts_max = 10 ^ 20 \<rparr>"

definition sample_schema :: "byte list signature_schema" where
  "sample_schema = \<lparr> verify_request_msg = (\<lambda>_ _ sig. sig = ''ok''), verify_offchain_msg = (\<lambda>_ _ sig. sig = ''ok'') \<rparr>"

definition seconds :: "int \<Rightarrow> int" where
  "seconds n = n * 1000000000"

definition sample_env :: "int \<Rightarrow> wallet_env" where
  "sample_env t = \<lparr> we_chain_id = MAINNET, we_current = ''w'', we_predecessor = ''ext'', we_attached_deposit = 1, we_now = seconds t,
     we_ts_range = sample_range, we_sha3_256 = take 32, we_state_init = sample_es, we_from_json = sample_json \<rparr>"

definition sample_promise :: near_promise where
  "sample_promise = np_transfer 5 (np_new ''bob'')"

definition sample_msg :: "32 word \<Rightarrow> int \<Rightarrow> wallet_op list \<Rightarrow> request_message" where
  "sample_msg n t ops = \<lparr> rm_pay_for_gas = False, rm_chain_id = MAINNET, rm_signer_id = ''w'', rm_nonce = n, rm_created_at = seconds t,
     rm_timeout = from_secs_dur 600, rm_request = \<lparr> rq_internal = ops, rq_external = [sample_promise] \<rparr> \<rparr>"

definition sample_wallet :: "byte list wallet_state" where
  "sample_wallet = built_state [1, 2, 3] wb_new"

text \<open>A signed request adds an extension, the extension switches signatures off and on again, and the nonce is used anew.\<close>

definition wallet_calls :: "(wallet_env \<times> wallet_call) list" where
  "wallet_calls =
     [(sample_env 10000, CallSigned (sample_msg 7 9990 [AddExtension ''ext'']) ''ok''),
      (sample_env 10001, CallExtension \<lparr> rq_internal = [SetSignatureMode False, SetSignatureMode True], rq_external = [] \<rparr>),
      (sample_env 20000, CallSigned (sample_msg 7 19900 [RemoveExtension ''ext'']) ''ok'')]"

fun live :: "'k signature_schema \<Rightarrow> (wallet_env \<times> wallet_call) list \<Rightarrow> 'k entry list \<Rightarrow> 'k wallet_state \<Rightarrow> ('k entry list \<times> 'k wallet_state) option" where
  "live S [] log s = Some (log, s)"
| "live S ((E, c) # xs) log s = (if clock log \<le> we_now E then
     (case do_call E S c s of Inl _ \<Rightarrow> None | Inr r \<Rightarrow> live S xs (log @ [(E, c, r)]) (wr_state r)) else None)"

lemma live_life:
  "live S xs log s = Some (log', s') \<Longrightarrow> wallet_life S self s0 log s \<Longrightarrow> \<forall>(E, c) \<in> set xs. we_current E = self \<Longrightarrow> wallet_life S self s0 log' s'"
proof (induction xs arbitrary: log s)
  case (Cons x xs)
  obtain E c where x: "x = (E, c)" by (cases x)
  show ?case
  proof (cases "do_call E S c s")
    case (Inr r)
    with Cons x have "wallet_life S self s0 (log @ [(E, c, r)]) (wr_state r)"
      by (intro wallet_life.called) (auto split: if_splits)
    with Cons x Inr show ?thesis by (auto split: if_splits)
  qed (use Cons x in \<open>auto split: if_splits\<close>)
qed simp

definition sample_life :: "byte list entry list \<times> byte list wallet_state" where
  "sample_life = (case live sample_schema wallet_calls [] sample_wallet of None \<Rightarrow> ([], sample_wallet) | Some x \<Rightarrow> x)"

lemma sample_live: "live sample_schema wallet_calls [] sample_wallet = Some sample_life"
proof -
  have "live sample_schema wallet_calls [] sample_wallet \<noteq> None" by code_simp
  then show ?thesis by (auto simp: sample_life_def)
qed

lemma sample_life: "wallet_life sample_schema ''w'' sample_wallet (fst sample_life) (snd sample_life)"
proof (rule live_life [OF _ wallet_life.deployed])
  show "live sample_schema wallet_calls [] sample_wallet = Some (fst sample_life, snd sample_life)" by (simp add: sample_live)
  show "\<forall>(E, c) \<in> set wallet_calls. we_current E = ''w''" by (simp add: wallet_calls_def sample_env_def)
qed

lemma sample_fresh: "fresh_wallet sample_wallet"
  by (simp add: sample_wallet_def)

lemma sample_log: "map (\<lambda>(t, m). (t, rm_nonce m, rm_created_at m)) (executions (fst sample_life)) =
    [(seconds 10000, 7, seconds 9990), (seconds 20000, 7, seconds 19900)] \<and> access (snd sample_life) = (True, {})"
  by code_simp

theorem wallet_no_replay_witness:
  "wallet_life sample_schema ''w'' sample_wallet (fst sample_life) (snd sample_life) \<and> fresh_wallet sample_wallet \<and>
   length (executions (fst sample_life)) = 2 \<and> distinct (map (\<lambda>(t, m). (rm_nonce m, rm_created_at m)) (executions (fst sample_life)))"
  using wallet_no_replay [OF sample_life sample_fresh] sample_life sample_fresh arg_cong [OF conjunct1 [OF sample_log], of length] by simp

end
