(* ===== verification/ResolverSamples.thy ===== *)
theory ResolverSamples
  imports WalletSamples
begin

text \<open>More examples: the authority and the lockout of the wallet, its storage and its messages, the client, and the resolver.\<close>

theorem wallet_authority_witness:
  "wallet_life sample_schema ''w'' sample_wallet (take 1 (fst sample_life) @ fst sample_life ! 1 # drop 2 (fst sample_life)) (snd sample_life) \<and>
   fresh_wallet sample_wallet \<and>
   may_call (fst (fst sample_life ! 1)) sample_schema [1, 2, 3] (wn_timeout (ws_nonces sample_wallet))
     (fold apply_event (log_events (take 1 (fst sample_life))) (access sample_wallet)) (fst (snd (fst sample_life ! 1)))"
proof -
  have "length (fst sample_life) = 3" by code_simp
  then have split: "fst sample_life = take 1 (fst sample_life) @ fst sample_life ! 1 # drop 2 (fst sample_life)"
    using id_take_nth_drop [of 1 "fst sample_life"] by (simp add: numeral_2_eq_2)
  obtain E c r where e: "fst sample_life ! 1 = (E, c, r)" by (cases "fst sample_life ! 1")
  have life: "wallet_life sample_schema ''w'' sample_wallet (take 1 (fst sample_life) @ fst sample_life ! 1 # drop 2 (fst sample_life)) (snd sample_life)"
    using sample_life unfolding split [symmetric] .
  from wallet_authority [OF life [unfolded e] sample_fresh] show ?thesis
    using life sample_fresh unfolding e by (simp only: fst_conv snd_conv sample_wallet_def built_state_simps simp_thms)
qed

lemma sample_open: "open_access (access sample_wallet)"
  by (simp add: open_access_def access_def sample_wallet_def built_state_def ws_with_extensions_def ws_with_timeout_def
      ws_with_subwallet_id_def ws_new_def)

theorem wallet_never_locked_witness:
  "wallet_life sample_schema ''w'' sample_wallet (fst sample_life) (snd sample_life) \<and> fresh_wallet sample_wallet \<and>
   open_access (access sample_wallet) \<and> open_access (access (snd sample_life)) \<and> ws_public_key (snd sample_life) = [1, 2, 3]"
  using wallet_never_locked [OF sample_life sample_fresh sample_open] sample_life sample_fresh sample_open
  by (simp add: sample_wallet_def)

subsection \<open>Messages and storage\<close>

definition sample_bytes :: "byte list" where
  "sample_bytes = the (rm_preimage sample_es (sample_msg 7 9990 []))"

theorem signed_bytes_determine_message_witness:
  "readable (\<lambda>_. True) sample_es \<and> rm_preimage sample_es (sample_msg 7 9990 []) = Some sample_bytes \<and>
   rm_preimage sample_es (sample_msg 8 9990 []) \<noteq> Some sample_bytes \<and>
   om_preimage \<lparr> om_chain_id = MAINNET, om_signer_id = ''w'', om_path = [], om_timestamp = 0, om_payload = '''' \<rparr> \<noteq> Some sample_bytes"
proof -
  have some: "rm_preimage sample_es (sample_msg 7 9990 []) \<noteq> None" by code_simp
  then have b: "rm_preimage sample_es (sample_msg 7 9990 []) = Some sample_bytes" by (auto simp: sample_bytes_def)
  have "NANOS_PER_SEC dvd rm_timeout (sample_msg n 9990 [])" for n by (simp add: sample_msg_def from_secs_dur_def)
  moreover have "sample_msg 7 9990 [] \<noteq> sample_msg 8 9990 []" by (simp add: sample_msg_def)
  ultimately show ?thesis
    using signed_bytes_determine_message [OF readable_sample_es, of "sample_msg 7 9990 []" "sample_msg 8 9990 []" sample_bytes
        "\<lparr> om_chain_id = MAINNET, om_signer_id = ''w'', om_path = [], om_timestamp = 0, om_payload = '''' \<rparr>"] b readable_sample_es
    by blast
qed

definition sample_other :: "byte list wallet_state" where
  "sample_other = built_state [1, 2, 3] (wb_with_subwallet_id 1 wb_new)"

lemma sample_deployable: "deployable sample_wallet" "deployable sample_other"
  by (simp_all add: deployable_def sample_wallet_def sample_other_def from_secs_dur_def DEFAULT_TIMEOUT_def wb_new_def
      wb_with_subwallet_id_def built_state_def ws_with_extensions_def ws_with_timeout_def ws_with_subwallet_id_def ws_new_def wn_new_def fresh_wallet_def)

theorem wallet_storage_determines_state_witness:
  "readable (\<lambda>_. True) (e_vec e_byte) \<and> deployable sample_wallet \<and> deployable sample_other \<and>
   (\<exists>dat. as_storage (e_vec e_byte) sample_wallet = Some dat \<and> as_storage (e_vec e_byte) (built_state [1, 2, 3] wb_new) = Some dat \<and>
     sample_wallet = built_state [1, 2, 3] wb_new \<and> as_storage (e_vec e_byte) sample_other \<noteq> Some dat)"
proof -
  have "as_storage (e_vec e_byte) sample_wallet \<noteq> None" by code_simp
  then obtain dat where d: "as_storage (e_vec e_byte) sample_wallet = Some dat" by auto
  have ne: "sample_wallet \<noteq> sample_other"
    by (simp add: sample_wallet_def sample_other_def built_state_def ws_with_extensions_def ws_with_timeout_def ws_with_subwallet_id_def
        ws_new_def wb_new_def wb_with_subwallet_id_def DEFAULT_SUBWALLET_ID_def)
  have "sample_wallet = sample_wallet"
    by (rule wallet_storage_determines_state [OF readable_bytes sample_deployable(1) sample_deployable(1) d d])
  moreover have "as_storage (e_vec e_byte) sample_other \<noteq> Some dat"
    using wallet_storage_determines_state [OF readable_bytes sample_deployable d] ne by blast
  ultimately show ?thesis using readable_bytes sample_deployable d by (auto simp: sample_wallet_def)
qed


definition sample_nep413 :: "string \<Rightarrow> nep413_payload" where
  "sample_nep413 m = \<lparr> n4_message = m, n4_nonce = replicate 32 0, n4_recipient = ''r'', n4_callback_url = None \<rparr>"

definition sample_cells :: "byte cell_lib" where
  "sample_cells = \<lparr> cl_msg_address = (\<lambda>_ a. Some (bits_of a)), cl_snake_data = (\<lambda>_. Some 3),
     cl_repr = (\<lambda>bits refs. 2 # refs @ map of_bool bits), cl_hash = (\<lambda>c. [c]) \<rparr>"

lemma sample_cells_ok: "cells_ok sample_cells"
  by (auto simp: cells_ok_def sample_cells_def inj_map_eq_map inj_def)

definition sample_ton :: "byte ton_payload_schema \<Rightarrow> byte hashed_message" where
  "sample_ton x = HTonConnect \<lparr> tc_workchain_id = 0, tc_address = replicate 32 0, tc_domain = ''d'', tc_timestamp = 0, tc_payload = x \<rparr>"

lemma sample_sized: "well_sized (sample_ton x)" "well_sized (HNep413 (sample_nep413 m))"
  by (simp_all add: sample_ton_def sample_nep413_def)

definition take_codecs :: codecs where
  "take_codecs = \<lparr> keccak256 = take 32, sha256 = take 32, hex_encode = (\<lambda>_. []), hex_decode32 = (\<lambda>_. None) \<rparr>"

text \<open>A text and the same bytes as binary data, two cells and a message of NEP-413.\<close>

theorem signed_bytes_separate_witness:
  "cells_ok sample_cells \<and> message_bytes sample_cells (sample_ton (TonText ''a'')) \<noteq> None \<and>
   message_bytes sample_cells (sample_ton (TonText ''a'')) \<noteq> message_bytes sample_cells (sample_ton (TonBinary (bytes_of ''a''))) \<and>
   message_prehash take_codecs sample_cells (sample_ton (TonText ''a'')) =
     map_option (take 32) (message_bytes sample_cells (sample_ton (TonText ''a''))) \<and>
   message_bytes sample_cells (sample_ton (TonCell 1 7)) \<noteq> None \<and>
   message_bytes sample_cells (sample_ton (TonCell 1 7)) \<noteq> message_bytes sample_cells (sample_ton (TonCell 1 8)) \<and>
   message_bytes sample_cells (HNep413 (sample_nep413 ''a'')) \<noteq> None \<and>
   message_bytes sample_cells (HNep413 (sample_nep413 ''a'')) \<noteq> message_bytes sample_cells (HNep413 (sample_nep413 ''b''))"
proof -
  have differ: "message_bytes sample_cells x \<noteq> message_bytes sample_cells y"
    if "message_bytes sample_cells x \<noteq> None" and "\<not> same_message sample_cells x y" and "well_sized x" and "well_sized y" for x y
    using signed_bytes_separate [OF sample_cells_ok, of x y] that by auto
  have t: "message_bytes sample_cells (sample_ton (TonText ''a'')) \<noteq> None" by code_simp
  have c: "message_bytes sample_cells (sample_ton (TonCell 1 7)) \<noteq> None" by code_simp
  have n: "message_bytes sample_cells (HNep413 (sample_nep413 ''a'')) \<noteq> None" by code_simp
  have "\<not> same_message sample_cells (sample_ton (TonText ''a'')) (sample_ton (TonBinary (bytes_of ''a'')))"
    "\<not> same_message sample_cells (sample_ton (TonCell 1 7)) (sample_ton (TonCell 1 8))"
    "\<not> same_message sample_cells (HNep413 (sample_nep413 ''a'')) (HNep413 (sample_nep413 ''b''))"
    by (simp_all add: sample_ton_def sample_nep413_def same_ton_def sample_cells_def)
  moreover have "message_prehash take_codecs sample_cells (sample_ton (TonText ''a'')) =
      map_option (message_hash take_codecs (sample_ton (TonText ''a''))) (message_bytes sample_cells (sample_ton (TonText ''a'')))"
    using signed_bytes_separate [OF sample_cells_ok sample_sized(1,1)] by blast
  ultimately show ?thesis
    using differ [OF t _ sample_sized(1,1)] differ [OF c _ sample_sized(1,1)] differ [OF n _ sample_sized(2,2)] t c n sample_cells_ok
    by (simp add: sample_ton_def take_codecs_def del: message_bytes.simps message_prehash.simps same_message.simps)
qed

subsection \<open>Two wallets and a resolver\<close>

text \<open>The wallet \<open>w\<close> is an extension of the wallet \<open>x\<close>; nobody has access keys.\<close>

definition sample_world :: "byte list wallet_world" where
  "sample_world = \<lparr> ww_wallet = (\<lambda>_ a. if a = ''w'' then Some (sample_schema, sample_wallet)
       else if a = ''x'' then Some (sample_schema, built_state [4, 5, 6] (wb_extension ''w'' wb_new)) else None),
     ww_env = (\<lambda>_. sample_env 10000) \<rparr>"

definition sample_view :: "account_id \<Rightarrow> account_id list \<Rightarrow> string \<Rightarrow> block_reference \<Rightarrow>
    rpc_error + (authorization_resolution option \<times> byte list \<times> nat)" where
  "sample_view a path auth block = (case wallet_answer sample_world [9] a path auth of
     None \<Rightarrow> Inl (ContractNotDeployed a)
   | Some (Inl e) \<Rightarrow> Inl (ContractPanic ''panic'')
   | Some (Inr res) \<Rightarrow> Inr (Some res, [9], 5))"

definition sample_client :: rpc_client where
  "sample_client = \<lparr> rpc_block = (\<lambda>_. Inr \<lparr> bh_hash = [9], bh_height = 5, bh_timestamp = 10000000000000 \<rparr>),
     rpc_view_access_key = (\<lambda>_ _ _. Inl AccessKeyNotFound), rpc_w_resolve_auth = sample_view,
     rpc_access_key_json = (\<lambda>_. None) \<rparr>"

definition no_curves :: curves where
  "no_curves = \<lparr> ed25519_is_key = (\<lambda>_. False), ed25519_is_weak = (\<lambda>_. True), ed25519_primitive = (\<lambda>_ _ _. False),
     secp256k1_is_key = (\<lambda>_. False), secp256k1_is_signature = (\<lambda>_. False), ecrecover = (\<lambda>_ _ _. None),
     p256_is_key = (\<lambda>_. False), p256_is_signature = (\<lambda>_. False), p256_high_s = (\<lambda>_. False), p256_primitive = (\<lambda>_ _ _. False) \<rparr>"

definition sample_resolver :: rpc_resolver where
  "sample_resolver = \<lparr> rv_client = sample_client, rv_codecs = \<lparr> n6_codecs = take_codecs, n6_curves = no_curves, n6_sha3_256 = take 32, n6_show_time = (\<lambda>_. []) \<rparr>,
     rv_chain_id = MAINNET, rv_at_block = AtFinality, rv_max_sub_auths = 2, rv_max_depth = 2 \<rparr>"

definition sample_handle :: sdk_wallet where
  "sample_handle = \<lparr> sw_account_id = ''w'', sw_state_init = \<lparr> si_code = CodeHash [], si_data = [] \<rparr>, sw_initialized = True,
     sw_as_extension_chain = [''x''], sw_chain_id = MAINNET, sw_timeout = DEFAULT_TIMEOUT, sw_nonces = cn_new [640] \<rparr>"

text \<open>The client's clock is half a minute ahead of the block.\<close>

definition offchain_signer :: "offchain_message \<Rightarrow> string option" where
  "offchain_signer m = Some ''ok''"

definition sample_auth :: string where
  "sample_auth = the (sign_offchain_msg offchain_signer sample_blob sample_range (seconds 10030) ''pay'' [] sample_handle)"

text \<open>The schedule that always takes the first task.\<close>

fun drive :: "rpc_resolver \<Rightarrow> nat \<Rightarrow> resolving \<Rightarrow> resolving" where
  "drive R 0 s = s"
| "drive R (Suc n) s = (case s of
     Finished r \<Rightarrow> Finished r
   | Running h p k [] \<Rightarrow> Finished (Inr p)
   | Running h p k (t # ts) \<Rightarrow> drive R n (complete R h p k t ts))"

lemma drive_steps: "(resolve_step R)\<^sup>*\<^sup>* s (drive R n s)"
proof (induction n arbitrary: s)
  case (Suc n)
  show ?case
  proof (cases s)
    case (Running h p k pool)
    show ?thesis
    proof (cases pool)
      case (Cons t ts)
      then have "resolve_step R s (complete R h p k t ts)"
        using resolve_step.completes [of R h p k "[]" t ts] by (simp add: Running)
      then show ?thesis using Suc [of "complete R h p k t ts"] by (simp add: Running Cons)
    qed (simp add: Running r_into_rtranclp resolve_step.none_left)
  qed simp
qed simp

lemma sample_auth: "sign_offchain_msg offchain_signer sample_blob sample_range (seconds 10030) ''pay'' [] sample_handle = Some sample_auth"
proof -
  have "sign_offchain_msg offchain_signer sample_blob sample_range (seconds 10030) ''pay'' [] sample_handle \<noteq> None" by code_simp
  then show ?thesis by (auto simp: sample_auth_def)
qed

lemma sample_drive: "drive sample_resolver 3 (resolve_start sample_resolver ''x'' sample_auth) = Finished (Inr ''pay'')"
  by code_simp

lemma sample_steps: "(resolve_step sample_resolver)\<^sup>*\<^sup>* (resolve_start sample_resolver ''x'' sample_auth) (Finished (Inr ''pay''))"
  using drive_steps [of sample_resolver "resolve_start sample_resolver ''x'' sample_auth" 3] by (simp only: sample_drive)

lemma sample_limits: "rv_max_sub_auths sample_resolver < u_max 64"
  by (simp add: sample_resolver_def u_max_def)

lemma sample_node:
  "serves_wallets (rv_client sample_resolver) sample_world" "answers_at (rv_client sample_resolver) sample_world [9] 5"
  by (auto simp: serves_wallets_def answers_at_def sample_resolver_def sample_client_def sample_view_def
      split: option.splits sum.splits)

theorem resolver_accepts_trees_witness:
  "tree_accepts sample_resolver ''x'' sample_auth ''pay'' \<and> \<not> tree_accepts sample_resolver ''x'' sample_auth ''other''"
  using resolver_accepts_trees [OF sample_limits sample_steps, of "''pay''"]
    resolver_accepts_trees [OF sample_limits sample_steps, of "''other''"] by simp

theorem resolver_terminates_witness:
  "\<exists>k. (resolve_step sample_resolver ^^ k) (resolve_start sample_resolver ''x'' sample_auth) (Finished (Inr ''pay'')) \<and> k \<le> 3"
proof -
  obtain k where "(resolve_step sample_resolver ^^ k) (resolve_start sample_resolver ''x'' sample_auth) (Finished (Inr ''pay''))"
    using sample_steps by (auto simp: rtranclp_power)
  with resolver_terminates [OF sample_limits this] show ?thesis by (auto simp: sample_resolver_def)
qed


theorem sdk_authorization_resolves_witness:
  "answers_at (rv_client sample_resolver) sample_world [9] 5 \<and> blobs_ok sample_resolver (sample_env 10000) sample_blob \<and>
   linked sample_world [9] [''w'', ''x''] \<and>
   (resolve_step sample_resolver)\<^sup>*\<^sup>* (resolve_start sample_resolver ''x'' sample_auth) (Finished (Inr ''pay'')) \<and>
   \<not> (resolve_step sample_resolver)\<^sup>*\<^sup>* (resolve_start sample_resolver ''x'' sample_auth) (Finished (Inr ''other''))"
proof -
  have blobs: "blobs_ok sample_resolver (ww_env sample_world [9]) sample_blob"
    by (simp add: blobs_ok_def sample_resolver_def sample_client_def sample_world_def sample_env_def sample_json_blob)
  have link: "linked sample_world [9] (sw_account_id sample_handle # sw_as_extension_chain sample_handle)" by code_simp
  have allowed: "is_signature_allowed sample_wallet" by code_simp
  have signer: "\<forall>m sig. offchain_signer m = Some sig \<longrightarrow> verify_offchain_msg sample_schema (ws_public_key sample_wallet) m sig"
    by (simp add: offchain_signer_def sample_schema_def)
  have wallet: "ww_wallet sample_world [9] (sw_account_id sample_handle) = Some (sample_schema, sample_wallet)"
    by (simp add: sample_world_def sample_handle_def)
  have chain: "sw_chain_id sample_handle = we_chain_id (ww_env sample_world [9])"
    by (simp add: sample_world_def sample_handle_def sample_env_def)
  have time: "seconds 10030 \<le> we_now (ww_env sample_world [9]) + int BLOCKCHAIN_LAG" by code_simp
  have at: "resolves_at [9] 5 (rv_at_block sample_resolver)" by (simp add: resolves_at_def sample_resolver_def)
  have len: "length (sw_as_extension_chain sample_handle) \<le> rv_max_depth sample_resolver"
    "length (sw_as_extension_chain sample_handle) \<le> rv_max_sub_auths sample_resolver"
    "effective_account_id sample_handle = ''x''"
    by (simp_all add: sample_handle_def sample_resolver_def effective_account_id_def)
  note run = sdk_authorization_resolves [OF sample_node(2) blobs at sample_auth wallet allowed signer chain time link len(1,2)
      sample_limits, unfolded len(3), OF rtranclp.rtrancl_refl]
  moreover have "\<not> (resolve_step sample_resolver)\<^sup>*\<^sup>* (resolve_start sample_resolver ''x'' sample_auth) (Finished (Inr ''other''))"
    using run by auto
  moreover have "linked sample_world [9] [''w'', ''x'']" using link by (simp add: sample_handle_def)
  moreover have "blobs_ok sample_resolver (sample_env 10000) sample_blob" using blobs by (simp add: sample_world_def)
  ultimately show ?thesis using sample_node(2) by blast
qed

subsection \<open>A request of the client\<close>

definition plain_handle :: sdk_wallet where
  "plain_handle = sw_as_self sample_handle"

definition sample_request :: request where
  "sample_request = \<lparr> rq_internal = [AddExtension ''ext''], rq_external = [sample_promise] \<rparr>"

definition sample_signed :: "sdk_wallet \<times> request_message \<times> string" where
  "sample_signed = the (sw_sign (\<lambda>_. Some ''ok'') sample_range (seconds 10010) (\<lambda>_. []) sample_request plain_handle)"

lemma sample_signed: "sw_sign (\<lambda>_. Some ''ok'') sample_range (seconds 10010) (\<lambda>_. []) sample_request plain_handle =
    Some (fst sample_signed, fst (snd sample_signed), snd (snd sample_signed))"
proof -
  have "sw_sign (\<lambda>_. Some ''ok'') sample_range (seconds 10010) (\<lambda>_. []) sample_request plain_handle \<noteq> None" by code_simp
  then show ?thesis by (auto simp: sample_signed_def)
qed

theorem sdk_request_executes_witness:
  "\<exists>r. execute_signed (sample_env 10000) sample_schema (fst (snd sample_signed)) (snd (snd sample_signed)) sample_wallet = Inr r \<and>
     access (wr_state r) = (True, {''ext''})"
proof -
  have life: "wallet_life sample_schema (sw_account_id plain_handle) (built_state [1, 2, 3] wb_new) [] sample_wallet"
    unfolding sample_wallet_def by (rule wallet_life.deployed)
  have hash: "rm_hash (we_sha3_256 (sample_env 10000)) (we_state_init (sample_env 10000)) (fst (snd sample_signed)) \<noteq> None" by code_simp
  have ext: "list_all (\<lambda>p. np_receiver_id p \<noteq> sw_account_id plain_handle) (rq_external (rm_request (fst (snd sample_signed))))" by code_simp
  have ops: "ops_spec (rq_internal (rm_request (fst (snd sample_signed)))) (access sample_wallet) = Some (True, {''ext''})" by code_simp
  have allowed: "is_signature_allowed sample_wallet" by code_simp
  have range: "window_in_range (we_ts_range (sample_env 10000)) (we_now (sample_env 10000)) (wb_timeout wb_new)" by code_simp
  have time: "seconds 10010 - int (min BLOCKCHAIN_LAG (wb_timeout wb_new div 5)) \<le> we_now (sample_env 10000)"
    "we_now (sample_env 10000) \<le> seconds 10010 - int (min BLOCKCHAIN_LAG (wb_timeout wb_new div 5)) + int (wb_timeout wb_new)" by code_simp+
  show ?thesis
    by (rule sdk_request_executes [OF life _ sample_signed _ _ _ allowed time range _ hash ext ops])
      (simp_all add: plain_handle_def sw_as_self_def sample_handle_def wb_new_def sample_schema_def sample_env_def commits_def executions_def)
qed

subsection \<open>A wallet without signatures\<close>

definition owned_env :: "int \<Rightarrow> wallet_env" where
  "owned_env t = (sample_env t)\<lparr>we_predecessor := ''w''\<rparr>"

theorem no_sign_can_lock_out_witness:
  "\<exists>s0 r. w_init (owned_env 10000) False = Inr s0 \<and>
     execute_extension (owned_env 10001) \<lparr> rq_internal = [SetSignatureMode True, RemoveExtension ''w''], rq_external = [] \<rparr> s0 = Inr r \<and>
     (\<forall>E' c. \<not> is_ok (do_call E' no_sign c (wr_state r)))"
proof -
  obtain s0 where s0: "w_init (owned_env 10000) False = Inr s0"
    by (simp add: w_init_def owned_env_def sample_env_def)
  have "window_in_range (we_ts_range (owned_env 10001)) (we_now (owned_env 10001)) DEFAULT_TIMEOUT" by code_simp
  from no_sign_can_lock_out [OF s0, of "owned_env 10001"] this s0 show ?thesis
    by (simp add: owned_env_def sample_env_def)
qed

end
