(* ===== verification/Payloads.thy ===== *)
theory Payloads
  imports Engine SignedMessages
begin

text \<open>
  Signed payloads of the intents contract (\<open>contracts/defuse/core/src/payload\<close>): one type per
  standard, the sum \<open>MultiPayload\<close>, how each verifies its signature, its hash, and how the intents are
  extracted from it. They are what the engine's environment abstracts; the definition
  \<open>payload_engine\<close> fills it in. JSON parsers, account ids and TON cells come with \<open>payload_env\<close>.
\<close>

record signed_nep413 =
  sn_payload :: nep413_payload
  sn_public_key :: "byte list"
  sn_signature :: "byte list"

record signed_recoverable =
  sr_payload :: string
  sr_signature :: "byte list"

record signed_ed25519 =
  se_payload :: string
  se_public_key :: "byte list"
  se_signature :: "byte list"

record signed_webauthn =
  sw_payload :: string
  sw_assertion :: webauthn_assertion
  sw_public_key :: public_key
  sw_signature :: signature

record 'c signed_ton_connect =
  st_payload :: "'c ton_connect_payload"
  st_public_key :: "byte list"
  st_signature :: "byte list"

datatype 'c multi_payload =
    MpNep413 signed_nep413
  | MpErc191 signed_recoverable
  | MpTip191 signed_recoverable
  | MpRawEd25519 signed_ed25519
  | MpWebAuthn signed_webauthn
  | MpTonConnect "'c signed_ton_connect"
  | MpSep53 signed_ed25519

record nep413_defuse_message =
  nd_signer_id :: account_id
  nd_deadline :: timestamp
  nd_message :: "intent list"

record 'c payload_env =
  pe_codecs :: codecs
  pe_curves :: curves
  pe_client_data :: "string \<Rightarrow> collected_client_data option"
  pe_cells :: "'c cell_lib"
  pe_defuse_payload :: "string \<Rightarrow> defuse_payload option"
  pe_nep413_message :: "string \<Rightarrow> nep413_defuse_message option"
  pe_account_id :: "string \<Rightarrow> account_id option"

subsection \<open>Hashes\<close>

fun mp_hash :: "'c payload_env \<Rightarrow> 'c multi_payload \<Rightarrow> byte list option" where
  "mp_hash V (MpNep413 p) = nep413_prehash (pe_codecs V) (sn_payload p)"
| "mp_hash V (MpErc191 p) = Some (erc191_prehash (pe_codecs V) (bytes_of (sr_payload p)))"
| "mp_hash V (MpTip191 p) = Some (tip191_prehash (pe_codecs V) (bytes_of (sr_payload p)))"
| "mp_hash V (MpRawEd25519 p) = Some (sha256 (pe_codecs V) (bytes_of (se_payload p)))"
| "mp_hash V (MpWebAuthn p) = Some (sha256 (pe_codecs V) (bytes_of (sw_payload p)))"
| "mp_hash V (MpTonConnect p) = try_prehash (pe_codecs V) (pe_cells V) (st_payload p)"
| "mp_hash V (MpSep53 p) = Some (sep53_prehash (pe_codecs V) (bytes_of (se_payload p)))"

subsection \<open>Verification\<close>

text \<open>\<open>then_some\<close>, after the conversion of an Ed25519 key.\<close>

definition ed25519_then :: "'c payload_env \<Rightarrow> byte list \<Rightarrow> bool \<Rightarrow> byte list option" where
  "ed25519_then V pk b = (if \<not> ed25519_is_key (pe_curves V) pk then None else if b then Some pk else None)"

definition verify_nep413 :: "'c payload_env \<Rightarrow> signed_nep413 \<Rightarrow> byte list option" where
  "verify_nep413 V p = ed25519_then V (sn_public_key p)
     (nep413_verify (pe_codecs V) (ed25519_verify (pe_curves V)) (sn_public_key p) (sn_payload p) (sn_signature p) = Some True)"

definition verify_erc191 :: "'c payload_env \<Rightarrow> signed_recoverable \<Rightarrow> byte list option" where
  "verify_erc191 V p = Option.bind (recoverable_parts (pe_curves V) (sr_signature p)) (\<lambda>(sig, i).
     erc191_recover (pe_codecs V) (pe_curves V) (bytes_of (sr_payload p)) sig i)"

definition verify_tip191 :: "'c payload_env \<Rightarrow> signed_recoverable \<Rightarrow> byte list option" where
  "verify_tip191 V p = Option.bind (recoverable_parts (pe_curves V) (sr_signature p)) (\<lambda>(sig, i).
     tip191_recover (pe_codecs V) (pe_curves V) (bytes_of (sr_payload p)) sig i)"

definition verify_raw_ed25519 :: "'c payload_env \<Rightarrow> signed_ed25519 \<Rightarrow> byte list option" where
  "verify_raw_ed25519 V p = ed25519_then V (se_public_key p)
     (ed25519_verify (pe_curves V) (se_public_key p) (bytes_of (se_payload p)) (se_signature p))"

definition verify_sep53 :: "'c payload_env \<Rightarrow> signed_ed25519 \<Rightarrow> byte list option" where
  "verify_sep53 V p = ed25519_then V (se_public_key p)
     (sep53_verify (pe_codecs V) (pe_curves V) (se_public_key p) (bytes_of (se_payload p)) (se_signature p))"

definition verify_ton_connect :: "'c payload_env \<Rightarrow> 'c signed_ton_connect \<Rightarrow> byte list option" where
  "verify_ton_connect V p = ed25519_then V (st_public_key p)
     (ton_connect_verify (pe_codecs V) (pe_curves V) (pe_cells V) (st_public_key p) (st_payload p) (st_signature p))"

text \<open>User verification is ignored: \<open>IgnoreUserVerification\<close>.\<close>

definition verify_webauthn :: "'c payload_env \<Rightarrow> signed_webauthn \<Rightarrow> public_key option" where
  "verify_webauthn V p =
     (let C = pe_codecs V; K = pe_curves V; challenge = sha256 C (bytes_of (sw_payload p));
          check = (\<lambda>alg pk sig. webauthn_verify C K (pe_client_data V) alg False pk challenge (sw_assertion p) sig) in
      case (sw_public_key p, sw_signature p) of
        (Ed25519 pk, SigEd25519 sig) \<Rightarrow>
          if \<not> ed25519_is_key K pk then None else if check AlgEd25519 pk sig then Some (sw_public_key p) else None
      | (P256 pk, SigP256 sig) \<Rightarrow>
          if \<not> p256_is_key K pk then None else if \<not> p256_is_signature K sig then None
          else if check AlgP256 pk sig then Some (sw_public_key p) else None
      | _ \<Rightarrow> None)"

fun mp_verify :: "'c payload_env \<Rightarrow> 'c multi_payload \<Rightarrow> public_key option" where
  "mp_verify V (MpNep413 p) = map_option Ed25519 (verify_nep413 V p)"
| "mp_verify V (MpErc191 p) = map_option Secp256k1 (verify_erc191 V p)"
| "mp_verify V (MpTip191 p) = map_option Secp256k1 (verify_tip191 V p)"
| "mp_verify V (MpRawEd25519 p) = map_option Ed25519 (verify_raw_ed25519 V p)"
| "mp_verify V (MpWebAuthn p) = verify_webauthn V p"
| "mp_verify V (MpTonConnect p) = map_option Ed25519 (verify_ton_connect V p)"
| "mp_verify V (MpSep53 p) = map_option Ed25519 (verify_sep53 V p)"

subsection \<open>Extraction of the intents\<close>

definition extract_json :: "'c payload_env \<Rightarrow> string \<Rightarrow> defuse_payload result" where
  "extract_json V s = ok_or (pe_defuse_payload V s) JSONError"

definition extract_nep413 :: "'c payload_env \<Rightarrow> nep413_payload \<Rightarrow> defuse_payload result" where
  "extract_nep413 V p =
     bind_r (ok_or (pe_nep413_message V (n4_message p)) JSONError) (\<lambda>m.
     bind_r (ok_or (pe_account_id V (n4_recipient p)) JSONError) (\<lambda>recipient.
     Inr \<lparr> dp_signer_id = nd_signer_id m, dp_verifying_contract = recipient, dp_deadline = nd_deadline m,
           dp_nonce = n4_nonce p, dp_message = nd_message m \<rparr>))"

definition extract_ton_connect :: "'c payload_env \<Rightarrow> 'c ton_connect_payload \<Rightarrow> defuse_payload result" where
  "extract_ton_connect V p =
     (case tc_payload p of
        TonText text \<Rightarrow>
          bind_r (extract_json V text) (\<lambda>q.
          bind_r (require_r (\<not> dp_deadline q < tc_timestamp p) JSONError) (\<lambda>_. Inr q))
      | _ \<Rightarrow> Inl JSONError)"

fun mp_extract :: "'c payload_env \<Rightarrow> 'c multi_payload \<Rightarrow> defuse_payload result" where
  "mp_extract V (MpNep413 p) = extract_nep413 V (sn_payload p)"
| "mp_extract V (MpErc191 p) = extract_json V (sr_payload p)"
| "mp_extract V (MpTip191 p) = extract_json V (sr_payload p)"
| "mp_extract V (MpRawEd25519 p) = extract_json V (se_payload p)"
| "mp_extract V (MpWebAuthn p) = extract_json V (sw_payload p)"
| "mp_extract V (MpTonConnect p) = extract_ton_connect V (st_payload p)"
| "mp_extract V (MpSep53 p) = extract_json V (se_payload p)"

text \<open>The environment of the engine over these payloads. Only verified payloads are hashed.\<close>

definition payload_engine :: "'c payload_env \<Rightarrow> wide \<Rightarrow> timestamp \<Rightarrow> (int \<Rightarrow> timestamp option) \<Rightarrow> 'c multi_payload engine_env" where
  "payload_engine V W now nanos = \<lparr> ev_wide = W, ev_now = now, ev_from_nanos = nanos, ev_verify = mp_verify V,
     ev_hash = (\<lambda>p. case mp_hash V p of Some h \<Rightarrow> h | None \<Rightarrow> []), ev_extract = mp_extract V \<rparr>"

subsection \<open>What a verified payload shows\<close>

text \<open>The signature of a payload, the message its curve sees, and what the curve must have accepted.\<close>

fun mp_signature :: "'c multi_payload \<Rightarrow> byte list" where
  "mp_signature (MpNep413 p) = sn_signature p"
| "mp_signature (MpErc191 p) = sr_signature p"
| "mp_signature (MpTip191 p) = sr_signature p"
| "mp_signature (MpRawEd25519 p) = se_signature p"
| "mp_signature (MpWebAuthn p) = (case sw_signature p of SigEd25519 b \<Rightarrow> b | SigSecp256k1 b \<Rightarrow> b | SigP256 b \<Rightarrow> b)"
| "mp_signature (MpTonConnect p) = st_signature p"
| "mp_signature (MpSep53 p) = se_signature p"

fun mp_message :: "'c payload_env \<Rightarrow> 'c multi_payload \<Rightarrow> byte list option" where
  "mp_message V (MpRawEd25519 p) = Some (bytes_of (se_payload p))"
| "mp_message V (MpWebAuthn p) = Some (maybe_prehash (pe_codecs V)
     (case sw_public_key p of P256 _ \<Rightarrow> AlgP256 | _ \<Rightarrow> AlgEd25519) (effective_msg (pe_codecs V) (sw_assertion p)))"
| "mp_message V p = mp_hash V p"

fun curve_accepts :: "curves \<Rightarrow> public_key \<Rightarrow> byte list \<Rightarrow> byte list \<Rightarrow> bool" where
  "curve_accepts K (Ed25519 pk) msg sig \<longleftrightarrow> ed25519_is_key K pk \<and> \<not> ed25519_is_weak K pk \<and> ed25519_primitive K pk msg sig"
| "curve_accepts K (Secp256k1 pk) msg sig \<longleftrightarrow> secp256k1_is_key K pk \<and> length msg = 32 \<and>
     (\<exists>s i. recoverable_parts K sig = Some (s, i) \<and> ecrecover K msg s i = Some pk)"
| "curve_accepts K (P256 pk) msg sig \<longleftrightarrow> p256_is_key K pk \<and> length msg = 32 \<and> \<not> p256_high_s K sig \<and> p256_primitive K pk msg sig"

text \<open>A WebAuthn assertion answers the hash of the payload.\<close>

definition assertion_answers :: "'c payload_env \<Rightarrow> 'c multi_payload \<Rightarrow> bool" where
  "assertion_answers V p \<longleftrightarrow> (case p of
      MpWebAuthn q \<Rightarrow> webauthn_check (pe_client_data V) False (sha256 (pe_codecs V) (bytes_of (sw_payload q))) (sw_assertion q)
    | _ \<Rightarrow> True)"

lemma ed25519_then_Some: "ed25519_then V pk b = Some k \<longleftrightarrow> ed25519_is_key (pe_curves V) pk \<and> b \<and> k = pk"
  by (auto simp: ed25519_then_def)

lemma ed25519_verify_iff: "ed25519_verify K pk msg sig \<longleftrightarrow> \<not> ed25519_is_weak K pk \<and> ed25519_primitive K pk msg sig"
  by (simp add: ed25519_verify_def)

lemma secp256k1_recover_Some:
  "secp256k1_recover K h s i = Some pk \<longleftrightarrow> length h = 32 \<and> ecrecover K h s i = Some pk \<and> secp256k1_is_key K pk"
  by (auto simp: secp256k1_recover_def bind_eq_Some_conv split: if_splits)

lemma p256_verify_iff: "p256_verify K pk h sig \<longleftrightarrow> length h = 32 \<and> \<not> p256_high_s K sig \<and> p256_primitive K pk h sig"
  by (simp add: p256_verify_def)

lemma verify_webauthn_Some:
  "verify_webauthn V p = Some k \<Longrightarrow> (\<exists>msg. mp_message V (MpWebAuthn p) = Some msg \<and>
     curve_accepts (pe_curves V) k msg (mp_signature (MpWebAuthn p))) \<and> assertion_answers V (MpWebAuthn p)"
  by (cases "sw_public_key p"; cases "sw_signature p")
    (auto simp: verify_webauthn_def Let_def webauthn_verify_def assertion_answers_def ed25519_verify_iff p256_verify_iff split: if_splits)

lemma mp_verify_Some:
  assumes "mp_verify V p = Some k"
  shows "\<exists>msg. mp_message V p = Some msg \<and> curve_accepts (pe_curves V) k msg (mp_signature p)"
    and "assertion_answers V p" and "mp_hash V p \<noteq> None"
proof -
  have "(\<exists>msg. mp_message V p = Some msg \<and> curve_accepts (pe_curves V) k msg (mp_signature p)) \<and> assertion_answers V p \<and> mp_hash V p \<noteq> None"
  proof (cases p)
    case (MpWebAuthn q)
    then show ?thesis using assms verify_webauthn_Some [of V q k] by simp
  qed (use assms in \<open>auto simp: verify_nep413_def verify_erc191_def verify_tip191_def verify_raw_ed25519_def verify_sep53_def verify_ton_connect_def
      nep413_verify_def erc191_recover_def tip191_recover_def sep53_verify_def ton_connect_verify_def bind_eq_Some_conv
      ed25519_then_Some ed25519_verify_iff secp256k1_recover_Some assertion_answers_def split: option.splits\<close>)
  then show "\<exists>msg. mp_message V p = Some msg \<and> curve_accepts (pe_curves V) k msg (mp_signature p)"
    "assertion_answers V p" "mp_hash V p \<noteq> None" by blast+
qed

text \<open>
  C7: Intents are executed only for a holder of a registered key. Whenever the engine executes a
  payload of any of the seven standards, the primitive of the curve accepted the payload's signature
  over the message that the standard prescribes, for a key that is neither malformed nor weak (and for
  P-256 with a low \<open>s\<close>), and that key is registered for the signer named in the payload; a passkey
  assertion answers the hash of the payload; and the intents are addressed to this contract and not
  expired.
\<close>

theorem executed_payload_signed:
  assumes "execute_signed_intent (payload_engine V W now nanos) ops io p e = Inr e'"
  shows "\<exists>k msg q h. mp_verify V p = Some k \<and> mp_message V p = Some msg \<and> curve_accepts (pe_curves V) k msg (mp_signature p) \<and>
    assertion_answers V p \<and> mp_hash V p = Some h \<and> mp_extract V p = Inr q \<and>
    so_has_public_key ops (fst e) (dp_signer_id q) k \<and> dp_verifying_contract q = so_verifying_contract ops (fst e) \<and> now \<le> dp_deadline q"
proof -
  obtain k q where k: "mp_verify V p = Some k" and q: "mp_extract V p = Inr q"
    and rest: "so_has_public_key ops (fst e) (dp_signer_id q) k" "dp_verifying_contract q = so_verifying_contract ops (fst e)" "now \<le> dp_deadline q"
    using assms by (auto simp: execute_signed_intent_def payload_engine_def Let_def result_simps)
  then show ?thesis using mp_verify_Some [OF k] by blast
qed

end
