(* ===== verification/PayloadSamples.thy ===== *)
theory PayloadSamples
  imports Samples Payloads
begin

text \<open>
  The contract over signed payloads of the seven standards, with a curve that accepts every signature
  of the sample key, executing a payload of the SEP-53 standard that adds a public key.
\<close>

definition easy_curves :: curves where
  "easy_curves = \<lparr> ed25519_is_key = (\<lambda>k. length k = 32), ed25519_is_weak = (\<lambda>k. k = replicate 32 0), ed25519_primitive = (\<lambda>_ _ sig. length sig = 64),
     secp256k1_is_key = (\<lambda>_. False), secp256k1_is_signature = (\<lambda>_. False), ecrecover = (\<lambda>_ _ _. None),
     p256_is_key = (\<lambda>_. False), p256_is_signature = (\<lambda>_. False), p256_high_s = (\<lambda>_. False), p256_primitive = (\<lambda>_ _ _. False) \<rparr>"

definition parsed_payload :: defuse_payload where
  "parsed_payload = \<lparr> dp_signer_id = ''alice'', dp_verifying_contract = ''intents'', dp_deadline = 200,
     dp_nonce = replicate 32 1, dp_message = [AddPublicKey (Ed25519 (replicate 32 8))] \<rparr>"

definition sample_payload_env :: "string payload_env" where
  "sample_payload_env = \<lparr> pe_codecs = sample_codecs, pe_curves = easy_curves, pe_client_data = (\<lambda>_. None),
     pe_cells = \<lparr> cl_msg_address = (\<lambda>_ _. None), cl_snake_data = (\<lambda>_. None), cl_repr = (\<lambda>_ _. []), cl_hash = (\<lambda>_. []) \<rparr>,
     pe_defuse_payload = (\<lambda>s. if s = ''intents'' then Some parsed_payload else None), pe_nep413_message = (\<lambda>_. None), pe_account_id = Some \<rparr>"

definition payload_host :: "account_id \<Rightarrow> string multi_payload host" where
  "payload_host a = \<lparr> h_current = ''intents'', h_predecessor = a, h_deposit = 1, h_seed = [],
     h_has_role = (\<lambda>_. False), h_paused = (\<lambda>_. False), h_codecs = sample_codecs,
     h_account_type = (\<lambda>_. NearImplicitAccount), h_parse = Some, h_log_len = (\<lambda>_. 100),
     h_promise_result = (\<lambda>_. None), h_json_u128 = (\<lambda>_. None), h_json_u128s = (\<lambda>_. None), h_json_bool = (\<lambda>_. None),
     h_json_deposit = (\<lambda>_. None), h_engine = payload_engine sample_payload_env exact_wide 100 (\<lambda>_. None) \<rparr>"

definition keyed_state :: "string multi_payload contract" where
  "keyed_state = (let c = contract_new (payload_host ''relay'') ''wnear'' pips_zero ''fees'' in
     ok_value (run_calls [(payload_host ''alice'', MAccount (MAddPublicKey sample_key))] c) c)"

definition sep53_payload :: "string multi_payload" where
  "sep53_payload = MpSep53 \<lparr> se_payload = ''intents'', se_public_key = replicate 32 7, se_signature = replicate 64 1 \<rparr>"

definition sep53_run :: "(string multi_payload contract deltas_state \<times> execute_inspector) result" where
  "sep53_run = execute_signed_intent (payload_engine sample_payload_env exact_wide 100 (\<lambda>_. None))
     (contract_deltas (payload_host ''relay'')) execute_inspector_ops sep53_payload ((keyed_state, []), ei_new)"

theorem executed_payload_signed_witness:
  "is_ok sep53_run \<and> (\<exists>k msg. mp_message sample_payload_env sep53_payload = Some msg \<and> curve_accepts easy_curves k msg (replicate 64 1) \<and>
     contract_has_public_key (payload_host ''relay'') keyed_state ''alice'' k)"
proof -
  have ok: "is_ok sep53_run" by code_simp
  have "pe_curves sample_payload_env = easy_curves" "mp_signature sep53_payload = replicate 64 1"
    by (simp_all add: sample_payload_env_def sep53_payload_def)
  moreover have "q = parsed_payload" if "mp_extract sample_payload_env sep53_payload = Inr q" for q
    using that by (simp add: sep53_payload_def sample_payload_env_def extract_json_def)
  moreover have "so_has_public_key (contract_deltas (payload_host ''relay'')) (keyed_state, []) = contract_has_public_key (payload_host ''relay'') keyed_state"
    by (simp add: deltas_ops_def contract_ops_def)
  ultimately show ?thesis
    using executed_payload_signed [OF ok_value [OF ok, unfolded sep53_run_def]] ok by (auto simp: parsed_payload_def)
qed

end
