(* ===== verification/Ownership.thy ===== *)
theory Ownership
  imports TokenId
begin

text \<open>
  The interface that the small administered contracts share: an administrator, a part of the state
  that only the administrator may change, and calls by anybody.
\<close>

fun run_owned :: "('e \<Rightarrow> 'c \<Rightarrow> 's \<Rightarrow> 'err + 's) \<Rightarrow> ('e \<times> 'c) list \<Rightarrow> 's \<Rightarrow> 'err + 's" where
  "run_owned step [] s = Inr s"
| "run_owned step ((e, c) # cs) s = bind_r (step e c s) (run_owned step cs)"

locale administered =
  fixes step :: "'e \<Rightarrow> 'c \<Rightarrow> 's \<Rightarrow> 'err + 's"
    and caller :: "'e \<Rightarrow> account_id"
    and admin :: "'s \<Rightarrow> account_id"
    and guarded :: "'s \<Rightarrow> 'g"
  assumes guarded_by_admin: "step e c s = Inr s' \<Longrightarrow> guarded s' \<noteq> guarded s \<Longrightarrow> caller e = admin s"
    and admin_guarded: "guarded s = guarded s' \<Longrightarrow> admin s = admin s'"
begin

lemma others_keep:
  "run_owned step cs s = Inr s' \<Longrightarrow> \<forall>(e, c) \<in> set cs. caller e \<noteq> admin s \<Longrightarrow> guarded s' = guarded s"
proof (induction cs arbitrary: s)
  case (Cons x cs)
  obtain e c where x: "x = (e, c)" by (cases x)
  from Cons.prems(1) obtain s1 where s1: "step e c s = Inr s1" "run_owned step cs s1 = Inr s'"
    by (auto simp: x result_simps)
  from Cons.prems(2) have "caller e \<noteq> admin s" by (simp add: x)
  with guarded_by_admin [OF s1(1)] have same: "guarded s1 = guarded s" by blast
  with Cons.IH [OF s1(2)] Cons.prems(2) admin_guarded [OF same] show ?case by (simp add: x)
qed simp

text \<open>Whenever the guarded part has changed, its administrator at the time made one of the calls.\<close>

lemma change_needs_admin:
  assumes "run_owned step cs s = Inr s'" and "guarded s' \<noteq> guarded s"
  obtains e c where "(e, c) \<in> set cs" "caller e = admin s"
  using others_keep [OF assms(1)] assms(2) by auto

end

end
