(* ===== verification/Deployer.thy ===== *)
theory Deployer
  imports Ownership SignedMessages NearPromises
begin

text \<open>
  The global deployer (\<open>contracts/global-deployer/src\<close>): an owner approves the hash of code, anybody may
  then deploy code with that hash. Deploying schedules one receipt that transfers the deposit,
  deploys the code and calls back; the receipt takes effect as a whole or not at all. The hash is an
  argument.
\<close>

subsection \<open>State\<close>

record gd_state =
  gd_owner_id :: account_id
  gd_code_hash :: "byte list"
  gd_approved_hash :: "byte list"

definition DEFAULT_HASH :: "byte list" where
  "DEFAULT_HASH = replicate 32 0"

definition gd_owner :: "account_id \<Rightarrow> gd_state" where
  "gd_owner a = \<lparr> gd_owner_id = a, gd_code_hash = DEFAULT_HASH, gd_approved_hash = DEFAULT_HASH \<rparr>"

definition with_index :: "32 word \<Rightarrow> gd_state \<Rightarrow> gd_state" where
  "with_index i s = s\<lparr>gd_code_hash := replicate 28 0 @ rev (le_bytes 4 (uint i))\<rparr>"

definition pre_approve :: "byte list \<Rightarrow> gd_state \<Rightarrow> gd_state" where
  "pre_approve h s = s\<lparr>gd_approved_hash := h\<rparr>"

definition pre_approve_code :: "(byte list \<Rightarrow> byte list) \<Rightarrow> byte list \<Rightarrow> gd_state \<Rightarrow> gd_state" where
  "pre_approve_code sha code s = pre_approve (sha code) s"

definition e_gd_state :: "gd_state encoder" where
  "e_gd_state s = e_seq (e_account_id (gd_owner_id s)) (e_seq (e_array (gd_code_hash s)) (e_array (gd_approved_hash s)))"

definition gd_as_storage :: "gd_state \<Rightarrow> (byte list \<times> byte list) list option" where
  "gd_as_storage s = map_option (\<lambda>b. [([], b)]) (e_gd_state s)"

datatype gd_error = Unauthorized | InvalidCodeHash | RequireOneYocto | SelfTransfer | GdPanic string

datatype approval_reason = ByDeploy "byte list" | ByOwner account_id

datatype gd_event =
    GdApprove "byte list" approval_reason
  | GdDeploy "byte list"
  | GdTransfer account_id account_id

record gd_env =
  ge_current :: account_id
  ge_predecessor :: account_id
  ge_attached_deposit :: nat
  ge_account_balance :: nat
  ge_refund_to :: account_id
  ge_sha256 :: "byte list \<Rightarrow> byte list"

text \<open>The receipt of a deployment, with the arguments of its callback, and the outcome of a call.\<close>

record gd_receipt =
  gr_refund_to :: account_id
  gr_transfer :: nat
  gr_code :: "byte list"
  gr_min_gas :: gas
  gr_gas_weight :: nat
  gr_code_hash :: "byte list"
  gr_initial_balance :: nat
  gr_deploy_deposit :: nat

record gd_run =
  gu_state :: gd_state
  gu_events :: "gd_event list"
  gu_receipts :: "gd_receipt list"
  gu_refunds :: "(account_id \<times> nat) list"

subsection \<open>Methods\<close>

definition gd_approve_hash :: "byte list \<Rightarrow> approval_reason \<Rightarrow> gd_state \<Rightarrow> gd_state \<times> gd_event" where
  "gd_approve_hash h reason s = (s\<lparr>gd_approved_hash := h\<rparr>, GdApprove h reason)"

definition gd_init :: "gd_env \<Rightarrow> bool \<Rightarrow> gd_error + gd_state" where
  "gd_init E already_initialized =
     bind_r (require_r (ge_predecessor E = ge_current E) (GdPanic ''Method gd_init is private'')) (\<lambda>_.
     bind_r (require_r (\<not> already_initialized) (GdPanic ''The contract has already been initialized'')) (\<lambda>_.
     bind_r (require_r (ge_attached_deposit E = 1) RequireOneYocto) (\<lambda>_.
     Inr \<lparr> gd_owner_id = ge_current E, gd_code_hash = DEFAULT_HASH, gd_approved_hash = DEFAULT_HASH \<rparr>)))"

definition gd_approve :: "gd_env \<Rightarrow> byte list \<Rightarrow> byte list \<Rightarrow> gd_state \<Rightarrow> gd_error + gd_run" where
  "gd_approve E old_hash new_hash s =
     bind_r (require_r (ge_attached_deposit E = 1) RequireOneYocto) (\<lambda>_.
     bind_r (require_r (gd_owner_id s = ge_predecessor E) Unauthorized) (\<lambda>_.
     bind_r (require_r (gd_code_hash s = old_hash) InvalidCodeHash) (\<lambda>_.
     case gd_approve_hash new_hash (ByOwner (ge_predecessor E)) s of (s', ev) \<Rightarrow>
       Inr \<lparr> gu_state = s', gu_events = [ev], gu_receipts = [], gu_refunds = [] \<rparr>)))"

definition GD_POST_DEPLOY_MIN_GAS :: gas where
  "GD_POST_DEPLOY_MIN_GAS = tgas 15"

definition gd_deploy :: "gd_env \<Rightarrow> byte list \<Rightarrow> gd_state \<Rightarrow> gd_error + gd_run" where
  "gd_deploy E code s =
     (let code_hash = ge_sha256 E code in
     bind_r (require_r (gd_approved_hash s = code_hash) InvalidCodeHash) (\<lambda>_.
     let initial_balance = ge_account_balance E - ge_attached_deposit E in
     Inr \<lparr> gu_state = s, gu_events = [], gu_receipts =
       [\<lparr> gr_refund_to = ge_refund_to E, gr_transfer = ge_attached_deposit E, gr_code = code, gr_min_gas = GD_POST_DEPLOY_MIN_GAS,
          gr_gas_weight = 1, gr_code_hash = code_hash, gr_initial_balance = initial_balance, gr_deploy_deposit = ge_attached_deposit E \<rparr>],
       gu_refunds = [] \<rparr>))"

definition gd_post_deploy :: "gd_env \<Rightarrow> byte list \<Rightarrow> nat \<Rightarrow> nat \<Rightarrow> gd_state \<Rightarrow> gd_error + gd_run" where
  "gd_post_deploy E code_hash initial_balance deploy_deposit s =
     bind_r (require_r (ge_predecessor E = ge_current E) (GdPanic ''Method gd_post_deploy is private'')) (\<lambda>_.
     bind_r (require_r (ge_attached_deposit E = 0) (GdPanic ''Method gd_post_deploy doesn't accept deposit'')) (\<lambda>_.
     bind_r (require_r (gd_approved_hash s = code_hash) InvalidCodeHash) (\<lambda>_.
     case gd_approve_hash DEFAULT_HASH (ByDeploy code_hash) (s\<lparr>gd_code_hash := code_hash\<rparr>) of (s', ev) \<Rightarrow>
     let refund = min (ge_account_balance E - initial_balance) deploy_deposit in
     Inr \<lparr> gu_state = s', gu_events = [GdDeploy code_hash, ev], gu_receipts = [],
       gu_refunds = (if refund \<noteq> 0 then [(ge_refund_to E, refund)] else []) \<rparr>)))"

definition gd_transfer_ownership :: "gd_env \<Rightarrow> account_id \<Rightarrow> gd_state \<Rightarrow> gd_error + gd_run" where
  "gd_transfer_ownership E new_owner s =
     bind_r (require_r (ge_attached_deposit E = 1) RequireOneYocto) (\<lambda>_.
     bind_r (require_r (gd_owner_id s = ge_predecessor E) Unauthorized) (\<lambda>_.
     bind_r (require_r (gd_owner_id s \<noteq> new_owner) SelfTransfer) (\<lambda>_.
     case gd_approve_hash DEFAULT_HASH (ByOwner new_owner) (s\<lparr>gd_owner_id := new_owner\<rparr>) of (s', ev) \<Rightarrow>
       Inr \<lparr> gu_state = s', gu_events = [GdTransfer (gd_owner_id s) new_owner, ev], gu_receipts = [], gu_refunds = [] \<rparr>)))"

subsection \<open>Calls and receipts\<close>

datatype gd_call = CallApprove "byte list" "byte list" | CallDeploy "byte list" | CallTransfer account_id

fun gd_do :: "gd_env \<Rightarrow> gd_call \<Rightarrow> gd_state \<Rightarrow> gd_error + gd_run" where
  "gd_do E (CallApprove old new) s = gd_approve E old new s"
| "gd_do E (CallDeploy code) s = gd_deploy E code s"
| "gd_do E (CallTransfer a) s = gd_transfer_ownership E a s"

definition gd_step :: "gd_env \<Rightarrow> gd_call \<Rightarrow> gd_state \<Rightarrow> gd_error + gd_state" where
  "gd_step E c s = map_sum id gu_state (gd_do E c s)"

text \<open>
  The contract on its chain: its state, the code it has published, the receipts under way and the
  events so far. A receipt that fails, in the deployment or in the callback, leaves no trace.
\<close>

record gd_world =
  gw_state :: gd_state
  gw_code :: "byte list option"
  gw_receipts :: "gd_receipt list"
  gw_log :: "gd_event list"

inductive gd_reach :: "(byte list \<Rightarrow> byte list) \<Rightarrow> account_id \<Rightarrow> gd_state \<Rightarrow> gd_world \<Rightarrow> bool" for sha self s0 where
  start: "gd_reach sha self s0 \<lparr> gw_state = s0, gw_code = None, gw_receipts = [], gw_log = [] \<rparr>"
| call: "gd_reach sha self s0 w \<Longrightarrow> ge_current E = self \<Longrightarrow> ge_sha256 E = sha \<Longrightarrow> gd_do E c (gw_state w) = Inr r \<Longrightarrow>
    gd_reach sha self s0 (w\<lparr>gw_state := gu_state r, gw_receipts := gw_receipts w @ gu_receipts r, gw_log := gw_log w @ gu_events r\<rparr>)"
| deployed: "gd_reach sha self s0 w \<Longrightarrow> gw_receipts w = xs @ q # ys \<Longrightarrow> ge_current E = self \<Longrightarrow> ge_sha256 E = sha \<Longrightarrow>
    ge_refund_to E = gr_refund_to q \<Longrightarrow>
    gd_post_deploy E (gr_code_hash q) (gr_initial_balance q) (gr_deploy_deposit q) (gw_state w) = Inr r \<Longrightarrow>
    gd_reach sha self s0 \<lparr> gw_state = gu_state r, gw_code = Some (gr_code q), gw_receipts = xs @ ys, gw_log = gw_log w @ gu_events r \<rparr>"
| failed: "gd_reach sha self s0 w \<Longrightarrow> gw_receipts w = xs @ q # ys \<Longrightarrow> gd_reach sha self s0 (w\<lparr>gw_receipts := xs @ ys\<rparr>)"

subsection \<open>What the events say\<close>

fun gd_apply :: "gd_event \<Rightarrow> gd_state \<Rightarrow> gd_state" where
  "gd_apply (GdApprove h _) s = s\<lparr>gd_approved_hash := h\<rparr>"
| "gd_apply (GdDeploy h) s = s\<lparr>gd_code_hash := h\<rparr>"
| "gd_apply (GdTransfer _ a) s = s\<lparr>gd_owner_id := a\<rparr>"

definition is_approval :: "gd_event \<Rightarrow> bool" where
  "is_approval ev \<longleftrightarrow> (case ev of GdApprove _ _ \<Rightarrow> True | _ \<Rightarrow> False)"

text \<open>
  After the events \<open>l\<close> the hash \<open>h\<close> is approved and the approval not used: by the owner of that time, or
  in the initial state.
\<close>

definition licensed :: "gd_state \<Rightarrow> gd_event list \<Rightarrow> byte list \<Rightarrow> bool" where
  "licensed s0 l h \<longleftrightarrow> gd_approved_hash s0 = h \<and> \<not> list_ex is_approval l \<or>
     (\<exists>a b. l = a @ GdApprove h (ByOwner (gd_owner_id (fold gd_apply a s0))) # b \<and> \<not> list_ex is_approval b)"

lemmas gd_defs = gd_approve_def gd_deploy_def gd_post_deploy_def gd_transfer_ownership_def gd_approve_hash_def Let_def result_simps

lemma fold_approved: "\<not> list_ex is_approval l \<Longrightarrow> gd_approved_hash (fold gd_apply l s) = gd_approved_hash s"
proof (induction l arbitrary: s)
  case (Cons ev l)
  then show ?case by (cases ev) (auto simp: is_approval_def)
qed simp

text \<open>
  The histories a deployer may have: approvals by the owner of the time, transfers of ownership, which
  clear the approval, and deployments of licensed code, which use the approval up.
\<close>

inductive gd_history :: "gd_state \<Rightarrow> gd_event list \<Rightarrow> bool" for s0 where
  nothing: "gd_history s0 []"
| approved: "gd_history s0 l \<Longrightarrow> a = gd_owner_id (fold gd_apply l s0) \<Longrightarrow> gd_history s0 (l @ [GdApprove h (ByOwner a)])"
| transferred: "gd_history s0 l \<Longrightarrow> a = gd_owner_id (fold gd_apply l s0) \<Longrightarrow> a \<noteq> b \<Longrightarrow>
    gd_history s0 (l @ [GdTransfer a b, GdApprove DEFAULT_HASH (ByOwner b)])"
| deployed: "gd_history s0 l \<Longrightarrow> licensed s0 l h \<Longrightarrow> gd_history s0 (l @ [GdDeploy h, GdApprove DEFAULT_HASH (ByDeploy h)])"

lemma history_licensed:
  "gd_history s0 l \<Longrightarrow> gd_approved_hash (fold gd_apply l s0) = h \<Longrightarrow> h \<noteq> DEFAULT_HASH \<Longrightarrow> licensed s0 l h"
proof (induction rule: gd_history.induct)
  case (approved l a h')
  then have "h' = h" "a = gd_owner_id (fold gd_apply l s0)" by simp_all
  then show ?case unfolding licensed_def by (intro disjI2 exI [of _ l] exI [of _ "[]"]) simp
qed (auto simp: licensed_def)

lemma gd_do_Inr:
  assumes "gd_do E c s = Inr r"
  obtains (approve) h where "gd_owner_id s = ge_predecessor E" "gu_state r = s\<lparr>gd_approved_hash := h\<rparr>"
      "gu_events r = [GdApprove h (ByOwner (ge_predecessor E))]" "gu_receipts r = []"
    | (deploy) q where "gu_state r = s" "gu_events r = []" "gu_receipts r = [q]" "gr_code_hash q = ge_sha256 E (gr_code q)"
    | (transfer) a where "gd_owner_id s = ge_predecessor E" "gd_owner_id s \<noteq> a" "gu_receipts r = []"
      "gu_state r = s\<lparr>gd_owner_id := a, gd_approved_hash := DEFAULT_HASH\<rparr>"
      "gu_events r = [GdTransfer (gd_owner_id s) a, GdApprove DEFAULT_HASH (ByOwner a)]"
  using assms by (cases c) (auto simp: gd_defs)

lemma gd_post_deploy_Inr:
  assumes "gd_post_deploy E h b d s = Inr r"
  shows "gd_approved_hash s = h" and "gu_state r = s\<lparr>gd_code_hash := h, gd_approved_hash := DEFAULT_HASH\<rparr>"
    and "gu_events r = [GdDeploy h, GdApprove DEFAULT_HASH (ByDeploy h)]" and "gu_receipts r = []"
    and "sum_list (map snd (gu_refunds r)) = min (ge_account_balance E - b) d"
  using assms by (auto simp: gd_defs)

definition world_ok :: "(byte list \<Rightarrow> byte list) \<Rightarrow> gd_state \<Rightarrow> gd_world \<Rightarrow> bool" where
  "world_ok sha s0 w \<longleftrightarrow> gd_history s0 (gw_log w) \<and> gw_state w = fold gd_apply (gw_log w) s0 \<and>
     (\<forall>q \<in> set (gw_receipts w). gr_code_hash q = sha (gr_code q)) \<and>
     (\<forall>c. gw_code w = Some c \<longrightarrow> gd_code_hash (gw_state w) = sha c)"

lemma reach_ok:
  assumes "\<forall>c. sha c \<noteq> DEFAULT_HASH" and "gd_reach sha self s0 w"
  shows "world_ok sha s0 w"
  using assms(2)
proof induction
  case start
  show ?case by (simp add: world_ok_def gd_history.nothing)
next
  case (call w E c r)
  from call(4) show ?case
  proof (cases rule: gd_do_Inr)
    case (approve h)
    then show ?thesis using call by (auto simp: world_ok_def intro: gd_history.approved)
  next
    case (deploy q)
    then show ?thesis using call by (auto simp: world_ok_def)
  next
    case (transfer a)
    then show ?thesis using call gd_history.transferred [of s0 "gw_log w"] by (auto simp: world_ok_def)
  qed
next
  case (deployed w xs q ys E r)
  note post = gd_post_deploy_Inr [OF deployed(6)]
  have h: "gr_code_hash q = sha (gr_code q)" using deployed by (simp add: world_ok_def)
  then have "licensed s0 (gw_log w) (gr_code_hash q)"
    using deployed post(1) assms(1) history_licensed [of s0 "gw_log w" "gr_code_hash q"] by (simp add: world_ok_def)
  then show ?case using deployed post h by (auto simp: world_ok_def intro: gd_history.deployed)
next
  case (failed w xs q ys)
  then show ?case by (auto simp: world_ok_def)
qed

text \<open>
  C31: Only approved code is deployed. Whatever calls and deployments interleave, the events of a
  deployer are a history in which each deployment uses up an approval of its very hash, given by the
  owner of that time or pre-approved in the initial state, not withdrawn by a later approval, a transfer of ownership or
  another deployment; the events determine the state; and the code that is published has the hash
  that the contract reports.
\<close>

theorem only_approved_code:
  assumes "\<forall>c. sha c \<noteq> DEFAULT_HASH" and "gd_reach sha self s0 w"
  shows "gd_history s0 (gw_log w) \<and> gw_state w = fold gd_apply (gw_log w) s0 \<and>
    (case gw_code w of None \<Rightarrow> True | Some c \<Rightarrow> gd_code_hash (gw_state w) = sha c)"
  using reach_ok [OF assms] by (auto simp: world_ok_def split: option.splits)

text \<open>The owner and the approval are changed by the owner only.\<close>

interpretation deployer: administered gd_step ge_predecessor gd_owner_id "\<lambda>s. (gd_owner_id s, gd_approved_hash s, gd_code_hash s)"
proof
  fix e c s s'
  assume "gd_step e c s = Inr s'"
  then obtain r where r: "gd_do e c s = Inr r" "s' = gu_state r" by (auto simp: gd_step_def map_sum_Inr)
  from r(1) have "ge_predecessor e = gd_owner_id s \<or> s' = s" by (cases rule: gd_do_Inr) (auto simp: r(2))
  then show "(gd_owner_id s', gd_approved_hash s', gd_code_hash s') \<noteq> (gd_owner_id s, gd_approved_hash s, gd_code_hash s) \<Longrightarrow>
    ge_predecessor e = gd_owner_id s" by auto
qed simp

lemma deployer_owner_only:
  "run_owned gd_step cs s = Inr s' \<Longrightarrow> \<forall>(E, c) \<in> set cs. ge_predecessor E \<noteq> gd_owner_id s \<Longrightarrow> s' = s"
  using deployer.others_keep [of cs s s'] by (auto intro: gd_state.equality)

lemma gd_refund_bounds:
  "gd_post_deploy E h b d s = Inr r \<Longrightarrow> sum_list (map snd (gu_refunds r)) \<le> d \<and>
     (b \<le> ge_account_balance E \<longrightarrow> b \<le> ge_account_balance E - sum_list (map snd (gu_refunds r)))"
  by (drule gd_post_deploy_Inr(5)) auto

lemma readable_gd_storage:
  assumes "gd_as_storage s = Some b" "gd_as_storage s' = Some b"
    and "length (gd_code_hash s) = 32" "length (gd_code_hash s') = 32"
  shows "s = s'"
proof -
  obtain x y where enc: "e_account_id (gd_owner_id s) = Some x" "e_account_id (gd_owner_id s') = Some y"
    "x @ gd_code_hash s @ gd_approved_hash s = y @ gd_code_hash s' @ gd_approved_hash s'"
    using assms(1,2) by (auto simp: gd_as_storage_def e_gd_state_def e_array_def e_seq_Some)
  from readableD [OF readable_string _ _ enc [unfolded e_account_id_def]] have "gd_owner_id s = gd_owner_id s'"
    "gd_code_hash s @ gd_approved_hash s = gd_code_hash s' @ gd_approved_hash s'" by auto
  then show ?thesis using assms(3,4) by (intro gd_state.equality) auto
qed

end
