(* ===== verification/OutlayerApp.thy ===== *)
theory OutlayerApp
  imports Ownership SignedMessages NearPromises
begin

text \<open>
  The outlayer application (\<open>contracts/outlayer/app/src\<close>), which records the hash of the approved code and
  where to fetch it, and the treasury logger (\<open>contracts/treasury-logger/src\<close>), which numbers the
  deposits it receives.
\<close>

subsection \<open>Outlayer application\<close>

record oa_state =
  oa_admin_id :: account_id
  oa_code_hash :: "byte list"
  oa_code_url :: string

definition oa_new :: "account_id \<Rightarrow> oa_state" where
  "oa_new a = \<lparr> oa_admin_id = a, oa_code_hash = replicate 32 0, oa_code_url = [] \<rparr>"

definition with_code_hash :: "byte list \<Rightarrow> oa_state \<Rightarrow> oa_state" where
  "with_code_hash h s = s\<lparr>oa_code_hash := h\<rparr>"

definition with_code :: "(byte list \<Rightarrow> byte list) \<Rightarrow> byte list \<Rightarrow> oa_state \<Rightarrow> oa_state" where
  "with_code sha code s = with_code_hash (sha code) s"

definition with_code_url :: "string \<Rightarrow> oa_state \<Rightarrow> oa_state" where
  "with_code_url url s = s\<lparr>oa_code_url := url\<rparr>"

definition oa_as_storage :: "oa_state \<Rightarrow> (byte list \<times> byte list) list option" where
  "oa_as_storage s = map_option (\<lambda>b. [([], b)])
     (e_seq (e_account_id (oa_admin_id s)) (e_seq (e_array (oa_code_hash s)) (e_string (oa_code_url s))))"

datatype oa_error = OaInsufficientDeposit | OaRequireOneYocto | OaSelfTransfer | OaUnauthorized | OaWrongCodeHash

datatype oa_event = SetCode "byte list" string | TransferAdmin account_id account_id

record oa_env =
  oe_predecessor :: account_id
  oe_attached_deposit :: nat

definition set_code :: "oa_env \<Rightarrow> byte list \<Rightarrow> byte list \<Rightarrow> string \<Rightarrow> oa_state \<Rightarrow> oa_error + (oa_state \<times> oa_event)" where
  "set_code E old_code_hash new_code_hash new_code_url s =
     bind_r (require_r (oe_attached_deposit E \<noteq> 0) OaInsufficientDeposit) (\<lambda>_.
     bind_r (require_r (oa_admin_id s = oe_predecessor E) OaUnauthorized) (\<lambda>_.
     bind_r (require_r (oa_code_hash s = old_code_hash) OaWrongCodeHash) (\<lambda>_.
     Inr (s\<lparr>oa_code_hash := new_code_hash, oa_code_url := new_code_url\<rparr>, SetCode new_code_hash new_code_url))))"

definition transfer_admin :: "oa_env \<Rightarrow> account_id \<Rightarrow> oa_state \<Rightarrow> oa_error + (oa_state \<times> oa_event)" where
  "transfer_admin E new_admin s =
     bind_r (require_r (oe_attached_deposit E = 1) OaRequireOneYocto) (\<lambda>_.
     bind_r (require_r (oa_admin_id s = oe_predecessor E) OaUnauthorized) (\<lambda>_.
     bind_r (require_r (oa_admin_id s \<noteq> new_admin) OaSelfTransfer) (\<lambda>_.
     Inr (s\<lparr>oa_admin_id := new_admin\<rparr>, TransferAdmin (oa_admin_id s) new_admin))))"

datatype oa_call = CallSetCode "byte list" "byte list" string | CallTransferAdmin account_id

fun oa_do :: "oa_env \<Rightarrow> oa_call \<Rightarrow> oa_state \<Rightarrow> oa_error + (oa_state \<times> oa_event)" where
  "oa_do E (CallSetCode old new url) s = set_code E old new url s"
| "oa_do E (CallTransferAdmin a) s = transfer_admin E a s"

definition oa_step :: "oa_env \<Rightarrow> oa_call \<Rightarrow> oa_state \<Rightarrow> oa_error + oa_state" where
  "oa_step E c s = map_sum id fst (oa_do E c s)"

text \<open>Everything the application says is under the control of its administrator.\<close>

interpretation outlayer: administered oa_step oe_predecessor oa_admin_id "\<lambda>s. s"
proof
  fix E c s s'
  assume "oa_step E c s = Inr s'"
  then show "oe_predecessor E = oa_admin_id s"
    by (cases c) (auto simp: oa_step_def map_sum_Inr set_code_def transfer_admin_def result_simps)
qed simp

lemma outlayer_admin_only:
  "run_owned oa_step cs s = Inr s' \<Longrightarrow> \<forall>(E, c) \<in> set cs. oe_predecessor E \<noteq> oa_admin_id s \<Longrightarrow> s' = s"
  by (rule outlayer.others_keep)

text \<open>An update that names another hash than the current one is rejected: of two concurrent updates of one hash only one wins.\<close>

lemma set_code_once:
  assumes "set_code E old new url s = Inr (s', ev)" and "new \<noteq> old"
  shows "\<not> is_ok (set_code E' old new' url' s')"
  using assms by (auto simp: set_code_def result_simps is_ok_Ex)

subsection \<open>Treasury logger\<close>

record logger_state =
  lg_nonce :: nat

record logger_event =
  le_token :: account_id
  le_sender_id :: account_id
  le_previous_owner_ids :: "account_id list"
  le_token_ids :: "string list"
  le_amounts :: "nat list"
  le_msg :: string
  le_nonce :: nat

definition logger_next_nonce :: "logger_state \<Rightarrow> string + (nat \<times> logger_state)" where
  "logger_next_nonce s = bind_r (ok_or (checked_add_u 128 (lg_nonce s) 1) ''nonce overflow'') (\<lambda>n. Inr (lg_nonce s, s\<lparr>lg_nonce := n\<rparr>))"

definition logger_mt_on_transfer ::
  "account_id \<Rightarrow> account_id \<Rightarrow> account_id \<Rightarrow> account_id list \<Rightarrow> string list \<Rightarrow> nat list \<Rightarrow> string \<Rightarrow> logger_state \<Rightarrow>
     string + (logger_state \<times> logger_event \<times> nat list)"
where
  "logger_mt_on_transfer current token sender previous_owner_ids token_ids amounts msg s =
     bind_r (require_r (token \<noteq> current) ''self-deposits are forbidden'') (\<lambda>_.
     bind_r (require_r (amounts \<noteq> []) ''invalid args'') (\<lambda>_.
     bind_r (require_r (length token_ids = length amounts) ''token_ids and amounts length mismatch'') (\<lambda>_.
     bind_r (require_r (length token_ids = length previous_owner_ids) ''token_ids and previous_owner_ids length mismatch'') (\<lambda>_.
     bind_r (require_r (list_all (\<lambda>a. a > 0) amounts) ''zero amount'') (\<lambda>_.
     bind_r (logger_next_nonce s) (\<lambda>(n, s').
     Inr (s', \<lparr> le_token = token, le_sender_id = sender, le_previous_owner_ids = previous_owner_ids, le_token_ids = token_ids,
            le_amounts = amounts, le_msg = msg, le_nonce = n \<rparr>, replicate (length amounts) 0)))))))"

text \<open>The deposits of a sequence of calls, failing ones being reverted.\<close>

fun logged :: "(account_id \<times> account_id \<times> account_id \<times> account_id list \<times> string list \<times> nat list \<times> string) list \<Rightarrow> logger_state \<Rightarrow>
    logger_event list \<times> logger_state" where
  "logged [] s = ([], s)"
| "logged ((current, token, sender, owners, ids, amounts, msg) # cs) s =
     (case logger_mt_on_transfer current token sender owners ids amounts msg s of
        Inl _ \<Rightarrow> logged cs s
      | Inr (s', ev, _) \<Rightarrow> (case logged cs s' of (evs, s'') \<Rightarrow> (ev # evs, s'')))"

lemma logger_mt_on_transfer_Inr:
  "logger_mt_on_transfer current token sender owners ids amounts msg s = Inr (s', ev, res) \<Longrightarrow>
     le_nonce ev = lg_nonce s \<and> lg_nonce s' = Suc (lg_nonce s) \<and> sum_list res = 0"
  by (auto simp: logger_mt_on_transfer_def logger_next_nonce_def result_simps checked_add_u_def fit_u_def split: if_splits)

text \<open>The logged deposits are numbered without gaps, whatever calls fail in between.\<close>

lemma logged_nonces: "logged cs s = (evs, s') \<Longrightarrow> map le_nonce evs = [lg_nonce s ..< lg_nonce s'] \<and> lg_nonce s \<le> lg_nonce s'"
proof (induction cs s arbitrary: evs s' rule: logged.induct)
  case (2 current token sender owners ids amounts msg cs s)
  show ?case
  proof (cases "logger_mt_on_transfer current token sender owners ids amounts msg s")
    case (Inl e)
    then show ?thesis using 2 by simp
  next
    case (Inr x)
    obtain s1 ev res where x: "x = (s1, ev, res)" by (cases x)
    obtain evs1 s2 where l: "logged cs s1 = (evs1, s2)" by (cases "logged cs s1")
    then have "map le_nonce evs1 = [lg_nonce s1 ..< lg_nonce s2] \<and> lg_nonce s1 \<le> lg_nonce s2"
      using 2(2) [OF Inr [unfolded x] refl refl] by blast
    then show ?thesis using 2(3) l Inr logger_mt_on_transfer_Inr [OF Inr [unfolded x]]
      by (auto simp: x upt_conv_Cons)
  qed
qed simp

end
