(* ===== verification/Poa.thy ===== *)
theory Poa
  imports Ownership NearPromises
begin

text \<open>
  The proof of authority bridge: the token (\<open>contracts/poa/token/src\<close>), which only its owner may mint and
  which burns what is transferred to itself with a withdrawal memo, and the factory that deploys
  tokens and deposits into them (\<open>contracts/poa/factory/src\<close>). The fungible token of the standard
  library is the record \<open>ft_lib\<close> over its own state \<open>'s\<close>; \<open>None\<close> is a panic there. Roles and pauses of the
  plugins, storage costs and the syntax of account ids come with the environment.
\<close>

record ft_metadata =
  md_spec :: string
  md_name :: string
  md_symbol :: string
  md_icon :: "string option"
  md_reference :: "string option"
  md_reference_hash :: "byte list option"
  md_decimals :: nat

record poa_env =
  pv_current :: account_id
  pv_predecessor :: account_id
  pv_attached_deposit :: nat
  pv_prepaid_gas :: gas
  pv_used_gas :: gas
  pv_storage_byte_cost :: nat
  pv_insert_usage :: "string \<Rightarrow> nat"
  pv_paused :: "string \<Rightarrow> bool"
  pv_parse :: "string \<Rightarrow> account_id option"

record 's ft_lib =
  fl_new :: 's
  fl_spec :: string
  fl_metadata_valid :: "ft_metadata \<Rightarrow> bool"
  fl_storage_deposit :: "poa_env \<Rightarrow> account_id option \<Rightarrow> bool option \<Rightarrow> 's \<Rightarrow> 's option"
  fl_storage_withdraw :: "poa_env \<Rightarrow> nat option \<Rightarrow> 's \<Rightarrow> 's option"
  fl_storage_unregister :: "poa_env \<Rightarrow> bool option \<Rightarrow> 's \<Rightarrow> 's option"
  fl_internal_deposit :: "account_id \<Rightarrow> nat \<Rightarrow> 's \<Rightarrow> 's option"
  fl_internal_withdraw :: "account_id \<Rightarrow> nat \<Rightarrow> 's \<Rightarrow> 's option"
  fl_ft_transfer :: "poa_env \<Rightarrow> account_id \<Rightarrow> nat \<Rightarrow> string option \<Rightarrow> 's \<Rightarrow> 's option"
  fl_ft_transfer_call :: "poa_env \<Rightarrow> account_id \<Rightarrow> nat \<Rightarrow> string option \<Rightarrow> string \<Rightarrow> 's \<Rightarrow> 's option"
  fl_ft_resolve_transfer :: "poa_env \<Rightarrow> account_id \<Rightarrow> account_id \<Rightarrow> nat \<Rightarrow> 's \<Rightarrow> 's option"
  fl_total_supply :: "'s \<Rightarrow> nat"
  fl_balance_of :: "'s \<Rightarrow> account_id \<Rightarrow> nat"

subsection \<open>The token\<close>

definition WITHDRAW_MEMO_PREFIX :: string where
  "WITHDRAW_MEMO_PREFIX = ''WITHDRAW_TO:''"

definition withdraw_to :: "string \<Rightarrow> string" where
  "withdraw_to address = WITHDRAW_MEMO_PREFIX @ address"

record 's poa_token =
  pt_token :: 's
  pt_metadata :: ft_metadata
  pt_owner :: "account_id option"

datatype ft_event = FtMint account_id nat "string option" | FtBurn account_id nat "string option" | OwnershipTransferred "account_id option" "account_id option"

type_synonym 's token_run = "string + ('s poa_token \<times> ft_event list)"

definition default_metadata :: "'s ft_lib \<Rightarrow> ft_metadata" where
  "default_metadata F = \<lparr> md_spec = fl_spec F, md_name = [], md_symbol = [], md_icon = None, md_reference = None,
     md_reference_hash = None, md_decimals = 0 \<rparr>"

definition poa_token_new :: "'s ft_lib \<Rightarrow> poa_env \<Rightarrow> account_id option \<Rightarrow> ft_metadata option \<Rightarrow> 's token_run" where
  "poa_token_new F E owner_opt metadata =
     (let metadata = (case metadata of None \<Rightarrow> default_metadata F | Some m \<Rightarrow> m) in
     bind_r (require_r (fl_metadata_valid F metadata) ''invalid metadata'') (\<lambda>_.
     let owner = (case owner_opt of None \<Rightarrow> pv_predecessor E | Some a \<Rightarrow> a) in
     Inr (\<lparr> pt_token = fl_new F, pt_metadata = metadata, pt_owner = Some owner \<rparr>, [OwnershipTransferred None (Some owner)])))"

definition only_self_owner :: "poa_env \<Rightarrow> 's poa_token \<Rightarrow> string + unit" where
  "only_self_owner E t = require_r (pv_predecessor E = pv_current E \<or> pt_owner t = Some (pv_predecessor E))
     ''Method is private''"

definition one_yocto :: "poa_env \<Rightarrow> string + unit" where
  "one_yocto E = require_r (pv_attached_deposit E = 1) ''Requires attached deposit of exactly 1 yoctoNEAR''"

definition lib :: "'s option \<Rightarrow> 's poa_token \<Rightarrow> string + 's poa_token" where
  "lib x t = map_sum id (\<lambda>u. t\<lparr>pt_token := u\<rparr>) (ok_or x ''panic in the fungible token'')"

definition token_set_metadata :: "'s ft_lib \<Rightarrow> poa_env \<Rightarrow> ft_metadata \<Rightarrow> 's poa_token \<Rightarrow> 's token_run" where
  "token_set_metadata F E m t =
     bind_r (only_self_owner E t) (\<lambda>_.
     bind_r (one_yocto E) (\<lambda>_.
     bind_r (require_r (fl_metadata_valid F m) ''invalid metadata'') (\<lambda>_.
     Inr (t\<lparr>pt_metadata := m\<rparr>, []))))"

definition token_ft_deposit :: "'s ft_lib \<Rightarrow> poa_env \<Rightarrow> account_id \<Rightarrow> nat \<Rightarrow> string option \<Rightarrow> 's poa_token \<Rightarrow> 's token_run" where
  "token_ft_deposit F E a amount memo t =
     bind_r (only_self_owner E t) (\<lambda>_.
     bind_r (lib (fl_storage_deposit F E (Some a) None (pt_token t)) t) (\<lambda>t.
     bind_r (lib (fl_internal_deposit F a amount (pt_token t)) t) (\<lambda>t.
     Inr (t, [FtMint a amount memo]))))"

definition token_ft_withdraw :: "'s ft_lib \<Rightarrow> poa_env \<Rightarrow> account_id \<Rightarrow> nat \<Rightarrow> string option \<Rightarrow> 's poa_token \<Rightarrow> 's token_run" where
  "token_ft_withdraw F E a amount memo t =
     bind_r (one_yocto E) (\<lambda>_.
     bind_r (require_r (amount > 0) ''zero amount'') (\<lambda>_.
     bind_r (lib (fl_internal_withdraw F a amount (pt_token t)) t) (\<lambda>t.
     Inr (t, [FtBurn a amount memo]))))"

definition token_ft_transfer :: "'s ft_lib \<Rightarrow> poa_env \<Rightarrow> account_id \<Rightarrow> nat \<Rightarrow> string option \<Rightarrow> 's poa_token \<Rightarrow> 's token_run" where
  "token_ft_transfer F E receiver amount memo t =
     (if receiver = pv_current E \<and> (case memo of None \<Rightarrow> False | Some m \<Rightarrow> take (length WITHDRAW_MEMO_PREFIX) m = WITHDRAW_MEMO_PREFIX)
      then token_ft_withdraw F E (pv_predecessor E) amount memo t
      else map_sum id (\<lambda>t. (t, [])) (lib (fl_ft_transfer F E receiver amount memo (pt_token t)) t))"

definition private_token :: "poa_env \<Rightarrow> string + unit" where
  "private_token E = require_r (pv_predecessor E = pv_current E) ''Method is private''"

text \<open>The methods of a token; with \<open>no_registration\<close> only the owner registers accounts.\<close>

datatype token_call =
    TSetMetadata ft_metadata
  | TFtDeposit account_id nat "string option"
  | TFtTransfer account_id nat "string option"
  | TFtTransferCall account_id nat "string option" string
  | TFtResolveTransfer account_id account_id nat
  | TStorageDeposit "account_id option" "bool option"
  | TStorageWithdraw "nat option"
  | TStorageUnregister "bool option"

definition plain :: "'s option \<Rightarrow> 's poa_token \<Rightarrow> 's token_run" where
  "plain x t = map_sum id (\<lambda>t. (t, [])) (lib x t)"

fun token_do :: "'s ft_lib \<Rightarrow> bool \<Rightarrow> poa_env \<Rightarrow> token_call \<Rightarrow> 's poa_token \<Rightarrow> 's token_run" where
  "token_do F no_registration E (TSetMetadata m) t = token_set_metadata F E m t"
| "token_do F no_registration E (TFtDeposit a n memo) t = token_ft_deposit F E a n memo t"
| "token_do F no_registration E (TFtTransfer a n memo) t = token_ft_transfer F E a n memo t"
| "token_do F no_registration E (TFtTransferCall a n memo msg) t = plain (fl_ft_transfer_call F E a n memo msg (pt_token t)) t"
| "token_do F no_registration E (TFtResolveTransfer a b n) t =
     bind_r (private_token E) (\<lambda>_. plain (fl_ft_resolve_transfer F E a b n (pt_token t)) t)"
| "token_do F no_registration E (TStorageDeposit a r) t =
     bind_r (if no_registration then only_self_owner E t else Inr ()) (\<lambda>_. plain (fl_storage_deposit F E a r (pt_token t)) t)"
| "token_do F no_registration E (TStorageWithdraw n) t = plain (fl_storage_withdraw F E n (pt_token t)) t"
| "token_do F no_registration E (TStorageUnregister f) t = plain (fl_storage_unregister F E f (pt_token t)) t"

subsection \<open>The factory\<close>

datatype poa_role = PoaDAO | TokenDeployer | TokenDepositer | PauseManager | UnpauseManager

record poa_factory =
  pf_tokens :: "string list"
  pf_bridge_token_storage_deposit_required :: nat

definition POA_TOKEN_INIT_BALANCE :: nat where
  "POA_TOKEN_INIT_BALANCE = 3 * 10 ^ 24"

definition POA_TOKEN_NEW_GAS :: gas where "POA_TOKEN_NEW_GAS = tgas 10"

definition POA_TOKEN_FT_DEPOSIT_GAS :: gas where "POA_TOKEN_FT_DEPOSIT_GAS = tgas 10"

definition POA_TOKEN_FT_TRANSFER_CALL_MIN_GAS :: gas where "POA_TOKEN_FT_TRANSFER_CALL_MIN_GAS = tgas 30"

definition factory_new :: "poa_env \<Rightarrow> nat \<Rightarrow> bool \<Rightarrow> string + poa_factory" where
  "factory_new E account_storage_usage roles_set =
     bind_r (require_r roles_set ''failed to set roles'') (\<lambda>_.
     Inr \<lparr> pf_tokens = [], pf_bridge_token_storage_deposit_required = sat_mul_u 128 (pv_storage_byte_cost E) account_storage_usage \<rparr>)"

definition poa_token_id :: "poa_env \<Rightarrow> string \<Rightarrow> string + account_id" where
  "poa_token_id E token =
     bind_r (require_r (CHR ''.'' \<notin> set token) ''invalid token name'') (\<lambda>_.
     ok_or (pv_parse E (token @ ''.'' @ pv_current E)) ''invalid account id'')"

text \<open>
  A promise is the list of calls it makes, one after another, with the attached deposit: the creation
  of a token account, or a method of a token. The gas is that of the first call.
\<close>

datatype token_message = CreateToken nat gas "ft_metadata option" | CallToken nat token_call

record poa_promise =
  pp_receiver :: account_id
  pp_gas :: "gas option"
  pp_messages :: "token_message list"

definition require_role :: "(poa_role \<Rightarrow> bool) \<Rightarrow> poa_role list \<Rightarrow> string + unit" where
  "require_role has_role rs = require_r (list_ex has_role rs) ''Insufficient permissions''"

definition not_paused_poa :: "poa_env \<Rightarrow> string \<Rightarrow> string + unit" where
  "not_paused_poa E m = require_r (\<not> pv_paused E m) ''Pausable: Method is paused''"

definition deploy_token ::
  "'s ft_lib \<Rightarrow> poa_env \<Rightarrow> (poa_role \<Rightarrow> bool) \<Rightarrow> string \<Rightarrow> ft_metadata option \<Rightarrow> poa_factory \<Rightarrow> string + (poa_factory \<times> poa_promise)"
where
  "deploy_token F E has_role token metadata f =
     bind_r (not_paused_poa E ''deploy_token'') (\<lambda>_.
     bind_r (require_role has_role [PoaDAO, TokenDeployer]) (\<lambda>_.
     bind_r (require_r (case metadata of None \<Rightarrow> True | Some m \<Rightarrow> fl_metadata_valid F m) ''invalid metadata'') (\<lambda>_.
     bind_r (require_r (token \<notin> set (pf_tokens f)) ''token exists'') (\<lambda>_.
     bind_r (require_r (pv_attached_deposit E \<ge> sat_add_u 128 POA_TOKEN_INIT_BALANCE (sat_mul_u 128 (pv_storage_byte_cost E) (pv_insert_usage E token)))
       ''not enough deposit attached to deploy PoA token'') (\<lambda>_.
     bind_r (poa_token_id E token) (\<lambda>a.
     Inr (f\<lparr>pf_tokens := pf_tokens f @ [token]\<rparr>,
       \<lparr> pp_receiver = a, pp_gas = None, pp_messages = [CreateToken POA_TOKEN_INIT_BALANCE POA_TOKEN_NEW_GAS metadata] \<rparr>)))))))"

definition factory_set_metadata ::
  "poa_env \<Rightarrow> (poa_role \<Rightarrow> bool) \<Rightarrow> string \<Rightarrow> ft_metadata \<Rightarrow> poa_factory \<Rightarrow> string + (poa_factory \<times> poa_promise)"
where
  "factory_set_metadata E has_role token m f =
     bind_r (not_paused_poa E ''set_metadata'') (\<lambda>_.
     bind_r (require_role has_role [PoaDAO, TokenDeployer]) (\<lambda>_.
     bind_r (one_yocto E) (\<lambda>_.
     bind_r (require_r (token \<in> set (pf_tokens f)) ''token does not exist'') (\<lambda>_.
     bind_r (poa_token_id E token) (\<lambda>a.
     Inr (f, \<lparr> pp_receiver = a, pp_gas = None, pp_messages = [CallToken 1 (TSetMetadata m)] \<rparr>))))))"

definition factory_ft_deposit ::
  "poa_env \<Rightarrow> (poa_role \<Rightarrow> bool) \<Rightarrow> string \<Rightarrow> account_id \<Rightarrow> nat \<Rightarrow> string option \<Rightarrow> string option \<Rightarrow> poa_factory \<Rightarrow>
     string + (poa_factory \<times> poa_promise)"
where
  "factory_ft_deposit E has_role token a amount msg memo f =
     bind_r (not_paused_poa E ''ft_deposit'') (\<lambda>_.
     bind_r (require_role has_role [PoaDAO, TokenDepositer]) (\<lambda>_.
     bind_r (require_r (pv_attached_deposit E \<ge> pf_bridge_token_storage_deposit_required f)
       ''not enough deposit attached for token storage_deposit'') (\<lambda>_.
     bind_r (require_r (token \<in> set (pf_tokens f)) ''token does not exist'') (\<lambda>_.
     bind_r (poa_token_id E token) (\<lambda>token_account.
     case msg of
       Some msg \<Rightarrow>
         bind_r (require_r (pv_prepaid_gas E - pv_used_gas E > sat_add_u 64 POA_TOKEN_FT_DEPOSIT_GAS POA_TOKEN_FT_TRANSFER_CALL_MIN_GAS)
           ''insufficient gas'') (\<lambda>_.
         Inr (f, \<lparr> pp_receiver = token_account, pp_gas = Some POA_TOKEN_FT_DEPOSIT_GAS, pp_messages =
           [CallToken (pv_attached_deposit E) (TFtDeposit (pv_current E) amount None),
            CallToken 1 (TFtTransferCall a amount memo msg)] \<rparr>))
     | None \<Rightarrow>
         Inr (f, \<lparr> pp_receiver = token_account, pp_gas = Some POA_TOKEN_FT_DEPOSIT_GAS, pp_messages =
           [CallToken (pv_attached_deposit E) (TFtDeposit a amount memo)] \<rparr>))))))"

definition factory_tokens :: "poa_env \<Rightarrow> poa_factory \<Rightarrow> string + (string \<times> account_id) list" where
  "factory_tokens E f = fold_r (\<lambda>token acc. bind_r (poa_token_id E token) (\<lambda>a. Inr (acc @ [(token, a)]))) (pf_tokens f) []"

datatype factory_call =
    FDeployToken string "ft_metadata option"
  | FSetMetadata string ft_metadata
  | FFtDeposit string account_id nat "string option" "string option"

fun factory_do :: "'s ft_lib \<Rightarrow> poa_env \<Rightarrow> (poa_role \<Rightarrow> bool) \<Rightarrow> factory_call \<Rightarrow> poa_factory \<Rightarrow> string + (poa_factory \<times> poa_promise)" where
  "factory_do F E has_role (FDeployToken token m) f = deploy_token F E has_role token m f"
| "factory_do F E has_role (FSetMetadata token m) f = factory_set_metadata E has_role token m f"
| "factory_do F E has_role (FFtDeposit token a n msg memo) f = factory_ft_deposit E has_role token a n msg memo f"

text \<open>Keys of the account itself: the promise of the account to add or delete a key, for the owner of a token or the DAO.\<close>

datatype key_promise = AddFullAccessKey string | DeleteKey string

definition token_full_access_key :: "poa_env \<Rightarrow> key_promise \<Rightarrow> 's poa_token \<Rightarrow> string + (account_id \<times> key_promise)" where
  "token_full_access_key E p t =
     bind_r (only_self_owner E t) (\<lambda>_. bind_r (one_yocto E) (\<lambda>_. Inr (pv_current E, p)))"

definition factory_full_access_key :: "poa_env \<Rightarrow> (poa_role \<Rightarrow> bool) \<Rightarrow> key_promise \<Rightarrow> string + (account_id \<times> key_promise)" where
  "factory_full_access_key E has_role p =
     bind_r (require_role has_role [PoaDAO]) (\<lambda>_. bind_r (one_yocto E) (\<lambda>_. Inr (pv_current E, p)))"

end
