(* ===== verification/PoaLaws.thy ===== *)
theory PoaLaws
  imports Poa
begin

text \<open>
  The factory and its tokens together: calls of anybody to the factory and to the tokens interleave
  with the delivery of the factory's promises, and still nothing is minted but what a depositer of the
  factory asked for.
\<close>

text \<open>What is relied on of the fungible token of the standard library, about its total supply only.\<close>

definition ft_ok :: "'s ft_lib \<Rightarrow> bool" where
  "ft_ok F \<longleftrightarrow> fl_total_supply F (fl_new F) = 0 \<and>
     (\<forall>a n s s'. fl_internal_deposit F a n s = Some s' \<longrightarrow> fl_total_supply F s' = fl_total_supply F s + n) \<and>
     (\<forall>a n s s'. fl_internal_withdraw F a n s = Some s' \<longrightarrow> fl_total_supply F s' + n = fl_total_supply F s) \<and>
     (\<forall>E a r s s'. fl_storage_deposit F E a r s = Some s' \<longrightarrow> fl_total_supply F s' \<le> fl_total_supply F s) \<and>
     (\<forall>E n s s'. fl_storage_withdraw F E n s = Some s' \<longrightarrow> fl_total_supply F s' \<le> fl_total_supply F s) \<and>
     (\<forall>E f s s'. fl_storage_unregister F E f s = Some s' \<longrightarrow> fl_total_supply F s' \<le> fl_total_supply F s) \<and>
     (\<forall>E a n m s s'. fl_ft_transfer F E a n m s = Some s' \<longrightarrow> fl_total_supply F s' \<le> fl_total_supply F s) \<and>
     (\<forall>E a n m g s s'. fl_ft_transfer_call F E a n m g s = Some s' \<longrightarrow> fl_total_supply F s' \<le> fl_total_supply F s) \<and>
     (\<forall>E a b n s s'. fl_ft_resolve_transfer F E a b n s = Some s' \<longrightarrow> fl_total_supply F s' \<le> fl_total_supply F s)"

lemma ft_okD:
  assumes "ft_ok F"
  shows "fl_total_supply F (fl_new F) = 0"
    and "fl_internal_deposit F a n s = Some s' \<Longrightarrow> fl_total_supply F s' = fl_total_supply F s + n"
    and "fl_internal_withdraw F a n s = Some s' \<Longrightarrow> fl_total_supply F s' \<le> fl_total_supply F s"
    and "fl_storage_deposit F E x r s = Some s' \<Longrightarrow> fl_total_supply F s' \<le> fl_total_supply F s"
    and "fl_storage_withdraw F E y s = Some s' \<Longrightarrow> fl_total_supply F s' \<le> fl_total_supply F s"
    and "fl_storage_unregister F E r s = Some s' \<Longrightarrow> fl_total_supply F s' \<le> fl_total_supply F s"
    and "fl_ft_transfer F E a n m s = Some s' \<Longrightarrow> fl_total_supply F s' \<le> fl_total_supply F s"
    and "fl_ft_transfer_call F E a n m g s = Some s' \<Longrightarrow> fl_total_supply F s' \<le> fl_total_supply F s"
    and "fl_ft_resolve_transfer F E a b n s = Some s' \<Longrightarrow> fl_total_supply F s' \<le> fl_total_supply F s"
  using assms unfolding ft_ok_def by (simp_all, metis le_add1)

subsection \<open>The world\<close>

record 's poa_world =
  pw_factory :: poa_factory
  pw_tokens :: "account_id \<Rightarrow> 's poa_token option"
  pw_promises :: "poa_promise list"
  pw_log :: "(poa_env \<times> (poa_role \<Rightarrow> bool) \<times> factory_call) list"

text \<open>A message of a promise on the account it goes to: a token is created only where there is none.\<close>

fun deliver :: "'s ft_lib \<Rightarrow> bool \<Rightarrow> poa_env \<Rightarrow> token_message \<Rightarrow> 's poa_token option \<Rightarrow> 's poa_token option" where
  "deliver F no_registration E (CreateToken _ _ m) None = (case poa_token_new F E None m of Inl _ \<Rightarrow> None | Inr (t, _) \<Rightarrow> Some t)"
| "deliver F no_registration E (CallToken _ c) (Some t) = (case token_do F no_registration E c t of Inl _ \<Rightarrow> Some t | Inr (t', _) \<Rightarrow> Some t')"
| "deliver F no_registration E _ x = x"

inductive poa_reach :: "'s ft_lib \<Rightarrow> bool \<Rightarrow> account_id \<Rightarrow> poa_factory \<Rightarrow> 's poa_world \<Rightarrow> bool" for F nr self f0 where
  start: "poa_reach F nr self f0 \<lparr> pw_factory = f0, pw_tokens = (\<lambda>_. None), pw_promises = [], pw_log = [] \<rparr>"
| factory: "poa_reach F nr self f0 w \<Longrightarrow> pv_current E = self \<Longrightarrow> factory_do F E has_role c (pw_factory w) = Inr (f', p) \<Longrightarrow>
    poa_reach F nr self f0 (w\<lparr>pw_factory := f', pw_promises := pw_promises w @ [p], pw_log := pw_log w @ [(E, has_role, c)]\<rparr>)"
| message: "poa_reach F nr self f0 w \<Longrightarrow> pw_promises w = ps @ p # qs \<Longrightarrow> pp_messages p = m # ms \<Longrightarrow>
    pv_current E = pp_receiver p \<Longrightarrow> pv_predecessor E = self \<Longrightarrow>
    poa_reach F nr self f0 (w\<lparr>pw_promises := ps @ p\<lparr>pp_messages := ms\<rparr> # qs,
      pw_tokens := (pw_tokens w)(pp_receiver p := deliver F nr E m (pw_tokens w (pp_receiver p)))\<rparr>)"
| token: "poa_reach F nr self f0 w \<Longrightarrow> pw_tokens w a = Some t \<Longrightarrow> pv_current E = a \<Longrightarrow> pv_predecessor E \<noteq> self \<Longrightarrow> pv_predecessor E \<noteq> a \<Longrightarrow>
    token_do F nr E c t = Inr (t', evs) \<Longrightarrow> poa_reach F nr self f0 (w\<lparr>pw_tokens := (pw_tokens w)(a \<mapsto> t')\<rparr>)"
| callback: "poa_reach F nr self f0 w \<Longrightarrow> pw_tokens w a = Some t \<Longrightarrow> pv_current E = a \<Longrightarrow> pv_predecessor E = a \<Longrightarrow>
    token_do F nr E (TFtResolveTransfer x y n) t = Inr (t', evs) \<Longrightarrow> poa_reach F nr self f0 (w\<lparr>pw_tokens := (pw_tokens w)(a \<mapsto> t')\<rparr>)"

subsection \<open>What is minted\<close>

definition message_mints :: "token_message \<Rightarrow> nat" where
  "message_mints m = (case m of CallToken _ (TFtDeposit _ n _) \<Rightarrow> n | _ \<Rightarrow> 0)"

definition promise_mints :: "account_id \<Rightarrow> poa_promise \<Rightarrow> nat" where
  "promise_mints a p = (if pp_receiver p = a then sum_list (map message_mints (pp_messages p)) else 0)"

text \<open>What a call of the factory was allowed to deposit into the token at \<open>a\<close>.\<close>

fun allowed_deposit :: "account_id \<Rightarrow> poa_env \<times> (poa_role \<Rightarrow> bool) \<times> factory_call \<Rightarrow> nat" where
  "allowed_deposit a (E, has_role, FFtDeposit token _ n _ _) =
     (if (has_role PoaDAO \<or> has_role TokenDepositer) \<and> \<not> pv_paused E ''ft_deposit'' \<and> poa_token_id E token = Inr a then n else 0)"
| "allowed_deposit a _ = 0"

lemmas poa_defs = result_simps map_sum_Inr Let_def not_paused_poa_def require_role_def one_yocto_def only_self_owner_def private_token_def
  lib_def plain_def

lemma factory_ft_deposit_Inr:
  assumes "factory_ft_deposit E has_role token x n msg memo f = Inr (f', p)"
  shows "has_role PoaDAO \<or> has_role TokenDepositer" and "\<not> pv_paused E ''ft_deposit''" and "poa_token_id E token = Inr (pp_receiver p)"
    and "sum_list (map message_mints (pp_messages p)) = n"
  using assms by (cases msg; force simp: poa_defs factory_ft_deposit_def message_mints_def)+

lemma factory_do_mints:
  assumes "factory_do F E has_role c f = Inr (f', p)"
  shows "promise_mints a p \<le> allowed_deposit a (E, has_role, c)"
proof (cases c)
  case (FFtDeposit token x n msg memo)
  then have "factory_ft_deposit E has_role token x n msg memo f = Inr (f', p)" using assms by simp
  from factory_ft_deposit_Inr [OF this] show ?thesis by (auto simp: FFtDeposit promise_mints_def)
next
  case (FDeployToken token m)
  then have "pp_messages p = [CreateToken POA_TOKEN_INIT_BALANCE POA_TOKEN_NEW_GAS m]"
    using assms by (auto simp: poa_defs deploy_token_def)
  then show ?thesis by (simp add: promise_mints_def message_mints_def)
next
  case (FSetMetadata token m)
  then have "pp_messages p = [CallToken 1 (TSetMetadata m)]" using assms by (auto simp: poa_defs factory_set_metadata_def)
  then show ?thesis by (simp add: promise_mints_def message_mints_def)
qed

definition token_supply :: "'s ft_lib \<Rightarrow> 's poa_token option \<Rightarrow> nat" where
  "token_supply F x = (case x of None \<Rightarrow> 0 | Some t \<Rightarrow> fl_total_supply F (pt_token t))"

lemma token_do_owner: "token_do F nr E c t = Inr (t', evs) \<Longrightarrow> pt_owner t' = pt_owner t"
  by (cases c) (auto simp: poa_defs token_set_metadata_def token_ft_deposit_def token_ft_transfer_def token_ft_withdraw_def split: if_splits)

lemma token_do_supply:
  assumes "ft_ok F" and "token_do F nr E c t = Inr (t', evs)"
  shows "fl_total_supply F (pt_token t') \<le> fl_total_supply F (pt_token t) +
    (case c of TFtDeposit _ n _ \<Rightarrow> if pv_predecessor E = pv_current E \<or> pt_owner t = Some (pv_predecessor E) then n else 0 | _ \<Rightarrow> 0)"
proof (cases c)
  case (TFtDeposit a n memo)
  then obtain u v where "pv_predecessor E = pv_current E \<or> pt_owner t = Some (pv_predecessor E)"
    "fl_storage_deposit F E (Some a) None (pt_token t) = Some u" "fl_internal_deposit F a n u = Some v" "pt_token t' = v"
    using assms(2) by (auto simp: poa_defs token_ft_deposit_def)
  with ft_okD(2,4) [OF assms(1)] show ?thesis by (auto simp: TFtDeposit)
next
  case (TFtTransfer a n memo)
  from assms(2) consider "fl_ft_transfer F E a n memo (pt_token t) = Some (pt_token t')"
    | "fl_internal_withdraw F (pv_predecessor E) n (pt_token t) = Some (pt_token t')"
    by (auto simp: TFtTransfer poa_defs token_ft_transfer_def token_ft_withdraw_def split: if_splits)
  then show ?thesis using ft_okD(3,7) [OF assms(1)] by cases (auto simp: TFtTransfer)
qed (use assms(2) ft_okD(4-6,8,9) [OF assms(1)] in \<open>auto simp: poa_defs token_set_metadata_def split: if_splits\<close>)

definition owned :: "account_id \<Rightarrow> 's poa_token option \<Rightarrow> bool" where
  "owned self x \<longleftrightarrow> (case x of None \<Rightarrow> True | Some t \<Rightarrow> pt_owner t = Some self)"

lemma deliver_supply:
  assumes "ft_ok F" and "owned self x" and "pv_predecessor E = self"
  shows "token_supply F (deliver F nr E m x) \<le> token_supply F x + message_mints m" and "owned self (deliver F nr E m x)"
proof -
  have "token_supply F (deliver F nr E m x) \<le> token_supply F x + message_mints m \<and> owned self (deliver F nr E m x)"
  proof (cases m)
    case (CreateToken d g md)
    then show ?thesis using assms
      by (cases x) (auto simp: poa_token_new_def poa_defs token_supply_def owned_def ft_ok_def split: sum.splits)
  next
    case (CallToken d c)
    show ?thesis
    proof (cases x)
      case (Some t)
      show ?thesis
      proof (cases "token_do F nr E c t")
        case (Inr r)
        then show ?thesis
          using token_do_supply [OF assms(1), of nr E c t "fst r" "snd r"] token_do_owner [of F nr E c t "fst r" "snd r"] assms(2)
          by (cases r; cases c) (auto simp: CallToken Some token_supply_def owned_def message_mints_def split: if_splits)
      qed (use assms(2) in \<open>simp add: CallToken Some\<close>)
    qed (use assms(2) in \<open>simp add: CallToken\<close>)
  qed
  then show "token_supply F (deliver F nr E m x) \<le> token_supply F x + message_mints m" "owned self (deliver F nr E m x)" by blast+
qed

lemma poa_invariant:
  assumes "ft_ok F" and "poa_reach F nr self f0 w"
  shows "owned self (pw_tokens w a) \<and>
    token_supply F (pw_tokens w a) + sum_list (map (promise_mints a) (pw_promises w)) \<le> sum_list (map (allowed_deposit a) (pw_log w))"
  using assms(2)
proof induction
  case start
  show ?case by (simp add: owned_def token_supply_def)
next
  case (factory w E has_role c f' p)
  then show ?case using factory_do_mints [OF factory(3), of a] by simp
next
  case (message w ps p qs m ms E)
  show ?case
  proof (cases "pp_receiver p = a")
    case True
    then show ?thesis using message deliver_supply [OF assms(1) _ message(5), of "pw_tokens w a" nr m]
      by (auto simp: promise_mints_def)
  qed (use message in \<open>simp add: promise_mints_def\<close>)
next
  case (token w b t E c t' evs)
  then show ?case using token_do_supply [OF assms(1) token(6)] token_do_owner [OF token(6)]
    by (cases c) (auto simp: owned_def token_supply_def split: if_splits)
next
  case (callback w b t E x y n t' evs)
  then show ?case using token_do_supply [OF assms(1) callback(5)] token_do_owner [OF callback(5)]
    by (auto simp: owned_def token_supply_def)
qed

text \<open>
  C30: Bridged tokens are minted only for depositers. However calls to the factory, to the tokens and
  the delivery of promises interleave, the total supply of every token is at most the sum of the
  deposits into it that were asked of the factory by holders of the role for deposits, or of the DAO,
  while deposits were not paused; and the token stays owned by the factory.
\<close>

theorem bridge_supply_authorized:
  assumes "ft_ok F" and "poa_reach F nr self f0 w" and "pw_tokens w a = Some t"
  shows "fl_total_supply F (pt_token t) \<le> sum_list (map (allowed_deposit a) (pw_log w)) \<and> pt_owner t = Some self"
  using poa_invariant [OF assms(1,2), of a] assms(3) by (simp add: owned_def token_supply_def)

text \<open>Distinct names give distinct accounts, all of them direct sub-accounts of the factory.\<close>

lemma token_ids_distinct:
  assumes "\<forall>s x. pv_parse E s = Some x \<longrightarrow> x = s" and "poa_token_id E t = Inr a" and "poa_token_id E t' = Inr a"
  shows "t = t' \<and> a = t @ ''.'' @ pv_current E \<and> CHR ''.'' \<notin> set t"
  using assms by (auto simp: poa_token_id_def result_simps)

lemma deploy_token_once:
  assumes "deploy_token F E r token m f = Inr (f', p)"
  shows "\<not> is_ok (deploy_token F E' r' token m' f')"
  using assms by (auto simp: deploy_token_def poa_defs is_ok_Ex)

end
