(* ===== verification/BridgeSamples.thy ===== *)
theory BridgeSamples
  imports Deployer OutlayerApp PoaLaws Evaluation
begin

text \<open>A deployment by the global deployer and a deposit through the bridge, on which their theorems are applied.\<close>

subsection \<open>Global deployer\<close>

definition sample_sha :: "byte list \<Rightarrow> byte list" where
  "sample_sha code = take 31 (code @ replicate 31 0) @ [1]"

definition sample_gd_env :: "account_id \<Rightarrow> nat \<Rightarrow> gd_env" where
  "sample_gd_env a d = \<lparr> ge_current = ''d'', ge_predecessor = a, ge_attached_deposit = d, ge_account_balance = 1000, ge_refund_to = ''o'',
     ge_sha256 = sample_sha \<rparr>"

definition sample_receipt :: gd_receipt where
  "sample_receipt = \<lparr> gr_refund_to = ''o'', gr_transfer = 100, gr_code = [1, 2], gr_min_gas = GD_POST_DEPLOY_MIN_GAS, gr_gas_weight = 1,
     gr_code_hash = sample_sha [1, 2], gr_initial_balance = 900, gr_deploy_deposit = 100 \<rparr>"

lemma sample_deployment:
  "gd_reach sample_sha ''d'' (gd_owner ''o'') \<lparr> gw_state = \<lparr> gd_owner_id = ''o'', gd_code_hash = sample_sha [1, 2], gd_approved_hash = DEFAULT_HASH \<rparr>,
     gw_code = Some [1, 2], gw_receipts = [], gw_log = [GdApprove (sample_sha [1, 2]) (ByOwner ''o''), GdDeploy (sample_sha [1, 2]),
       GdApprove DEFAULT_HASH (ByDeploy (sample_sha [1, 2]))] \<rparr>"
proof -
  have approve: "gd_do (sample_gd_env ''o'' 1) (CallApprove DEFAULT_HASH (sample_sha [1, 2])) (gd_owner ''o'') =
      Inr \<lparr> gu_state = (gd_owner ''o'')\<lparr>gd_approved_hash := sample_sha [1, 2]\<rparr>, gu_events = [GdApprove (sample_sha [1, 2]) (ByOwner ''o'')],
        gu_receipts = [], gu_refunds = [] \<rparr>"
    by (simp add: gd_approve_def gd_approve_hash_def sample_gd_env_def gd_owner_def)
  have deploy: "gd_do (sample_gd_env ''anybody'' 100) (CallDeploy [1, 2]) ((gd_owner ''o'')\<lparr>gd_approved_hash := sample_sha [1, 2]\<rparr>) =
      Inr \<lparr> gu_state = (gd_owner ''o'')\<lparr>gd_approved_hash := sample_sha [1, 2]\<rparr>, gu_events = [], gu_receipts = [sample_receipt], gu_refunds = [] \<rparr>"
    by (simp add: gd_deploy_def Let_def sample_gd_env_def sample_receipt_def)
  have post: "gd_post_deploy (sample_gd_env ''d'' 0) (gr_code_hash sample_receipt) (gr_initial_balance sample_receipt) (gr_deploy_deposit sample_receipt)
      ((gd_owner ''o'')\<lparr>gd_approved_hash := sample_sha [1, 2]\<rparr>) =
      Inr \<lparr> gu_state = \<lparr> gd_owner_id = ''o'', gd_code_hash = sample_sha [1, 2], gd_approved_hash = DEFAULT_HASH \<rparr>,
        gu_events = [GdDeploy (sample_sha [1, 2]), GdApprove DEFAULT_HASH (ByDeploy (sample_sha [1, 2]))], gu_receipts = [],
        gu_refunds = [(''o'', 100)] \<rparr>"
    by (simp add: gd_post_deploy_def gd_approve_hash_def Let_def sample_gd_env_def sample_receipt_def gd_owner_def)
  let ?w0 = "\<lparr> gw_state = gd_owner ''o'', gw_code = None, gw_receipts = [], gw_log = [] \<rparr>"
  have "gd_reach sample_sha ''d'' (gd_owner ''o'') ?w0" by (rule gd_reach.start)
  from gd_reach.call [OF this, of "sample_gd_env ''o'' 1" "CallApprove DEFAULT_HASH (sample_sha [1, 2])"] approve
  have w1: "gd_reach sample_sha ''d'' (gd_owner ''o'') \<lparr> gw_state = (gd_owner ''o'')\<lparr>gd_approved_hash := sample_sha [1, 2]\<rparr>, gw_code = None,
      gw_receipts = [], gw_log = [GdApprove (sample_sha [1, 2]) (ByOwner ''o'')] \<rparr>" by (simp add: sample_gd_env_def)
  from gd_reach.call [OF w1, of "sample_gd_env ''anybody'' 100" "CallDeploy [1, 2]"] deploy
  have w2: "gd_reach sample_sha ''d'' (gd_owner ''o'') \<lparr> gw_state = (gd_owner ''o'')\<lparr>gd_approved_hash := sample_sha [1, 2]\<rparr>, gw_code = None,
      gw_receipts = [sample_receipt], gw_log = [GdApprove (sample_sha [1, 2]) (ByOwner ''o'')] \<rparr>" by (simp add: sample_gd_env_def)
  from gd_reach.deployed [OF w2, of "[]" sample_receipt "[]" "sample_gd_env ''d'' 0"] post show ?thesis
    by (simp add: sample_gd_env_def sample_receipt_def)
qed

lemma sample_sha_ok: "\<forall>c. sample_sha c \<noteq> DEFAULT_HASH"
proof
  fix c :: "byte list"
  have "last (sample_sha c) = 1" "last DEFAULT_HASH = 0" by (simp_all add: sample_sha_def DEFAULT_HASH_def)
  then show "sample_sha c \<noteq> DEFAULT_HASH" by auto
qed

theorem only_approved_code_witness:
  "gd_history (gd_owner ''o'') [GdApprove (sample_sha [1, 2]) (ByOwner ''o''), GdDeploy (sample_sha [1, 2]),
     GdApprove DEFAULT_HASH (ByDeploy (sample_sha [1, 2]))]"
  using only_approved_code [OF sample_sha_ok sample_deployment] by simp

subsection \<open>Bridge\<close>

text \<open>A fungible token whose state is a list of coins; a transfer moves one of them.\<close>

type_synonym coins = "(account_id \<times> nat) list"

definition coin_lib :: "coins ft_lib" where
  "coin_lib = \<lparr> fl_new = [], fl_spec = ''ft-1.0.0'', fl_metadata_valid = (\<lambda>m. md_spec m = ''ft-1.0.0''), fl_storage_deposit = (\<lambda>_ _ _ s. Some s),
     fl_storage_withdraw = (\<lambda>_ _ s. Some s), fl_storage_unregister = (\<lambda>E _ s. Some (filter (\<lambda>c. fst c \<noteq> pv_predecessor E) s)),
     fl_internal_deposit = (\<lambda>a n s. Some (s @ [(a, n)])),
     fl_internal_withdraw = (\<lambda>a n s. if (a, n) \<in> set s then Some (remove1 (a, n) s) else None),
     fl_ft_transfer = (\<lambda>E b n _ s. if (pv_predecessor E, n) \<in> set s then Some (remove1 (pv_predecessor E, n) s @ [(b, n)]) else None),
     fl_ft_transfer_call = (\<lambda>E b n _ _ s. if (pv_predecessor E, n) \<in> set s then Some (remove1 (pv_predecessor E, n) s @ [(b, n)]) else None),
     fl_ft_resolve_transfer = (\<lambda>E a b n s. Some s),
     fl_total_supply = (\<lambda>s. sum_list (map snd s)), fl_balance_of = (\<lambda>s a. sum_list (map snd (filter (\<lambda>c. fst c = a) s))) \<rparr>"

lemma coin_lib_ok: "ft_ok coin_lib"
proof -
  have move: "sum_list (map snd (remove1 (a, n) s)) + n = sum_list (map snd s)" if "(a, n) \<in> set s" for a and n :: nat and s :: coins
    using sum_list_map_remove1 [OF that, of snd] by simp
  have "sum_list (map snd (filter P s)) \<le> sum_list (map snd s)" for P and s :: coins
    by (induction s) auto
  then show ?thesis unfolding ft_ok_def by (auto simp: coin_lib_def dest: move)
qed

definition bridge_env :: "account_id \<Rightarrow> account_id \<Rightarrow> nat \<Rightarrow> poa_env" where
  "bridge_env current predecessor deposit = \<lparr> pv_current = current, pv_predecessor = predecessor, pv_attached_deposit = deposit,
     pv_prepaid_gas = tgas 100, pv_used_gas = 0, pv_storage_byte_cost = 10, pv_insert_usage = (\<lambda>_. 50), pv_paused = (\<lambda>_. False), pv_parse = Some \<rparr>"

lemma bridge_calls: "pv_current (bridge_env a b d) = a" "pv_predecessor (bridge_env a b d) = b"
  by (simp_all add: bridge_env_def)

definition sample_factory :: poa_factory where
  "sample_factory = \<lparr> pf_tokens = [], pf_bridge_token_storage_deposit_required = 1250 \<rparr>"

definition deployer_role :: "poa_role \<Rightarrow> bool" where
  "deployer_role r \<longleftrightarrow> r = TokenDeployer"

definition depositer_role :: "poa_role \<Rightarrow> bool" where
  "depositer_role r \<longleftrightarrow> r = TokenDepositer"

abbreviation usd :: account_id where "usd \<equiv> ''usd.f''"

definition usd_token :: "coins \<Rightarrow> coins poa_token" where
  "usd_token s = \<lparr> pt_token = s, pt_metadata = default_metadata coin_lib, pt_owner = Some ''f'' \<rparr>"

definition usd_log :: "(poa_env \<times> (poa_role \<Rightarrow> bool) \<times> factory_call) list" where
  "usd_log = [(bridge_env ''f'' ''admin'' (4 * 10 ^ 24), deployer_role, FDeployToken ''usd'' None),
     (bridge_env ''f'' ''bridge'' 2000, depositer_role, FFtDeposit ''usd'' ''alice'' 100 None None)]"

lemma usd_deploy: "factory_do coin_lib (bridge_env ''f'' ''admin'' (4 * 10 ^ 24)) deployer_role (FDeployToken ''usd'' None) sample_factory =
    Inr (sample_factory\<lparr>pf_tokens := [''usd'']\<rparr>,
      \<lparr> pp_receiver = usd, pp_gas = None, pp_messages = [CreateToken POA_TOKEN_INIT_BALANCE POA_TOKEN_NEW_GAS None] \<rparr>)"
  by (simp add: deploy_token_def poa_defs bridge_env_def deployer_role_def sample_factory_def poa_token_id_def sat_add_u_def sat_mul_u_def
      POA_TOKEN_INIT_BALANCE_def u_max_def)

lemma usd_deposit: "factory_do coin_lib (bridge_env ''f'' ''bridge'' 2000) depositer_role (FFtDeposit ''usd'' ''alice'' 100 None None)
    (sample_factory\<lparr>pf_tokens := [''usd'']\<rparr>) = Inr (sample_factory\<lparr>pf_tokens := [''usd'']\<rparr>,
      \<lparr> pp_receiver = usd, pp_gas = Some POA_TOKEN_FT_DEPOSIT_GAS, pp_messages = [CallToken 2000 (TFtDeposit ''alice'' 100 None)] \<rparr>)"
  by (simp add: factory_ft_deposit_def poa_defs bridge_env_def depositer_role_def sample_factory_def poa_token_id_def)

lemma usd_messages:
  "deliver coin_lib False (bridge_env usd ''f'' 0) (CreateToken POA_TOKEN_INIT_BALANCE POA_TOKEN_NEW_GAS None) None = Some (usd_token [])"
  "deliver coin_lib False (bridge_env usd ''f'' 2000) (CallToken 2000 (TFtDeposit ''alice'' 100 None)) (Some (usd_token [])) =
     Some (usd_token [(''alice'', 100)])"
  by (simp_all add: poa_token_new_def token_ft_deposit_def poa_defs bridge_env_def usd_token_def default_metadata_def coin_lib_def)

lemma usd_world:
  "\<exists>w. poa_reach coin_lib False ''f'' sample_factory w \<and> pw_tokens w usd = Some (usd_token [(''alice'', 100)]) \<and> pw_log w = usd_log"
proof -
  let ?f = "sample_factory\<lparr>pf_tokens := [''usd'']\<rparr>"
  let ?p = "\<lambda>ms. \<lparr> pp_receiver = usd, pp_gas = None, pp_messages = ms \<rparr>"
  let ?q = "\<lambda>ms. \<lparr> pp_receiver = usd, pp_gas = Some POA_TOKEN_FT_DEPOSIT_GAS, pp_messages = ms \<rparr>"
  have "poa_reach coin_lib False ''f'' sample_factory \<lparr> pw_factory = sample_factory, pw_tokens = (\<lambda>_. None), pw_promises = [], pw_log = [] \<rparr>"
    by (rule poa_reach.start)
  from poa_reach.factory [OF this, of "bridge_env ''f'' ''admin'' (4 * 10 ^ 24)" deployer_role "FDeployToken ''usd'' None"] usd_deploy
  have w1: "poa_reach coin_lib False ''f'' sample_factory \<lparr> pw_factory = ?f, pw_tokens = (\<lambda>_. None),
      pw_promises = [?p [CreateToken POA_TOKEN_INIT_BALANCE POA_TOKEN_NEW_GAS None]], pw_log = take 1 usd_log \<rparr>"
    by (simp add: bridge_env_def usd_log_def)
  from poa_reach.message [OF w1, of "[]" "?p [CreateToken POA_TOKEN_INIT_BALANCE POA_TOKEN_NEW_GAS None]" "[]"
      "CreateToken POA_TOKEN_INIT_BALANCE POA_TOKEN_NEW_GAS None" "[]" "bridge_env usd ''f'' 0"]
  have w2: "poa_reach coin_lib False ''f'' sample_factory \<lparr> pw_factory = ?f, pw_tokens = (\<lambda>_. None)(usd := Some (usd_token [])),
      pw_promises = [?p []], pw_log = take 1 usd_log \<rparr>"
    by (simp add: bridge_calls usd_messages(1) del: deliver.simps)
  from poa_reach.factory [OF w2, of "bridge_env ''f'' ''bridge'' 2000" depositer_role "FFtDeposit ''usd'' ''alice'' 100 None None"] usd_deposit
  have w3: "poa_reach coin_lib False ''f'' sample_factory \<lparr> pw_factory = ?f, pw_tokens = (\<lambda>_. None)(usd := Some (usd_token [])),
      pw_promises = [?p [], ?q [CallToken 2000 (TFtDeposit ''alice'' 100 None)]], pw_log = usd_log \<rparr>"
    by (simp add: bridge_env_def usd_log_def)
  from poa_reach.message [OF w3, of "[?p []]" "?q [CallToken 2000 (TFtDeposit ''alice'' 100 None)]" "[]"
      "CallToken 2000 (TFtDeposit ''alice'' 100 None)" "[]" "bridge_env usd ''f'' 2000"]
  have "poa_reach coin_lib False ''f'' sample_factory \<lparr> pw_factory = ?f, pw_tokens = (\<lambda>_. None)(usd := Some (usd_token [(''alice'', 100)])),
      pw_promises = [?p [], ?q []], pw_log = usd_log \<rparr>"
    by (simp add: bridge_calls usd_messages(2) del: deliver.simps)
  then show ?thesis by (intro exI conjI) (assumption, simp_all)
qed

theorem bridge_supply_authorized_witness:
  "fl_total_supply coin_lib [(''alice'', 100)] \<le> sum_list (map (allowed_deposit usd) usd_log) \<and> sum_list (map (allowed_deposit usd) usd_log) = 100"
proof -
  obtain w where w: "poa_reach coin_lib False ''f'' sample_factory w" "pw_tokens w usd = Some (usd_token [(''alice'', 100)])" "pw_log w = usd_log"
    using usd_world by blast
  have "sum_list (map (allowed_deposit usd) usd_log) = 100"
    by (simp add: usd_log_def depositer_role_def bridge_env_def poa_token_id_def)
  with bridge_supply_authorized [OF coin_lib_ok w(1,2)] w(3) show ?thesis by (simp add: usd_token_def)
qed

end
