(* ===== verification/StorageVersions.thy ===== *)
theory StorageVersions
  imports ExecuteIntents TokenHandlers
begin

text \<open>
  The stored state of the verifier and its versions (\<open>contract/versioned\<close>, \<open>contract/state/v0.rs\<close>), and the
  upgrade of the code (\<open>contract/upgrade.rs\<close>). The encodings of the collections of the SDK are arguments.
\<close>

record contract_storage =
  cs_accounts :: "(account_id \<times> account lock) list"
  cs_total_supplies :: "token_id amounts"
  cs_wnear_id :: account_id
  cs_fee :: pips
  cs_fee_collector :: account_id
  cs_salts :: salt_registry
  cs_relayer_keys :: "string list"

record contract_storage_v0 =
  s0_accounts :: "(account_id \<times> account lock) list"
  s0_total_supplies :: "token_id amounts"
  s0_wnear_id :: account_id
  s0_fee :: pips
  s0_fee_collector :: account_id
  s0_relayer_keys :: "string list"

text \<open>The contract is its storage with an empty runtime state; logs and promises are those of the call.\<close>

definition storage_of :: "'p contract \<Rightarrow> contract_storage" where
  "storage_of c = \<lparr> cs_accounts = c_accounts c, cs_total_supplies = c_total_supplies c, cs_wnear_id = c_wnear_id c, cs_fee = c_fee c,
     cs_fee_collector = c_fee_collector c, cs_salts = c_salts c, cs_relayer_keys = c_relayer_keys c \<rparr>"

definition load_storage :: "contract_storage \<Rightarrow> 'p contract" where
  "load_storage s = \<lparr> c_accounts = cs_accounts s, c_total_supplies = cs_total_supplies s, c_wnear_id = cs_wnear_id s, c_fee = cs_fee s,
     c_fee_collector = cs_fee_collector s, c_salts = cs_salts s, c_relayer_keys = cs_relayer_keys s, c_postponed_burns = [], c_logs = [], c_promises = [] \<rparr>"

definition migrate_storage_v0 :: "codecs \<Rightarrow> byte list \<Rightarrow> contract_storage_v0 \<Rightarrow> contract_storage" where
  "migrate_storage_v0 C seed v = \<lparr> cs_accounts = s0_accounts v, cs_total_supplies = s0_total_supplies v, cs_wnear_id = s0_wnear_id v, cs_fee = s0_fee v,
     cs_fee_collector = s0_fee_collector v, cs_salts = salts_new C seed, cs_relayer_keys = s0_relayer_keys v \<rparr>"

datatype versioned_contract_storage = StorageV0 contract_storage_v0 | StorageLatest contract_storage

fun storage_from_versioned :: "codecs \<Rightarrow> byte list \<Rightarrow> versioned_contract_storage \<Rightarrow> contract_storage" where
  "storage_from_versioned C seed (StorageV0 v) = migrate_storage_v0 C seed v"
| "storage_from_versioned C seed (StorageLatest s) = s"

definition VERSIONED_MAGIC_PREFIX :: int where
  "VERSIONED_MAGIC_PREFIX = 2 ^ 32 - 1"

definition deserialize_storage ::
  "codecs \<Rightarrow> byte list \<Rightarrow> (byte list \<Rightarrow> versioned_contract_storage option) \<Rightarrow> (byte list \<Rightarrow> contract_storage_v0 option) \<Rightarrow> byte list \<Rightarrow>
     contract_storage option"
where
  "deserialize_storage C seed dv d0 bs =
     (if length bs < 4 then None
      else map_option (storage_from_versioned C seed)
        (if from_le (take 4 bs) = VERSIONED_MAGIC_PREFIX then dv (drop 4 bs) else map_option StorageV0 (d0 bs)))"

definition serialize_storage :: "(versioned_contract_storage \<Rightarrow> byte list) \<Rightarrow> contract_storage \<Rightarrow> byte list" where
  "serialize_storage ev s = le_bytes 4 VERSIONED_MAGIC_PREFIX @ ev (StorageLatest s)"

definition STATE_MIGRATE_DEFAULT_GAS :: gas where
  "STATE_MIGRATE_DEFAULT_GAS = tgas 5"

record upgrade_promise =
  up_account :: account_id
  up_code :: "byte list"
  up_state_migrate_gas :: gas

definition upgrade :: "'p host \<Rightarrow> byte list \<Rightarrow> gas option \<Rightarrow> upgrade_promise result" where
  "upgrade env code state_migration_gas =
     bind_r (require_any_role env [DAO, Upgrader]) (\<lambda>_.
     bind_r (assert_one_yocto env) (\<lambda>_.
     Inr \<lparr> up_account = h_current env, up_code = code,
       up_state_migrate_gas = (case state_migration_gas of None \<Rightarrow> STATE_MIGRATE_DEFAULT_GAS | Some g \<Rightarrow> g) \<rparr>))"

text \<open>The callback in the same receipt loads the state with the new code and stores it again.\<close>

definition state_migrate :: "'p host \<Rightarrow> 'p contract \<Rightarrow> 'p contract result" where
  "state_migrate env c = bind_r (private_call env) (\<lambda>_. Inr c)"

lemma stored_read_back:
  assumes "dv (ev (StorageLatest (storage_of c))) = Some (StorageLatest (storage_of c))"
    and "c_postponed_burns c = []" and "c_logs c = []" and "c_promises c = []"
  shows "map_option load_storage (deserialize_storage C seed dv d0 (serialize_storage ev (storage_of c))) = Some c"
proof -
  have "from_le (le_bytes 4 VERSIONED_MAGIC_PREFIX) = VERSIONED_MAGIC_PREFIX"
    by (simp add: from_le_le_bytes VERSIONED_MAGIC_PREFIX_def)
  moreover have "length (le_bytes 4 VERSIONED_MAGIC_PREFIX) = 4" by simp
  ultimately have "deserialize_storage C seed dv d0 (serialize_storage ev (storage_of c)) = Some (storage_of c)"
    using assms(1) by (simp add: deserialize_storage_def serialize_storage_def)
  then show ?thesis using assms(2-4) by (simp add: load_storage_def storage_of_def)
qed

text \<open>A state of the first version, from before there were salts, which begins with the number of its accounts.\<close>

lemma legacy_migrates:
  assumes "d0 bs = Some v" and "4 \<le> length bs" and "from_le (take 4 bs) \<noteq> VERSIONED_MAGIC_PREFIX"
  obtains s where "deserialize_storage C seed dv d0 bs = Some s" "cs_accounts s = s0_accounts v"
    "cs_total_supplies s = s0_total_supplies v" "cs_relayer_keys s = s0_relayer_keys v" "cs_wnear_id s = s0_wnear_id v"
    "cs_fee s = s0_fee v" "cs_fee_collector s = s0_fee_collector v" "salt_is_valid (cs_salts s) (sr_current (cs_salts s))"
proof
  show "deserialize_storage C seed dv d0 bs = Some (migrate_storage_v0 C seed v)"
    using assms by (simp add: deserialize_storage_def)
qed (simp_all add: migrate_storage_v0_def salts_new_def salt_is_valid_def)

text \<open>The migration of such a state keeps the invariant of the contract and the backing of the supplies.\<close>

lemma migration_keeps_invariant:
  assumes "accounts_ok (h_codecs env) (s0_accounts v)" and "supplies_ok (s0_total_supplies v)"
    and "\<forall>t. amount_for (s0_total_supplies v) t = sum_map (lock_balance t) (s0_accounts v)"
  shows "contract_ok env (load_storage (migrate_storage_v0 (h_codecs env) seed v)) \<and>
    backed (load_storage (migrate_storage_v0 (h_codecs env) seed v))"
  using assms by (simp add: contract_ok_def backed_def held_def load_storage_def migrate_storage_v0_def salts_ok_def salts_new_def)

end
