(* ===== verification/KeyDerivation.thy ===== *)
theory KeyDerivation
  imports SignedMessages NearPromises
begin

text \<open>
  Key derivation (\<open>crates/kdf\<close>) and the signers of the MPC network (\<open>crates/mpc/kdf\<close>, \<open>crates/mpc/signer\<close>).
  A derivation schema is a function of the path. The group of a curve, its secret keys and the
  primitives that sign and verify are the record \<open>arithmetic\<close>; \<open>None\<close> is a panic or an error.
\<close>

subsection \<open>Schemas\<close>

record ('sc, 'pt, 'pk, 'sig) arithmetic =
  ka_add_scalar :: "'sc \<Rightarrow> 'sc \<Rightarrow> 'sc"
  ka_add_point :: "'pt \<Rightarrow> 'pt \<Rightarrow> 'pt"
  ka_mul_by_generator :: "'sc \<Rightarrow> 'pt"
  ka_pk2point :: "'pk \<Rightarrow> 'pt"
  ka_point2pk :: "'pt \<Rightarrow> 'pk option"
  ka_scalar_bytes :: "'sc \<Rightarrow> byte list"
  ka_to_scalar :: "byte list \<Rightarrow> 'sc option"
  ka_is_zero :: "'sc \<Rightarrow> bool"
  ka_verify :: "'pk \<Rightarrow> byte list \<Rightarrow> 'sig \<Rightarrow> bool"

definition derive_with :: "('b \<Rightarrow> 'c) \<Rightarrow> ('a \<Rightarrow> 'b) \<Rightarrow> 'a \<Rightarrow> 'c" where
  "derive_with outer inner path = outer (inner path)"

definition schema_value :: "'a \<Rightarrow> unit \<Rightarrow> 'a" where
  "schema_value p _ = p"

definition schema_digest :: "(byte list \<Rightarrow> byte list) \<Rightarrow> byte list \<Rightarrow> byte list \<Rightarrow> byte list" where
  "schema_digest hash fed path = hash (fed @ path)"

definition additive_derive :: "('sc, 'pt, 'pk, 'sig) arithmetic \<Rightarrow> 'pk \<Rightarrow> 'sc \<Rightarrow> 'pk option" where
  "additive_derive A master_pk tweak = ka_point2pk A (ka_add_point A (ka_pk2point A master_pk) (ka_mul_by_generator A tweak))"

subsection \<open>The paths of the MPC network\<close>

definition derive_from_path :: "(byte list \<Rightarrow> byte list) \<Rightarrow> byte list \<Rightarrow> account_id \<Rightarrow> byte list \<Rightarrow> byte list" where
  "derive_from_path sha3 fed predecessor = schema_digest sha3 (fed @ bytes_of predecessor @ bytes_of '','')"

definition TWEAK_DERIVATION_PREFIX :: string where
  "TWEAK_DERIVATION_PREFIX = ''near-mpc-recovery v0.1.0 epsilon derivation:''"

definition APP_ID_DERIVATION_PREFIX :: string where
  "APP_ID_DERIVATION_PREFIX = ''near-mpc v0.1.0 app_id derivation:''"

definition derive_tweak :: "(byte list \<Rightarrow> byte list) \<Rightarrow> account_id \<Rightarrow> byte list \<Rightarrow> byte list" where
  "derive_tweak sha3 predecessor = derive_from_path sha3 (bytes_of TWEAK_DERIVATION_PREFIX) predecessor"

definition ckd :: "(byte list \<Rightarrow> byte list) \<Rightarrow> account_id \<Rightarrow> byte list \<Rightarrow> byte list" where
  "ckd sha3 predecessor = derive_from_path sha3 (bytes_of APP_ID_DERIVATION_PREFIX) predecessor"

definition mpc_tweak :: "(byte list \<Rightarrow> byte list) \<Rightarrow> ('sc, 'pt, 'pk, 'sig) arithmetic \<Rightarrow> account_id \<Rightarrow> byte list \<Rightarrow> 'sc option" where
  "mpc_tweak sha3 A predecessor = derive_with (ka_to_scalar A) (derive_tweak sha3 predecessor)"

definition mpc_public_key :: "(byte list \<Rightarrow> byte list) \<Rightarrow> ('sc, 'pt, 'pk, 'sig) arithmetic \<Rightarrow> 'pk \<Rightarrow> account_id \<Rightarrow> byte list \<Rightarrow> 'pk option" where
  "mpc_public_key sha3 A master_pk predecessor =
     derive_with (\<lambda>t. Option.bind t (additive_derive A master_pk)) (mpc_tweak sha3 A predecessor)"

text \<open>The bytes a derivation hashes: of the tweak of an account and of the app id of an account.\<close>

definition path_bytes :: "string \<Rightarrow> account_id \<Rightarrow> byte list \<Rightarrow> byte list" where
  "path_bytes kind predecessor path = bytes_of kind @ bytes_of predecessor @ bytes_of '','' @ path"

lemma derive_path_bytes:
  "derive_tweak sha3 a path = sha3 (path_bytes TWEAK_DERIVATION_PREFIX a path)" "ckd sha3 a path = sha3 (path_bytes APP_ID_DERIVATION_PREFIX a path)"
  by (simp_all add: derive_tweak_def ckd_def derive_from_path_def schema_digest_def path_bytes_def)

lemma bytes_of_map: "bytes_of s = map char_byte s"
  by (simp add: bytes_of_def)

lemma split_at_comma:
  "CHR '','' \<notin> set a \<Longrightarrow> CHR '','' \<notin> set b \<Longrightarrow> bytes_of a @ bytes_of '','' @ p = bytes_of b @ bytes_of '','' @ q \<Longrightarrow> a = b \<and> p = q"
proof (induction a arbitrary: b)
  case Nil
  then show ?case by (cases b) (auto simp: bytes_of_map char_byte_inj)
next
  case (Cons c a)
  then show ?case by (cases b) (auto simp: bytes_of_map char_byte_inj)
qed

text \<open>
  Derived keys of different accounts do not mix. The bytes hashed for a path determine the account
  and the path, account ids having no comma, and no bytes are hashed both for a tweak and for an
  app id; so under a hash without collisions different accounts derive from different tweaks.
\<close>

theorem derivation_separates:
  assumes "CHR '','' \<notin> set a" and "CHR '','' \<notin> set b"
  shows "(path_bytes kind a p = path_bytes kind b q \<longrightarrow> a = b \<and> p = q) \<and>
    path_bytes TWEAK_DERIVATION_PREFIX a p \<noteq> path_bytes APP_ID_DERIVATION_PREFIX b q"
  using split_at_comma [OF assms, of p q]
  by (auto simp: path_bytes_def bytes_of_map TWEAK_DERIVATION_PREFIX_def APP_ID_DERIVATION_PREFIX_def char_byte_def)

subsection \<open>Local signers\<close>

text \<open>The key pair of a secret scalar.\<close>

definition key_of :: "('sc, 'pt, 'pk, 'sig) arithmetic \<Rightarrow> 'sc \<Rightarrow> 'pk option" where
  "key_of A sk = ka_point2pk A (ka_mul_by_generator A sk)"

record 'sc expanded_secret_key =
  es_scalar :: 'sc
  es_hash_prefix :: "byte list"

definition HASH_PREFIX_DOMAIN :: string where
  "HASH_PREFIX_DOMAIN = ''ed25519/derive-hash_prefix/v1''"

text \<open>\<open>raw_sign\<close> is the primitive that signs with an expanded key and its verifying key.\<close>

definition derive_sign_expanded ::
  "('sc, 'pt, 'pk, 'sig) arithmetic \<Rightarrow> (byte list \<Rightarrow> byte list) \<Rightarrow> ('sc expanded_secret_key \<Rightarrow> byte list \<Rightarrow> 'pk \<Rightarrow> 'sig) \<Rightarrow>
     'sc expanded_secret_key \<Rightarrow> 'sc \<Rightarrow> byte list \<Rightarrow> 'sig option"
where
  "derive_sign_expanded A sha512 raw_sign esk tweak msg =
     (let derived = \<lparr> es_scalar = ka_add_scalar A (es_scalar esk) tweak,
        es_hash_prefix = take 32 (sha512 (bytes_of HASH_PREFIX_DOMAIN @ es_hash_prefix esk @ ka_scalar_bytes A tweak)) \<rparr> in
      map_option (raw_sign derived msg) (key_of A (es_scalar derived)))"

definition derive_sign_ed25519 ::
  "('sc, 'pt, 'pk, 'sig) arithmetic \<Rightarrow> (byte list \<Rightarrow> byte list) \<Rightarrow> ('sc expanded_secret_key \<Rightarrow> byte list \<Rightarrow> 'pk \<Rightarrow> 'sig) \<Rightarrow>
     (byte list \<Rightarrow> 'sc expanded_secret_key) \<Rightarrow> byte list \<Rightarrow> 'sc \<Rightarrow> byte list \<Rightarrow> 'sig option"
where
  "derive_sign_ed25519 A sha512 raw_sign expand signing_key tweak msg = derive_sign_expanded A sha512 raw_sign (expand signing_key) tweak msg"

definition derive_sign_recoverable ::
  "('sc, 'pt, 'pk, 'sig) arithmetic \<Rightarrow> ('sc \<Rightarrow> byte list \<Rightarrow> 'sig \<times> nat) \<Rightarrow> 'sc \<Rightarrow> 'sc \<Rightarrow> byte list \<Rightarrow> ('sig \<times> nat) option"
where
  "derive_sign_recoverable A sign_prehash sk tweak prehash =
     (if length prehash \<noteq> 32 then None
      else let derived = ka_add_scalar A sk tweak in
        if ka_is_zero A derived then None else Some (sign_prehash derived prehash))"

definition derive_sign_secp256k1 ::
  "('sc, 'pt, 'pk, 'sig) arithmetic \<Rightarrow> ('sc \<Rightarrow> byte list \<Rightarrow> 'sig \<times> nat) \<Rightarrow> 'sc \<Rightarrow> 'sc \<Rightarrow> byte list \<Rightarrow> 'sig option"
where
  "derive_sign_secp256k1 A sign_prehash sk tweak prehash = map_option fst (derive_sign_recoverable A sign_prehash sk tweak prehash)"

text \<open>What is relied on: multiplication of the generator is additive, and keys are points.\<close>

definition group_ok :: "('sc, 'pt, 'pk, 'sig) arithmetic \<Rightarrow> bool" where
  "group_ok A \<longleftrightarrow>
     (\<forall>s t. ka_mul_by_generator A (ka_add_scalar A s t) = ka_add_point A (ka_mul_by_generator A s) (ka_mul_by_generator A t)) \<and>
     (\<forall>x pk. ka_point2pk A x = Some pk \<longrightarrow> ka_pk2point A pk = x)"

lemma derived_key:
  assumes "group_ok A" and "key_of A sk = Some pk"
  shows "key_of A (ka_add_scalar A sk tweak) = additive_derive A pk tweak"
  using assms by (auto simp: group_ok_def key_of_def additive_derive_def)

text \<open>A signature with a derived key verifies under the key that anybody derives from the public one.\<close>

lemma derived_signature_verifies:
  assumes "group_ok A" and "key_of A (es_scalar esk) = Some pk"
    and "\<forall>k msg vk. key_of A (es_scalar k) = Some vk \<longrightarrow> ka_verify A vk msg (raw_sign k msg vk)"
    and "derive_sign_expanded A sha512 raw_sign esk tweak msg = Some sig"
  shows "\<exists>vk. additive_derive A pk tweak = Some vk \<and> ka_verify A vk msg sig"
proof -
  let ?d = "\<lparr> es_scalar = ka_add_scalar A (es_scalar esk) tweak,
    es_hash_prefix = take 32 (sha512 (bytes_of HASH_PREFIX_DOMAIN @ es_hash_prefix esk @ ka_scalar_bytes A tweak)) \<rparr>"
  obtain vk where k: "key_of A (es_scalar ?d) = Some vk" and sig: "sig = raw_sign ?d msg vk"
    using assms(4) by (auto simp: derive_sign_expanded_def Let_def)
  have "ka_verify A vk msg sig"
    using assms(3) k sig by blast
  then show ?thesis
    using k derived_key [OF assms(1,2), of tweak] by auto
qed

subsection \<open>Signers over a schema\<close>

text \<open>The signer that derives its path first, and the signer of one path.\<close>

definition derive_sign_with :: "('b \<Rightarrow> byte list \<Rightarrow> 'r) \<Rightarrow> ('a \<Rightarrow> 'b) \<Rightarrow> 'a \<Rightarrow> byte list \<Rightarrow> 'r" where
  "derive_sign_with derive_sign inner path msg = derive_sign (inner path) msg"

definition sign_at :: "('b \<Rightarrow> byte list \<Rightarrow> 'r) \<Rightarrow> 'b \<Rightarrow> byte list \<Rightarrow> 'r" where
  "sign_at derive_sign path msg = derive_sign_with derive_sign (schema_value path) () msg"

definition public_key_at :: "('b \<Rightarrow> 'pk) \<Rightarrow> 'b \<Rightarrow> 'pk" where
  "public_key_at schema path = derive_with schema (schema_value path) ()"

text \<open>What a signer promises: its signatures verify under the key its schema derives.\<close>

locale deriving_signer =
  fixes derive_public_key :: "'p \<Rightarrow> 'pk option"
    and derive_sign :: "'p \<Rightarrow> byte list \<Rightarrow> 'e + 'sig"
    and verifies :: "'pk \<Rightarrow> byte list \<Rightarrow> 'sig \<Rightarrow> bool"
  assumes signed_verifies: "derive_sign path msg = Inr sig \<Longrightarrow> \<exists>pk. derive_public_key path = Some pk \<and> verifies pk msg sig"
begin

lemma derived_with_verifies:
  "derive_sign_with derive_sign inner path msg = Inr sig \<Longrightarrow> \<exists>pk. derive_with derive_public_key inner path = Some pk \<and> verifies pk msg sig"
  using signed_verifies by (simp add: derive_sign_with_def derive_with_def)

lemma at_verifies:
  "sign_at derive_sign path msg = Inr sig \<Longrightarrow> \<exists>pk. public_key_at derive_public_key path = Some pk \<and> verifies pk msg sig"
  using derived_with_verifies [of "schema_value path" "()"] by (simp add: sign_at_def public_key_at_def)

end

subsection \<open>The MPC contract as a signer\<close>

datatype mpc_public_key_response = PkSecp256k1 "byte list" | PkEd25519 "byte list"

datatype mpc_payload = Ecdsa "byte list" | Eddsa "byte list"

datatype sign_response = RespSecp256k1 "byte list" "byte list" byte | RespEd25519 "byte list"

text \<open>\<open>DerivationPanic\<close> is the panic of a derivation, where its tweak or its key is not one of the curve.\<close>

datatype mpc_error = InvalidDomain nat | InvalidSignPayload | NearError | SenderError | SignatureNotFound | DerivationPanic

text \<open>What a curve brings: its keys and payloads, and how a response becomes a signature.\<close>

record ('pk, 'sig) on_chain_curve =
  oc_extract_public_key :: "mpc_public_key_response \<Rightarrow> 'pk option"
  oc_msg_to_payload :: "byte list \<Rightarrow> mpc_payload option"
  oc_extract_signature :: "sign_response \<Rightarrow> 'sig option"
  oc_verify :: "'pk \<Rightarrow> byte list \<Rightarrow> 'sig \<Rightarrow> bool"

fun ed25519_extract_public_key :: "curves \<Rightarrow> mpc_public_key_response \<Rightarrow> byte list option" where
  "ed25519_extract_public_key K (PkEd25519 pk) = (if ed25519_is_key K pk then Some pk else None)"
| "ed25519_extract_public_key K _ = None"

definition ed25519_msg_to_payload :: "byte list \<Rightarrow> mpc_payload option" where
  "ed25519_msg_to_payload msg = Some (Eddsa msg)"

fun ed25519_extract_signature :: "sign_response \<Rightarrow> byte list option" where
  "ed25519_extract_signature (RespEd25519 sig) = Some sig"
| "ed25519_extract_signature _ = None"

definition ed25519_on_chain :: "curves \<Rightarrow> (byte list, byte list) on_chain_curve" where
  "ed25519_on_chain K = \<lparr> oc_extract_public_key = ed25519_extract_public_key K, oc_msg_to_payload = ed25519_msg_to_payload,
     oc_extract_signature = ed25519_extract_signature, oc_verify = ed25519_verify K \<rparr>"

fun secp256k1_extract_public_key :: "curves \<Rightarrow> mpc_public_key_response \<Rightarrow> byte list option" where
  "secp256k1_extract_public_key K (PkSecp256k1 pk) = (if secp256k1_is_key K pk then Some pk else None)"
| "secp256k1_extract_public_key K _ = None"

definition secp256k1_msg_to_payload :: "byte list \<Rightarrow> mpc_payload option" where
  "secp256k1_msg_to_payload prehash = (if length prehash = 32 then Some (Ecdsa prehash) else None)"

fun parse_recoverable_signature :: "curves \<Rightarrow> sign_response \<Rightarrow> (byte list \<times> nat) option" where
  "parse_recoverable_signature K (RespSecp256k1 affine_point scalar recovery_id) = recoverable_parts K (tl affine_point @ scalar @ [recovery_id])"
| "parse_recoverable_signature K _ = None"

definition secp256k1_extract_signature :: "curves \<Rightarrow> sign_response \<Rightarrow> byte list option" where
  "secp256k1_extract_signature K r = map_option fst (parse_recoverable_signature K r)"

definition secp256k1_on_chain :: "curves \<Rightarrow> (byte list, byte list) on_chain_curve" where
  "secp256k1_on_chain K = \<lparr> oc_extract_public_key = secp256k1_extract_public_key K, oc_msg_to_payload = secp256k1_msg_to_payload,
     oc_extract_signature = secp256k1_extract_signature K, oc_verify = secp256k1_verify K \<rparr>"

text \<open>
  The signer: \<open>mn_send\<close> sends a call and waits, for the outcomes of the receipts (who executed it and
  the response in its result, where it has one); \<open>mn_public_key\<close> asks the contract for its key.
\<close>

record mpc_request =
  mq_path :: string
  mq_payload :: mpc_payload
  mq_domain_id :: nat

record mpc_network =
  mn_send :: "account_id \<Rightarrow> function_call \<Rightarrow> mpc_error + (account_id \<times> sign_response option) list"
  mn_public_key :: "account_id \<Rightarrow> nat \<Rightarrow> mpc_error + mpc_public_key_response"
  mn_args_json :: "mpc_request \<Rightarrow> byte list"
  mn_sha3 :: "byte list \<Rightarrow> byte list"

record 'pk mpc_signer =
  ms_predecessor_id :: account_id
  ms_contract_id :: account_id
  ms_public_key :: 'pk
  ms_domain_id :: nat

definition from_domain_id :: "mpc_network \<Rightarrow> ('pk, 'sig) on_chain_curve \<Rightarrow> account_id \<Rightarrow> account_id \<Rightarrow> nat \<Rightarrow> mpc_error + 'pk mpc_signer" where
  "from_domain_id N C sender mpc_contract_id domain_id =
     bind_r (mn_public_key N mpc_contract_id domain_id) (\<lambda>r.
     bind_r (ok_or (oc_extract_public_key C r) (InvalidDomain domain_id)) (\<lambda>pk.
     Inr \<lparr> ms_predecessor_id = sender, ms_contract_id = mpc_contract_id, ms_public_key = pk, ms_domain_id = domain_id \<rparr>))"

definition mpc_schema :: "mpc_network \<Rightarrow> ('sc, 'pt, 'pk, 'sig) arithmetic \<Rightarrow> 'pk mpc_signer \<Rightarrow> string \<Rightarrow> 'pk option" where
  "mpc_schema N A S path = mpc_public_key (mn_sha3 N) A (ms_public_key S) (ms_predecessor_id S) (bytes_of path)"

definition MPC_SIGN_GAS :: gas where
  "MPC_SIGN_GAS = tgas 15"

definition send_sign_request ::
  "mpc_network \<Rightarrow> 'pk mpc_signer \<Rightarrow> string \<Rightarrow> mpc_payload \<Rightarrow> mpc_error + (account_id \<times> sign_response option) list"
where
  "send_sign_request N S path payload =
     mn_send N (ms_contract_id S) (fc_with_args (mn_args_json N \<lparr> mq_path = path, mq_payload = payload, mq_domain_id = ms_domain_id S \<rparr>)
       (fc_with_gas MPC_SIGN_GAS (fc_attach_deposit 1 (fc_name ''sign''))))"

fun find_map :: "('a \<Rightarrow> 'b option) \<Rightarrow> 'a list \<Rightarrow> 'b option" where
  "find_map f [] = None"
| "find_map f (x # xs) = (case f x of None \<Rightarrow> find_map f xs | Some y \<Rightarrow> Some y)"

text \<open>\<open>extract\<close> skips a response (\<open>None\<close>), panics (\<open>Inl\<close>) or takes it.\<close>

definition sign_extract ::
  "mpc_network \<Rightarrow> 'pk mpc_signer \<Rightarrow> string \<Rightarrow> mpc_payload \<Rightarrow> (sign_response \<Rightarrow> (mpc_error + 'r) option) \<Rightarrow> mpc_error + 'r"
where
  "sign_extract N S path payload extract =
     bind_r (send_sign_request N S path payload) (\<lambda>outcomes.
     bind_r (ok_or (find_map (\<lambda>r. Option.bind r extract) (map snd (filter (\<lambda>c. fst c = ms_contract_id S) outcomes))) SignatureNotFound) (\<lambda>r. r))"

definition mpc_derive_sign ::
  "mpc_network \<Rightarrow> ('sc, 'pt, 'pk, 'sig) arithmetic \<Rightarrow> ('pk, 'sig) on_chain_curve \<Rightarrow> 'pk mpc_signer \<Rightarrow> string \<Rightarrow> byte list \<Rightarrow> mpc_error + 'sig"
where
  "mpc_derive_sign N A C S path msg =
     bind_r (ok_or (oc_msg_to_payload C msg) InvalidSignPayload) (\<lambda>payload.
     sign_extract N S path payload (\<lambda>r.
       Option.bind (oc_extract_signature C r) (\<lambda>sig.
       case mpc_schema N A S path of
         None \<Rightarrow> Some (Inl DerivationPanic)
       | Some pk \<Rightarrow> if oc_verify C pk msg sig then Some (Inr sig) else None)))"

definition mpc_derive_sign_recoverable ::
  "mpc_network \<Rightarrow> ('sc, 'pt, byte list, 'sig) arithmetic \<Rightarrow> curves \<Rightarrow> byte list mpc_signer \<Rightarrow> string \<Rightarrow> byte list \<Rightarrow> mpc_error + (byte list \<times> nat)"
where
  "mpc_derive_sign_recoverable N A K S path msg =
     bind_r (ok_or (secp256k1_msg_to_payload msg) InvalidSignPayload) (\<lambda>payload.
     sign_extract N S path payload (\<lambda>r.
       Option.bind (parse_recoverable_signature K r) (\<lambda>(sig, i).
       Option.bind (secp256k1_recover K msg sig i) (\<lambda>recovered.
       case mpc_schema N A S path of
         None \<Rightarrow> Some (Inl DerivationPanic)
       | Some pk \<Rightarrow> if recovered \<noteq> pk then None else Some (Inr (sig, i))))))"

lemma find_map_Some: "find_map f xs = Some y \<Longrightarrow> \<exists>x \<in> set xs. f x = Some y"
  by (induction xs) (auto split: option.splits)

lemma sign_extract_Inr:
  assumes "sign_extract N S path payload extract = Inr x"
  obtains outcomes r where "send_sign_request N S path payload = Inr outcomes" "(ms_contract_id S, Some r) \<in> set outcomes" "extract r = Some (Inr x)"
proof -
  from assms obtain outcomes where sent: "send_sign_request N S path payload = Inr outcomes"
    and found: "find_map (\<lambda>r. Option.bind r extract) (map snd (filter (\<lambda>c. fst c = ms_contract_id S) outcomes)) = Some (Inr x)"
    by (auto simp: sign_extract_def result_simps)
  from find_map_Some [OF found] obtain r where "(ms_contract_id S, Some r) \<in> set outcomes" "extract r = Some (Inr x)"
    by (auto simp: bind_eq_Some_conv)
  with sent that show thesis by blast
qed

text \<open>Whatever the network answers, a signature that is returned is one of the derived key over this message.\<close>

lemma mpc_signature_valid:
  assumes "mpc_derive_sign N A C S path msg = Inr sig"
  shows "\<exists>pk. mpc_schema N A S path = Some pk \<and> oc_verify C pk msg sig"
proof -
  from assms obtain payload where
    "sign_extract N S path payload (\<lambda>r. Option.bind (oc_extract_signature C r) (\<lambda>sig. case mpc_schema N A S path of
       None \<Rightarrow> Some (Inl DerivationPanic) | Some pk \<Rightarrow> if oc_verify C pk msg sig then Some (Inr sig) else None)) = Inr sig"
    by (auto simp: mpc_derive_sign_def result_simps)
  then show ?thesis
    by (elim sign_extract_Inr) (auto simp: bind_eq_Some_conv split: option.splits if_splits)
qed

lemma mpc_recoverable_valid:
  assumes "mpc_derive_sign_recoverable N A K S path msg = Inr (sig, i)"
  shows "\<exists>pk. mpc_schema N A S path = Some pk \<and> secp256k1_recover K msg sig i = Some pk"
proof -
  from assms obtain payload where
    "sign_extract N S path payload (\<lambda>r. Option.bind (parse_recoverable_signature K r) (\<lambda>(sig, i).
       Option.bind (secp256k1_recover K msg sig i) (\<lambda>recovered. case mpc_schema N A S path of
         None \<Rightarrow> Some (Inl DerivationPanic) | Some pk \<Rightarrow> if recovered \<noteq> pk then None else Some (Inr (sig, i))))) = Inr (sig, i)"
    by (auto simp: mpc_derive_sign_recoverable_def result_simps)
  then show ?thesis
    by (elim sign_extract_Inr) (auto simp: bind_eq_Some_conv split: option.splits if_splits)
qed

interpretation mpc: deriving_signer "mpc_schema N A S" "mpc_derive_sign N A C S" "oc_verify C" for N A S C
  by unfold_locales (rule mpc_signature_valid)

interpretation recoverable: deriving_signer "mpc_schema N A S" "mpc_derive_sign_recoverable N A K S"
  "\<lambda>pk msg (sig, i). secp256k1_recover K msg sig i = Some pk" for N A S K
  by unfold_locales (auto dest: mpc_recoverable_valid)

text \<open>With the text of a path fixed, the MPC signer is a signer of one key, the one anybody derives.\<close>

lemma mpc_signs_for_path:
  "sign_at (mpc_derive_sign N A C S) path msg = Inr sig \<Longrightarrow>
     \<exists>pk. mpc_public_key (mn_sha3 N) A (ms_public_key S) (ms_predecessor_id S) (bytes_of path) = Some pk \<and> oc_verify C pk msg sig"
  by (drule mpc.at_verifies) (simp add: public_key_at_def derive_with_def schema_value_def mpc_schema_def)

end
