(* ===== verification/Spec2Isabelle.thy ===== *)
theory Spec2Isabelle
  imports SimulationSamples EscrowSamples ResolverSamples PayloadSamples BridgeSamples StorageVersions KeyDerivation
begin

text \<open>
  A verification of the contracts of NEAR Intents: the intents verifier (\<open>contracts/defuse\<close>), the
  escrow swap (\<open>contracts/escrow-swap\<close>), the wallet contract with its client and the off-chain
  resolver of authorizations (\<open>contracts/wallet\<close>, \<open>crates/wallet\<close>, \<open>crates/signatures\<close>), the tokens
  of the proof of authority bridge (\<open>contracts/poa\<close>), the smaller contracts (\<open>contracts/global-deployer\<close>,
  \<open>contracts/outlayer/app\<close>, \<open>contracts/treasury-logger\<close>), and the library crates their logic rests on.

  \<^bold>\<open>The program.\<close> Users deposit tokens into the verifier and sign intents: transfers, token diffs,
  withdrawals, key management, calls to other contracts, minting and burning. Anybody may submit a
  batch of signed intents. The engine (\<open>core/src/engine\<close>) verifies each payload, executes its intents
  on the state and, at the end, matches the deltas of all accounts into transfers; a batch whose
  deltas do not sum to zero for every token is rejected. The contract (\<open>src/contract\<close>) is the
  engine's state; it also has methods for transfers, deposits, withdrawals, their callbacks,
  administration, and a simulation of batches over a cached view of itself. The escrow holds tokens
  of a maker, sells them to takers at the maker's price or better, and returns the rest. A wallet
  executes requests signed by its key or sent by one of its extensions, which may be wallets again;
  its client derives the account from the initial state and signs, and the resolver decides,
  concurrently over a tree of sub-authorizations, whether an account authorized a payload. The bridge
  mints tokens that stand for assets of other chains: a factory creates one contract per token and
  forwards deposits to it, and holders burn tokens to withdraw. The deployer publishes code that its
  owner has approved, on anybody's call.

  \<^bold>\<open>The model.\<close> Each theory models the files named in its opening text.
  \<^item> Foundations: \<open>Prelude\<close> (results, loops with early return, association lists), \<open>NumUtils\<close>
    (checked machine arithmetic), \<open>Fees\<close>, \<open>Decimal\<close>, \<open>TokenId\<close>, \<open>Amounts\<close> (maps of amounts that drop
    zero entries), \<open>Bitmap\<close> (sparse bitmaps), \<open>MtEvents\<close> (token events and the check that a refund
    fits the log), \<open>NearUtils\<close> (length bounds of promise results), \<open>NearPromises\<close> (promises with their
    actions, deposits and gas), \<open>Timestamps\<close>, \<open>Borsh\<close> (encoders, and the locale \<open>uniquely_readable\<close> of
    encodings that determine their value), \<open>CoreTypes\<close>, \<open>Keys\<close> (curves and the text of keys).
  \<^item> Engine: \<open>TransferMatcher\<close> and \<open>Matching\<close> (deltas and their matching), \<open>Nonces\<close>, \<open>Intents\<close>,
    \<open>TokenDiffs\<close>, \<open>Engine\<close>. The traits \<open>StateView\<close>, \<open>State\<close> and \<open>Inspector\<close> are records of
    operations, so the engine is one set of definitions over any state. \<open>SignedMessages\<close> has the bytes
    and the verification of each signing standard, \<open>Payloads\<close> the seven signed payload formats and,
    with them, a concrete environment of the engine.
  \<^item> Verifier contract: \<open>Lock\<close>, \<open>Accounts\<close>, \<open>SaltRegistry\<close>, \<open>ContractState\<close> (the state as a record,
    deposit and withdraw), \<open>ContractOps\<close> (the contract as the engine's state, with the promises it
    schedules), \<open>ExecuteIntents\<close>, \<open>TokenHandlers\<close>, \<open>TokenGateway\<close>, \<open>AdminHandlers\<close> (one definition per
    method), \<open>Calls\<close> (all methods as one state machine); \<open>Cached\<close> and \<open>SimulateIntents\<close> (the cached state
    and the simulation); \<open>StorageVersions\<close> (the stored state, its versions and the upgrade of the code).
  \<^item> Proofs over it: \<open>EngineLaws\<close> (the locales \<open>engine_frame\<close> and \<open>ledger\<close>: what the engine
    guarantees over any state that keeps a relation, or that is a ledger), \<open>ContractLaws\<close> (their
    interpretations by the contract), \<open>EngineSimulation\<close> (two states whose operations follow each
    other), \<open>CachedSimulation\<close> (the cache follows the contract, whose credits are guarded), \<open>TokenLaws\<close>, \<open>CallLaws\<close>,
    \<open>Reachability\<close>.
  \<^item> Escrow: \<open>Escrow\<close> (parameters and state), \<open>EscrowMethods\<close> (every method with its events and
    promises), \<open>EscrowLaws\<close>, \<open>EscrowRuns\<close> (sequences of calls and callbacks).
  \<^item> Wallet: \<open>WalletNonces\<close>, \<open>WalletMessages\<close> (requests, messages, authorizations and their bytes),
    \<open>Wallet\<close> (the contract), \<open>WalletSchemas\<close> (Ed25519, passkeys, no signatures), \<open>AuthResolver\<close> (access
    keys and the resolver as a step relation), \<open>WalletSdk\<close> (the client); with \<open>WalletLaws\<close>, \<open>WalletRuns\<close>
    (the life of a wallet), \<open>ResolverLaws\<close> (the recursive specification of the resolver), \<open>SpeaksFor\<close>
    (the resolver over a world of wallets and other contracts) and \<open>SdkLaws\<close> (client, wallet and resolver together).
  \<^item> Keys: \<open>KeyDerivation\<close> (keys derived per account and path, and the signers that use them, with the
    locale \<open>deriving_signer\<close> of what such a signer promises, which the MPC signer meets).
  \<^item> Other contracts: \<open>Ownership\<close> (the locale \<open>administered\<close> of contracts with an administrator), \<open>Deployer\<close>
    and \<open>OutlayerApp\<close> (its instances, and the treasury logger), \<open>Poa\<close> (token and factory of the bridge) and
    \<open>PoaLaws\<close> (the bridge with its promises in flight).
  \<^item> Examples: \<open>Evaluation\<close>, \<open>Samples\<close>, \<open>SimulationSamples\<close>, \<open>EscrowSamples\<close>, \<open>WalletSamples\<close>,
    \<open>ResolverSamples\<close>, \<open>PayloadSamples\<close> and \<open>BridgeSamples\<close> apply the theorems to concrete deployments.

  An error carries no state: the host reverts a failed call. Maps are association lists whose
  order stands for the iteration order, so theorems hold for every order. Amounts are naturals
  with the bound of \<open>u128\<close> checked where the code checks it; flags, nonces and bytes are words; time
  stamps are integers of nanoseconds.

  \<^bold>\<open>What is shown.\<close> For the engine over the contract: tokens are conserved, only unlocked signers
  lose anything, every executed intent was authorized, and signed as its standard demands, and no
  nonce is used twice. For sequences of calls by anybody: the invariant and the backing of every supply
  hold in every reachable state, a non-fungible token has one owner, and each signed intent is
  executed at most once although used nonces are garbage collected. The simulation succeeds
  wherever the execution does, as long as no credit comes close to the range of balances, and is more
  permissive: it lets a balance be spent twice. For single methods: exact effects of transfers and
  resolutions, and that the resolutions of transfers and deposits never abort. For the escrow: every
  fill and every sequence of calls accounts for all tokens at the maker's price and pays exactly those
  it should, callbacks do not abort, and closing returns what is left to the maker. For the wallet: no request is executed twice over its
  life, it acts only for its key and its extensions, it is never locked out (except without a
  schema that signs), its address and the signed bytes determine its state and its messages, and what
  the client signs is executed. For the resolver: it terminates within its limits, decides as a
  recursive specification whatever the schedule, accepts what the client signs, and only payloads
  of those who speak for the account. For the bridge: the supply of every token is at most what
  depositers asked for, in whatever order calls and promises arrive. For the deployer: each
  deployment uses up an approval of its hash, by the owner or in the initial state, checked again after the deployment. For
  derived keys: the bytes hashed separate accounts, paths and purposes, and a signature that the MPC
  network answers is returned only if it verifies under the key of this account and path. For
  the stored state: it reads back, and a state of the first version is migrated with its invariant.
  For components: the matcher's correctness and completeness,
  closures of token diffs, bounds of fees, normal forms of decimals, round trips of token ids, nonces,
  keys and stored accounts, permanence of invalidated salts.

  \<^bold>\<open>Parameters.\<close> Code outside the repository is an argument: the hosts (\<open>host\<close>, \<open>escrow_host\<close>,
  \<open>wallet_env\<close>: caller, clock, random seed, roles, pauses, promise results), the node the resolver asks
  (\<open>rpc_client\<close>), the primitives of the curves (\<open>curves\<close>), hashes and hexadecimal codecs (\<open>codecs\<close>),
  the groups of the curves (\<open>arithmetic\<close>), the MPC network (\<open>mpc_network\<close>), the fungible token of the
  contract standards (\<open>ft_lib\<close>), the hosts of the smaller contracts (\<open>gd_env\<close>, \<open>oa_env\<close>, \<open>poa_env\<close>),
  base 58 (\<open>base58\<close>), the library of TON cells (\<open>cell_lib\<close>), JSON (\<open>payload_env\<close>, \<open>sim_env\<close>), the range of time stamps (\<open>ts_range\<close>),
  the wide integers (\<open>wide\<close>) and the length of serialized events. In \<open>Engine\<close> the verification of
  payloads is the argument \<open>engine_env\<close>, which \<open>Payloads\<close> fills. What a theorem needs of them is a named
  hypothesis, and the examples instantiate them. All definitions are total functions; the loops
  without a structural measure have termination proofs, the resolver's loop is a step relation with
  a bound on its steps, and no fuel is used.

  \<^bold>\<open>Not modelled.\<close> The cryptographic primitives and JSON (external crates), the confidential key
  derivation of \<open>crates/mpc/ckd\<close> (the pairing of an external crate), storage prefixes, logs beyond their
  order within one kind, gas accounting beyond the static limits the code computes, the methods that
  the plugins add to contracts (granting roles, pausing, passing on the ownership of a token), the
  network calls of the wallet client and its relayer, and adapters of serialization crates.
\<close>

end
